(* ===== verification/Prelude.thy ===== *)
theory Prelude
  imports Main "HOL-Library.Char_ord" "HOL-Library.List_Lexorder" "HOL-Library.Sublist"
begin

text \<open>
  Shared vocabulary of the development: Rust texts as UTF-8 byte strings with the standard
  library's operations on them, saturating machine arithmetic at 64 bits, association lists for
  \<open>HashMap\<close> and \<open>BTreeMap\<close>, in-place update of the first matching element of a vector, and the
  JSON value type.  Generic lemmas are collected here and declared once.
\<close>

section \<open>Collections of facts\<close>

named_theorems step_defs \<open>definitions of the operations of the components\<close>
named_theorems inv_intros \<open>preservation lemmas of the component invariants\<close>

section \<open>Machine arithmetic\<close>

text \<open>
  \<open>usize\<close> and \<open>u64\<close> values are natural numbers; \<open>saturating_sub\<close> is the subtraction of
  \<^typ>\<open>nat\<close>, and \<open>saturating_add\<close> stops at the largest 64-bit value.
\<close>

definition word_max :: nat where
  "word_max = 18446744073709551615"

definition sat_add :: "nat \<Rightarrow> nat \<Rightarrow> nat" where
  "sat_add a b = min (a + b) word_max"

lemma sat_add_le_max [simp]: "sat_add a b \<le> word_max"
  by (simp add: sat_add_def)

lemma sat_add_exact: "a + b \<le> word_max \<Longrightarrow> sat_add a b = a + b"
  by (simp add: sat_add_def)

lemma sat_add_le: "sat_add a b \<le> a + b"
  by (simp add: sat_add_def)

lemma sat_add_ge: "a \<le> word_max \<Longrightarrow> a \<le> sat_add a b"
  by (simp add: sat_add_def)

section \<open>Texts\<close>

text \<open>
  A Rust \<open>String\<close> is its UTF-8 bytes: \<open>len\<close> counts bytes and \<open>chars\<close> decodes.  A character is
  represented by its own byte sequence, found from its lead byte.
\<close>

type_synonym str = string

definition utf8_width :: "char \<Rightarrow> nat" where
  "utf8_width c = (let n = (of_char c :: nat) in
     if n < 192 then 1 else if n < 224 then 2 else if n < 240 then 3 else 4)"

lemma utf8_width_pos [simp]: "0 < utf8_width c" "utf8_width c \<noteq> 0"
  by (simp_all add: utf8_width_def Let_def)

definition split_first_char :: "str \<Rightarrow> (str \<times> str) option" where
  "split_first_char s =
     (case s of [] \<Rightarrow> None
      | c # cs \<Rightarrow> Some (take (utf8_width c) s, drop (utf8_width c) s))"

lemma split_first_char_Nil [simp]: "split_first_char [] = None"
  by (simp add: split_first_char_def)

lemma split_first_char_shorter:
  "split_first_char s = Some (c, r) \<Longrightarrow> length r < length s"
  by (auto simp: split_first_char_def split: list.splits)

lemma split_first_char_append:
  "split_first_char s = Some (c, r) \<Longrightarrow> s = c @ r \<and> c \<noteq> []"
  by (auto simp: split_first_char_def less_not_refl2 split: list.splits)

lemma split_first_char_None: "split_first_char s = None \<longleftrightarrow> s = []"
  by (auto simp: split_first_char_def split: list.splits)

function chars :: "str \<Rightarrow> str list" where
  "chars s = (case split_first_char s of None \<Rightarrow> [] | Some (c, r) \<Rightarrow> c # chars r)"
  by pat_completeness auto
termination
  by (relation "measure length") (auto dest: split_first_char_shorter)

declare chars.simps [simp del]

lemma chars_Nil [simp]: "chars [] = []"
  by (subst chars.simps) simp

lemma chars_step: "split_first_char s = Some (c, r) \<Longrightarrow> chars s = c # chars r"
  by (subst chars.simps) simp

lemma concat_chars [simp]: "concat (chars s) = s"
proof (induction s rule: chars.induct)
  case (1 s)
  show ?case
  proof (cases "split_first_char s")
    case None
    then show ?thesis by (simp add: split_first_char_None)
  next
    case (Some p)
    then obtain c r where p: "split_first_char s = Some (c, r)" by (cases p) auto
    from p 1 have "concat (chars r) = r" by auto
    with p split_first_char_append [OF p] show ?thesis by (simp add: chars_step)
  qed
qed

lemma chars_empty_iff [simp]: "chars s = [] \<longleftrightarrow> s = []"
  by (metis chars_Nil concat_chars concat.simps(1))

lemma chars_inj: "chars s = chars t \<Longrightarrow> s = t"
  by (metis concat_chars)

text \<open>Indices at which a text may be sliced, and the largest one at or below an index.\<close>

definition is_char_boundary :: "str \<Rightarrow> nat \<Rightarrow> bool" where
  "is_char_boundary s i \<longleftrightarrow> i = 0 \<or> i = length s \<or>
     (i < length s \<and> \<not> (128 \<le> (of_char (s ! i) :: nat) \<and> (of_char (s ! i) :: nat) < 192))"

fun floor_boundary_from :: "str \<Rightarrow> nat \<Rightarrow> nat" where
  "floor_boundary_from s 0 = 0"
| "floor_boundary_from s (Suc i) =
     (if is_char_boundary s (Suc i) then Suc i else floor_boundary_from s i)"

definition floor_char_boundary :: "str \<Rightarrow> nat \<Rightarrow> nat" where
  "floor_char_boundary s i = (if length s \<le> i then length s else floor_boundary_from s i)"

lemma floor_boundary_from_le: "floor_boundary_from s i \<le> i"
  by (induction i) auto

lemma floor_char_boundary_le: "floor_char_boundary s i \<le> i"
  by (auto simp: floor_char_boundary_def floor_boundary_from_le)

lemma floor_char_boundary_length: "floor_char_boundary s i \<le> length s"
  by (auto simp: floor_char_boundary_def intro: order_trans [OF floor_boundary_from_le])

text \<open>\<open>char::is_whitespace\<close>: the Unicode property White_Space, on a character's UTF-8 bytes.\<close>

definition is_ws :: "str \<Rightarrow> bool" where
  "is_ws c \<longleftrightarrow>
     (case map (of_char :: char \<Rightarrow> nat) c of
        [a] \<Rightarrow> (9 \<le> a \<and> a \<le> 13) \<or> a = 32
      | [a, b] \<Rightarrow> a = 194 \<and> (b = 133 \<or> b = 160)
      | [a, b, d] \<Rightarrow> (a = 225 \<and> b = 154 \<and> d = 128)
          \<or> (a = 226 \<and> b = 128 \<and> ((128 \<le> d \<and> d \<le> 138) \<or> d = 168 \<or> d = 169 \<or> d = 175))
          \<or> (a = 226 \<and> b = 129 \<and> d = 159)
          \<or> (a = 227 \<and> b = 128 \<and> d = 128)
      | _ \<Rightarrow> False)"

fun split_ws_acc :: "str list \<Rightarrow> str \<Rightarrow> str list" where
  "split_ws_acc [] acc = (if acc = [] then [] else [acc])"
| "split_ws_acc (c # cs) acc =
     (if is_ws c then (if acc = [] then split_ws_acc cs [] else acc # split_ws_acc cs [])
      else split_ws_acc cs (acc @ c))"

definition split_whitespace :: "str \<Rightarrow> str list" where
  "split_whitespace s = split_ws_acc (chars s) []"

definition trim :: "str \<Rightarrow> str" where
  "trim s = concat (rev (dropWhile is_ws (rev (dropWhile is_ws (chars s)))))"

fun join :: "str \<Rightarrow> str list \<Rightarrow> str" where
  "join sep [] = []"
| "join sep [x] = x"
| "join sep (x # y # zs) = x @ sep @ join sep (y # zs)"

definition squeeze :: "str \<Rightarrow> str" where
  "squeeze s = join '' '' (split_whitespace s)"

lemma split_ws_acc_nonempty: "[] \<notin> set (split_ws_acc cs acc)"
  by (induction cs acc rule: split_ws_acc.induct) auto

lemma join_empty_iff: "[] \<notin> set ws \<Longrightarrow> join sep ws = [] \<longleftrightarrow> ws = []"
  by (cases "(sep, ws)" rule: join.cases) auto

lemma squeeze_empty_iff: "squeeze s = [] \<longleftrightarrow> split_whitespace s = []"
  by (simp add: squeeze_def split_whitespace_def join_empty_iff split_ws_acc_nonempty)

text \<open>Decimal rendering of a number.\<close>

function show_nat :: "nat \<Rightarrow> str" where
  "show_nat n = (if n < 10 then [char_of (48 + n)]
                 else show_nat (n div 10) @ [char_of (48 + n mod 10)])"
  by pat_completeness auto
termination
  by (relation "measure id") auto

declare show_nat.simps [simp del]

definition em_dash :: str where
  "em_dash = [CHR 0xE2, CHR 0x80, CHR 0x94]"

definition ellipsis :: str where
  "ellipsis = [CHR 0xE2, CHR 0x80, CHR 0xA6]"

definition newline :: str where
  "newline = [CHR 0x0A]"

section \<open>Maps\<close>

text \<open>
  A \<open>HashMap\<close> whose iteration order the code observes is an association list in that order; a
  \<open>BTreeMap\<close> is an association list sorted by key.
\<close>

fun al_put :: "'k \<Rightarrow> 'v \<Rightarrow> ('k \<times> 'v) list \<Rightarrow> ('k \<times> 'v) list" where
  "al_put k v [] = [(k, v)]"
| "al_put k v ((a, b) # m) = (if a = k then (a, v) # m else (a, b) # al_put k v m)"

lemma map_of_al_put [simp]: "map_of (al_put k v m) = (map_of m)(k \<mapsto> v)"
  by (induction m) auto

lemma keys_al_put: "fst ` set (al_put k v m) = insert k (fst ` set m)"
  by (induction k v m rule: al_put.induct) auto

lemma distinct_al_put:
  "distinct (map fst m) \<Longrightarrow> distinct (map fst (al_put k v m))"
  by (induction k v m rule: al_put.induct) (auto simp: keys_al_put)

fun bt_put :: "'k::linorder \<Rightarrow> 'v \<Rightarrow> ('k \<times> 'v) list \<Rightarrow> ('k \<times> 'v) list" where
  "bt_put k v [] = [(k, v)]"
| "bt_put k v ((a, b) # m) =
     (if k < a then (k, v) # (a, b) # m
      else if k = a then (a, v) # m else (a, b) # bt_put k v m)"

definition bt_of :: "('k::linorder \<times> 'v) list \<Rightarrow> ('k \<times> 'v) list" where
  "bt_of ps = fold (\<lambda>(k, v) m. bt_put k v m) ps []"

lemma map_of_bt_put [simp]: "map_of (bt_put k v m) = (map_of m)(k \<mapsto> v)"
  by (induction m) auto

lemma keys_bt_put: "set (map fst (bt_put k v m)) = insert k (set (map fst m))"
  by (induction k v m rule: bt_put.induct) auto

lemma sorted_bt_put:
  "sorted_wrt (<) (map fst m) \<Longrightarrow> sorted_wrt (<) (map fst (bt_put k v m))"
proof (induction k v m rule: bt_put.induct)
  case (2 k v a b m)
  then show ?case
    using keys_bt_put [of k v m] by (auto simp: image_iff)
qed simp

text \<open>
  What a client of a keyed store relies on: a lookup after an insertion.  Both association lists
  and sorted lists provide it, so the effect of a run of insertions is derived once.
\<close>

locale keyed_store =
  fixes lookup :: "'m \<Rightarrow> 'k \<Rightarrow> 'v option"
    and put :: "'k \<Rightarrow> 'v \<Rightarrow> 'm \<Rightarrow> 'm"
  assumes lookup_put: "lookup (put k v m) = (lookup m)(k \<mapsto> v)"
begin

lemma lookup_fold:
  "lookup (fold (\<lambda>(k, v) m. put k v m) ps m) = lookup m ++ map_of (rev ps)"
proof (induction ps arbitrary: m)
  case (Cons p ps)
  then show ?case
    by (cases p) (simp add: lookup_put map_add_def fun_eq_iff split: option.splits)
qed simp

end

interpretation al: keyed_store map_of al_put
  by unfold_locales simp

interpretation bt: keyed_store map_of "bt_put :: 'k::linorder \<Rightarrow> 'v \<Rightarrow> _"
  by unfold_locales simp

lemma sorted_bt_fold:
  "sorted_wrt (<) (map fst m) \<Longrightarrow> sorted_wrt (<) (map fst (fold (\<lambda>(k, v) m. bt_put k v m) ps m))"
  by (induction ps arbitrary: m) (auto simp: sorted_bt_put)

lemma map_of_bt_of: "map_of (bt_of ps) = map_of (rev ps)"
  by (simp add: bt_of_def bt.lookup_fold)

lemma sorted_bt_of: "sorted_wrt (<) (map fst (bt_of ps))"
  by (simp add: bt_of_def) (rule sorted_bt_fold, simp)

text \<open>A sorted association list is determined by its lookups.\<close>

lemma sorted_map_unique:
  fixes m n :: "('k::linorder \<times> 'v) list"
  assumes "sorted_wrt (<) (map fst m)" and "sorted_wrt (<) (map fst n)" and "map_of m = map_of n"
  shows "m = n"
proof -
  have d: "distinct (map fst m)" "distinct (map fst n)"
    using assms(1,2) by (simp_all add: strict_sorted_iff)
  have rebuild: "map (\<lambda>k. (k, the (map_of l k))) (map fst l) = l"
    if "distinct (map fst l)" for l :: "('k \<times> 'v) list"
    using that by (auto intro!: map_idI)
  have "dom (map_of m) = dom (map_of n)" using assms(3) by simp
  then have k: "map fst m = map fst n"
    using assms(1,2) by (intro strict_sorted_equal) (auto simp: dom_map_of_conv_image_fst)
  show ?thesis
    using rebuild [OF d(1)] rebuild [OF d(2)] k assms(3) by metis
qed

section \<open>Vectors\<close>

text \<open>\<open>iter_mut().find(p)\<close> followed by a change of the element found.\<close>

fun update_first :: "('a \<Rightarrow> bool) \<Rightarrow> ('a \<Rightarrow> 'a) \<Rightarrow> 'a list \<Rightarrow> 'a list" where
  "update_first p f [] = []"
| "update_first p f (x # xs) = (if p x then f x # xs else x # update_first p f xs)"

lemma length_update_first [simp]: "length (update_first p f xs) = length xs"
  by (induction xs) auto

lemma update_first_none: "\<forall>x \<in> set xs. \<not> p x \<Longrightarrow> update_first p f xs = xs"
  by (induction xs) auto

lemma map_update_first:
  "(\<And>x. g (f x) = g x) \<Longrightarrow> map g (update_first p f xs) = map g xs"
  by (induction xs) auto

lemma update_first_distinct:
  "distinct (map g xs) \<Longrightarrow>
   update_first (\<lambda>x. g x = k) f xs = map (\<lambda>x. if g x = k then f x else x) xs"
  by (induction xs) (auto simp: image_iff intro!: map_idI [symmetric])

text \<open>\<open>max_by_key\<close> returns the last of the greatest elements.\<close>

fun max_by_key :: "('a \<Rightarrow> nat) \<Rightarrow> 'a list \<Rightarrow> 'a option" where
  "max_by_key key [] = None"
| "max_by_key key (x # xs) =
     (case max_by_key key xs of None \<Rightarrow> Some x
      | Some y \<Rightarrow> Some (if key y < key x then x else y))"

lemma max_by_key_None [simp]: "max_by_key key xs = None \<longleftrightarrow> xs = []"
  by (cases xs) (auto split: option.splits)

lemma max_by_key_mem: "max_by_key key xs = Some x \<Longrightarrow> x \<in> set xs"
  by (induction xs arbitrary: x) (auto split: option.splits if_splits)

lemma max_by_key_ge: "max_by_key key xs = Some x \<Longrightarrow> y \<in> set xs \<Longrightarrow> key y \<le> key x"
  by (induction xs arbitrary: x) (force split: option.splits if_splits)+

section \<open>JSON values\<close>

text \<open>
  The shape of \<open>serde_json::Value\<close>.  An object keeps its entries in the order the parser met
  them, and a number keeps the text it prints as.
\<close>

datatype json =
    JNull
  | JBool bool
  | JNumber str
  | JString str
  | JArray "json list"
  | JObject "(str \<times> json) list"

fun json_str :: "json \<Rightarrow> str option" where
  "json_str (JString s) = Some s"
| "json_str _ = None"

section \<open>Searching a text\<close>

text \<open>\<open>str::find\<close> of a string: the first byte index at which it occurs.\<close>

fun str_find :: "str \<Rightarrow> str \<Rightarrow> nat option" where
  "str_find pat [] = (if pat = [] then Some 0 else None)"
| "str_find pat (c # cs) =
     (if prefix pat (c # cs) then Some 0 else map_option Suc (str_find pat cs))"

lemma str_find_Some:
  "str_find pat s = Some i \<Longrightarrow> s = take i s @ pat @ drop (i + length pat) s"
proof (induction s arbitrary: i)
  case Nil
  then show ?case by (simp split: if_splits)
next
  case (Cons c cs)
  show ?case
  proof (cases "prefix pat (c # cs)")
    case True
    with Cons.prems show ?thesis by (auto simp: prefix_def)
  next
    case False
    with Cons.prems obtain j where "i = Suc j" "str_find pat cs = Some j" by auto
    with Cons.IH show ?thesis by simp
  qed
qed

lemma str_find_first:
  "str_find pat s = Some i \<Longrightarrow> u @ pat @ v = s \<Longrightarrow> i \<le> length u"
proof (induction s arbitrary: i u)
  case Nil
  then show ?case by (simp split: if_splits)
next
  case (Cons c cs)
  show ?case
  proof (cases "prefix pat (c # cs)")
    case True
    with Cons.prems show ?thesis by simp
  next
    case False
    with Cons.prems obtain j where j: "i = Suc j" "str_find pat cs = Some j" by auto
    from False Cons.prems(2) have "u \<noteq> []" by (metis append_Nil prefixI)
    then obtain a u' where u: "u = a # u'" by (cases u) auto
    with Cons.prems(2) have "u' @ pat @ v = cs" by simp
    from Cons.IH [OF j(2) this] u j(1) show ?thesis by simp
  qed
qed

lemma str_find_None: "str_find pat s = None \<longleftrightarrow> \<not> sublist pat s"
  by (induction s) (auto simp: sublist_Cons_right)

lemma str_find_bound: "str_find pat s = Some i \<Longrightarrow> i + length pat \<le> length s"
proof (induction s arbitrary: i)
  case Nil
  then show ?case by (simp split: if_splits)
next
  case (Cons c cs)
  then show ?case by (auto split: if_splits dest: prefix_length_le)
qed

end
