(* ===== verification/Glob.thy ===== *)
theory Glob
  imports Prelude
begin

text \<open>
  The permission patterns of \<open>crates/agnt-core/src/tools/authz.rs\<close>: the backtracking matcher
  \<open>glob_match\<close>, the specificity of a pattern and the choice of the most specific rule.  The matcher
  is proved equivalent to the declarative meaning of a pattern, in which a star stands for any
  sequence of characters.
\<close>

section \<open>The matcher\<close>

definition strip_star :: "str \<Rightarrow> str option" where
  "strip_star s = (case s of [] \<Rightarrow> None | c # cs \<Rightarrow> (if c = CHR ''*'' then Some cs else None))"

text \<open>
  The \<open>while\<close> loop over the rest of the pattern, the rest of the input and the saved backtrack
  point.  The result is the rest of the pattern when the input is used up, and nothing when the
  code returns false.
\<close>

function glob_loop :: "str \<Rightarrow> str \<Rightarrow> (str \<times> str) option \<Rightarrow> str option" where
  "glob_loop pat_rest input_rest backtrack =
     (if input_rest = [] then Some pat_rest
      else case strip_star pat_rest of
        Some stripped \<Rightarrow> glob_loop stripped input_rest (Some (stripped, input_rest))
      | None \<Rightarrow>
          (case (split_first_char pat_rest, split_first_char input_rest) of
             (Some (p_ch, p_next), Some (i_ch, i_next)) \<Rightarrow>
               (if p_ch = i_ch then glob_loop p_next i_next backtrack
                else (case backtrack of None \<Rightarrow> None
                      | Some (saved_pat, saved_input) \<Rightarrow>
                          (case split_first_char saved_input of None \<Rightarrow> None
                           | Some (x, next_input) \<Rightarrow>
                               glob_loop saved_pat next_input (Some (saved_pat, next_input)))))
           | _ \<Rightarrow> (case backtrack of None \<Rightarrow> None
                  | Some (saved_pat, saved_input) \<Rightarrow>
                      (case split_first_char saved_input of None \<Rightarrow> None
                       | Some (x, next_input) \<Rightarrow>
                           glob_loop saved_pat next_input (Some (saved_pat, next_input))))))"
  by pat_completeness auto
termination
  by (relation "measures
        [\<lambda>(p, i, b). max (length p) (case b of None \<Rightarrow> 0 | Some (sp, si) \<Rightarrow> length sp),
         \<lambda>(p, i, b). (case b of None \<Rightarrow> 0 | Some (sp, si) \<Rightarrow> length si),
         \<lambda>(p, i, b). length i]")
     (auto simp: strip_star_def max_def dest: split_first_char_shorter
       dest!: split_first_char_shorter [OF sym] split: list.splits if_splits option.splits)

declare glob_loop.simps [simp del]

fun strip_stars :: "str \<Rightarrow> str" where
  "strip_stars [] = []"
| "strip_stars (c # cs) = (if c = CHR ''*'' then strip_stars cs else c # cs)"

definition glob_match :: "str \<Rightarrow> str \<Rightarrow> bool" where
  "glob_match pat input =
     (if pat = ''*'' then True
      else case glob_loop pat input None of
        None \<Rightarrow> False
      | Some pat_rest \<Rightarrow> strip_stars pat_rest = [])"

section \<open>The meaning of a pattern\<close>

fun glob_spec :: "str list \<Rightarrow> str list \<Rightarrow> bool" where
  "glob_spec [] cs = (cs = [])"
| "glob_spec (p # ps) [] = (p = ''*'' \<and> glob_spec ps [])"
| "glob_spec (p # ps) (c # cs) =
     (if p = ''*'' then glob_spec ps (c # cs) \<or> glob_spec (p # ps) cs
      else p = c \<and> glob_spec ps cs)"

lemma glob_spec_star: "glob_spec (''*'' # ps) cs \<longleftrightarrow> (\<exists>u v. cs = u @ v \<and> glob_spec ps v)"
proof (induction cs)
  case Nil
  then show ?case by simp
next
  case (Cons c cs)
  show ?case
  proof
    assume "glob_spec (''*'' # ps) (c # cs)"
    then consider "glob_spec ps (c # cs)" | "glob_spec (''*'' # ps) cs" by auto
    then show "\<exists>u v. c # cs = u @ v \<and> glob_spec ps v"
    proof cases
      case 1
      then show ?thesis by (metis append_Nil)
    next
      case 2
      then show ?thesis using Cons by (metis append_Cons)
    qed
  next
    assume "\<exists>u v. c # cs = u @ v \<and> glob_spec ps v"
    then obtain u v where uv: "c # cs = u @ v" "glob_spec ps v" by blast
    show "glob_spec (''*'' # ps) (c # cs)"
    proof (cases u)
      case Nil
      with uv(1) have "v = c # cs" by simp
      with uv(2) show ?thesis by simp
    next
      case (Cons a u')
      with uv Cons.IH show ?thesis by auto
    qed
  qed
qed

lemma glob_spec_lits:
  assumes "''*'' \<notin> set us"
  shows "glob_spec (us @ ps) cs \<longleftrightarrow> (\<exists>v. cs = us @ v \<and> glob_spec ps v)"
  using assms
proof (induction us arbitrary: cs)
  case (Cons u us)
  then show ?case by (cases cs) auto
qed simp

lemma strip_star_chars:
  "strip_star s = Some t \<Longrightarrow> chars s = ''*'' # chars t"
  by (auto simp: strip_star_def split_first_char_def utf8_width_def Let_def
      split: list.splits if_splits intro!: chars_step)

lemma strip_star_None_first:
  assumes "strip_star s = None" and "split_first_char s = Some (c, r)"
  shows "c \<noteq> ''*''"
  using assms
  by (auto simp: strip_star_def split_first_char_def take_Cons' split: list.splits if_splits)

lemma strip_stars_empty: "strip_stars s = [] \<longleftrightarrow> glob_spec (chars s) []"
proof (induction s)
  case (Cons c cs)
  show ?case
  proof (cases "c = CHR ''*''")
    case True
    then have "chars (c # cs) = ''*'' # chars cs"
      by (intro strip_star_chars) (simp add: strip_star_def)
    with True Cons show ?thesis by simp
  next
    case False
    then have n: "strip_star (c # cs) = None" by (simp add: strip_star_def)
    obtain d r where s: "split_first_char (c # cs) = Some (d, r)"
      by (simp add: split_first_char_def)
    from strip_star_None_first [OF n s] False show ?thesis by (simp add: chars_step [OF s])
  qed
qed simp

section \<open>The matcher computes the meaning\<close>

text \<open>
  What a saved backtrack point promises: the characters matched since the star was met contain
  no star, and they lead from the saved pattern and input to the current ones.
\<close>

definition bt_inv :: "str \<Rightarrow> str \<Rightarrow> (str \<times> str) option \<Rightarrow> bool" where
  "bt_inv p i b = (case b of None \<Rightarrow> True
     | Some (sp, si) \<Rightarrow>
         (\<exists>us. ''*'' \<notin> set us \<and> chars sp = us @ chars p \<and> chars si = us @ chars i))"

definition bt_goal :: "str \<Rightarrow> str \<Rightarrow> (str \<times> str) option \<Rightarrow> bool" where
  "bt_goal p i b \<longleftrightarrow> glob_spec (chars p) (chars i) \<or>
     (case b of None \<Rightarrow> False
      | Some (sp, si) \<Rightarrow> glob_spec (''*'' # chars sp) (tl (chars si)))"

lemma bt_goal_star:
  assumes inv: "bt_inv p i b" and p: "chars p = ''*'' # chars q"
  shows "bt_goal p i b \<longleftrightarrow> glob_spec (''*'' # chars q) (chars i)"
proof (cases b)
  case None
  with p show ?thesis by (simp add: bt_goal_def)
next
  case (Some ss)
  obtain sp si where b: "b = Some (sp, si)" using Some by (cases ss) auto
  from inv b obtain us where us: "''*'' \<notin> set us" "chars sp = us @ chars p"
    "chars si = us @ chars i" by (auto simp: bt_inv_def)
  have "glob_spec (''*'' # chars q) (chars i)"
    if "glob_spec (''*'' # chars sp) (tl (chars si))"
  proof -
    from that obtain a v where a: "tl (chars si) = a @ v" "glob_spec (chars sp) v"
      by (auto simp: glob_spec_star)
    from a(2) us p obtain w where w: "v = us @ w" "glob_spec (''*'' # chars q) w"
      by (auto simp: glob_spec_lits)
    then obtain c d where cd: "w = c @ d" "glob_spec (chars q) d"
      by (auto simp: glob_spec_star)
    have "suffix d (us @ chars i)"
      using a w cd us(3) by (metis suffix_appendI suffix_def suffix_tl append_assoc)
    moreover have "length d \<le> length (chars i)"
    proof -
      have "length (tl (us @ chars i)) = length a + length us + length c + length d"
        using a w cd us(3) by simp
      then show ?thesis by simp
    qed
    ultimately have "suffix d (chars i)"
      by (metis suffix_length_suffix suffixI)
    then obtain e where "chars i = e @ d" by (auto simp: suffix_def)
    with cd show ?thesis by (auto simp: glob_spec_star)
  qed
  with b p show ?thesis by (auto simp: bt_goal_def)
qed

lemma bt_goal_backtrack:
  assumes "\<not> glob_spec (chars p) (chars i)" and "b = Some (sp, si)"
    and "split_first_char si = Some (x, n)"
  shows "bt_goal p i b \<longleftrightarrow> bt_goal sp n (Some (sp, n))"
  using assms glob_spec_star [of "chars sp" "chars n"]
  by (cases "chars n") (auto simp: bt_goal_def chars_step)

lemma bt_inv_input:
  "bt_inv p i (Some (sp, si)) \<Longrightarrow> i \<noteq> [] \<Longrightarrow> si \<noteq> []"
  by (auto simp: bt_inv_def)

lemma glob_loop_goal:
  "bt_inv p i b \<Longrightarrow>
   (case glob_loop p i b of None \<Rightarrow> False | Some r \<Rightarrow> strip_stars r = []) \<longleftrightarrow> bt_goal p i b"
proof (induction p i b rule: glob_loop.induct)
  case (1 p i b)
  show ?case
  proof (cases "i = []")
    case True
    have "\<not> glob_spec (''*'' # chars sp) (tl (chars si))"
      if bS: "b = Some (sp, si)" and np: "\<not> glob_spec (chars p) []" for sp si
    proof
      assume "glob_spec (''*'' # chars sp) (tl (chars si))"
      moreover obtain us where "''*'' \<notin> set us" "chars sp = us @ chars p" "chars si = us"
        using "1.prems" True bS by (fastforce simp: bt_inv_def)
      ultimately obtain u v w where e: "tl us = u @ v" "v = us @ w" "glob_spec (chars p) w"
        by (auto simp: glob_spec_star glob_spec_lits)
      from e(1,2) have "length us - 1 = length u + length us + length w"
        by (metis length_append length_tl add.assoc)
      then have "length w = 0" by arith
      then have "w = []" by simp
      with e(3) np show False by simp
    qed
    moreover have "glob_loop p i b = Some p"
      using True by (simp add: glob_loop.simps)
    ultimately show ?thesis
      using True by (auto simp: bt_goal_def strip_stars_empty split: option.splits)
  next
    case False
    then obtain ic inx where i: "split_first_char i = Some (ic, inx)"
      using split_first_char_None [of i] by fastforce
    show ?thesis
    proof (cases "strip_star p")
      case (Some q)
      have "bt_inv q i (Some (q, i))" by (auto simp: bt_inv_def intro: exI [of _ "[]"])
      with "1.IH"(5) [OF False Some] have
        "(case glob_loop p i b of None \<Rightarrow> False | Some r \<Rightarrow> strip_stars r = [])
           \<longleftrightarrow> bt_goal q i (Some (q, i))"
        using False Some by (simp add: glob_loop.simps [of p i b])
      also have "\<dots> \<longleftrightarrow> glob_spec (''*'' # chars q) (chars i)"
        by (cases "chars i") (auto simp: bt_goal_def)
      also have "\<dots> \<longleftrightarrow> bt_goal p i b"
        using bt_goal_star [OF "1.prems" strip_star_chars [OF Some]] by simp
      finally show ?thesis .
    next
      case None
      have nostar: "pc \<noteq> ''*''" if "split_first_char p = Some (pc, pn)" for pc pn
        using strip_star_None_first [OF None that] .
      show ?thesis
      proof (cases "\<exists>pn. split_first_char p = Some (ic, pn)")
        case True
        then obtain pn where p: "split_first_char p = Some (ic, pn)" by blast
        have inv: "bt_inv pn inx b"
        proof (cases b)
          case (Some ss)
          with "1.prems" obtain us where us: "''*'' \<notin> set us" "chars (fst ss) = us @ chars p"
            "chars (snd ss) = us @ chars i" by (auto simp: bt_inv_def split: prod.splits)
          have "''*'' \<notin> set (us @ [ic])" using us nostar [OF p] by simp
          with us Some show ?thesis
            by (auto simp: bt_inv_def chars_step [OF p] chars_step [OF i] split: prod.splits
                intro!: exI [of _ "us @ [ic]"])
        qed (simp add: bt_inv_def)
        have "bt_goal pn inx b \<longleftrightarrow> bt_goal p i b"
          using nostar [OF p] by (auto simp: bt_goal_def chars_step [OF p] chars_step [OF i])
        with "1.IH"(3) [OF False None] inv p i False None show ?thesis
          by (simp add: glob_loop.simps [of p i b])
      next
        case False': False
        have fail: "\<not> glob_spec (chars p) (chars i)"
          using False' nostar
          by (cases "split_first_char p") (auto simp: chars_step [OF i] chars_step
              split_first_char_None)
        show ?thesis
        proof (cases b)
          case None': None
          have "glob_loop p i None = None"
            using False None False' i
            by (auto simp: glob_loop.simps [of p i None] split: option.splits)
          with fail None' show ?thesis by (simp add: bt_goal_def)
        next
          case (Some ss)
          obtain sp si where b: "b = Some (sp, si)" using Some by (cases ss) auto
          obtain x n where n: "split_first_char si = Some (x, n)"
            using bt_inv_input [of p i sp si] "1.prems" b False split_first_char_None [of si]
            by fastforce
          have inv: "bt_inv sp n (Some (sp, n))"
            by (auto simp: bt_inv_def intro: exI [of _ "[]"])
          have step: "glob_loop p i b = glob_loop sp n (Some (sp, n))"
            using False None False' i b n
            by (auto simp: glob_loop.simps [of p i "Some (sp, si)"] split: option.splits)
          have "(case glob_loop sp n (Some (sp, n)) of None \<Rightarrow> False | Some r \<Rightarrow> strip_stars r = [])
              \<longleftrightarrow> bt_goal sp n (Some (sp, n))"
          proof (cases "split_first_char p")
            case None'': None
            with "1.IH"(1) [OF False None] i b n inv show ?thesis by simp
          next
            case (Some pp)
            with "1.IH"(4) [OF False None] i b n inv False' show ?thesis
              by (cases pp) auto
          qed
          with step bt_goal_backtrack [OF fail b n] show ?thesis by simp
        qed
      qed
    qed
  qed
qed

lemma glob_match_spec: "glob_match pat input \<longleftrightarrow> glob_spec (chars pat) (chars input)"
proof (cases "pat = ''*''")
  case True
  then have "chars pat = ''*'' # chars []"
    by (intro strip_star_chars) (simp add: strip_star_def)
  then show ?thesis using True by (auto simp: glob_match_def glob_spec_star)
next
  case False
  have "bt_inv pat input None" by (simp add: bt_inv_def)
  from glob_loop_goal [OF this] False show ?thesis
    by (simp add: glob_match_def bt_goal_def)
qed

text \<open>The texts a pattern denotes: a star stands for any text, every other character for itself.\<close>

fun glob_lang :: "str list \<Rightarrow> str list set" where
  "glob_lang [] = {[]}"
| "glob_lang (p # ps) =
     (if p = ''*'' then {u @ v | u v. v \<in> glob_lang ps} else {p # v | v. v \<in> glob_lang ps})"

lemma glob_spec_lang: "glob_spec ps cs \<longleftrightarrow> cs \<in> glob_lang ps"
proof (induction ps arbitrary: cs)
  case Nil
  then show ?case by (cases cs) auto
next
  case (Cons p ps)
  show ?case
  proof (cases "p = ''*''")
    case True
    with Cons show ?thesis by (auto simp: glob_spec_star)
  next
    case False
    with Cons show ?thesis by (cases cs) auto
  qed
qed

text \<open>
  C1. The backtracking loop decides the language of the pattern: a text is accepted if and only if
  its characters are those of the pattern with every star replaced by some text, for all patterns
  and texts of any UTF-8 content.
\<close>

theorem glob_match_meaning: "glob_match pat input \<longleftrightarrow> chars input \<in> glob_lang (chars pat)"
  by (simp add: glob_match_spec glob_spec_lang)

end
