(* ===== verification/Permissions.thy ===== *)
theory Permissions
  imports Glob
begin

text \<open>
  The permission policy of \<open>crates/agnt-core/src/tools/authz.rs\<close>: the configuration with its
  defaults, its parsing from TOML, the overlays of an agent file (YAML) and of the command line,
  their merge, and the evaluation of a tool call.  A \<open>HashMap\<close> the code iterates over is an
  association list in iteration order; a \<open>BTreeMap\<close> is a list sorted by key.
\<close>

section \<open>Actions and decisions\<close>

datatype permission_action = Allow | Ask | Deny

definition action_as_str :: "permission_action \<Rightarrow> str" where
  "action_as_str a = (case a of Allow \<Rightarrow> ''allow'' | Ask \<Rightarrow> ''ask'' | Deny \<Rightarrow> ''deny'')"

definition action_from_str :: "str \<Rightarrow> permission_action option" where
  "action_from_str v =
     (if v = ''allow'' then Some Allow
      else if v = ''ask'' then Some Ask
      else if v = ''deny'' then Some Deny
      else None)"

record permission_diagnostic =
  diag_code :: str
  diag_message :: str

record permission_rule_match =
  rm_identity :: str
  rm_scope :: str
  rm_target_field :: "str option"
  rm_pattern :: str
  rm_action :: permission_action

record permission_decision =
  pd_action :: permission_action
  pd_matched_rule :: permission_rule_match
  pd_diagnostics :: "permission_diagnostic list"

type_synonym rules = "(str \<times> permission_action) list"
type_synonym nested_rules = "(str \<times> (str \<times> rules) list) list"

record permissions_config =
  pc_global :: permission_action
  pc_tool_rules :: rules
  pc_nested_field_rules :: nested_rules
  pc_diagnostics :: "permission_diagnostic list"
  pc_decision_timeout :: "nat option"

record permissions_overlay =
  po_global :: "permission_action option"
  po_tool_rules :: rules
  po_nested_field_rules :: nested_rules

record permissions_summary =
  ps_global :: permission_action
  ps_tool_rule_count :: nat
  ps_nested_field_rule_count :: nat

definition default_decision_timeout :: nat where
  "default_decision_timeout = 60"

definition decision_timeout_key :: str where
  "decision_timeout_key = ''decision_timeout_secs''"

section \<open>Display of a tool call in a permission prompt\<close>

text \<open>\<open>ser\<close> is \<open>serde_json::to_string\<close>, the compact rendering of arrays and objects.\<close>

definition clip_60 :: "str \<Rightarrow> str" where
  "clip_60 s = (if 60 < length (chars s) then concat (take 60 (chars s)) @ ellipsis else s)"

fun format_arg_value :: "(json \<Rightarrow> str) \<Rightarrow> json \<Rightarrow> str" where
  "format_arg_value ser (JString s) = clip_60 s"
| "format_arg_value ser (JBool b) = (if b then ''true'' else ''false'')"
| "format_arg_value ser (JNumber n) = n"
| "format_arg_value ser (JObject kvs) = clip_60 (ser (JObject kvs))"
| "format_arg_value ser (JArray xs) = clip_60 (ser (JArray xs))"
| "format_arg_value ser JNull = []"

fun display_tool_name :: "(json \<Rightarrow> str) \<Rightarrow> str \<Rightarrow> json \<Rightarrow> str" where
  "display_tool_name ser tool_name (JObject obj) =
     (let entries = map (\<lambda>(k, v). (k, format_arg_value ser v)) (filter (\<lambda>(k, v). v \<noteq> JNull) obj)
      in if entries = [] then tool_name
         else tool_name @ ''('' @
                join '', '' (map (\<lambda>(k, v). k @ ''='' @ v) (sort_key fst entries)) @ '')'')"
| "display_tool_name ser tool_name _ = tool_name"

section \<open>Rule matching\<close>

definition pattern_specificity :: "str \<Rightarrow> nat" where
  "pattern_specificity pattern = length (filter (\<lambda>ch. ch \<noteq> ''*'') (chars pattern))"

definition match_pattern :: "str \<Rightarrow> rules \<Rightarrow> (str \<times> permission_action) option" where
  "match_pattern candidate rs =
     max_by_key (\<lambda>(pattern, action). pattern_specificity pattern)
       (filter (\<lambda>(pattern, action). glob_match pattern candidate) rs)"

section \<open>Evaluation of a tool call\<close>

definition nested_missing :: "str \<Rightarrow> str \<Rightarrow> permission_diagnostic" where
  "nested_missing tool_name field_name =
     \<lparr>diag_code = ''permissions.nested_field.missing'',
      diag_message = ''nested field '' @ [CHR 0x27] @ field_name @ [CHR 0x27] @ '' for tool ''
        @ [CHR 0x27] @ tool_name @ [CHR 0x27]
        @ '' missing or unreadable; using inherited decision''\<rparr>"

definition nested_noop_star :: "str \<Rightarrow> str \<Rightarrow> permission_diagnostic" where
  "nested_noop_star tool_name field_name =
     \<lparr>diag_code = ''permissions.noop.nested_field.star'',
      diag_message = tool_name @ ''.'' @ field_name @ '' '' @ [CHR 0x27] @ ''*'' @ [CHR 0x27]
        @ '' matched but inherited decision is unchanged''\<rparr>"

text \<open>One turn of the loop over the field rules of the tool, in iteration order.\<close>

definition evaluate_field ::
  "str \<Rightarrow> (str \<times> json) list \<Rightarrow> permission_action \<Rightarrow> str \<times> rules \<Rightarrow>
   permission_rule_match \<times> permission_diagnostic list \<Rightarrow>
   permission_rule_match \<times> permission_diagnostic list" where
  "evaluate_field tool_name args inherited fr acc =
     (case (fr, acc) of ((field_name, rs), (matched_rule, diagnostics)) \<Rightarrow>
       (case Option.bind (map_of args field_name) json_str of
          None \<Rightarrow> (matched_rule, diagnostics @ [nested_missing tool_name field_name])
        | Some raw_value \<Rightarrow>
            (case match_pattern (squeeze raw_value) rs of
               None \<Rightarrow> (matched_rule, diagnostics)
             | Some (pattern, action) \<Rightarrow>
                 (\<lparr>rm_identity = ''nested:'' @ tool_name @ ''.'' @ field_name @ '':'' @ pattern,
                   rm_scope = ''nested'', rm_target_field = Some field_name,
                   rm_pattern = pattern, rm_action = action\<rparr>,
                  (if pattern = ''*'' \<and> action = inherited
                   then diagnostics @ [nested_noop_star tool_name field_name]
                   else diagnostics)))))"

definition global_match :: "permissions_config \<Rightarrow> permission_rule_match" where
  "global_match cfg =
     \<lparr>rm_identity = ''global:*'', rm_scope = ''global'', rm_target_field = None,
      rm_pattern = ''*'', rm_action = pc_global cfg\<rparr>"

text \<open>The rule that holds before the nested field rules are looked at.\<close>

definition tool_match :: "permissions_config \<Rightarrow> str \<Rightarrow> permission_rule_match" where
  "tool_match cfg tool_name =
     (case match_pattern tool_name (pc_tool_rules cfg) of
        None \<Rightarrow> global_match cfg
      | Some (pattern, action) \<Rightarrow>
          \<lparr>rm_identity = ''tool:'' @ pattern, rm_scope = ''tool'', rm_target_field = None,
           rm_pattern = pattern, rm_action = action\<rparr>)"

definition evaluate ::
  "permissions_config \<Rightarrow> str \<Rightarrow> (str \<times> json) list \<Rightarrow> permission_decision" where
  "evaluate cfg tool_name args =
     (let matched_rule = tool_match cfg tool_name;
          (final_rule, diagnostics) =
            (case map_of (pc_nested_field_rules cfg) tool_name of
               None \<Rightarrow> (matched_rule, pc_diagnostics cfg)
             | Some field_rules \<Rightarrow>
                 fold (evaluate_field tool_name args (rm_action matched_rule)) field_rules
                   (matched_rule, pc_diagnostics cfg))
      in \<lparr>pd_action = rm_action final_rule, pd_matched_rule = final_rule,
          pd_diagnostics = diagnostics\<rparr>)"

definition is_tool_visible :: "permissions_config \<Rightarrow> str \<Rightarrow> bool" where
  "is_tool_visible cfg tool_name \<longleftrightarrow> pd_action (evaluate cfg tool_name []) \<noteq> Deny"

section \<open>Defaults\<close>

text \<open>The tool names are the \<open>NAME\<close> constants of the handlers.\<close>

definition safe_defaults :: "bool \<Rightarrow> permissions_config" where
  "safe_defaults interactive =
     \<lparr>pc_global = (if interactive then Ask else Deny),
      pc_tool_rules =
        [(''read'', Allow), (''glob'', Allow), (''grep'', Allow),
         (''c5t_get*'', Allow), (''c5t_list*'', Allow),
         (''tmux_session'', Ask), (''tmux_window'', Ask), (''tmux_pane'', Ask),
         (''tmux_layout'', Ask), (''nu'', Ask),
         (''ast_query'', Allow), (''ast_nodes'', Allow), (''ast_refs'', Allow),
         (''ast_tree'', Allow)],
      pc_nested_field_rules =
        [(''tmux_session'', [(''action'', [(''list'', Allow), (''info'', Allow)])]),
         (''tmux_pane'', [(''action'', [(''list'', Allow), (''find'', Allow),
            (''process'', Allow), (''capture'', Allow)])])],
      pc_diagnostics =
        [\<lparr>diag_code = ''permissions.defaults.applied'',
          diag_message = ''permissions block missing; using conservative defaults''\<rparr>],
      pc_decision_timeout = Some default_decision_timeout\<rparr>"

section \<open>Parsing\<close>

text \<open>
  What the parsers observe of \<open>toml::Value\<close>, \<open>nu_protocol::Value\<close> and \<open>noyalib::Value\<close>: a text, an
  integer, a table in iteration order, or something else.
\<close>

datatype cfg_value = CStr str | CInt int | CTable "(str \<times> cfg_value) list" | COther

fun cfg_as_str :: "cfg_value \<Rightarrow> str option" where
  "cfg_as_str (CStr s) = Some s"
| "cfg_as_str _ = None"

fun cfg_as_table :: "cfg_value \<Rightarrow> (str \<times> cfg_value) list option" where
  "cfg_as_table (CTable t) = Some t"
| "cfg_as_table _ = None"

fun cfg_as_integer :: "cfg_value \<Rightarrow> int option" where
  "cfg_as_integer (CInt i) = Some i"
| "cfg_as_integer _ = None"

definition quoted :: "str \<Rightarrow> str" where
  "quoted s = [CHR 0x27] @ s @ [CHR 0x27]"

definition value_to_action :: "cfg_value \<Rightarrow> str + permission_action" where
  "value_to_action v =
     (case cfg_as_str v of
        None \<Rightarrow> Inl ''permission action must be a string''
      | Some s \<Rightarrow>
          (case action_from_str s of
             None \<Rightarrow> Inl (''invalid permission action '' @ quoted s)
           | Some a \<Rightarrow> Inr a))"

text \<open>\<open>entry(tool).or_default().entry(field).or_default().push(rule)\<close>.\<close>

definition push_nested :: "str \<Rightarrow> str \<Rightarrow> str \<times> permission_action \<Rightarrow> nested_rules \<Rightarrow> nested_rules" where
  "push_nested tool field rule m =
     (let fields = (case map_of m tool of None \<Rightarrow> [] | Some fs \<Rightarrow> fs);
          rs = (case map_of fields field of None \<Rightarrow> [] | Some r \<Rightarrow> r)
      in al_put tool (al_put field (rs @ [rule]) fields) m)"

definition push_diag :: "str \<Rightarrow> str \<Rightarrow> permissions_config \<Rightarrow> permissions_config" where
  "push_diag code message cfg =
     cfg\<lparr>pc_diagnostics := pc_diagnostics cfg @ [\<lparr>diag_code = code, diag_message = message\<rparr>]\<rparr>"

definition toml_pattern :: "str \<Rightarrow> str \<Rightarrow> str \<times> cfg_value \<Rightarrow> permissions_config \<Rightarrow> permissions_config" where
  "toml_pattern key field pv cfg =
     (case value_to_action (snd pv) of
        Inr action \<Rightarrow>
          cfg\<lparr>pc_nested_field_rules :=
            push_nested key field (fst pv, action) (pc_nested_field_rules cfg)\<rparr>
      | Inl message \<Rightarrow>
          push_diag ''permissions.invalid.nested_field_action''
            (message @ '' for pattern '' @ quoted (fst pv)) cfg)"

definition toml_field :: "str \<Rightarrow> str \<times> cfg_value \<Rightarrow> permissions_config \<Rightarrow> permissions_config" where
  "toml_field key fv cfg =
     (case cfg_as_table (snd fv) of
        None \<Rightarrow>
          push_diag ''permissions.invalid.nested_field_map''
            (''permissions.'' @ key @ ''.'' @ fst fv @ '' must be a map of pattern -> action'') cfg
      | Some pattern_table \<Rightarrow> fold (toml_pattern key (fst fv)) pattern_table cfg)"

definition toml_entry :: "str \<times> cfg_value \<Rightarrow> permissions_config \<Rightarrow> permissions_config" where
  "toml_entry kv cfg =
     (let key = fst kv; v = snd kv in
      if key = decision_timeout_key then
        (case cfg_as_integer v of
           Some secs \<Rightarrow>
             (if secs = 0 then cfg\<lparr>pc_decision_timeout := None\<rparr>
              else if 0 < secs then cfg\<lparr>pc_decision_timeout := Some (nat secs)\<rparr>
              else push_diag ''permissions.invalid.decision_timeout''
                (''permissions.'' @ decision_timeout_key
                 @ '' must be a non-negative integer number of seconds'') cfg)
         | None \<Rightarrow>
             push_diag ''permissions.invalid.decision_timeout''
               (''permissions.'' @ decision_timeout_key
                @ '' must be a non-negative integer number of seconds'') cfg)
      else if key = ''*'' then
        (case value_to_action v of
           Inr action \<Rightarrow> cfg\<lparr>pc_global := action\<rparr>
         | Inl message \<Rightarrow> push_diag ''permissions.invalid.global_action'' message cfg)
      else
        (case cfg_as_table v of
           Some field_table \<Rightarrow> fold (toml_field key) field_table cfg
         | None \<Rightarrow>
             (case value_to_action v of
                Inr action \<Rightarrow> cfg\<lparr>pc_tool_rules := bt_put key action (pc_tool_rules cfg)\<rparr>
              | Inl message \<Rightarrow>
                  push_diag ''permissions.invalid.tool_action''
                    (message @ '' for key '' @ quoted key) cfg)))"

definition toml_start :: permissions_config where
  "toml_start =
     \<lparr>pc_global = Ask, pc_tool_rules = [], pc_nested_field_rules = [], pc_diagnostics = [],
      pc_decision_timeout = Some default_decision_timeout\<rparr>"

definition from_toml :: "cfg_value \<Rightarrow> bool \<Rightarrow> permissions_config" where
  "from_toml value interactive =
     (case cfg_as_table value of
        None \<Rightarrow> safe_defaults interactive
      | Some table \<Rightarrow> fold toml_entry table toml_start)"

text \<open>\<open>permissions\<close> is the \<open>permissions\<close> field of the plugin configuration.\<close>

definition from_plugin_config :: "cfg_value option \<Rightarrow> bool \<Rightarrow> permissions_config" where
  "from_plugin_config permissions interactive =
     (case permissions of
        Some value \<Rightarrow> from_toml value interactive
      | None \<Rightarrow> safe_defaults interactive)"

definition path_segment :: "str \<Rightarrow> str" where
  "path_segment s = concat (map (\<lambda>c. if c = CHR ''.'' then [CHR 0x5C, CHR ''.''] else [c]) s)"

definition empty_overlay :: permissions_overlay where
  "empty_overlay = \<lparr>po_global = None, po_tool_rules = [], po_nested_field_rules = []\<rparr>"

definition map_err :: "('e \<Rightarrow> 'f) \<Rightarrow> 'e + 'a \<Rightarrow> 'f + 'a" where
  "map_err f r = (case r of Inl e \<Rightarrow> Inl (f e) | Inr a \<Rightarrow> Inr a)"

text \<open>A \<open>for\<close> loop whose body may return early with an error.\<close>

fun try_fold :: "('x \<Rightarrow> 's \<Rightarrow> 'e + 's) \<Rightarrow> 'x list \<Rightarrow> 's \<Rightarrow> 'e + 's" where
  "try_fold f [] s = Inr s"
| "try_fold f (x # xs) s = (case f x s of Inl e \<Rightarrow> Inl e | Inr s' \<Rightarrow> try_fold f xs s')"

definition must_be_map :: "str \<Rightarrow> str \<Rightarrow> str" where
  "must_be_map key field =
     ''permissions.'' @ key @ ''.'' @ field
     @ '' value must be a map of pattern -> action (path: permissions.'' @ key @ ''.'' @ field @ '')''"

definition cli_pattern ::
  "str \<Rightarrow> str \<Rightarrow> str \<times> cfg_value \<Rightarrow> permissions_overlay \<Rightarrow> str + permissions_overlay" where
  "cli_pattern key field pv ov =
     (case map_err (\<lambda>msg. msg @ '' (path: permissions.'' @ path_segment key @ ''.'' @ field
                          @ ''.'' @ fst pv @ '')'') (value_to_action (snd pv)) of
        Inl e \<Rightarrow> Inl e
      | Inr action \<Rightarrow>
          Inr (ov\<lparr>po_nested_field_rules :=
            push_nested key field (fst pv, action) (po_nested_field_rules ov)\<rparr>))"

definition cli_field ::
  "str \<Rightarrow> str \<times> cfg_value \<Rightarrow> permissions_overlay \<Rightarrow> str + permissions_overlay" where
  "cli_field key fv ov =
     (case cfg_as_table (snd fv) of
        None \<Rightarrow> Inl (must_be_map (path_segment key) (fst fv))
      | Some pattern_record \<Rightarrow> try_fold (cli_pattern key (fst fv)) pattern_record ov)"

definition cli_entry :: "str \<times> cfg_value \<Rightarrow> permissions_overlay \<Rightarrow> str + permissions_overlay" where
  "cli_entry kv ov =
     (let key = fst kv; v = snd kv in
      if key = ''*'' then
        (case map_err (\<lambda>msg. msg @ '' (path: permissions.*)'') (value_to_action v) of
           Inl e \<Rightarrow> Inl e
         | Inr action \<Rightarrow> Inr (ov\<lparr>po_global := Some action\<rparr>))
      else
        (case cfg_as_table v of
           Some field_record \<Rightarrow> try_fold (cli_field key) field_record ov
         | None \<Rightarrow>
             (case map_err (\<lambda>msg. msg @ '' (path: permissions.'' @ path_segment key @ '')'')
                     (value_to_action v) of
                Inl e \<Rightarrow> Inl e
              | Inr action \<Rightarrow> Inr (ov\<lparr>po_tool_rules := bt_put key action (po_tool_rules ov)\<rparr>))))"

definition parse_from_cli_value :: "cfg_value \<Rightarrow> str + permissions_overlay" where
  "parse_from_cli_value value =
     (case cfg_as_table value of
        None \<Rightarrow> Inl ''permissions must be a record/object (path: permissions)''
      | Some permissions_record \<Rightarrow> try_fold cli_entry permissions_record empty_overlay)"

text \<open>The YAML parser reports a missing text and an unknown action with messages of its own.\<close>

definition yaml_action :: "str \<Rightarrow> str \<Rightarrow> cfg_value \<Rightarrow> str + permission_action" where
  "yaml_action not_a_string path v =
     (case cfg_as_str v of
        None \<Rightarrow> Inl not_a_string
      | Some s \<Rightarrow>
          (case action_from_str s of
             None \<Rightarrow> Inl (''invalid permission action '' @ quoted s
                         @ '' (path: permissions.'' @ path @ '')'')
           | Some a \<Rightarrow> Inr a))"

definition yaml_pattern ::
  "str \<Rightarrow> str \<Rightarrow> str \<times> cfg_value \<Rightarrow> permissions_overlay \<Rightarrow> str + permissions_overlay" where
  "yaml_pattern key field pv ov =
     (case yaml_action
             (''permissions.'' @ key @ ''.'' @ field @ '' value must be a string (path: permissions.''
              @ key @ ''.'' @ field @ ''.'' @ fst pv @ '')'')
             (key @ ''.'' @ field @ ''.'' @ fst pv) (snd pv) of
        Inl e \<Rightarrow> Inl e
      | Inr action \<Rightarrow>
          Inr (ov\<lparr>po_nested_field_rules :=
            push_nested key field (fst pv, action) (po_nested_field_rules ov)\<rparr>))"

definition yaml_field ::
  "str \<Rightarrow> str \<times> cfg_value \<Rightarrow> permissions_overlay \<Rightarrow> str + permissions_overlay" where
  "yaml_field key fv ov =
     (case cfg_as_table (snd fv) of
        None \<Rightarrow> Inl (must_be_map key (fst fv))
      | Some pattern_mapping \<Rightarrow> try_fold (yaml_pattern key (fst fv)) pattern_mapping ov)"

definition yaml_entry :: "str \<times> cfg_value \<Rightarrow> permissions_overlay \<Rightarrow> str + permissions_overlay" where
  "yaml_entry kv ov =
     (let key = fst kv; v = snd kv in
      if key = ''*'' then
        (case yaml_action ''permissions.* value must be a string (path: permissions.*)'' ''*'' v of
           Inl e \<Rightarrow> Inl e
         | Inr action \<Rightarrow> Inr (ov\<lparr>po_global := Some action\<rparr>))
      else
        (case cfg_as_table v of
           Some field_mapping \<Rightarrow> try_fold (yaml_field key) field_mapping ov
         | None \<Rightarrow>
             (case yaml_action
                     (''permissions.'' @ key @ '' value must be a string (path: permissions.''
                      @ path_segment key @ '')'') (path_segment key) v of
                Inl e \<Rightarrow> Inl e
              | Inr action \<Rightarrow> Inr (ov\<lparr>po_tool_rules := bt_put key action (po_tool_rules ov)\<rparr>))))"

definition parse_from_yaml :: "(str \<times> cfg_value) list \<Rightarrow> str + permissions_overlay" where
  "parse_from_yaml mapping = try_fold yaml_entry mapping empty_overlay"

section \<open>Overlays\<close>

definition overlay_is_empty :: "permissions_overlay \<Rightarrow> bool" where
  "overlay_is_empty ov \<longleftrightarrow>
     po_global ov = None \<and> po_tool_rules ov = [] \<and> po_nested_field_rules ov = []"

definition merge_field :: "str \<times> rules \<Rightarrow> (str \<times> rules) list \<Rightarrow> (str \<times> rules) list" where
  "merge_field fr tool_entry =
     (let base = (case map_of tool_entry (fst fr) of None \<Rightarrow> [] | Some r \<Rightarrow> r)
      in al_put (fst fr) (bt_of (base @ snd fr)) tool_entry)"

definition merge_tool :: "str \<times> (str \<times> rules) list \<Rightarrow> nested_rules \<Rightarrow> nested_rules" where
  "merge_tool tr m =
     (let tool_entry = (case map_of m (fst tr) of None \<Rightarrow> [] | Some fs \<Rightarrow> fs)
      in al_put (fst tr) (fold merge_field (snd tr) tool_entry) m)"

definition with_overlay :: "permissions_config \<Rightarrow> permissions_overlay \<Rightarrow> permissions_config" where
  "with_overlay cfg ov =
     \<lparr>pc_global = (case po_global ov of None \<Rightarrow> pc_global cfg | Some g \<Rightarrow> g),
      pc_tool_rules = bt_of (pc_tool_rules cfg @ po_tool_rules ov),
      pc_nested_field_rules = fold merge_tool (po_nested_field_rules ov) (pc_nested_field_rules cfg),
      pc_diagnostics = pc_diagnostics cfg,
      pc_decision_timeout = pc_decision_timeout cfg\<rparr>"

definition with_decision_timeout :: "permissions_config \<Rightarrow> nat option \<Rightarrow> permissions_config" where
  "with_decision_timeout cfg timeout = cfg\<lparr>pc_decision_timeout := timeout\<rparr>"

definition summary :: "permissions_config \<Rightarrow> permissions_summary" where
  "summary cfg =
     \<lparr>ps_global = pc_global cfg,
      ps_tool_rule_count = length (pc_tool_rules cfg),
      ps_nested_field_rule_count =
        sum_list (concat (map (\<lambda>(tool, fs). map (\<lambda>(field, rs). length rs) fs)
          (pc_nested_field_rules cfg)))\<rparr>"

definition resolve_effective_permissions ::
  "cfg_value option \<Rightarrow> permissions_overlay option \<Rightarrow> permissions_overlay option \<Rightarrow> bool \<Rightarrow>
   permissions_config \<times> permissions_config \<times> str" where
  "resolve_effective_permissions permissions agent_overlay cli_overlay interactive =
     (let base = from_plugin_config permissions interactive;
          e1 = (case agent_overlay of None \<Rightarrow> base | Some ov \<Rightarrow> with_overlay base ov);
          effective = (case cli_overlay of None \<Rightarrow> e1 | Some ov \<Rightarrow> with_overlay e1 ov);
          s = summary effective;
          overlay_active = (agent_overlay \<noteq> None \<or> cli_overlay \<noteq> None)
      in (base, effective,
          ''permissions policy: overlay_active='' @ (if overlay_active then ''true'' else ''false'')
          @ '' global='' @ action_as_str (ps_global s)
          @ '' tool_rules='' @ show_nat (ps_tool_rule_count s)
          @ '' nested_command_rules='' @ show_nat (ps_nested_field_rule_count s)))"

end
