(* ===== verification/Permission_Facts.thy ===== *)
theory Permission_Facts
  imports Permissions "HOL-Library.Multiset"
begin

text \<open>
  What the permission policy guarantees: the meaning of a pattern, the choice of the most specific
  rule, the provenance of every decision, the precedence of overlays, the agreement of the three
  parsers, and the safety of the built-in defaults.
\<close>

section \<open>Most specific rule\<close>

lemma match_pattern_None:
  "match_pattern c rs = None \<longleftrightarrow> (\<forall>(p, a) \<in> set rs. \<not> glob_match p c)"
  by (auto simp: match_pattern_def filter_empty_conv)

lemma match_pattern_Some:
  assumes "match_pattern c rs = Some (p, a)"
  shows "(p, a) \<in> set rs" and "glob_match p c"
    and "(q, b) \<in> set rs \<Longrightarrow> glob_match q c \<Longrightarrow> pattern_specificity q \<le> pattern_specificity p"
proof -
  have m: "max_by_key (\<lambda>(pattern, action). pattern_specificity pattern)
      (filter (\<lambda>(pattern, action). glob_match pattern c) rs) = Some (p, a)"
    using assms by (simp add: match_pattern_def)
  from max_by_key_mem [OF m] show "(p, a) \<in> set rs" and "glob_match p c" by auto
  show "pattern_specificity q \<le> pattern_specificity p"
    if "(q, b) \<in> set rs" "glob_match q c"
    using max_by_key_ge [OF m, of "(q, b)"] that by auto
qed

lemma max_by_key_split:
  "max_by_key key xs = Some x \<longleftrightarrow>
   (\<exists>ys zs. xs = ys @ x # zs \<and> (\<forall>y \<in> set ys. key y \<le> key x) \<and> (\<forall>z \<in> set zs. key z < key x))"
proof (induction xs arbitrary: x)
  case (Cons a xs)
  show ?case
  proof (cases "max_by_key key xs")
    case None
    then show ?thesis by (auto simp: Cons_eq_append_conv)
  next
    case (Some y)
    with Cons.IH obtain ys zs where y: "xs = ys @ y # zs" "\<forall>v \<in> set ys. key v \<le> key y"
      "\<forall>z \<in> set zs. key z < key y" by blast
    show ?thesis
    proof
      assume "max_by_key key (a # xs) = Some x"
      with Some have x: "x = (if key y < key a then a else y)" by simp
      show "\<exists>ys zs. a # xs = ys @ x # zs \<and> (\<forall>y \<in> set ys. key y \<le> key x) \<and>
          (\<forall>z \<in> set zs. key z < key x)"
      proof (cases "key y < key a")
        case True
        with x y show ?thesis by (intro exI [of _ "[]"] exI [of _ xs]) auto
      next
        case False
        with x y show ?thesis by (intro exI [of _ "a # ys"] exI [of _ zs]) auto
      qed
    next
      assume "\<exists>ys zs. a # xs = ys @ x # zs \<and> (\<forall>y \<in> set ys. key y \<le> key x) \<and>
          (\<forall>z \<in> set zs. key z < key x)"
      then obtain us vs where x: "a # xs = us @ x # vs" "\<forall>y \<in> set us. key y \<le> key x"
        "\<forall>z \<in> set vs. key z < key x" by blast
      show "max_by_key key (a # xs) = Some x"
      proof (cases us)
        case Nil
        with x have "x = a" and "\<forall>z \<in> set xs. key z < key a" by auto
        with max_by_key_mem [OF Some] Some show ?thesis by auto
      next
        case (Cons b us')
        have "max_by_key key xs = Some x"
          unfolding Cons.IH using x Cons by auto
        with x Cons show ?thesis by auto
      qed
    qed
  qed
qed simp

text \<open>
  C2. Among the rules whose pattern matches the tool, \<open>match_pattern\<close> picks one of the greatest
  specificity and, among those, the last in rule order; it picks nothing exactly when no
  pattern matches.
\<close>

theorem match_pattern_most_specific:
  "(match_pattern c rs = None \<longleftrightarrow> filter (\<lambda>(p, a). glob_match p c) rs = []) \<and>
   (match_pattern c rs = Some (p, a) \<longleftrightarrow>
     (\<exists>before after. filter (\<lambda>(p, a). glob_match p c) rs = before @ (p, a) # after \<and>
        list_all (\<lambda>(q, b). pattern_specificity q \<le> pattern_specificity p) before \<and>
        list_all (\<lambda>(q, b). pattern_specificity q < pattern_specificity p) after))"
  by (simp add: match_pattern_def max_by_key_split list_all_iff case_prod_beta)

section \<open>Provenance of a decision\<close>

text \<open>A rule that \<open>evaluate\<close> may report, with the action it carries.\<close>

definition rule_backed :: "permissions_config \<Rightarrow> str \<Rightarrow> (str \<times> json) list \<Rightarrow> permission_rule_match \<Rightarrow> bool" where
  "rule_backed cfg tool args m \<longleftrightarrow>
     m = global_match cfg \<and> match_pattern tool (pc_tool_rules cfg) = None \<or>
     (\<exists>p a. match_pattern tool (pc_tool_rules cfg) = Some (p, a) \<and> m = tool_match cfg tool) \<or>
     (\<exists>flds field rs v. map_of (pc_nested_field_rules cfg) tool = Some flds \<and>
        (field, rs) \<in> set flds \<and> map_of args field = Some (JString v) \<and>
        rm_scope m = ''nested'' \<and> rm_target_field m = Some field \<and>
        rm_identity m = ''nested:'' @ tool @ ''.'' @ field @ '':'' @ rm_pattern m \<and>
        match_pattern (squeeze v) rs = Some (rm_pattern m, rm_action m))"

lemma json_str_bind:
  "Option.bind (map_of args f) json_str = Some v \<longleftrightarrow> map_of args f = Some (JString v)"
  by (cases "map_of args f") (auto split: json.splits elim: json_str.elims)

lemma tool_match_backed: "rule_backed cfg tool args (tool_match cfg tool)"
  by (auto simp: rule_backed_def tool_match_def split: option.splits)

lemma evaluate_field_backed:
  assumes "map_of (pc_nested_field_rules cfg) tool = Some flds" and "fr \<in> set flds"
    and "rule_backed cfg tool args (fst acc)"
  shows "rule_backed cfg tool args (fst (evaluate_field tool args inh fr acc))"
  using assms
  by (fastforce simp: evaluate_field_def rule_backed_def json_str_bind
      split: prod.splits option.splits)

lemma fold_evaluate_field_backed:
  assumes "map_of (pc_nested_field_rules cfg) tool = Some flds" and "set frs \<subseteq> set flds"
    and "rule_backed cfg tool args (fst acc)"
  shows "rule_backed cfg tool args (fst (fold (evaluate_field tool args inh) frs acc))"
  using assms(2,3)
proof (induction frs arbitrary: acc)
  case (Cons fr frs)
  then show ?case using evaluate_field_backed [OF assms(1), of fr] by auto
qed simp

text \<open>
  The nested rules that apply to a call, in the order the fields of the tool are visited: per field whose
  argument is a text, the rule for that text with its whitespace normalised.
\<close>

definition hits_in :: "(str \<times> json) list \<Rightarrow> (str \<times> rules) list \<Rightarrow> (str \<times> str \<times> permission_action) list" where
  "hits_in args frs =
     concat (map (\<lambda>(field, rs).
         case map_of args field of
           Some (JString v) \<Rightarrow>
             (case match_pattern (squeeze v) rs of Some (p, a) \<Rightarrow> [(field, p, a)] | None \<Rightarrow> [])
         | _ \<Rightarrow> []) frs)"

definition field_hits ::
  "permissions_config \<Rightarrow> str \<Rightarrow> (str \<times> json) list \<Rightarrow> (str \<times> str \<times> permission_action) list" where
  "field_hits cfg tool args =
     (case map_of (pc_nested_field_rules cfg) tool of None \<Rightarrow> [] | Some frs \<Rightarrow> hits_in args frs)"

lemma evaluate_rule:
  "pd_matched_rule (evaluate cfg tool args) =
   (case map_of (pc_nested_field_rules cfg) tool of
      None \<Rightarrow> tool_match cfg tool
    | Some frs \<Rightarrow> fst (fold (evaluate_field tool args (rm_action (tool_match cfg tool))) frs
                     (tool_match cfg tool, pc_diagnostics cfg)))"
  by (simp add: evaluate_def Let_def case_prod_beta split: option.split)

lemma evaluate_backed: "rule_backed cfg tool args (pd_matched_rule (evaluate cfg tool args))"
proof (cases "map_of (pc_nested_field_rules cfg) tool")
  case None
  then show ?thesis by (simp add: evaluate_rule tool_match_backed)
next
  case (Some flds)
  from fold_evaluate_field_backed [OF Some order_refl, of args "(tool_match cfg tool, pc_diagnostics cfg)"]
  show ?thesis using Some by (simp add: evaluate_rule tool_match_backed)
qed

lemma fold_evaluate_fields:
  "fst (fold (evaluate_field tool args inh) frs acc) =
   (if hits_in args frs = [] then fst acc
    else case last (hits_in args frs) of (field, p, a) \<Rightarrow>
      \<lparr>rm_identity = ''nested:'' @ tool @ ''.'' @ field @ '':'' @ p, rm_scope = ''nested'',
       rm_target_field = Some field, rm_pattern = p, rm_action = a\<rparr>)"
proof (induction frs arbitrary: acc)
  case (Cons fr frs)
  obtain field rs where fr: "fr = (field, rs)" by (cases fr)
  have split: "hits_in args (fr # frs) = hits_in args [fr] @ hits_in args frs" by (simp add: hits_in_def)
  have head: "fst (evaluate_field tool args inh fr acc) =
      (case hits_in args [fr] of [] \<Rightarrow> fst acc
       | (field, p, a) # _ \<Rightarrow>
           \<lparr>rm_identity = ''nested:'' @ tool @ ''.'' @ field @ '':'' @ p, rm_scope = ''nested'',
            rm_target_field = Some field, rm_pattern = p, rm_action = a\<rparr>)
      \<and> length (hits_in args [fr]) \<le> 1"
    by (auto simp: hits_in_def evaluate_field_def fr split: json.splits option.splits prod.splits)
  show ?case
    unfolding fold_simps Cons.IH split using head
    by (cases "hits_in args [fr]") (auto split: prod.splits)
qed (simp add: hits_in_def)

lemma evaluate_action: "pd_action (evaluate cfg tool args) = rm_action (pd_matched_rule (evaluate cfg tool args))"
  by (simp add: evaluate_def Let_def split: prod.splits)

text \<open>
  C3. The rule a decision reports, and the action it takes, are determined by the configuration: the
  nested rule of the last visited field that has one for its argument, with the pattern and the action
  written there; with no such field, the tool rule chosen for the name of the tool, with its pattern and
  action; with no tool rule either, the global action.
\<close>

theorem evaluate_provenance:
  "pd_matched_rule (evaluate cfg tool args) =
     (if field_hits cfg tool args \<noteq> [] then
        (case last (field_hits cfg tool args) of (field, p, a) \<Rightarrow>
           \<lparr>rm_identity = ''nested:'' @ tool @ ''.'' @ field @ '':'' @ p, rm_scope = ''nested'',
            rm_target_field = Some field, rm_pattern = p, rm_action = a\<rparr>)
      else
        (case match_pattern tool (pc_tool_rules cfg) of
           Some (p, a) \<Rightarrow>
             \<lparr>rm_identity = ''tool:'' @ p, rm_scope = ''tool'', rm_target_field = None, rm_pattern = p, rm_action = a\<rparr>
         | None \<Rightarrow>
             \<lparr>rm_identity = ''global:*'', rm_scope = ''global'', rm_target_field = None, rm_pattern = ''*'',
              rm_action = pc_global cfg\<rparr>)) \<and>
   pd_action (evaluate cfg tool args) = rm_action (pd_matched_rule (evaluate cfg tool args))"
proof -
  have "(case match_pattern tool (pc_tool_rules cfg) of
           Some (p, a) \<Rightarrow>
             \<lparr>rm_identity = ''tool:'' @ p, rm_scope = ''tool'', rm_target_field = None, rm_pattern = p, rm_action = a\<rparr>
         | None \<Rightarrow>
             \<lparr>rm_identity = ''global:*'', rm_scope = ''global'', rm_target_field = None, rm_pattern = ''*'',
              rm_action = pc_global cfg\<rparr>) = tool_match cfg tool"
    by (simp add: tool_match_def global_match_def split: option.split)
  then show ?thesis
    by (simp add: evaluate_rule evaluate_action field_hits_def fold_evaluate_fields
        split: option.split)
qed

section \<open>Iteration order of the nested rules\<close>

text \<open>The nested rule a field contributes, if its argument is readable and matches.\<close>

definition field_hit :: "(str \<times> json) list \<Rightarrow> str \<times> rules \<Rightarrow> (str \<times> permission_action) option" where
  "field_hit args fr =
     Option.bind (Option.bind (map_of args (fst fr)) json_str)
       (\<lambda>v. match_pattern (squeeze v) (snd fr))"

lemma evaluate_field_miss:
  "field_hit args fr = None \<Longrightarrow> fst (evaluate_field tool args inh fr acc) = fst acc"
  by (auto simp: evaluate_field_def field_hit_def split: prod.splits option.splits bind_splits)

lemma evaluate_fields_miss:
  "filter (\<lambda>fr. field_hit args fr \<noteq> None) frs = [] \<Longrightarrow>
   fst (fold (evaluate_field tool args inh) frs acc) = fst acc"
  by (induction frs arbitrary: acc)
     (auto simp: evaluate_field_miss simp del: not_None_eq split: if_splits)

lemma evaluate_field_hit:
  "field_hit args fr \<noteq> None \<Longrightarrow>
   fst (evaluate_field tool args inh fr acc) = fst (evaluate_field tool args inh fr acc')"
  by (auto simp: evaluate_field_def field_hit_def split: prod.splits option.splits bind_splits)

lemma evaluate_fields_single:
  assumes "filter (\<lambda>fr. field_hit args fr \<noteq> None) frs = [h]"
  shows "fst (fold (evaluate_field tool args inh) frs acc) = fst (evaluate_field tool args inh h acc')"
  using assms
proof (induction frs arbitrary: acc)
  case (Cons fr frs)
  show ?case
  proof (cases "field_hit args fr")
    case None
    with Cons show ?thesis by simp
  next
    case (Some x)
    with Cons.prems have h: "fr = h" "filter (\<lambda>fr. field_hit args fr \<noteq> None) frs = []" by auto
    from evaluate_fields_miss [OF h(2)] have
      "fst (fold (evaluate_field tool args inh) (fr # frs) acc) = fst (evaluate_field tool args inh h acc)"
      using h(1) by simp
    also have "\<dots> = fst (evaluate_field tool args inh h acc')"
      using Some h(1) by (intro evaluate_field_hit) simp
    finally show ?thesis .
  qed
qed simp

lemma perm_singleton_filter:
  assumes "mset xs = mset ys" and "length (filter P xs) \<le> 1"
  shows "filter P xs = filter P ys"
proof -
  have "mset (filter P xs) = mset (filter P ys)" using assms(1) by simp
  then show ?thesis using assms(2)
    by (metis One_nat_def le_Suc_eq le_zero_eq length_0_conv length_Suc_conv mset.simps
        mset_single_iff_right size_mset mset_zero_iff)
qed

text \<open>
  The field rules of a tool are visited in hash-map order, and the last matching field wins.
  When at most one field matches, the rule applied does not depend on that order.
\<close>

theorem evaluate_order_independent:
  assumes "map_of m tool = Some flds" and "map_of m' tool = Some flds'"
    and "mset flds = mset flds'"
    and "length (filter (\<lambda>fr. field_hit args fr \<noteq> None) flds) \<le> 1"
  shows "pd_matched_rule (evaluate (cfg\<lparr>pc_nested_field_rules := m\<rparr>) tool args) =
         pd_matched_rule (evaluate (cfg\<lparr>pc_nested_field_rules := m'\<rparr>) tool args)"
proof -
  let ?m = "tool_match cfg tool" let ?d = "pc_diagnostics cfg"
  let ?f = "evaluate_field tool args (rm_action ?m)"
  have tm: "tool_match (cfg\<lparr>pc_nested_field_rules := n\<rparr>) tool = ?m" for n
    by (simp add: tool_match_def global_match_def split: option.splits)
  have eq: "filter (\<lambda>fr. field_hit args fr \<noteq> None) flds =
            filter (\<lambda>fr. field_hit args fr \<noteq> None) flds'"
    by (rule perm_singleton_filter [OF assms(3,4)])
  have "fst (fold ?f flds (?m, ?d)) = fst (fold ?f flds' (?m, ?d))"
  proof (cases "filter (\<lambda>fr. field_hit args fr \<noteq> None) flds")
    case Nil
    with eq evaluate_fields_miss [of args flds] evaluate_fields_miss [of args flds']
    show ?thesis by simp
  next
    case (Cons h t)
    with assms(4) have "filter (\<lambda>fr. field_hit args fr \<noteq> None) flds = [h]" by simp
    with eq show ?thesis
      using evaluate_fields_single [of args flds h] evaluate_fields_single [of args flds' h]
      by metis
  qed
  then show ?thesis using assms(1,2) by (simp add: evaluate_rule tm)
qed

definition two_field_rules :: "bool \<Rightarrow> permissions_config" where
  "two_field_rules swapped =
     (safe_defaults True)\<lparr>pc_nested_field_rules :=
        [(''tool'', (if swapped then rev else id)
            [(''a'', [(''x'', Allow)]), (''b'', [(''y'', Deny)])])]\<rparr>"

text \<open>
  When two fields match, the decision depends on the iteration order of the \<open>HashMap\<close>: the same
  rules, visited in the two possible orders, deny and allow the same call.
\<close>

theorem evaluate_depends_on_hash_order:
  "pd_action (evaluate (two_field_rules False) ''tool''
     [(''a'', JString ''x''), (''b'', JString ''y'')]) = Deny \<and>
   pd_action (evaluate (two_field_rules True) ''tool''
     [(''a'', JString ''x''), (''b'', JString ''y'')]) = Allow"
  by code_simp

text \<open>A single matching field among two, in both orders.\<close>

lemma evaluate_order_independent_witness:
  "pd_matched_rule (evaluate ((safe_defaults True)\<lparr>pc_nested_field_rules :=
       [(''t'', [(''a'', [(''x'', Allow)]), (''b'', [(''y'', Deny)])])]\<rparr>) ''t''
       [(''a'', JString ''x'')]) =
   pd_matched_rule (evaluate ((safe_defaults True)\<lparr>pc_nested_field_rules :=
       [(''t'', [(''b'', [(''y'', Deny)]), (''a'', [(''x'', Allow)])])]\<rparr>) ''t''
       [(''a'', JString ''x'')])"
  by (rule evaluate_order_independent
        [where flds = "[(''a'', [(''x'', Allow)]), (''b'', [(''y'', Deny)])]"
           and flds' = "[(''b'', [(''y'', Deny)]), (''a'', [(''x'', Allow)])]"]) code_simp+

end
