(* ===== verification/Overlay_Facts.thy ===== *)
theory Overlay_Facts
  imports Permissions
begin

text \<open>
  Overlays and parsers of the permission policy: an overlay wins on every key it sets and leaves the
  others alone, the YAML and the command-line parser accept the same inputs, and the lenient TOML
  parser agrees with the strict ones exactly when it reports no diagnostic.
\<close>

section \<open>Lookups through an overlay\<close>

text \<open>A hash map has each key once, at both levels of the nested rules.\<close>

definition nested_ok :: "nested_rules \<Rightarrow> bool" where
  "nested_ok m \<longleftrightarrow> distinct (map fst m) \<and> list_all (\<lambda>(t, fs). distinct (map fst fs)) m"

definition nested_lookup :: "nested_rules \<Rightarrow> str \<Rightarrow> str \<Rightarrow> str \<Rightarrow> permission_action option" where
  "nested_lookup m tool field pattern =
     (case map_of m tool of None \<Rightarrow> None
      | Some fs \<Rightarrow> (case map_of fs field of None \<Rightarrow> None | Some rs \<Rightarrow> map_of (rev rs) pattern))"

lemma map_of_rev_bt_of [simp]: "map_of (rev (bt_of ps)) = map_of (rev ps)"
proof -
  have "distinct (map fst (bt_of ps))"
    using sorted_bt_of [of ps] by (simp add: strict_sorted_iff)
  then have "map_of (rev (bt_of ps)) = map_of (bt_of ps)"
    by (subst map_of_inject_set) (simp_all flip: rev_map)
  then show ?thesis by (simp add: map_of_bt_of)
qed

definition opt_list :: "'a list option \<Rightarrow> 'a list" where
  "opt_list x = (case x of None \<Rightarrow> [] | Some xs \<Rightarrow> xs)"

lemma opt_list_simps [simp]: "opt_list None = []" "opt_list (Some xs) = xs"
  by (simp_all add: opt_list_def)

lemma merge_field_lookup:
  "map_of (merge_field fr m) =
   (map_of m)(fst fr \<mapsto> bt_of (opt_list (map_of m (fst fr)) @ snd fr))"
  by (simp add: merge_field_def opt_list_def)

lemma merge_fields_lookup:
  "distinct (map fst frs) \<Longrightarrow>
   map_of (fold merge_field frs m) g =
     (case map_of frs g of None \<Rightarrow> map_of m g
      | Some rs \<Rightarrow> Some (bt_of (opt_list (map_of m g) @ rs)))"
proof (induction frs arbitrary: m)
  case (Cons fr frs)
  then show ?case
    by (cases fr) (auto simp: merge_field_lookup map_of_eq_None_iff image_iff split: option.splits)
qed simp

lemma merge_tool_lookup:
  "map_of (merge_tool tr m) =
   (map_of m)(fst tr \<mapsto> fold merge_field (snd tr) (opt_list (map_of m (fst tr))))"
  by (simp add: merge_tool_def opt_list_def)

lemma merge_tools_lookup:
  "distinct (map fst trs) \<Longrightarrow>
   map_of (fold merge_tool trs m) t =
     (case map_of trs t of None \<Rightarrow> map_of m t
      | Some fs \<Rightarrow> Some (fold merge_field fs (opt_list (map_of m t))))"
proof (induction trs arbitrary: m)
  case (Cons tr trs)
  then show ?case
    by (cases tr) (auto simp: merge_tool_lookup map_of_eq_None_iff image_iff split: option.splits)
qed simp

lemma nested_overlay_lookup:
  assumes "nested_ok trs"
  shows "nested_lookup (fold merge_tool trs m) t f p =
     (case nested_lookup trs t f p of Some a \<Rightarrow> Some a | None \<Rightarrow> nested_lookup m t f p)"
proof (cases "map_of trs t")
  case None
  with assms show ?thesis by (simp add: nested_lookup_def nested_ok_def merge_tools_lookup)
next
  case (Some fs)
  then have d: "distinct (map fst fs)" and dt: "distinct (map fst trs)"
    using assms by (auto simp: nested_ok_def list_all_iff dest!: map_of_SomeD)
  show ?thesis
    using Some dt
    by (auto simp: nested_lookup_def merge_tools_lookup merge_fields_lookup [OF d] map_add_def
        split: option.splits)
qed

text \<open>
  C4. An overlay wins wherever it sets a value: the merged global action, tool rules and nested rules
  look up the overlay first and the base second, the tool rules come out sorted and without
  duplicates, and diagnostics and timeout are those of the base.
\<close>

theorem with_overlay_lookup:
  assumes "nested_ok (po_nested_field_rules ov)"
  shows "pc_global (with_overlay cfg ov) = (case po_global ov of Some g \<Rightarrow> g | None \<Rightarrow> pc_global cfg) \<and>
    map_of (pc_tool_rules (with_overlay cfg ov)) =
      map_of (rev (pc_tool_rules cfg)) ++ map_of (rev (po_tool_rules ov)) \<and>
    sorted_wrt (<) (map fst (pc_tool_rules (with_overlay cfg ov))) \<and>
    nested_lookup (pc_nested_field_rules (with_overlay cfg ov)) t f p =
      (case nested_lookup (po_nested_field_rules ov) t f p of Some a \<Rightarrow> Some a
       | None \<Rightarrow> nested_lookup (pc_nested_field_rules cfg) t f p) \<and>
    pc_diagnostics (with_overlay cfg ov) = pc_diagnostics cfg \<and>
    pc_decision_timeout (with_overlay cfg ov) = pc_decision_timeout cfg"
  using assms
  by (simp add: with_overlay_def map_of_bt_of sorted_bt_of nested_overlay_lookup
      split: option.split)

definition sample_overlay :: permissions_overlay where
  "sample_overlay = \<lparr>po_global = Some Deny, po_tool_rules = [(''nu'', Allow)],
     po_nested_field_rules = [(''tmux_pane'', [(''action'', [(''find'', Deny)])])]\<rparr>"

lemma with_overlay_lookup_witness:
  "nested_lookup (pc_nested_field_rules (with_overlay (safe_defaults True) sample_overlay))
     ''tmux_pane'' ''action'' ''find'' = Some Deny"
proof -
  have "nested_ok (po_nested_field_rules sample_overlay)" by code_simp
  from with_overlay_lookup [OF this, of "safe_defaults True" "''tmux_pane''" "''action''" "''find''"]
  have "nested_lookup (pc_nested_field_rules (with_overlay (safe_defaults True) sample_overlay))
     ''tmux_pane'' ''action'' ''find'' =
     (case nested_lookup (po_nested_field_rules sample_overlay) ''tmux_pane'' ''action'' ''find'' of
        Some a \<Rightarrow> Some a
      | None \<Rightarrow> nested_lookup (pc_nested_field_rules (safe_defaults True))
                  ''tmux_pane'' ''action'' ''find'')"
    by (elim conjE)
  moreover have "nested_lookup (po_nested_field_rules sample_overlay)
     ''tmux_pane'' ''action'' ''find'' = Some Deny" by code_simp
  ultimately show ?thesis by simp
qed

section \<open>The strict parsers accept the same inputs\<close>

lemma try_fold_cong:
  assumes "\<And>x s s'. f x s = Inr s' \<longleftrightarrow> g x s = Inr s'"
  shows "try_fold f xs s = Inr s' \<longleftrightarrow> try_fold g xs s = Inr s'"
proof (induction xs arbitrary: s)
  case (Cons x xs)
  show ?case
  proof (cases "g x s")
    case (Inl e)
    with assms [of x s] have "\<And>s'. f x s \<noteq> Inr s'" by simp
    then obtain e' where "f x s = Inl e'" by (cases "f x s") auto
    with Inl show ?thesis by simp
  next
    case (Inr b)
    with assms [of x s b] Cons show ?thesis by simp
  qed
qed simp

lemma yaml_action_eq: "yaml_action e p v = Inr a \<longleftrightarrow> value_to_action v = Inr a"
  by (auto simp: yaml_action_def value_to_action_def split: option.splits)

lemma map_err_Inr [simp]: "map_err f r = Inr a \<longleftrightarrow> r = Inr a"
  by (cases r) (auto simp: map_err_def)

lemma value_to_action_cases:
  obtains (ok) a where "value_to_action v = Inr a" "\<And>e p. yaml_action e p v = Inr a"
  | (bad) m where "value_to_action v = Inl m" "\<And>e p a. yaml_action e p v \<noteq> Inr a"
proof (cases "value_to_action v")
  case (Inl m)
  then show ?thesis by (intro bad) (simp_all add: yaml_action_eq)
next
  case (Inr a)
  then show ?thesis by (intro ok) (simp_all add: yaml_action_eq)
qed

lemma pattern_parsers_agree:
  "cli_pattern k f pv ov = Inr ov' \<longleftrightarrow> yaml_pattern k f pv ov = Inr ov'"
  by (cases "snd pv" rule: value_to_action_cases)
     (auto simp: cli_pattern_def yaml_pattern_def map_err_def split: sum.splits)

lemma field_parsers_agree: "cli_field k fv ov = Inr ov' \<longleftrightarrow> yaml_field k fv ov = Inr ov'"
  by (simp add: cli_field_def yaml_field_def try_fold_cong [OF pattern_parsers_agree]
      split: option.split)

lemma entry_parsers_agree: "cli_entry kv ov = Inr ov' \<longleftrightarrow> yaml_entry kv ov = Inr ov'"
proof (cases "cfg_as_table (snd kv)")
  case None
  then show ?thesis
    by (cases "snd kv" rule: value_to_action_cases)
       (auto simp: cli_entry_def yaml_entry_def map_err_def Let_def split: sum.splits)
next
  case (Some t)
  then show ?thesis
    by (cases "snd kv" rule: value_to_action_cases)
       (auto simp: cli_entry_def yaml_entry_def map_err_def Let_def
          try_fold_cong [OF field_parsers_agree] split: sum.splits)
qed

lemma parsers_agree: "parse_from_cli_value (CTable m) = Inr ov \<longleftrightarrow> parse_from_yaml m = Inr ov"
  by (simp add: parse_from_cli_value_def parse_from_yaml_def try_fold_cong [OF entry_parsers_agree])

text \<open>
  The permissions block of an agent file and the one of the command line mean the same: the two
  parsers accept exactly the same tables and produce the same overlay.
\<close>

theorem cli_and_yaml_parsers_agree:
  "parse_from_cli_value (CTable m) = Inr ov \<longleftrightarrow> parse_from_yaml m = Inr ov"
  by (rule parsers_agree)

section \<open>The lenient parser against the strict one\<close>

text \<open>The configuration an overlay stands for when there is nothing below it.\<close>

definition config_of_overlay :: "permissions_overlay \<Rightarrow> permissions_config" where
  "config_of_overlay ov =
     toml_start\<lparr>pc_global := (case po_global ov of None \<Rightarrow> Ask | Some g \<Rightarrow> g),
       pc_tool_rules := po_tool_rules ov,
       pc_nested_field_rules := po_nested_field_rules ov\<rparr>"

definition diag_count :: "permissions_config \<Rightarrow> nat" where
  "diag_count cfg = length (pc_diagnostics cfg)"

lemma diag_count_simps [simp]:
  "diag_count (push_diag c m cfg) = Suc (diag_count cfg)"
  "diag_count (cfg\<lparr>pc_global := g\<rparr>) = diag_count cfg"
  "diag_count (cfg\<lparr>pc_tool_rules := r\<rparr>) = diag_count cfg"
  "diag_count (cfg\<lparr>pc_nested_field_rules := n\<rparr>) = diag_count cfg"
  "diag_count (cfg\<lparr>pc_decision_timeout := t\<rparr>) = diag_count cfg"
  by (simp_all add: diag_count_def push_diag_def)

text \<open>
  A lenient step \<open>g\<close> follows a strict step \<open>f\<close>: it does the same where the strict one succeeds and
  records a diagnostic where the strict one fails; it never removes one.
\<close>

definition follows ::
  "('x \<Rightarrow> permissions_overlay \<Rightarrow> str + permissions_overlay) \<Rightarrow>
   ('x \<Rightarrow> permissions_config \<Rightarrow> permissions_config) \<Rightarrow> 'x \<Rightarrow> bool" where
  "follows f g x \<longleftrightarrow>
     (\<forall>cfg. diag_count cfg \<le> diag_count (g x cfg)) \<and>
     (\<forall>ov. case f x ov of
        Inr ov' \<Rightarrow> g x (config_of_overlay ov) = config_of_overlay ov'
      | Inl e \<Rightarrow> 0 < diag_count (g x (config_of_overlay ov)))"

lemma followsI:
  assumes "\<And>cfg. diag_count cfg \<le> diag_count (g x cfg)"
    and "\<And>ov ov'. f x ov = Inr ov' \<Longrightarrow> g x (config_of_overlay ov) = config_of_overlay ov'"
    and "\<And>ov e. f x ov = Inl e \<Longrightarrow> 0 < diag_count (g x (config_of_overlay ov))"
  shows "follows f g x"
  using assms by (auto simp: follows_def split: sum.split)

lemma follows_cong:
  assumes "f x = f' y" and "g x = g' y" and "follows f' g' y"
  shows "follows f g x"
  using assms(3) unfolding follows_def assms(1,2) .

lemma diag_count_fold:
  "\<forall>x \<in> set xs. \<forall>cfg. diag_count cfg \<le> diag_count (g x cfg) \<Longrightarrow>
   diag_count cfg \<le> diag_count (fold g xs cfg)"
  by (induction xs arbitrary: cfg) (auto intro: order_trans)

lemma follows_mono: "follows f g x \<Longrightarrow> diag_count cfg \<le> diag_count (g x cfg)"
  by (simp add: follows_def)

lemma follows_fold:
  assumes "\<And>x. x \<in> set xs \<Longrightarrow> follows f g x"
  shows "follows (try_fold f) (fold g) xs"
proof (rule followsI)
  show "diag_count cfg \<le> diag_count (fold g xs cfg)" for cfg
    using assms by (intro diag_count_fold) (auto simp: follows_def)
  show "fold g xs (config_of_overlay ov) = config_of_overlay ov'"
    if "try_fold f xs ov = Inr ov'" for ov ov'
    using that assms
  proof (induction xs arbitrary: ov)
    case (Cons x xs)
    then obtain ov1 where "f x ov = Inr ov1" "try_fold f xs ov1 = Inr ov'"
      by (auto split: sum.splits)
    moreover have "follows f g x" using Cons.prems by simp
    ultimately show ?case using Cons by (force simp: follows_def split: sum.splits)
  qed simp
  show "0 < diag_count (fold g xs (config_of_overlay ov))"
    if "try_fold f xs ov = Inl e" for ov e
    using that assms
  proof (induction xs arbitrary: ov)
    case (Cons x xs)
    have x: "follows f g x" using Cons.prems by simp
    show ?case
    proof (cases "f x ov")
      case (Inl e')
      with x have "0 < diag_count (g x (config_of_overlay ov))"
        by (auto simp: follows_def split: sum.splits)
      also have "\<dots> \<le> diag_count (fold g xs (g x (config_of_overlay ov)))"
        using Cons.prems(2) by (intro diag_count_fold) (auto simp: follows_def)
      finally show ?thesis by simp
    next
      case (Inr ov1)
      with x have "g x (config_of_overlay ov) = config_of_overlay ov1"
        by (auto simp: follows_def split: sum.splits)
      with Inr Cons show ?thesis by simp
    qed
  qed simp
qed

lemma config_of_overlay_simps [simp]:
  "pc_nested_field_rules (config_of_overlay ov) = po_nested_field_rules ov"
  "pc_tool_rules (config_of_overlay ov) = po_tool_rules ov"
  "(config_of_overlay ov)\<lparr>pc_nested_field_rules := n\<rparr> =
     config_of_overlay (ov\<lparr>po_nested_field_rules := n\<rparr>)"
  "(config_of_overlay ov)\<lparr>pc_tool_rules := r\<rparr> = config_of_overlay (ov\<lparr>po_tool_rules := r\<rparr>)"
  "(config_of_overlay ov)\<lparr>pc_global := g\<rparr> = config_of_overlay (ov\<lparr>po_global := Some g\<rparr>)"
  by (simp_all add: config_of_overlay_def)

lemma pattern_follows: "follows (cli_pattern k f) (toml_pattern k f) pv"
  by (rule followsI)
     (auto simp: toml_pattern_def cli_pattern_def map_err_def split: sum.splits)

lemma field_follows: "follows (cli_field k) (toml_field k) fv"
proof (cases "cfg_as_table (snd fv)")
  case None
  then show ?thesis by (intro followsI) (auto simp: toml_field_def cli_field_def)
next
  case (Some t)
  then have "cli_field k fv = try_fold (cli_pattern k (fst fv)) t"
    and "toml_field k fv = fold (toml_pattern k (fst fv)) t"
    by (simp_all add: cli_field_def toml_field_def fun_eq_iff)
  moreover have "follows (try_fold (cli_pattern k (fst fv))) (fold (toml_pattern k (fst fv))) t"
    by (rule follows_fold) (rule pattern_follows)
  ultimately show ?thesis by (rule follows_cong)
qed

lemma entry_follows:
  assumes key: "fst kv \<noteq> decision_timeout_key"
  shows "follows cli_entry toml_entry kv"
proof (cases "fst kv = ''*'' \<or> cfg_as_table (snd kv) = None")
  case True
  then show ?thesis
    using key by (intro followsI)
      (auto simp: toml_entry_def cli_entry_def Let_def map_err_def split: sum.splits option.splits)
next
  case False
  then obtain t where t: "cfg_as_table (snd kv) = Some t" "fst kv \<noteq> ''*''" by auto
  then have "cli_entry kv = try_fold (cli_field (fst kv)) t"
    and "toml_entry kv = fold (toml_field (fst kv)) t"
    using key by (simp_all add: cli_entry_def toml_entry_def fun_eq_iff)
  moreover have "follows (try_fold (cli_field (fst kv))) (fold (toml_field (fst kv))) t"
    by (rule follows_fold) (rule field_follows)
  ultimately show ?thesis by (rule follows_cong)
qed

lemma toml_start_overlay: "toml_start = config_of_overlay empty_overlay"
  by (simp add: toml_start_def config_of_overlay_def empty_overlay_def)

lemma config_of_overlay_diags [simp]: "pc_diagnostics (config_of_overlay ov) = []"
  by (simp add: config_of_overlay_def toml_start_def)

lemma no_timeout_key:
  "\<lbrakk>decision_timeout_key \<notin> fst ` set t; kv \<in> set t\<rbrakk> \<Longrightarrow> fst kv \<noteq> decision_timeout_key"
  by (metis image_eqI)

text \<open>
  C5. On a permissions table without a timeout entry, the lenient TOML parser reports no diagnostic
  exactly when the strict parser accepts the table, and then both give the same rules; otherwise
  it still returns a configuration, with at least one diagnostic.  With such an entry the two differ
  (lemma \<open>timeout_entry_diverges\<close>).
\<close>

theorem toml_refines_strict_parser:
  assumes "decision_timeout_key \<notin> fst ` set t"
  shows "(pc_diagnostics (from_toml (CTable t) interactive) = [] \<longleftrightarrow>
           isl (parse_from_cli_value (CTable t)) = False) \<and>
         (case parse_from_cli_value (CTable t) of
            Inr ov \<Rightarrow> from_toml (CTable t) interactive = config_of_overlay ov
          | Inl e \<Rightarrow> pc_diagnostics (from_toml (CTable t) interactive) \<noteq> [])"
proof -
  have f: "follows (try_fold cli_entry) (fold toml_entry) t"
    by (rule follows_fold) (rule entry_follows, rule no_timeout_key [OF assms])
  show ?thesis
  proof (cases "try_fold cli_entry t empty_overlay")
    case (Inl e)
    with f have "0 < diag_count (fold toml_entry t toml_start)"
      unfolding toml_start_overlay by (auto simp: follows_def split: sum.splits)
    with Inl show ?thesis by (simp add: from_toml_def parse_from_cli_value_def diag_count_def)
  next
    case (Inr ov)
    with f have "fold toml_entry t toml_start = config_of_overlay ov"
      unfolding toml_start_overlay by (auto simp: follows_def split: sum.splits)
    with Inr show ?thesis by (simp add: from_toml_def parse_from_cli_value_def)
  qed
qed

lemma toml_refines_strict_parser_witness:
  "from_toml (CTable [(''*'', CStr ''deny''), (''nu'', CTable [(''command'',
      CTable [(''ls*'', CStr ''allow'')])])]) True =
   config_of_overlay \<lparr>po_global = Some Deny, po_tool_rules = [],
     po_nested_field_rules = [(''nu'', [(''command'', [(''ls*'', Allow)])])]\<rparr>"
proof -
  let ?t = "[(''*'', CStr ''deny''), (''nu'', CTable [(''command'',
      CTable [(''ls*'', CStr ''allow'')])])]"
  have "decision_timeout_key \<notin> fst ` set ?t" by (simp add: decision_timeout_key_def)
  note r = toml_refines_strict_parser [OF this, of True, THEN conjunct2]
  have "parse_from_cli_value (CTable ?t) = Inr \<lparr>po_global = Some Deny, po_tool_rules = [],
     po_nested_field_rules = [(''nu'', [(''command'', [(''ls*'', Allow)])])]\<rparr>"
    by code_simp
  with r show ?thesis by simp
qed

text \<open>
  The timeout entry is known to the lenient parser only: the strict one refuses the whole block over a number
  of seconds, and reads an action there as a rule for a tool of that name.
\<close>

lemma timeout_entry_diverges:
  "pc_diagnostics (from_toml (CTable [(decision_timeout_key, CInt 60)]) True) = []"
  "isl (parse_from_cli_value (CTable [(decision_timeout_key, CInt 60)]))"
  "pc_diagnostics (from_toml (CTable [(decision_timeout_key, CStr ''allow'')]) True) \<noteq> []"
  "map_sum id po_tool_rules (parse_from_cli_value (CTable [(decision_timeout_key, CStr ''allow'')]))
     = Inr [(decision_timeout_key, Allow)]"
  by code_simp+

end
