(* ===== verification/Defaults_Facts.thy ===== *)
theory Defaults_Facts
  imports Permission_Facts
begin

text \<open>
  The built-in defaults of the permission policy, used when the configuration has no permissions
  block: exactly which calls they allow, and that everything else is asked for or denied.
\<close>

section \<open>Patterns without a star, and with one at the end\<close>

lemma glob_match_literal:
  assumes "CHR ''*'' \<notin> set p"
  shows "glob_match p s \<longleftrightarrow> s = p"
proof -
  have n: "''*'' \<notin> set (chars p)"
  proof
    assume "''*'' \<in> set (chars p)"
    then have "CHR ''*'' \<in> \<Union> (set ` set (chars p))" by (intro UN_I) auto
    then have "CHR ''*'' \<in> set (concat (chars p))" by (simp only: set_concat)
    with assms show False by (simp only: concat_chars)
  qed
  have "glob_match p s \<longleftrightarrow> chars s = chars p"
    using glob_spec_lits [OF n, of "[]" "chars s"] by (simp add: glob_match_spec)
  then show ?thesis by (auto dest: chars_inj)
qed

lemma chars_ascii_Cons:
  "(of_char c :: nat) < 128 \<Longrightarrow> chars (c # s) = [c] # chars s"
  by (rule chars_step) (simp add: split_first_char_def utf8_width_def Let_def)

lemma chars_ascii:
  "list_all (\<lambda>c. (of_char c :: nat) < 128) p \<Longrightarrow> chars (p @ s) = map (\<lambda>c. [c]) p @ chars s"
  by (induction p) (auto simp: chars_ascii_Cons)

lemma glob_match_prefix_star:
  assumes "list_all (\<lambda>c. (of_char c :: nat) < 128) p" and "CHR ''*'' \<notin> set p"
  shows "glob_match (p @ ''*'') s \<longleftrightarrow> prefix p s"
proof -
  have star: "chars ''*'' = [''*'']"
    by (simp add: chars_ascii_Cons)
  have n: "''*'' \<notin> set (map (\<lambda>c. [c]) p)" using assms(2) by auto
  have "glob_match (p @ ''*'') s \<longleftrightarrow>
      (\<exists>v. chars s = map (\<lambda>c. [c]) p @ v \<and> glob_spec [''*''] v)"
    using glob_spec_lits [OF n] by (simp add: glob_match_spec chars_ascii [OF assms(1)] star)
  also have "\<dots> \<longleftrightarrow> (\<exists>v. chars s = map (\<lambda>c. [c]) p @ v)"
    by (auto simp: glob_spec_star)
  also have "\<dots> \<longleftrightarrow> prefix p s"
  proof
    assume "\<exists>v. chars s = map (\<lambda>c. [c]) p @ v"
    then obtain v where "chars s = map (\<lambda>c. [c]) p @ v" by blast
    then have "concat (chars s) = p @ concat v" by simp
    then show "prefix p s" by simp
  next
    assume "prefix p s"
    then obtain r where "s = p @ r" by (auto simp: prefix_def)
    then show "\<exists>v. chars s = map (\<lambda>c. [c]) p @ v" using chars_ascii [OF assms(1)] by blast
  qed
  finally show ?thesis .
qed

section \<open>The tool rules of the defaults\<close>

definition read_only_tools :: "str list" where
  "read_only_tools = [''read'', ''glob'', ''grep'', ''ast_query'', ''ast_nodes'', ''ast_refs'', ''ast_tree'']"

definition asked_tools :: "str list" where
  "asked_tools = [''tmux_session'', ''tmux_window'', ''tmux_pane'', ''tmux_layout'', ''nu'']"

definition c5t_reader :: "str \<Rightarrow> bool" where
  "c5t_reader tool \<longleftrightarrow> prefix ''c5t_get'' tool \<or> prefix ''c5t_list'' tool"

lemma default_rule_match:
  "filter (\<lambda>(p, a). glob_match p tool) (pc_tool_rules (safe_defaults b)) =
   filter (\<lambda>(p, a). (if p = ''c5t_get*'' then prefix ''c5t_get'' tool
                     else if p = ''c5t_list*'' then prefix ''c5t_list'' tool else tool = p))
     (pc_tool_rules (safe_defaults b))"
proof -
  have g: "glob_match ''c5t_get*'' tool = prefix ''c5t_get'' tool"
    using glob_match_prefix_star [of "''c5t_get''" tool] by simp
  have l: "glob_match ''c5t_list*'' tool = prefix ''c5t_list'' tool"
    using glob_match_prefix_star [of "''c5t_list''" tool] by simp
  show ?thesis
    by (rule filter_cong)
       (auto simp: safe_defaults_def g l glob_match_literal)
qed

definition default_tool_rules :: rules where
  "default_tool_rules = pc_tool_rules (safe_defaults True)"

lemma default_tool_rules_any [simp]: "pc_tool_rules (safe_defaults b) = default_tool_rules"
  by (simp add: default_tool_rules_def safe_defaults_def)

definition star_rules :: rules where
  "star_rules = [(''c5t_get*'', Allow), (''c5t_list*'', Allow)]"

lemma listed_tools:
  "list_all (\<lambda>t. map_option snd (match_pattern t default_tool_rules) = Some Allow \<and>
     \<not> c5t_reader t) read_only_tools"
  "list_all (\<lambda>t. map_option snd (match_pattern t default_tool_rules) = Some Ask \<and>
     \<not> c5t_reader t) asked_tools"
  "list_all (\<lambda>t. t \<notin> set read_only_tools) asked_tools"
  "list_all (\<lambda>(p, a). p \<in> set read_only_tools \<or> p \<in> set asked_tools \<or> (p, a) \<in> set star_rules)
     default_tool_rules"
  "filter (\<lambda>(p, a). p = ''c5t_get*'' \<or> p = ''c5t_list*'') default_tool_rules = star_rules"
  by code_simp+

lemma default_filter_unlisted:
  assumes "tool \<notin> set read_only_tools" and "tool \<notin> set asked_tools"
  shows "filter (\<lambda>(p, a). glob_match p tool) default_tool_rules =
         filter (\<lambda>(p, a). (p = ''c5t_get*'' \<and> prefix ''c5t_get'' tool) \<or>
           (p = ''c5t_list*'' \<and> prefix ''c5t_list'' tool)) default_tool_rules"
proof -
  have "filter (\<lambda>(p, a). glob_match p tool) default_tool_rules =
    filter (\<lambda>(p, a). (if p = ''c5t_get*'' then prefix ''c5t_get'' tool
                     else if p = ''c5t_list*'' then prefix ''c5t_list'' tool else tool = p))
     default_tool_rules"
    using default_rule_match [of tool True] by simp
  also have "\<dots> = filter (\<lambda>(p, a). (p = ''c5t_get*'' \<and> prefix ''c5t_get'' tool) \<or>
           (p = ''c5t_list*'' \<and> prefix ''c5t_list'' tool)) default_tool_rules"
  proof (rule filter_cong [OF refl], clarify)
    fix p a assume "(p, a) \<in> set default_tool_rules"
    then have "p \<in> set read_only_tools \<or> p \<in> set asked_tools \<or> p = ''c5t_get*'' \<or> p = ''c5t_list*''"
      using listed_tools(4) by (fastforce simp: list_all_iff star_rules_def)
    then have "tool \<noteq> p \<or> p = ''c5t_get*'' \<or> p = ''c5t_list*''" using assms by blast
    then show "(if p = ''c5t_get*'' then prefix ''c5t_get'' tool
         else if p = ''c5t_list*'' then prefix ''c5t_list'' tool else tool = p) =
       ((p = ''c5t_get*'' \<and> prefix ''c5t_get'' tool) \<or>
        (p = ''c5t_list*'' \<and> prefix ''c5t_list'' tool))"
      by (simp split: if_split) blast
  qed
  finally show ?thesis .
qed

lemma default_match_unlisted:
  assumes "tool \<notin> set read_only_tools" and "tool \<notin> set asked_tools"
  shows "map_option snd (match_pattern tool default_tool_rules) =
         (if c5t_reader tool then Some Allow else None)"
proof -
  let ?P = "\<lambda>(p, a). (p = ''c5t_get*'' \<and> prefix ''c5t_get'' tool) \<or>
           (p = ''c5t_list*'' \<and> prefix ''c5t_list'' tool)"
  let ?Q = "\<lambda>(p, a). p = ''c5t_get*'' \<or> p = ''c5t_list*''"
  have "filter ?P default_tool_rules = filter ?P (filter ?Q default_tool_rules)"
    by (simp add: conj_commute) (rule filter_cong, auto)
  also have "\<dots> = filter ?P star_rules" by (simp only: listed_tools(5))
  finally have f: "filter (\<lambda>(p, a). glob_match p tool) default_tool_rules = filter ?P star_rules"
    by (simp only: default_filter_unlisted [OF assms])
  show ?thesis
    unfolding match_pattern_def f star_rules_def c5t_reader_def by simp
qed

lemma default_match_pattern:
  "map_option snd (match_pattern tool default_tool_rules) =
     (if tool \<in> set read_only_tools \<or> c5t_reader tool then Some Allow
      else if tool \<in> set asked_tools then Some Ask else None)"
proof -
  consider "tool \<in> set read_only_tools" | "tool \<in> set asked_tools"
    | "tool \<notin> set read_only_tools" "tool \<notin> set asked_tools" by blast
  then show ?thesis
    using listed_tools(1-3) default_match_unlisted [of tool]
    by cases (simp_all only: list_all_iff if_True if_False simp_thms)
qed

lemma default_tool_action:
  "rm_action (tool_match (safe_defaults b) tool) =
     (if tool \<in> set read_only_tools \<or> c5t_reader tool then Allow
      else if tool \<in> set asked_tools then Ask
      else if b then Ask else Deny)"
proof -
  have "rm_action (tool_match (safe_defaults b) tool) =
      (case map_option snd (match_pattern tool default_tool_rules) of
         None \<Rightarrow> pc_global (safe_defaults b) | Some a \<Rightarrow> a)"
    by (simp add: tool_match_def global_match_def split: option.split)
  then show ?thesis
    unfolding default_match_pattern by (simp add: safe_defaults_def)
qed

section \<open>What the defaults allow\<close>

text \<open>The argument values of the tmux tools that are allowed without asking.\<close>

definition allowed_tmux_action :: "str \<Rightarrow> str \<Rightarrow> bool" where
  "allowed_tmux_action tool v \<longleftrightarrow>
     (tool = ''tmux_session'' \<and> v \<in> set [''list'', ''info'']) \<or>
     (tool = ''tmux_pane'' \<and> v \<in> set [''list'', ''find'', ''process'', ''capture''])"

lemma match_all_allow:
  assumes "list_all (\<lambda>(p, a). CHR ''*'' \<notin> set p \<and> a = Allow) rs"
  shows "map_option snd (match_pattern v rs) = (if v \<in> fst ` set rs then Some Allow else None)"
proof (cases "match_pattern v rs")
  case None
  then have "\<not> glob_match p v" if "(p, a) \<in> set rs" for p a
    using that by (auto simp: match_pattern_None)
  with None assms show ?thesis
    by (force simp: list_all_iff glob_match_literal)
next
  case (Some r)
  obtain p a where r: "r = (p, a)" by (cases r)
  from match_pattern_Some(1,2) [OF Some [unfolded r]] assms
  have "(p, a) \<in> set rs" "a = Allow" "v = p" by (auto simp: list_all_iff glob_match_literal)
  with Some r show ?thesis by force
qed

lemma default_nested:
  "map_of (pc_nested_field_rules (safe_defaults b)) tool =
     (if tool = ''tmux_session'' then Some [(''action'', [(''list'', Allow), (''info'', Allow)])]
      else if tool = ''tmux_pane'' then Some [(''action'', [(''list'', Allow), (''find'', Allow),
            (''process'', Allow), (''capture'', Allow)])]
      else None)"
  by (simp add: safe_defaults_def)

lemma evaluate_one_field:
  "rm_action (fst (evaluate_field tool args inh (f, rs) (m, d))) =
     (case Option.bind (map_of args f) json_str of None \<Rightarrow> rm_action m
      | Some v \<Rightarrow> (case map_option snd (match_pattern (squeeze v) rs) of
                  None \<Rightarrow> rm_action m | Some a \<Rightarrow> a))"
  by (simp add: evaluate_field_def split: option.split)

text \<open>
  The built-in defaults never allow a call outside a fixed list: the read-only tools, the
  \<open>c5t\<close> readers and the listed inspecting actions of the tmux tools; every other call is asked
  for when interactive, and otherwise asked for (the tools that run commands) or denied.
\<close>

theorem safe_defaults_decision:
  "pd_action (evaluate (safe_defaults b) tool args) =
     (if tool \<in> set read_only_tools \<or> c5t_reader tool \<or>
         (\<exists>v. map_of args ''action'' = Some (JString v) \<and> allowed_tmux_action tool (squeeze v))
      then Allow
      else if b \<or> tool \<in> set asked_tools then Ask else Deny)"
proof -
  let ?m = "tool_match (safe_defaults b) tool"
  have lists: "''tmux_session'' \<in> set asked_tools" "''tmux_pane'' \<in> set asked_tools"
    "''tmux_session'' \<notin> set read_only_tools" "''tmux_pane'' \<notin> set read_only_tools"
    "\<not> c5t_reader ''tmux_session''" "\<not> c5t_reader ''tmux_pane''"
    by code_simp+
  have nested: "pd_action (evaluate (safe_defaults b) tool args) =
      (case Option.bind (map_of args ''action'') json_str of None \<Rightarrow> rm_action ?m
       | Some v \<Rightarrow> (if squeeze v \<in> fst ` set rs then Allow else rm_action ?m))"
    if "map_of (pc_nested_field_rules (safe_defaults b)) tool = Some [(''action'', rs)]"
      and "list_all (\<lambda>(p, a). CHR ''*'' \<notin> set p \<and> a = Allow) rs" for rs
    unfolding evaluate_action evaluate_rule
    by (simp add: that(1) evaluate_one_field match_all_allow [OF that(2)] split: option.split)
  have bind: "Option.bind (map_of args ''action'') json_str = Some v \<longleftrightarrow>
      map_of args ''action'' = Some (JString v)" for v by (rule json_str_bind)
  consider "tool = ''tmux_session''" | "tool = ''tmux_pane''"
    | "tool \<noteq> ''tmux_session''" "tool \<noteq> ''tmux_pane''" by blast
  then show ?thesis
  proof cases
    case 3
    then have "pd_action (evaluate (safe_defaults b) tool args) = rm_action ?m"
      unfolding evaluate_action evaluate_rule default_nested by simp
    with 3 show ?thesis
      by (simp add: default_tool_action allowed_tmux_action_def)
  next
    case 1
    have ask: "rm_action ?m = Ask" using 1 lists by (simp add: default_tool_action)
    have "pd_action (evaluate (safe_defaults b) tool args) =
      (case Option.bind (map_of args ''action'') json_str of None \<Rightarrow> Ask
       | Some v \<Rightarrow> (if allowed_tmux_action tool (squeeze v) then Allow else Ask))"
      using nested [where rs = "[(''list'', Allow), (''info'', Allow)]"] ask 1
      by (auto simp: default_nested allowed_tmux_action_def split: option.split)
    then show ?thesis
      using lists 1 by (auto simp flip: bind split: option.split)
  next
    case 2
    have ask: "rm_action ?m = Ask" using 2 lists by (simp add: default_tool_action)
    have "pd_action (evaluate (safe_defaults b) tool args) =
      (case Option.bind (map_of args ''action'') json_str of None \<Rightarrow> Ask
       | Some v \<Rightarrow> (if allowed_tmux_action tool (squeeze v) then Allow else Ask))"
      using nested [where rs = "[(''list'', Allow), (''find'', Allow),
            (''process'', Allow), (''capture'', Allow)]"] ask 2
      by (auto simp: default_nested allowed_tmux_action_def split: option.split)
    then show ?thesis
      using lists 2 by (auto simp flip: bind split: option.split)
  qed
qed

end
