(* ===== verification/Grants.thy ===== *)
theory Grants
  imports Permission_Facts
begin

text \<open>
  Session grants and the authorization gate: \<open>SessionGrantCache\<close>, \<open>apply_ask_choice\<close> and
  \<open>apply_session_grant_override\<close> of \<open>crates/agnt-core/src/tools/authz.rs\<close>, and
  \<open>enforce_authorization_for_tool_call\<close> of \<open>tools/handler/authz_gate.rs\<close>.  The main fact is that a
  grant given under a configuration never overrides one of its denials.
\<close>

section \<open>The grant store\<close>

text \<open>What the gate relies on: a grant is found under its own key only, and revoking forgets.\<close>

locale grant_store =
  fixes get :: "'s \<Rightarrow> 'k \<Rightarrow> permission_action option"
    and allow :: "'k \<Rightarrow> 's \<Rightarrow> 's"
    and revoke :: "('k \<Rightarrow> bool) \<Rightarrow> 's \<Rightarrow> 's"
  assumes get_allow: "get (allow k s) k' = (if k' = k then Some Allow else get s k')"
    and get_revoke: "get (revoke P s) k = (if P k then None else get s k)"
begin

lemma allow_only:
  assumes "\<And>k a. get s k = Some a \<Longrightarrow> a = Allow \<and> Q k" and "Q k0"
  shows "get (allow k0 s) k = Some a \<Longrightarrow> a = Allow \<and> Q k"
  using assms by (auto simp: get_allow split: if_splits)

lemma revoke_only:
  assumes "\<And>k a. get s k = Some a \<Longrightarrow> a = Allow \<and> Q k"
  shows "get (revoke P s) k = Some a \<Longrightarrow> a = Allow \<and> Q k \<and> \<not> P k"
  using assms by (auto simp: get_revoke split: if_splits)

lemma allow_allow: "get (allow k (allow k s)) = get (allow k s)"
  by (simp add: fun_eq_iff get_allow)

end

datatype ask_choice = AllowOnce | AllowAlways | ChooseDeny

record grant_key =
  gk_matched_rule_identity :: str
  gk_tool_name :: str
  gk_source :: str
  gk_target_field :: "str option"

type_synonym grant_cache = "grant_key \<rightharpoonup> permission_action"

definition grant_key_of :: "permission_decision \<Rightarrow> str \<Rightarrow> str \<Rightarrow> grant_key" where
  "grant_key_of decision tool_name source =
     \<lparr>gk_matched_rule_identity = rm_identity (pd_matched_rule decision),
      gk_tool_name = tool_name, gk_source = source,
      gk_target_field = rm_target_field (pd_matched_rule decision)\<rparr>"

definition grant_get :: "grant_cache \<Rightarrow> permission_decision \<Rightarrow> str \<Rightarrow> str \<Rightarrow> permission_action option" where
  "grant_get grants decision tool_name source = grants (grant_key_of decision tool_name source)"

definition grant_allow :: "grant_key \<Rightarrow> grant_cache \<Rightarrow> grant_cache" where
  "grant_allow k grants = grants(k \<mapsto> Allow)"

definition insert_allow_always ::
  "permission_decision \<Rightarrow> str \<Rightarrow> str \<Rightarrow> grant_cache \<Rightarrow> grant_cache" where
  "insert_allow_always decision tool_name source grants =
     grant_allow (grant_key_of decision tool_name source) grants"

definition grant_revoke :: "(grant_key \<Rightarrow> bool) \<Rightarrow> grant_cache \<Rightarrow> grant_cache" where
  "grant_revoke P grants = (\<lambda>k. if P k then None else grants k)"

definition grants_clear :: "grant_cache \<Rightarrow> grant_cache" where
  "grants_clear grants = Map.empty"

definition clear_for_server :: "str \<Rightarrow> grant_cache \<Rightarrow> grant_cache" where
  "clear_for_server server_name grants =
     grant_revoke (\<lambda>k. prefix (server_name @ ''__'') (gk_tool_name k)) grants"

interpretation gc: grant_store "\<lambda>g k. g k" grant_allow grant_revoke
  by unfold_locales (auto simp: grant_allow_def grant_revoke_def)

section \<open>The effect of an answer and of a grant\<close>

definition apply_ask_choice ::
  "permission_decision \<Rightarrow> ask_choice \<Rightarrow> grant_cache \<Rightarrow> str \<Rightarrow> str \<Rightarrow> permission_decision \<times> grant_cache" where
  "apply_ask_choice decision choice grants tool_name source =
     (case choice of
        AllowOnce \<Rightarrow> (decision\<lparr>pd_action := Allow\<rparr>, grants)
      | AllowAlways \<Rightarrow>
          (decision\<lparr>pd_action := Allow\<rparr>, insert_allow_always decision tool_name source grants)
      | ChooseDeny \<Rightarrow> (decision\<lparr>pd_action := Deny\<rparr>, grants))"

definition apply_session_grant_override ::
  "permission_decision \<Rightarrow> grant_cache \<Rightarrow> str \<Rightarrow> str \<Rightarrow> permission_decision" where
  "apply_session_grant_override decision grants tool_name source =
     (case grant_get grants decision tool_name source of
        Some action \<Rightarrow> decision\<lparr>pd_action := action\<rparr>
      | None \<Rightarrow> decision)"

section \<open>The gate\<close>

record authz_outcome =
  ao_decision :: permission_decision
  ao_deny_reason :: "str option"

definition deny_reason_of :: "permission_rule_match \<Rightarrow> str" where
  "deny_reason_of m =
     ''Permission denied by rule '' @ quoted (rm_identity m)
     @ '' (scope: '' @ rm_scope m @ '')''"

text \<open>The ask hook is a function from the decision it is shown to its answer.\<close>

definition enforce_authorization ::
  "permissions_config \<Rightarrow> grant_cache \<Rightarrow> str \<Rightarrow> str \<Rightarrow> (str \<times> json) list \<Rightarrow>
   (permission_decision \<Rightarrow> ask_choice) \<Rightarrow> authz_outcome \<times> grant_cache" where
  "enforce_authorization cfg grants tool_name source args hook =
     (let d0 = evaluate cfg tool_name args;
          d1 = apply_session_grant_override d0 grants tool_name source;
          (d2, grants2) =
            (if pd_action d1 = Ask then apply_ask_choice d1 (hook d1) grants tool_name source
             else (d1, grants))
      in (if pd_action d2 = Deny
          then (\<lparr>ao_decision = d2, ao_deny_reason = Some (deny_reason_of (pd_matched_rule d2))\<rparr>, grants2)
          else (\<lparr>ao_decision = d2, ao_deny_reason = None\<rparr>, grants2)))"

section \<open>Grants never override a denial\<close>

text \<open>A hash map or a B-tree map has each key once.\<close>

definition config_ok :: "permissions_config \<Rightarrow> bool" where
  "config_ok cfg \<longleftrightarrow>
     distinct (map fst (pc_nested_field_rules cfg)) \<and>
     list_all (\<lambda>(t, fs). distinct (map fst fs) \<and> list_all (\<lambda>(f, rs). distinct (map fst rs)) fs)
       (pc_nested_field_rules cfg)"

lemma match_pattern_functional:
  assumes "distinct (map fst rs)" and "match_pattern c rs = Some (p, a)"
    and "match_pattern d rs = Some (p, b)"
  shows "a = b"
  using match_pattern_Some(1) [OF assms(2)] match_pattern_Some(1) [OF assms(3)] assms(1)
  by (rule eq_key_imp_eq_value [rotated])

text \<open>
  For one tool, a rule identity (with its target field) fixes the action: two calls that report
  the same identity were decided by the same rule.
\<close>

lemma identity_fixes_action:
  assumes ok: "config_ok cfg"
    and m: "rule_backed cfg tool args m" and n: "rule_backed cfg tool args' n"
    and id: "rm_identity m = rm_identity n" and tf: "rm_target_field m = rm_target_field n"
  shows "rm_action m = rm_action n"
proof -
  have tm: "rule_backed cfg tool a k \<Longrightarrow> rm_scope k \<noteq> ''nested'' \<Longrightarrow> k = tool_match cfg tool" for a k
    by (auto simp: rule_backed_def tool_match_def)
  have tn: "rm_target_field (tool_match cfg tool) = None"
    by (simp add: tool_match_def global_match_def split: option.split)
  have nn: "rule_backed cfg tool a k \<Longrightarrow> rm_scope k = ''nested'' \<Longrightarrow>
      \<exists>flds field rs v. map_of (pc_nested_field_rules cfg) tool = Some flds \<and>
        (field, rs) \<in> set flds \<and> rm_target_field k = Some field \<and>
        rm_identity k = ''nested:'' @ tool @ ''.'' @ field @ '':'' @ rm_pattern k \<and>
        match_pattern (squeeze v) rs = Some (rm_pattern k, rm_action k)" for a k
    by (auto simp: rule_backed_def tool_match_def global_match_def split: option.splits)
  show ?thesis
  proof (cases "rm_scope m = ''nested''")
    case True
    from nn [OF m True] obtain flds field rs v where
      a: "map_of (pc_nested_field_rules cfg) tool = Some flds" "(field, rs) \<in> set flds"
        "rm_target_field m = Some field"
        "rm_identity m = ''nested:'' @ tool @ ''.'' @ field @ '':'' @ rm_pattern m"
        "match_pattern (squeeze v) rs = Some (rm_pattern m, rm_action m)" by blast
    have "rm_scope n = ''nested''" using tm [OF n] tn tf a(3) by force
    from nn [OF n this] obtain field' rs' v' where
      b: "(field', rs') \<in> set flds" "rm_target_field n = Some field'"
        "rm_identity n = ''nested:'' @ tool @ ''.'' @ field' @ '':'' @ rm_pattern n"
        "match_pattern (squeeze v') rs' = Some (rm_pattern n, rm_action n)" using a(1) by auto
    have f: "field' = field" using a(3) b(2) tf by simp
    have p: "rm_pattern n = rm_pattern m" using a(4) b(3) id f by simp
    have d: "distinct (map fst flds)" "distinct (map fst rs)"
      using ok a(1,2) by (auto simp: config_ok_def list_all_iff dest!: map_of_SomeD)
    have "rs' = rs" using d(1) a(2) b(1) f by (metis eq_key_imp_eq_value)
    with match_pattern_functional [OF d(2) a(5)] b(4) p show ?thesis by simp
  next
    case False
    with tm [OF m] have mt: "m = tool_match cfg tool" by simp
    have "rm_scope n \<noteq> ''nested''"
    proof
      assume "rm_scope n = ''nested''"
      from nn [OF n this] have "rm_target_field n \<noteq> None" by auto
      then show False using tf mt tn by simp
    qed
    with tm [OF n] mt show ?thesis by simp
  qed
qed

text \<open>The grant caches a session can reach under one configuration.\<close>

inductive grants_reachable :: "permissions_config \<Rightarrow> grant_cache \<Rightarrow> bool" for cfg where
  start: "grants_reachable cfg Map.empty"
| gate: "grants_reachable cfg g \<Longrightarrow>
    grants_reachable cfg (snd (enforce_authorization cfg g tool source args hook))"
| answer: "grants_reachable cfg g \<Longrightarrow> pd_action (evaluate cfg tool args) = Ask \<Longrightarrow>
    grants_reachable cfg (snd (apply_ask_choice (evaluate cfg tool args) choice g tool source))"
| clear: "grants_reachable cfg g \<Longrightarrow> grants_reachable cfg (grants_clear g)"
| clear_server: "grants_reachable cfg g \<Longrightarrow> grants_reachable cfg (clear_for_server server g)"

text \<open>Every key of a reachable cache belongs to a call the policy asks about.\<close>

definition asked_key :: "permissions_config \<Rightarrow> grant_key \<Rightarrow> bool" where
  "asked_key cfg k \<longleftrightarrow>
     (\<exists>args source. pd_action (evaluate cfg (gk_tool_name k) args) = Ask \<and>
        k = grant_key_of (evaluate cfg (gk_tool_name k) args) (gk_tool_name k) source)"

lemma asked_key_of: "pd_action (evaluate cfg tool args) = Ask \<Longrightarrow>
    asked_key cfg (grant_key_of (evaluate cfg tool args) tool source)"
  by (auto simp: asked_key_def grant_key_of_def)

lemma answer_keys:
  assumes "\<And>k a. g k = Some a \<Longrightarrow> a = Allow \<and> asked_key cfg k"
    and "pd_action (evaluate cfg tool args) = Ask"
    and "snd (apply_ask_choice (evaluate cfg tool args) choice g tool source) k = Some a"
  shows "a = Allow \<and> asked_key cfg k"
proof (cases choice)
  case AllowAlways
  with assms(3) have "grant_allow (grant_key_of (evaluate cfg tool args) tool source) g k = Some a"
    by (simp add: apply_ask_choice_def insert_allow_always_def)
  then show ?thesis
    using gc.allow_only [where s = g and Q = "asked_key cfg" and k = k and a = a,
        OF assms(1) asked_key_of [OF assms(2)]] by blast
qed (use assms in \<open>auto simp: apply_ask_choice_def\<close>)

lemma reachable_keys:
  "grants_reachable cfg g \<Longrightarrow> g k = Some a \<Longrightarrow> a = Allow \<and> asked_key cfg k"
proof (induction arbitrary: k a rule: grants_reachable.induct)
  case (gate g tool source args hook)
  let ?d = "evaluate cfg tool args"
  show ?case
  proof (cases "pd_action (apply_session_grant_override ?d g tool source) = Ask")
    case True
    have "apply_session_grant_override ?d g tool source = ?d"
    proof (cases "grant_get g ?d tool source")
      case (Some b)
      with gate.IH [of "grant_key_of ?d tool source" b] True show ?thesis
        by (simp add: apply_session_grant_override_def grant_get_def)
    qed (simp add: apply_session_grant_override_def)
    with True gate.prems have
      "snd (apply_ask_choice ?d (hook ?d) g tool source) k = Some a" "pd_action ?d = Ask"
      by (auto simp: enforce_authorization_def Let_def split: prod.splits if_splits)
    with answer_keys [OF gate.IH] show ?thesis by blast
  next
    case False
    with gate.prems have "g k = Some a"
      by (auto simp: enforce_authorization_def Let_def split: if_splits)
    with gate.IH show ?thesis by blast
  qed
next
  case (answer g tool args choice source)
  show ?case by (rule answer_keys [OF answer.IH answer.hyps(2) answer.prems])
next
  case (clear_server g server)
  from clear_server.prems have "g k = Some a"
    by (simp add: clear_for_server_def grant_revoke_def split: if_splits)
  then show ?case by (rule clear_server.IH)
qed (auto simp: grants_clear_def)

lemma deny_not_overridden:
  assumes "config_ok cfg" and "grants_reachable cfg g"
    and deny: "pd_action (evaluate cfg tool args) = Deny"
  shows "apply_session_grant_override (evaluate cfg tool args) g tool source = evaluate cfg tool args"
proof (cases "grant_get g (evaluate cfg tool args) tool source")
  case None
  then show ?thesis by (simp add: apply_session_grant_override_def)
next
  case (Some a)
  let ?m = "pd_matched_rule (evaluate cfg tool args)"
  from Some reachable_keys [OF assms(2)] have
    "asked_key cfg (grant_key_of (evaluate cfg tool args) tool source)"
    by (auto simp: grant_get_def)
  then obtain args' source' where ask: "pd_action (evaluate cfg tool args') = Ask"
    and k: "grant_key_of (evaluate cfg tool args) tool source =
            grant_key_of (evaluate cfg tool args') tool source'"
    by (auto simp: asked_key_def grant_key_of_def)
  have "rm_action ?m = rm_action (pd_matched_rule (evaluate cfg tool args'))"
    using k by (intro identity_fixes_action [OF assms(1) evaluate_backed evaluate_backed])
      (simp_all add: grant_key_of_def)
  with ask deny show ?thesis by (simp add: evaluate_action)
qed

text \<open>
  C6. A denial of the policy is final: whatever grants a session has accumulated under a
  configuration, a call that the configuration denies is refused without asking, with the reason of
  the rule that denied it, and leaves the grants unchanged.
\<close>

theorem denial_is_final:
  assumes "config_ok cfg" and "grants_reachable cfg g"
    and "pd_action (evaluate cfg tool args) = Deny"
  shows "enforce_authorization cfg g tool source args hook =
     (\<lparr>ao_decision = evaluate cfg tool args,
       ao_deny_reason = Some (deny_reason_of (pd_matched_rule (evaluate cfg tool args)))\<rparr>, g)"
  using assms(3) deny_not_overridden [OF assms]
  by (simp add: enforce_authorization_def Let_def)

lemma config_ok_defaults: "config_ok (safe_defaults b)"
  by (simp add: config_ok_def safe_defaults_def)

lemma denial_is_final_witness:
  "ao_deny_reason (fst (enforce_authorization (safe_defaults False) Map.empty ''edit'' ''builtin'' []
     (\<lambda>_. AllowAlways))) =
   Some (''Permission denied by rule '' @ quoted ''global:*'' @ '' (scope: global)'')"
proof -
  have d: "pd_action (evaluate (safe_defaults False) ''edit'' []) = Deny" by code_simp
  have r: "rm_identity (pd_matched_rule (evaluate (safe_defaults False) ''edit'' [])) = ''global:*''"
    "rm_scope (pd_matched_rule (evaluate (safe_defaults False) ''edit'' [])) = ''global''"
    by code_simp+
  show ?thesis
    using denial_is_final [OF config_ok_defaults grants_reachable.start d]
    by (simp add: deny_reason_of_def r)
qed

section \<open>What the gate answers and what it remembers\<close>

definition needs_ask ::
  "permissions_config \<Rightarrow> grant_cache \<Rightarrow> str \<Rightarrow> str \<Rightarrow> (str \<times> json) list \<Rightarrow> bool" where
  "needs_ask cfg g tool source args \<longleftrightarrow>
     pd_action (evaluate cfg tool args) = Ask \<and>
     grant_get g (evaluate cfg tool args) tool source = None"

lemma override_reachable:
  assumes "grants_reachable cfg g"
  shows "pd_action (apply_session_grant_override (evaluate cfg tool args) g tool source) = Ask \<longleftrightarrow>
    needs_ask cfg g tool source args"
proof (cases "grant_get g (evaluate cfg tool args) tool source")
  case (Some a)
  then have "a = Allow" using reachable_keys [OF assms] by (auto simp: grant_get_def)
  with Some show ?thesis by (simp add: apply_session_grant_override_def needs_ask_def)
qed (simp add: apply_session_grant_override_def needs_ask_def)

lemma override_none:
  "grant_get g d tool source = None \<Longrightarrow> apply_session_grant_override d g tool source = d"
  by (simp add: apply_session_grant_override_def)

lemma override_rule [simp]:
  "pd_matched_rule (apply_session_grant_override d g tool source) = pd_matched_rule d"
  by (simp add: apply_session_grant_override_def split: option.split)

lemma gate_reason:
  assumes "enforce_authorization cfg g tool source args hook = (out, g')"
  shows "ao_deny_reason out =
       (if pd_action (ao_decision out) = Deny
        then Some (deny_reason_of (pd_matched_rule (ao_decision out))) else None)"
    and "pd_matched_rule (ao_decision out) = pd_matched_rule (evaluate cfg tool args)"
  using assms
  by (auto simp: enforce_authorization_def Let_def apply_ask_choice_def
      split: if_splits prod.splits ask_choice.splits)

lemma gate_grants:
  assumes "grants_reachable cfg g"
    and "enforce_authorization cfg g tool source args hook = (out, g')"
  shows "g' = (if needs_ask cfg g tool source args \<and> hook (evaluate cfg tool args) = AllowAlways
          then g(grant_key_of (evaluate cfg tool args) tool source \<mapsto> Allow) else g)"
proof (cases "needs_ask cfg g tool source args")
  case True
  then show ?thesis
    using assms(2)
    by (cases "hook (evaluate cfg tool args)")
       (auto simp: needs_ask_def override_none enforce_authorization_def Let_def apply_ask_choice_def
          insert_allow_always_def grant_allow_def)
next
  case False
  then show ?thesis
    using assms(2) override_reachable [OF assms(1), of tool args source]
    by (auto simp: enforce_authorization_def Let_def split: if_splits)
qed

lemma gate_action:
  assumes "grants_reachable cfg g"
    and "enforce_authorization cfg g tool source args hook = (out, g')"
  shows "pd_action (ao_decision out) \<noteq> Ask \<and>
    (needs_ask cfg g tool source args \<longrightarrow>
       (pd_action (ao_decision out) = Allow \<longleftrightarrow> hook (evaluate cfg tool args) \<noteq> ChooseDeny))"
proof (cases "needs_ask cfg g tool source args")
  case True
  then show ?thesis
    using assms(2)
    by (cases "hook (evaluate cfg tool args)")
       (auto simp: needs_ask_def override_none enforce_authorization_def Let_def apply_ask_choice_def)
next
  case False
  then show ?thesis
    using assms(2) override_reachable [OF assms(1), of tool args source]
    by (auto simp: enforce_authorization_def Let_def split: if_splits)
qed

text \<open>
  The gate always decides: its final action is never Ask, a reason is given exactly for a
  denial, the hook is consulted only for an ungranted Ask, and the grants change only when the
  answer is "always", by exactly the key of that call.
\<close>

theorem gate_outcome:
  assumes "grants_reachable cfg g"
    and "enforce_authorization cfg g tool source args hook = (out, g')"
  shows "pd_action (ao_decision out) \<noteq> Ask \<and>
    (ao_deny_reason out =
       (if pd_action (ao_decision out) = Deny
        then Some (deny_reason_of (pd_matched_rule (ao_decision out))) else None)) \<and>
    pd_matched_rule (ao_decision out) = pd_matched_rule (evaluate cfg tool args) \<and>
    g' = (if needs_ask cfg g tool source args \<and> hook (evaluate cfg tool args) = AllowAlways
          then g(grant_key_of (evaluate cfg tool args) tool source \<mapsto> Allow) else g) \<and>
    (needs_ask cfg g tool source args \<longrightarrow>
       (pd_action (ao_decision out) = Allow \<longleftrightarrow> hook (evaluate cfg tool args) \<noteq> ChooseDeny))"
  using gate_action [OF assms] gate_grants [OF assms] gate_reason [OF assms(2)] by blast

lemma gate_outcome_witness:
  "pd_action (ao_decision (fst (enforce_authorization (safe_defaults True) Map.empty ''nu'' ''builtin''
     [] (\<lambda>_. AllowAlways)))) \<noteq> Ask"
  using gate_outcome [OF grants_reachable.start, of "safe_defaults True" "''nu''" "''builtin''" "[]"
      "\<lambda>_. AllowAlways", OF prod.collapse [symmetric]] by blast

text \<open>
  "Allow always" is remembered for exactly one key: afterwards the call is allowed without
  asking, a call under any other key is decided as before, and disabling the MCP server a tool
  name is prefixed with forgets the grant.
\<close>

theorem allow_always_scope:
  assumes "grants_reachable cfg g" and "needs_ask cfg g tool source args"
    and "snd (enforce_authorization cfg g tool source args (\<lambda>_. AllowAlways)) = g'"
  shows "\<not> needs_ask cfg g' tool source args \<and>
    pd_action (ao_decision (fst (enforce_authorization cfg g' tool source args hook))) = Allow \<and>
    (grant_key_of (evaluate cfg tool2 args2) tool2 source2 \<noteq>
       grant_key_of (evaluate cfg tool args) tool source \<longrightarrow>
     fst (enforce_authorization cfg g' tool2 source2 args2 hook) =
     fst (enforce_authorization cfg g tool2 source2 args2 hook)) \<and>
    (prefix (server @ ''__'') tool \<longrightarrow> needs_ask cfg (clear_for_server server g') tool source args)"
proof -
  let ?k = "grant_key_of (evaluate cfg tool args) tool source"
  obtain out where out: "enforce_authorization cfg g tool source args (\<lambda>_. AllowAlways) = (out, g')"
    using assms(3) by (cases "enforce_authorization cfg g tool source args (\<lambda>_. AllowAlways)") auto
  have g': "g' = g(?k \<mapsto> Allow)" using gate_grants [OF assms(1) out] assms(2) by simp
  have "grant_get g' (evaluate cfg tool args) tool source = Some Allow"
    by (simp add: g' grant_get_def)
  moreover have "grant_get (clear_for_server server g') (evaluate cfg tool args) tool source = None"
    if "prefix (server @ ''__'') tool"
    using that by (simp add: clear_for_server_def grant_revoke_def grant_get_def grant_key_of_def)
  moreover have "fst (enforce_authorization cfg g' tool2 source2 args2 hook) =
     fst (enforce_authorization cfg g tool2 source2 args2 hook)"
    if "grant_key_of (evaluate cfg tool2 args2) tool2 source2 \<noteq> ?k"
  proof -
    have "grant_get g' (evaluate cfg tool2 args2) tool2 source2 =
          grant_get g (evaluate cfg tool2 args2) tool2 source2"
      using that by (simp add: g' grant_get_def)
    then have e: "apply_session_grant_override (evaluate cfg tool2 args2) g' tool2 source2 =
          apply_session_grant_override (evaluate cfg tool2 args2) g tool2 source2"
      by (simp add: apply_session_grant_override_def)
    show ?thesis
      by (auto simp: enforce_authorization_def Let_def e apply_ask_choice_def
          split: ask_choice.split prod.split)
  qed
  ultimately show ?thesis
    using assms(2)
    by (auto simp: needs_ask_def enforce_authorization_def Let_def apply_session_grant_override_def)
qed

lemma allow_always_scope_witness:
  "\<not> needs_ask (safe_defaults True)
     (snd (enforce_authorization (safe_defaults True) Map.empty ''nu'' ''builtin'' [] (\<lambda>_. AllowAlways)))
     ''nu'' ''builtin'' []"
proof -
  have "pd_action (evaluate (safe_defaults True) ''nu'' []) = Ask" by code_simp
  then have "needs_ask (safe_defaults True) Map.empty ''nu'' ''builtin'' []"
    by (simp add: needs_ask_def grant_get_def)
  from allow_always_scope [OF grants_reachable.start this refl] show ?thesis by blast
qed

end
