(* ===== verification/Resolver.thy ===== *)
theory Resolver
  imports Grants
begin

text \<open>
  Who asks and who answers: the effective permissions of a session
  (\<open>crates/agnt-core/src/conversation/state/permission.rs\<close>), the two permission resolvers of
  \<open>hook/permission_resolver.rs\<close>, the builtin tool names of \<open>tools/handler/builtin_kinds.rs\<close> and the
  stage that forwards the user's decisions (\<open>orchestrator/stages/permission.rs\<close>).  The waiting
  requests, the decisions under way and the outcomes form a step relation whose interleavings are
  all those of the concurrent code.
\<close>

section \<open>The session's effective permissions\<close>

record permission_state =
  st_base :: permissions_config
  st_permissions :: permissions_config
  st_cli_overlay :: "permissions_overlay option"
  st_session_grants :: grant_cache
  st_startup_summary :: str
  st_startup_emitted :: bool

definition set_permissions ::
  "permissions_config \<Rightarrow> str \<Rightarrow> permission_state \<Rightarrow> permission_state" where
  "set_permissions permissions startup_summary st =
     st\<lparr>st_permissions := permissions, st_startup_summary := startup_summary,
        st_startup_emitted := False\<rparr>"

definition with_agent_overlay ::
  "permissions_overlay \<Rightarrow> permission_state \<Rightarrow> str \<times> permission_state" where
  "with_agent_overlay overlay st =
     (let c1 = with_overlay (st_base st) overlay;
          config = (case st_cli_overlay st of None \<Rightarrow> c1 | Some cli \<Rightarrow> with_overlay c1 cli);
          s = summary config;
          line = ''permissions policy (switch): overlay_active=''
            @ (if overlay_is_empty overlay then ''false'' else ''true'')
            @ '' global='' @ action_as_str (ps_global s)
            @ '' tool_rules='' @ show_nat (ps_tool_rule_count s)
      in (line, st\<lparr>st_permissions := config, st_startup_summary := line,
                   st_startup_emitted := False\<rparr>))"

definition clear_session_grants :: "permission_state \<Rightarrow> permission_state" where
  "clear_session_grants st = st\<lparr>st_session_grants := grants_clear (st_session_grants st)\<rparr>"

definition clear_session_grants_for_server :: "str \<Rightarrow> permission_state \<Rightarrow> permission_state" where
  "clear_session_grants_for_server server_name st =
     st\<lparr>st_session_grants := clear_for_server server_name (st_session_grants st)\<rparr>"

text \<open>\<open>switch_agent\<close> of the runtime: the overlay is applied, then the session grants are cleared.\<close>

definition switch_permissions :: "permissions_overlay option \<Rightarrow> permission_state \<Rightarrow> permission_state" where
  "switch_permissions overlay st =
     clear_session_grants (snd (with_agent_overlay
       (case overlay of Some ov \<Rightarrow> ov | None \<Rightarrow>
          \<lparr>po_global = None, po_tool_rules = [], po_nested_field_rules = []\<rparr>) st))"

section \<open>Builtin tools and the source of a tool\<close>

datatype builtin_kind =
    Read | Edit | Skill | SpawnAgent | TerminateAgent | SendMessage | ListAgents | Http | Grep | Glob
  | Nu | TmuxSession | TmuxWindow | TmuxPane | TmuxLayout | AstQuery | AstNodes | AstRefs | AstTree

definition builtin_as_str :: "builtin_kind \<Rightarrow> str" where
  "builtin_as_str k =
     (case k of
        Read \<Rightarrow> ''read'' | Edit \<Rightarrow> ''edit'' | Skill \<Rightarrow> ''skill'' | SpawnAgent \<Rightarrow> ''spawn_agent''
      | TerminateAgent \<Rightarrow> ''terminate_agent'' | SendMessage \<Rightarrow> ''send_message''
      | ListAgents \<Rightarrow> ''list_agents'' | Http \<Rightarrow> ''http'' | Grep \<Rightarrow> ''grep'' | Glob \<Rightarrow> ''glob''
      | Nu \<Rightarrow> ''nu'' | TmuxSession \<Rightarrow> ''tmux_session'' | TmuxWindow \<Rightarrow> ''tmux_window''
      | TmuxPane \<Rightarrow> ''tmux_pane'' | TmuxLayout \<Rightarrow> ''tmux_layout'' | AstQuery \<Rightarrow> ''ast_query''
      | AstNodes \<Rightarrow> ''ast_nodes'' | AstRefs \<Rightarrow> ''ast_refs'' | AstTree \<Rightarrow> ''ast_tree'')"

definition builtin_from_str :: "str \<Rightarrow> builtin_kind option" where
  "builtin_from_str s =
     (if s = ''read'' then Some Read else if s = ''edit'' then Some Edit
      else if s = ''skill'' then Some Skill else if s = ''spawn_agent'' then Some SpawnAgent
      else if s = ''terminate_agent'' then Some TerminateAgent
      else if s = ''send_message'' then Some SendMessage
      else if s = ''list_agents'' then Some ListAgents else if s = ''http'' then Some Http
      else if s = ''grep'' then Some Grep else if s = ''glob'' then Some Glob
      else if s = ''nu'' then Some Nu else if s = ''tmux_session'' then Some TmuxSession
      else if s = ''tmux_window'' then Some TmuxWindow else if s = ''tmux_pane'' then Some TmuxPane
      else if s = ''tmux_layout'' then Some TmuxLayout else if s = ''ast_query'' then Some AstQuery
      else if s = ''ast_nodes'' then Some AstNodes else if s = ''ast_refs'' then Some AstRefs
      else if s = ''ast_tree'' then Some AstTree else None)"

datatype tool_source = FromClosure | FromMcp | FromBuiltin | FromUnknown

definition source_as_str :: "tool_source \<Rightarrow> str" where
  "source_as_str s =
     (case s of FromClosure \<Rightarrow> ''closure'' | FromMcp \<Rightarrow> ''mcp'' | FromBuiltin \<Rightarrow> ''builtin''
      | FromUnknown \<Rightarrow> ''unknown'')"

text \<open>\<open>closures\<close> and \<open>mcp\<close> say which names the two registries hold.\<close>

definition resolve_tool_source :: "(str \<Rightarrow> bool) \<Rightarrow> (str \<Rightarrow> bool) \<Rightarrow> str \<Rightarrow> tool_source" where
  "resolve_tool_source closures mcp name =
     (if closures name then FromClosure
      else if builtin_from_str name \<noteq> None then FromBuiltin
      else if mcp name then FromMcp
      else FromUnknown)"

section \<open>Decisions and events\<close>

datatype protocol_decision = PAllowOnce | PAllowAlways | PDeny

definition choice_of :: "protocol_decision \<Rightarrow> ask_choice" where
  "choice_of d =
     (case d of PAllowOnce \<Rightarrow> AllowOnce | PAllowAlways \<Rightarrow> AllowAlways | PDeny \<Rightarrow> ChooseDeny)"

datatype resolution = Granted | Refused str

text \<open>What a tool shows the user: \<open>ToolDisplay\<close> and its sections.\<close>

datatype content_kind = Diff str str | Code str | Plain

record display_stats =
  ds_files_changed :: "nat option"
  ds_insertions :: "nat option"
  ds_deletions :: "nat option"
  ds_diff_truncated :: "bool option"
  ds_omitted_files :: "nat option"
  ds_omitted_hunks :: "nat option"

record display_section =
  sec_label :: "str option"
  sec_kind :: content_kind
  sec_content :: str
  sec_stats :: "display_stats option"

record tool_display =
  td_title :: "str option"
  td_sections :: "display_section list"

record request_context =
  rc_tool :: str
  rc_tool_key :: str
  rc_source :: str
  rc_mode :: "str option"
  rc_matched_rule_identity :: str
  rc_scope :: str
  rc_target_field :: "str option"
  rc_pattern :: str
  rc_summary :: str
  rc_pre_authorize_display :: "tool_display option"

datatype permission_event =
    AutoResolved str bool "str option"
  | PreviewRequested str str str tool_display
  | PermissionRequested str request_context
  | RequestCancelled str str
  | DecisionTimedOut str
  | DecisionSubmitted str protocol_decision str
  | DecisionIgnored str str

definition call_key :: "str \<Rightarrow> str \<Rightarrow> str" where
  "call_key tool_name raw_arguments = tool_name @ newline @ raw_arguments"

text \<open>\<open>ser\<close> is \<open>serde_json::to_string\<close>.\<close>

definition summarize_ask_payload :: "(json \<Rightarrow> str) \<Rightarrow> json \<Rightarrow> str" where
  "summarize_ask_payload ser args =
     [CHR 0xE2, CHR 0x86, CHR 0x92, CHR '' ''] @
     (let compact = ser args in
      if 240 < length (chars compact) then concat (take 240 (chars compact)) @ ellipsis else compact)"

definition capture_context ::
  "(json \<Rightarrow> str) \<Rightarrow> permission_decision \<Rightarrow> str \<Rightarrow> str \<Rightarrow> str \<Rightarrow> (str \<times> json) list \<Rightarrow>
   tool_display option \<Rightarrow> request_context" where
  "capture_context ser decision tool_name source raw_arguments args display =
     \<lparr>rc_tool = display_tool_name ser tool_name (JObject args),
      rc_tool_key = call_key tool_name raw_arguments,
      rc_source = source,
      rc_mode = Option.bind (map_of args ''mode'') json_str,
      rc_matched_rule_identity = rm_identity (pd_matched_rule decision),
      rc_scope = rm_scope (pd_matched_rule decision),
      rc_target_field = rm_target_field (pd_matched_rule decision),
      rc_pattern = rm_pattern (pd_matched_rule decision),
      rc_summary = summarize_ask_payload ser (JObject args),
      rc_pre_authorize_display = display\<rparr>"

definition turn_cancelled_deny_reason :: str where
  "turn_cancelled_deny_reason = ''Permission denied: turn cancelled by user''"

definition decision_timed_out_deny_reason :: str where
  "decision_timed_out_deny_reason = ''Permission denied: decision timed out''"

definition empty_name_deny_reason :: str where
  "empty_name_deny_reason = ''Permission denied: empty tool name''"

definition auto_resolved :: "authz_outcome \<Rightarrow> permission_event" where
  "auto_resolved outcome =
     AutoResolved (rm_identity (pd_matched_rule (ao_decision outcome)))
       (ao_deny_reason outcome \<noteq> None) (ao_deny_reason outcome)"

section \<open>The policy resolver\<close>

text \<open>
  \<open>name_ok\<close> is \<open>ToolName::new\<close> of the rig library.  The policy resolver answers Ask with Deny.
\<close>

definition policy_resolve ::
  "(str \<Rightarrow> bool) \<Rightarrow> permissions_config \<Rightarrow> str \<Rightarrow> str \<Rightarrow> (str \<times> json) list \<Rightarrow> grant_cache \<Rightarrow>
   resolution \<times> permission_event list \<times> grant_cache" where
  "policy_resolve name_ok cfg tool_name source args grants =
     (if \<not> name_ok tool_name then (Refused empty_name_deny_reason, [], grants)
      else
        (let (outcome, grants') =
               enforce_authorization cfg grants tool_name source args (\<lambda>_. ChooseDeny);
             r = (case ao_deny_reason outcome of Some reason \<Rightarrow> Refused reason | None \<Rightarrow> Granted)
         in (r, [auto_resolved outcome], grants')))"

section \<open>The interactive resolver\<close>

text \<open>
  A request that waits for the user: the call, the decision shown and the reason of the sentinel
  run.  A request is first published; its sender enters the pending map only afterwards.
\<close>

record waiting =
  w_tool_name :: str
  w_source :: str
  w_decision :: permission_decision
  w_deny_reason :: "str option"

record session =
  ss_grants :: grant_cache
  ss_publishing :: "str set"
  ss_pending :: "str set"
  ss_inbox :: "str \<rightharpoonup> protocol_decision"
  ss_waiting :: "str \<rightharpoonup> waiting"
  ss_outcome :: "str \<rightharpoonup> resolution"
  ss_previewed :: "str set"
  ss_events :: "permission_event list"

definition emit :: "permission_event \<Rightarrow> session \<Rightarrow> session" where
  "emit e s = s\<lparr>ss_events := ss_events s @ [e]\<rparr>"

definition finish :: "str \<Rightarrow> resolution \<Rightarrow> session \<Rightarrow> session" where
  "finish rid r s =
     s\<lparr>ss_waiting := (ss_waiting s)(rid := None), ss_outcome := (ss_outcome s)(rid \<mapsto> r)\<rparr>"

text \<open>
  \<open>resolve\<close> up to the point where it either has its answer or has published the request.  The
  sentinel run of the gate uses a hook that records the decision it is shown and answers Deny.
  \<open>display\<close> is what \<open>pre_authorize_fs_tool\<close> built for the call; \<open>renders\<close> says whether the UI
  shows previews.
\<close>

definition resolve_auto ::
  "bool \<Rightarrow> str \<Rightarrow> str \<Rightarrow> str \<Rightarrow> str \<Rightarrow> tool_display option \<Rightarrow> authz_outcome \<Rightarrow> session \<Rightarrow> session" where
  "resolve_auto renders rid tool_name source raw_arguments display outcome s =
     (let s1 = emit (auto_resolved outcome) s
      in (case ao_deny_reason outcome of
            Some reason \<Rightarrow> finish rid (Refused reason) s1
          | None \<Rightarrow>
              finish rid Granted
                (case (renders, display) of
                   (True, Some d) \<Rightarrow>
                     emit (PreviewRequested tool_name source raw_arguments d)
                       (s1\<lparr>ss_previewed := insert (call_key tool_name raw_arguments) (ss_previewed s1)\<rparr>)
                 | _ \<Rightarrow> s1)))"

definition resolve_start ::
  "(str \<Rightarrow> bool) \<Rightarrow> (json \<Rightarrow> str) \<Rightarrow> bool \<Rightarrow> permissions_config \<Rightarrow> str \<Rightarrow> str \<Rightarrow> str \<Rightarrow> str \<Rightarrow>
   (str \<times> json) list \<Rightarrow> tool_display option \<Rightarrow> session \<Rightarrow> session" where
  "resolve_start name_ok ser renders cfg rid tool_name source raw_arguments args display s =
     (if \<not> name_ok tool_name then finish rid (Refused empty_name_deny_reason) s
      else
        (let shown = apply_session_grant_override (evaluate cfg tool_name args) (ss_grants s)
                       tool_name source;
             was_called = (pd_action shown = Ask);
             (outcome, grants') =
               enforce_authorization cfg (ss_grants s) tool_name source args (\<lambda>_. ChooseDeny);
             s1 = s\<lparr>ss_grants := grants'\<rparr>
         in (if \<not> was_called then
               resolve_auto renders rid tool_name source raw_arguments display outcome s1
             else
               emit (PermissionRequested rid
                       (capture_context ser shown tool_name source raw_arguments args display))
                 (s1\<lparr>ss_previewed :=
                       (if renders \<and> display \<noteq> None
                        then insert (call_key tool_name raw_arguments) (ss_previewed s1)
                        else ss_previewed s1),
                     ss_publishing := insert rid (ss_publishing s1),
                     ss_waiting := (ss_waiting s1)(rid \<mapsto>
                       \<lparr>w_tool_name = tool_name, w_source = source, w_decision = shown,
                        w_deny_reason = ao_deny_reason outcome\<rparr>)\<rparr>))))"

text \<open>After the publication returns, the sender enters the pending map.\<close>

definition register :: "str \<Rightarrow> session \<Rightarrow> session" where
  "register rid s =
     s\<lparr>ss_publishing := ss_publishing s - {rid}, ss_pending := insert rid (ss_pending s)\<rparr>"

text \<open>The stage removes the sender and sends the decision, or reports that it was ignored.\<close>

definition permission_stage :: "str \<Rightarrow> protocol_decision \<Rightarrow> session \<Rightarrow> session" where
  "permission_stage rid d s =
     (if rid \<in> ss_pending s
      then s\<lparr>ss_pending := ss_pending s - {rid}, ss_inbox := (ss_inbox s)(rid \<mapsto> d)\<rparr>
      else emit (DecisionIgnored rid ''request_not_pending'') s)"

text \<open>
  The branch of the \<open>select!\<close> that received a decision.  A sender dropped without a decision is read
  as Deny.
\<close>

definition on_decision :: "str \<Rightarrow> protocol_decision \<Rightarrow> session \<Rightarrow> session" where
  "on_decision rid d s =
     (case ss_waiting s rid of
        None \<Rightarrow> s
      | Some w \<Rightarrow>
          (let s1 = emit (DecisionSubmitted rid d (rm_identity (pd_matched_rule (w_decision w)))) s;
               choice = choice_of d;
               grants' = snd (apply_ask_choice (w_decision w) choice (ss_grants s1)
                           (w_tool_name w) (w_source w));
               s2 = s1\<lparr>ss_grants := grants', ss_inbox := (ss_inbox s1)(rid := None)\<rparr>
           in finish rid
                (case choice of
                   ChooseDeny \<Rightarrow>
                     Refused (case w_deny_reason w of Some r \<Rightarrow> r | None \<Rightarrow> ''Permission denied'')
                 | _ \<Rightarrow> Granted) s2))"

definition on_sender_dropped :: "str \<Rightarrow> session \<Rightarrow> session" where
  "on_sender_dropped rid s = on_decision rid PDeny (s\<lparr>ss_pending := ss_pending s - {rid}\<rparr>)"

definition on_cancel :: "str \<Rightarrow> session \<Rightarrow> session" where
  "on_cancel rid s =
     (case ss_waiting s rid of
        None \<Rightarrow> s
      | Some w \<Rightarrow>
          finish rid (Refused turn_cancelled_deny_reason)
            (emit (RequestCancelled rid (rm_identity (pd_matched_rule (w_decision w))))
              (s\<lparr>ss_pending := ss_pending s - {rid}, ss_inbox := (ss_inbox s)(rid := None)\<rparr>)))"

definition on_timeout :: "str \<Rightarrow> session \<Rightarrow> session" where
  "on_timeout rid s =
     (case ss_waiting s rid of
        None \<Rightarrow> s
      | Some w \<Rightarrow>
          finish rid (Refused decision_timed_out_deny_reason)
            (emit (DecisionTimedOut rid)
              (s\<lparr>ss_pending := ss_pending s - {rid}, ss_inbox := (ss_inbox s)(rid := None)\<rparr>)))"

definition take_previewed :: "str \<Rightarrow> str \<Rightarrow> session \<Rightarrow> bool \<times> session" where
  "take_previewed tool_name arguments s =
     (let k = call_key tool_name arguments
      in (k \<in> ss_previewed s, s\<lparr>ss_previewed := ss_previewed s - {k}\<rparr>))"

definition session_start :: session where
  "session_start = \<lparr>ss_grants = Map.empty, ss_publishing = {}, ss_pending = {},
     ss_inbox = Map.empty, ss_waiting = Map.empty, ss_outcome = Map.empty, ss_previewed = {},
     ss_events = []\<rparr>"

section \<open>The step relation\<close>

text \<open>
  Any number of calls wait at the same time.  A request gets a fresh identifier; the user may submit
  a decision for any identifier at any time, and a waiting call may see a decision, a cancel or its
  deadline in any order.
\<close>

datatype session_input =
    Start str str str str "(str \<times> json) list" "tool_display option"
  | Register str
  | Submit str protocol_decision
  | Receive str
  | SenderDropped str
  | Cancel str
  | Timeout str
  | TakePreviewed str str

inductive session_step ::
  "(str \<Rightarrow> bool) \<Rightarrow> (json \<Rightarrow> str) \<Rightarrow> bool \<Rightarrow> permissions_config \<Rightarrow>
   session \<Rightarrow> session_input \<Rightarrow> session \<Rightarrow> bool"
  for name_ok ser renders cfg where
  start: "ss_waiting s rid = None \<Longrightarrow> ss_outcome s rid = None \<Longrightarrow>
    session_step name_ok ser renders cfg s (Start rid tool source raw args display)
      (resolve_start name_ok ser renders cfg rid tool source raw args display s)"
| register: "rid \<in> ss_publishing s \<Longrightarrow>
    session_step name_ok ser renders cfg s (Register rid) (register rid s)"
| submit: "session_step name_ok ser renders cfg s (Submit rid d) (permission_stage rid d s)"
| receive: "ss_inbox s rid = Some d \<Longrightarrow>
    session_step name_ok ser renders cfg s (Receive rid) (on_decision rid d s)"
| dropped: "rid \<in> ss_pending s \<Longrightarrow>
    session_step name_ok ser renders cfg s (SenderDropped rid) (on_sender_dropped rid s)"
| cancel: "rid \<in> ss_pending s \<or> ss_inbox s rid \<noteq> None \<Longrightarrow>
    session_step name_ok ser renders cfg s (Cancel rid) (on_cancel rid s)"
| timeout: "rid \<in> ss_pending s \<or> ss_inbox s rid \<noteq> None \<Longrightarrow>
    pc_decision_timeout cfg \<noteq> None \<Longrightarrow>
    session_step name_ok ser renders cfg s (Timeout rid) (on_timeout rid s)"
| take: "session_step name_ok ser renders cfg s (TakePreviewed tool arguments)
    (snd (take_previewed tool arguments s))"

inductive_cases session_stepE: "session_step name_ok ser renders cfg s i t"

inductive session_run ::
  "(str \<Rightarrow> bool) \<Rightarrow> (json \<Rightarrow> str) \<Rightarrow> bool \<Rightarrow> permissions_config \<Rightarrow>
   session_input list \<Rightarrow> session \<Rightarrow> bool"
  for name_ok ser renders cfg where
  init: "session_run name_ok ser renders cfg [] session_start"
| step: "session_run name_ok ser renders cfg is s \<Longrightarrow> session_step name_ok ser renders cfg s i t \<Longrightarrow>
    session_run name_ok ser renders cfg (is @ [i]) t"

end
