(* ===== verification/Resolver_Facts.thy ===== *)
theory Resolver_Facts
  imports Resolver
begin

text \<open>
  What the interactive resolver guarantees over every interleaving of calls, registrations, answers,
  cancels and deadlines: a granted call was allowed by the policy or by the user, a denied call is
  never granted, a request is decided once, and an answer that arrives before its request is
  registered is lost.
\<close>

section \<open>What the history says of a request\<close>

text \<open>The call a request stands for, and the answer it takes: the first one after its registration.\<close>

fun call_of :: "str \<Rightarrow> session_input list \<Rightarrow> (str \<times> str \<times> (str \<times> json) list) option" where
  "call_of rid [] = None"
| "call_of rid (Start r tool source raw args display # is) =
     (if r = rid then Some (tool, source, args) else call_of rid is)"
| "call_of rid (_ # is) = call_of rid is"

fun after_register :: "str \<Rightarrow> session_input list \<Rightarrow> session_input list option" where
  "after_register rid [] = None"
| "after_register rid (i # is) = (if i = Register rid then Some is else after_register rid is)"

fun first_submit :: "str \<Rightarrow> session_input list \<Rightarrow> protocol_decision option" where
  "first_submit rid [] = None"
| "first_submit rid (Submit r d # is) = (if r = rid then Some d else first_submit rid is)"
| "first_submit rid (_ # is) = first_submit rid is"

definition answered_with :: "str \<Rightarrow> session_input list \<Rightarrow> protocol_decision option" where
  "answered_with rid is = Option.bind (after_register rid is) (first_submit rid)"

lemma call_of_snoc:
  "call_of rid (is @ [i]) =
     (case call_of rid is of Some c \<Rightarrow> Some c
      | None \<Rightarrow> (case i of Start r tool source raw args display \<Rightarrow>
                   if r = rid then Some (tool, source, args) else None | _ \<Rightarrow> None))"
  by (induction rid "is" rule: call_of.induct) (auto split: session_input.split)

lemma after_register_snoc:
  "after_register rid (is @ [i]) =
     (case after_register rid is of Some js \<Rightarrow> Some (js @ [i])
      | None \<Rightarrow> if i = Register rid then Some [] else None)"
  by (induction rid "is" rule: after_register.induct) auto

lemma first_submit_snoc:
  "first_submit rid (is @ [i]) =
     (case first_submit rid is of Some d \<Rightarrow> Some d
      | None \<Rightarrow> (case i of Submit r d \<Rightarrow> if r = rid then Some d else None | _ \<Rightarrow> None))"
  by (induction rid "is" rule: first_submit.induct) (auto split: session_input.split)

lemma answer_of_snoc:
  "answered_with rid (is @ [i]) =
     (case answered_with rid is of Some d \<Rightarrow> Some d
      | None \<Rightarrow> (case i of Submit r d \<Rightarrow>
                   if r = rid \<and> after_register rid is \<noteq> None then Some d else None | _ \<Rightarrow> None))"
  by (auto simp: answered_with_def after_register_snoc first_submit_snoc
      split: option.splits session_input.splits)

lemmas history_snoc = call_of_snoc after_register_snoc answer_of_snoc

lemma history_mono:
  "call_of rid is = Some c \<Longrightarrow> call_of rid (is @ [i]) = Some c"
  "answered_with rid is = Some d \<Longrightarrow> answered_with rid (is @ [i]) = Some d"
  by (simp_all add: history_snoc)

section \<open>The invariant of a request\<close>

text \<open>The user has answered "always" to a call with the same grant key.\<close>

definition always_answered :: "permissions_config \<Rightarrow> session_input list \<Rightarrow> grant_key \<Rightarrow> bool" where
  "always_answered cfg is k \<longleftrightarrow>
     (\<exists>rid tool source args. call_of rid is = Some (tool, source, args) \<and>
        answered_with rid is = Some PAllowAlways \<and> pd_action (evaluate cfg tool args) = Ask \<and>
        k = grant_key_of (evaluate cfg tool args) tool source)"

definition justified :: "permissions_config \<Rightarrow> session_input list \<Rightarrow> str \<Rightarrow> bool" where
  "justified cfg is rid \<longleftrightarrow>
     (\<exists>tool source args. call_of rid is = Some (tool, source, args) \<and>
        (pd_action (evaluate cfg tool args) = Allow \<or>
         always_answered cfg is (grant_key_of (evaluate cfg tool args) tool source) \<or>
         (pd_action (evaluate cfg tool args) = Ask \<and>
          (\<exists>d. answered_with rid is = Some d \<and> d \<noteq> PDeny))))"

lemma justified_mono:
  "always_answered cfg is k \<Longrightarrow> always_answered cfg (is @ [i]) k"
  "justified cfg is rid \<Longrightarrow> justified cfg (is @ [i]) rid"
proof -
  show *: "always_answered cfg is k \<Longrightarrow> always_answered cfg (is @ [i]) k" for k
    unfolding always_answered_def using history_mono by metis
  show "justified cfg is rid \<Longrightarrow> justified cfg (is @ [i]) rid"
    unfolding justified_def using history_mono [where i = i] * by metis
qed

definition prompt_ok :: "permissions_config \<Rightarrow> session_input list \<Rightarrow> str \<Rightarrow> waiting \<Rightarrow> bool" where
  "prompt_ok cfg is rid w \<longleftrightarrow>
     (\<exists>args. call_of rid is = Some (w_tool_name w, w_source w, args) \<and>
        pd_action (evaluate cfg (w_tool_name w) args) = Ask \<and>
        w_decision w = evaluate cfg (w_tool_name w) args \<and>
        w_deny_reason w = Some (deny_reason_of (pd_matched_rule (w_decision w))))"

lemma prompt_ok_mono: "prompt_ok cfg is rid w \<Longrightarrow> prompt_ok cfg (is @ [i]) rid w"
  unfolding prompt_ok_def using history_mono(1) by metis

definition idle :: "session \<Rightarrow> str \<Rightarrow> bool" where
  "idle s rid \<longleftrightarrow> rid \<notin> ss_publishing s \<and> rid \<notin> ss_pending s \<and> ss_inbox s rid = None"

definition request_ok :: "permissions_config \<Rightarrow> session_input list \<Rightarrow> session \<Rightarrow> str \<Rightarrow> bool" where
  "request_ok cfg is s rid \<longleftrightarrow>
     (case ss_waiting s rid of
        None \<Rightarrow> idle s rid \<and>
          (case ss_outcome s rid of
             None \<Rightarrow> call_of rid is = None \<and> after_register rid is = None
           | Some r \<Rightarrow> call_of rid is \<noteq> None \<and> (r = Granted \<longrightarrow> justified cfg is rid))
      | Some w \<Rightarrow> ss_outcome s rid = None \<and> prompt_ok cfg is rid w \<and>
          (rid \<in> ss_publishing s \<and> rid \<notin> ss_pending s \<and> ss_inbox s rid = None \<and>
             after_register rid is = None \<or>
           rid \<notin> ss_publishing s \<and> rid \<in> ss_pending s \<and> ss_inbox s rid = None \<and>
             after_register rid is \<noteq> None \<and> answered_with rid is = None \<or>
           rid \<notin> ss_publishing s \<and> rid \<notin> ss_pending s \<and>
             (\<exists>d. ss_inbox s rid = Some d \<and> answered_with rid is = Some d)))"

text \<open>The part of the session one request occupies.\<close>

definition slot :: "session \<Rightarrow> str \<Rightarrow>
    bool \<times> bool \<times> protocol_decision option \<times> waiting option \<times> resolution option" where
  "slot s rid = (rid \<in> ss_publishing s, rid \<in> ss_pending s, ss_inbox s rid, ss_waiting s rid,
     ss_outcome s rid)"

fun subject :: "session_input \<Rightarrow> str option" where
  "subject (Start r _ _ _ _ _) = Some r"
| "subject (Register r) = Some r"
| "subject (Submit r _) = Some r"
| "subject (Receive r) = Some r"
| "subject (SenderDropped r) = Some r"
| "subject (Cancel r) = Some r"
| "subject (Timeout r) = Some r"
| "subject (TakePreviewed _ _) = None"

lemma history_other:
  "subject i \<noteq> Some rid \<Longrightarrow> call_of rid (is @ [i]) = call_of rid is"
  "subject i \<noteq> Some rid \<Longrightarrow> after_register rid (is @ [i]) = None \<longleftrightarrow> after_register rid is = None"
  "subject i \<noteq> Some rid \<Longrightarrow> answered_with rid (is @ [i]) = answered_with rid is"
  by (auto simp: history_snoc split: option.split session_input.splits)

lemma request_ok_other:
  assumes "request_ok cfg is s rid" and "slot t rid = slot s rid" and "subject i \<noteq> Some rid"
  shows "request_ok cfg (is @ [i]) t rid"
  using assms(1,2) prompt_ok_mono [of cfg "is" rid _ i] justified_mono(2) [of cfg "is" rid i]
  unfolding request_ok_def slot_def idle_def
  by (auto simp: history_other [OF assms(3)] split: option.splits)

section \<open>The steps of one request\<close>

definition grants_ok :: "permissions_config \<Rightarrow> session_input list \<Rightarrow> grant_cache \<Rightarrow> bool" where
  "grants_ok cfg is g \<longleftrightarrow> (\<forall>k a. g k = Some a \<longrightarrow> a = Allow \<and> always_answered cfg is k)"

lemma grants_ok_mono: "grants_ok cfg is g \<Longrightarrow> grants_ok cfg (is @ [i]) g"
  unfolding grants_ok_def using justified_mono(1) by blast

lemma override_granted:
  "grants_ok cfg is g \<Longrightarrow> grant_get g d tool source = Some a \<Longrightarrow>
   a = Allow \<and> always_answered cfg is (grant_key_of d tool source)"
  by (auto simp: grants_ok_def grant_get_def)

lemma sentinel_grants [simp]:
  "snd (enforce_authorization cfg g tool source args (\<lambda>_. ChooseDeny)) = g"
  by (simp add: enforce_authorization_def Let_def apply_ask_choice_def)

text \<open>The sentinel run: what it reports when the user need not be asked, and when he must be.\<close>

lemma sentinel_auto:
  assumes "grants_ok cfg is g"
    and "pd_action (apply_session_grant_override (evaluate cfg tool args) g tool source) \<noteq> Ask"
    and "ao_deny_reason (fst (enforce_authorization cfg g tool source args (\<lambda>_. ChooseDeny))) = None"
  shows "pd_action (evaluate cfg tool args) = Allow \<or>
    always_answered cfg is (grant_key_of (evaluate cfg tool args) tool source)"
proof (cases "grant_get g (evaluate cfg tool args) tool source")
  case (Some a)
  with override_granted [OF assms(1)] show ?thesis by blast
next
  case None
  with assms(2,3) show ?thesis
    by (cases "pd_action (evaluate cfg tool args)")
       (auto simp: enforce_authorization_def Let_def override_none)
qed

lemma sentinel_ask:
  assumes "grants_ok cfg is g"
    and "pd_action (apply_session_grant_override (evaluate cfg tool args) g tool source) = Ask"
  shows "apply_session_grant_override (evaluate cfg tool args) g tool source = evaluate cfg tool args"
    and "pd_action (evaluate cfg tool args) = Ask"
    and "ao_deny_reason (fst (enforce_authorization cfg g tool source args (\<lambda>_. ChooseDeny))) =
      Some (deny_reason_of (pd_matched_rule (evaluate cfg tool args)))"
proof -
  have "grant_get g (evaluate cfg tool args) tool source = None"
  proof (cases "grant_get g (evaluate cfg tool args) tool source")
    case (Some a)
    with override_granted [OF assms(1)] have "a = Allow" by blast
    with Some assms(2) show ?thesis by (simp add: apply_session_grant_override_def)
  qed
  then show "apply_session_grant_override (evaluate cfg tool args) g tool source = evaluate cfg tool args"
    and "pd_action (evaluate cfg tool args) = Ask"
    using assms(2) by (simp_all add: override_none)
  then show "ao_deny_reason (fst (enforce_authorization cfg g tool source args (\<lambda>_. ChooseDeny))) =
      Some (deny_reason_of (pd_matched_rule (evaluate cfg tool args)))"
    by (simp add: enforce_authorization_def Let_def apply_ask_choice_def)
qed

lemma slot_simps [simp]:
  "slot (emit e s) rid = slot s rid"
  "slot (s\<lparr>ss_grants := g\<rparr>) rid = slot s rid"
  "slot (s\<lparr>ss_previewed := p\<rparr>) rid = slot s rid"
  by (simp_all add: slot_def emit_def)

lemma slot_other:
  "r \<noteq> rid \<Longrightarrow> slot (finish r x s) rid = slot s rid"
  "r \<noteq> rid \<Longrightarrow> slot (resolve_auto renders r tool source raw display out s) rid = slot s rid"
  "r \<noteq> rid \<Longrightarrow> slot (register r s) rid = slot s rid"
  "r \<noteq> rid \<Longrightarrow> slot (permission_stage r d s) rid = slot s rid"
  "r \<noteq> rid \<Longrightarrow> slot (on_decision r d s) rid = slot s rid"
  "r \<noteq> rid \<Longrightarrow> slot (on_cancel r s) rid = slot s rid"
  "r \<noteq> rid \<Longrightarrow> slot (on_timeout r s) rid = slot s rid"
  by (auto simp: slot_def finish_def resolve_auto_def emit_def register_def permission_stage_def
      on_decision_def on_cancel_def on_timeout_def Let_def split: option.split bool.split)

lemma slot_other_dropped: "r \<noteq> rid \<Longrightarrow> slot (on_sender_dropped r s) rid = slot s rid"
  unfolding on_sender_dropped_def by (subst slot_other(5)) (auto simp: slot_def)

lemma slot_other_start:
  "r \<noteq> rid \<Longrightarrow>
   slot (resolve_start name_ok ser renders cfg r tool source raw args display s) rid = slot s rid"
  unfolding resolve_start_def
  by (auto simp: Let_def slot_other split: prod.split) (auto simp: slot_def)

lemma step_other:
  assumes "session_step name_ok ser renders cfg s i t" and "subject i \<noteq> Some rid"
  shows "slot t rid = slot s rid"
  using assms
  by (cases rule: session_step.cases)
     (auto simp: slot_other slot_other_dropped slot_other_start take_previewed_def Let_def)

text \<open>The fields of a session after each operation.\<close>

lemma emit_fields [simp]:
  "ss_grants (emit e s) = ss_grants s" "ss_publishing (emit e s) = ss_publishing s"
  "ss_pending (emit e s) = ss_pending s" "ss_inbox (emit e s) = ss_inbox s"
  "ss_waiting (emit e s) = ss_waiting s" "ss_outcome (emit e s) = ss_outcome s"
  by (simp_all add: emit_def)

lemma finish_fields [simp]:
  "ss_grants (finish r x s) = ss_grants s" "ss_publishing (finish r x s) = ss_publishing s"
  "ss_pending (finish r x s) = ss_pending s" "ss_inbox (finish r x s) = ss_inbox s"
  "ss_waiting (finish r x s) = (ss_waiting s)(r := None)"
  "ss_outcome (finish r x s) = (ss_outcome s)(r \<mapsto> x)"
  by (simp_all add: finish_def)

lemma resolve_auto_fields:
  "ss_grants (resolve_auto renders r tool source raw display out s) = ss_grants s"
  "ss_waiting (resolve_auto renders r tool source raw display out s) = (ss_waiting s)(r := None)"
  "ss_outcome (resolve_auto renders r tool source raw display out s) =
     (ss_outcome s)(r \<mapsto> (case ao_deny_reason out of Some x \<Rightarrow> Refused x | None \<Rightarrow> Granted))"
  "idle (resolve_auto renders r tool source raw display out s) r \<longleftrightarrow> idle s r"
  by (auto simp: resolve_auto_def Let_def idle_def split: option.split bool.split)

lemma idle_grants [simp]: "idle (s\<lparr>ss_grants := g\<rparr>) r \<longleftrightarrow> idle s r"
  by (simp add: idle_def)

lemma start_request_ok:
  assumes ok: "request_ok cfg is s rid" and g: "grants_ok cfg is (ss_grants s)"
    and fresh: "ss_waiting s rid = None" "ss_outcome s rid = None"
  shows "request_ok cfg (is @ [Start rid tool source raw args display])
    (resolve_start name_ok ser renders cfg rid tool source raw args display s) rid"
proof -
  let ?i = "Start rid tool source raw args display"
  let ?shown = "apply_session_grant_override (evaluate cfg tool args) (ss_grants s) tool source"
  let ?run = "enforce_authorization cfg (ss_grants s) tool source args (\<lambda>_. ChooseDeny)"
  have new: "call_of rid is = None" "after_register rid is = None" "idle s rid"
    using ok fresh by (simp_all add: request_ok_def)
  then have c: "call_of rid (is @ [?i]) = Some (tool, source, args)"
    "after_register rid (is @ [?i]) = None"
    by (simp_all add: history_snoc)
  obtain out where run: "?run = (out, ss_grants s)"
    using sentinel_grants [of cfg "ss_grants s" tool source args] by (metis prod.collapse)
  consider (bad) "\<not> name_ok tool" | (auto) "name_ok tool" "pd_action ?shown \<noteq> Ask"
    | (ask) "name_ok tool" "pd_action ?shown = Ask" by blast
  then show ?thesis
  proof cases
    case bad
    then show ?thesis
      using new(3) c by (simp add: resolve_start_def request_ok_def idle_def)
  next
    case auto
    have "justified cfg (is @ [?i]) rid" if "ao_deny_reason out = None"
      using sentinel_auto [OF g auto(2)] that run c justified_mono(1)
      by (auto simp: justified_def)
    then show ?thesis
      using auto new(3) c run
      by (auto simp: resolve_start_def Let_def request_ok_def resolve_auto_fields
          split: option.splits)
  next
    case ask
    have w: "prompt_ok cfg (is @ [?i]) rid
       \<lparr>w_tool_name = tool, w_source = source, w_decision = ?shown, w_deny_reason = ao_deny_reason out\<rparr>"
      using sentinel_ask [OF g ask(2)] c run by (simp add: prompt_ok_def)
    show ?thesis
      using ask new(3) c run w fresh(2)
      by (simp add: resolve_start_def Let_def request_ok_def idle_def)
  qed
qed

lemma decided_request_ok:
  assumes "ss_waiting s rid \<noteq> None" and "request_ok cfg is s rid"
    and "ss_waiting t rid = None" and "idle t rid" and "ss_outcome t rid = Some r"
    and "r = Granted \<longrightarrow> justified cfg (is @ [i]) rid"
  shows "request_ok cfg (is @ [i]) t rid"
  using assms history_mono(1) by (auto simp: request_ok_def prompt_ok_def split: option.splits)

lemma grant_is_justified:
  assumes "prompt_ok cfg is rid w" and "answered_with rid is = Some d" and "d \<noteq> PDeny"
  shows "justified cfg is rid"
  using assms by (auto simp: prompt_ok_def justified_def)

lemma waiting_phases:
  assumes "request_ok cfg is s rid" and "rid \<in> ss_publishing s \<or> rid \<in> ss_pending s \<or> ss_inbox s rid \<noteq> None"
  obtains w where "ss_waiting s rid = Some w" and "ss_outcome s rid = None" and "prompt_ok cfg is rid w"
  using assms by (cases "ss_waiting s rid") (auto simp: request_ok_def idle_def)

lemma step_request_ok:
  assumes st: "session_step name_ok ser renders cfg s i t" and sub: "subject i = Some rid"
    and ok: "request_ok cfg is s rid" and g: "grants_ok cfg is (ss_grants s)"
  shows "request_ok cfg (is @ [i]) t rid"
  using st
proof (cases rule: session_step.cases)
  case (start r tool source raw args display)
  then show ?thesis using start_request_ok [OF ok g] sub by simp
next
  case (register r)
  with sub have r: "r = rid" by simp
  obtain w where w: "ss_waiting s rid = Some w" "ss_outcome s rid = None" "prompt_ok cfg is rid w"
    using waiting_phases [OF ok] register r by blast
  have "prompt_ok cfg (is @ [Register rid]) rid w" by (rule prompt_ok_mono [OF w(3)])
  moreover have "after_register rid is = None" "ss_inbox s rid = None"
    using ok register r w by (auto simp: request_ok_def)
  ultimately show ?thesis
    using w register r by (simp add: request_ok_def register_def history_snoc answered_with_def)
next
  case (submit r d)
  with sub have r: "r = rid" by simp
  show ?thesis
  proof (cases "rid \<in> ss_pending s")
    case True
    then obtain w where w: "ss_waiting s rid = Some w" "ss_outcome s rid = None" "prompt_ok cfg is rid w"
      using waiting_phases [OF ok] by blast
    have "prompt_ok cfg (is @ [Submit rid d]) rid w" by (rule prompt_ok_mono [OF w(3)])
    moreover have "after_register rid is \<noteq> None" "answered_with rid is = None" "rid \<notin> ss_publishing s"
      using ok True w by (auto simp: request_ok_def)
    ultimately show ?thesis
      using w submit r True by (simp add: request_ok_def permission_stage_def history_snoc)
  next
    case False
    then have t: "t = emit (DecisionIgnored rid ''request_not_pending'') s"
      using submit r by (simp add: permission_stage_def)
    have h: "call_of rid (is @ [i]) = call_of rid is"
      "after_register rid (is @ [i]) = None \<longleftrightarrow> after_register rid is = None"
      using submit by (auto simp: history_snoc split: option.split)
    have f: "ss_waiting t = ss_waiting s" "ss_outcome t = ss_outcome s" "ss_inbox t = ss_inbox s"
      "ss_publishing t = ss_publishing s" "ss_pending t = ss_pending s"
      by (simp_all add: t)
    show ?thesis
    proof (cases "ss_waiting s rid")
      case None
      then show ?thesis
        using ok justified_mono(2) [of cfg "is" rid i]
        by (simp add: request_ok_def f h idle_def split: option.splits)
    next
      case (Some w)
      then show ?thesis
        using ok False prompt_ok_mono [of cfg "is" rid w i] history_mono(2) [of rid "is" _ i]
        unfolding request_ok_def f h idle_def by auto
    qed
  qed
next
  case (receive r d)
  with sub have r: "r = rid" by simp
  obtain w where w: "ss_waiting s rid = Some w" "ss_outcome s rid = None" "prompt_ok cfg is rid w"
    using waiting_phases [OF ok] receive r by blast
  have a: "answered_with rid is = Some d" "rid \<notin> ss_publishing s" "rid \<notin> ss_pending s"
    using ok w receive r by (auto simp: request_ok_def)
  have "d \<noteq> PDeny \<longrightarrow> justified cfg (is @ [i]) rid"
    using grant_is_justified [OF w(3) a(1)] justified_mono(2) by blast
  with decided_request_ok [OF _ ok, where t = t and i = i] show ?thesis
    using w a receive r
    by (cases d) (auto simp: on_decision_def choice_of_def Let_def idle_def)
next
  case (dropped r)
  with sub have r: "r = rid" by simp
  obtain w where w: "ss_waiting s rid = Some w" using waiting_phases [OF ok] dropped r by blast
  then have "rid \<notin> ss_publishing s" "ss_inbox s rid = None"
    using ok dropped r by (auto simp: request_ok_def)
  with decided_request_ok [OF _ ok, where t = t and i = i] show ?thesis
    using w dropped r
    by (auto simp: on_sender_dropped_def on_decision_def choice_of_def Let_def idle_def)
next
  case (cancel r)
  with sub have r: "r = rid" by simp
  obtain w where w: "ss_waiting s rid = Some w" using waiting_phases [OF ok] cancel r by blast
  then have "rid \<notin> ss_publishing s" using ok cancel r by (auto simp: request_ok_def)
  with decided_request_ok [OF _ ok, where t = t and i = i] show ?thesis
    using w cancel r by (auto simp: on_cancel_def idle_def)
next
  case (timeout r)
  with sub have r: "r = rid" by simp
  obtain w where w: "ss_waiting s rid = Some w" using waiting_phases [OF ok] timeout r by blast
  then have "rid \<notin> ss_publishing s" using ok timeout r by (auto simp: request_ok_def)
  with decided_request_ok [OF _ ok, where t = t and i = i] show ?thesis
    using w timeout r by (auto simp: on_timeout_def idle_def)
next
  case (take tool arguments)
  then show ?thesis using sub by simp
qed

section \<open>The invariant of a run\<close>

lemma start_grants:
  "ss_grants (resolve_start name_ok ser renders cfg rid tool source raw args display s) = ss_grants s"
proof -
  obtain out where
    "enforce_authorization cfg (ss_grants s) tool source args (\<lambda>_. ChooseDeny) = (out, ss_grants s)"
    using sentinel_grants [of cfg "ss_grants s" tool source args] by (metis prod.collapse)
  then show ?thesis
    by (simp add: resolve_start_def Let_def resolve_auto_fields)
qed

lemma decision_grants:
  assumes w: "ss_waiting s rid = Some w" "prompt_ok cfg is rid w"
    and g: "grants_ok cfg is (ss_grants s)"
    and d: "d = PAllowAlways \<longrightarrow> answered_with rid is = Some d"
  shows "grants_ok cfg is (ss_grants (on_decision rid d s))"
proof (cases d)
  case PAllowAlways
  have "always_answered cfg is (grant_key_of (w_decision w) (w_tool_name w) (w_source w))"
    unfolding always_answered_def using w(2) d PAllowAlways prompt_ok_def by metis
  then show ?thesis
    using g w(1) PAllowAlways
    by (auto simp: grants_ok_def on_decision_def Let_def choice_of_def apply_ask_choice_def
        insert_allow_always_def gc.get_allow split: if_splits)
qed (use w g in \<open>auto simp: on_decision_def Let_def choice_of_def apply_ask_choice_def\<close>)

definition run_ok :: "permissions_config \<Rightarrow> session_input list \<Rightarrow> session \<Rightarrow> bool" where
  "run_ok cfg is s \<longleftrightarrow> (\<forall>rid. request_ok cfg is s rid) \<and> grants_ok cfg is (ss_grants s)"

lemma step_grants_ok:
  assumes "session_step name_ok ser renders cfg s i t" and "run_ok cfg is s"
  shows "grants_ok cfg is (ss_grants t)"
proof -
  have g: "grants_ok cfg is (ss_grants s)" and ok: "request_ok cfg is s r" for r
    using assms(2) by (auto simp: run_ok_def)
  show ?thesis
    using assms(1)
  proof (cases rule: session_step.cases)
    case (receive r d)
    obtain w where w: "ss_waiting s r = Some w" "prompt_ok cfg is r w"
      using waiting_phases [OF ok [of r]] receive by blast
    have "answered_with r is = Some d" using ok [of r] receive w by (auto simp: request_ok_def)
    then show ?thesis using decision_grants [OF w g] receive by simp
  next
    case (dropped r)
    obtain w where w: "ss_waiting s r = Some w" "prompt_ok cfg is r w"
      using waiting_phases [OF ok [of r]] dropped by blast
    let ?s = "s\<lparr>ss_pending := ss_pending s - {r}\<rparr>"
    have "grants_ok cfg is (ss_grants (on_decision r PDeny ?s))"
      by (rule decision_grants [of _ _ w]) (use w g in simp_all)
    then show ?thesis using dropped by (simp add: on_sender_dropped_def)
  qed (use g in \<open>auto simp: start_grants register_def permission_stage_def on_cancel_def on_timeout_def
        take_previewed_def Let_def split: option.split\<close>)
qed

lemma run_ok: "session_run name_ok ser renders cfg is s \<Longrightarrow> run_ok cfg is s"
proof (induction rule: session_run.induct)
  case init
  then show ?case
    by (simp add: run_ok_def request_ok_def idle_def session_start_def grants_ok_def)
next
  case (step "is" s i t)
  have "request_ok cfg (is @ [i]) t rid" for rid
  proof (cases "subject i = Some rid")
    case True
    with step show ?thesis using step_request_ok [OF step.hyps(2)] by (auto simp: run_ok_def)
  next
    case False
    then show ?thesis
      using request_ok_other [of cfg "is" s rid t i] step_other [OF step.hyps(2)] step.IH
      by (auto simp: run_ok_def)
  qed
  then show ?case
    using grants_ok_mono [OF step_grants_ok [OF step.hyps(2) step.IH]] by (simp add: run_ok_def)
qed

section \<open>What the runs guarantee\<close>

text \<open>
  C7. A call is only ever granted with the consent of the policy or of the user: in every
  interleaving, a granted call was started, and either the policy allows it, or the policy asks and
  the first answer given to its request after registration was an allow, or the user has answered
  "always" to a call with the same grant key.  A call that the policy denies is never granted.
\<close>

theorem granted_is_justified:
  assumes "session_run name_ok ser renders cfg is s" and "config_ok cfg"
    and "ss_outcome s rid = Some Granted"
  shows "\<exists>tool source args. call_of rid is = Some (tool, source, args) \<and>
    (pd_action (evaluate cfg tool args) = Allow \<or>
     pd_action (evaluate cfg tool args) = Ask \<and>
       ((\<exists>d. answered_with rid is = Some d \<and> d \<noteq> PDeny) \<or>
        always_answered cfg is (grant_key_of (evaluate cfg tool args) tool source)))"
proof -
  have "request_ok cfg is s rid" using run_ok [OF assms(1)] by (simp add: run_ok_def)
  with assms(3) have "justified cfg is rid"
    by (auto simp: request_ok_def split: option.splits)
  then obtain tool source args where c: "call_of rid is = Some (tool, source, args)"
    and j: "pd_action (evaluate cfg tool args) = Allow \<or>
         always_answered cfg is (grant_key_of (evaluate cfg tool args) tool source) \<or>
         (pd_action (evaluate cfg tool args) = Ask \<and> (\<exists>d. answered_with rid is = Some d \<and> d \<noteq> PDeny))"
    by (auto simp: justified_def)
  have "pd_action (evaluate cfg tool args) = Ask"
    if "always_answered cfg is (grant_key_of (evaluate cfg tool args) tool source)"
  proof -
    from that obtain source' args' where ask: "pd_action (evaluate cfg tool args') = Ask"
      and k: "grant_key_of (evaluate cfg tool args) tool source =
              grant_key_of (evaluate cfg tool args') tool source'"
      by (auto simp: always_answered_def grant_key_of_def)
    have "rm_action (pd_matched_rule (evaluate cfg tool args)) =
          rm_action (pd_matched_rule (evaluate cfg tool args'))"
      using k by (intro identity_fixes_action [OF assms(2) evaluate_backed evaluate_backed])
        (simp_all add: grant_key_of_def)
    with ask show ?thesis by (simp add: evaluate_action)
  qed
  with c j show ?thesis by blast
qed

text \<open>A small run: a \<open>nu\<close> call is asked about, registered, answered and received.\<close>

definition demo_inputs :: "protocol_decision \<Rightarrow> session_input list" where
  "demo_inputs d = [Start ''perm-1'' ''nu'' ''builtin'' ''{}'' [] None, Register ''perm-1'',
     Submit ''perm-1'' d, Receive ''perm-1'']"

definition demo_start :: session where
  "demo_start = resolve_start (\<lambda>n. n \<noteq> []) (\<lambda>_. ''{}'') True (safe_defaults True) ''perm-1'' ''nu''
     ''builtin'' ''{}'' [] None session_start"

definition demo_end :: "protocol_decision \<Rightarrow> session" where
  "demo_end d = on_decision ''perm-1'' d (permission_stage ''perm-1'' d (register ''perm-1'' demo_start))"

lemma demo_nu_asks: "pd_action (evaluate (safe_defaults True) ''nu'' []) = Ask"
  by code_simp

lemma demo_fields:
  "ss_publishing demo_start = {''perm-1''}" "ss_pending demo_start = {}"
  "ss_waiting demo_start ''perm-1'' \<noteq> None" "ss_inbox demo_start ''perm-1'' = None"
  "ss_outcome demo_start ''perm-1'' = None"
  using demo_nu_asks
  by (auto simp: demo_start_def resolve_start_def session_start_def Let_def
      apply_session_grant_override_def grant_get_def split: prod.split)

lemma demo_run_start:
  "session_run (\<lambda>n. n \<noteq> []) (\<lambda>_. ''{}'') True (safe_defaults True)
     [Start ''perm-1'' ''nu'' ''builtin'' ''{}'' [] None] demo_start"
proof -
  have f: "ss_waiting session_start ''perm-1'' = None" "ss_outcome session_start ''perm-1'' = None"
    by (simp_all add: session_start_def)
  show ?thesis
    unfolding demo_start_def
    using session_run.step [OF session_run.init session_step.start [OF f]] by force
qed

lemma demo_run_register:
  "session_run (\<lambda>n. n \<noteq> []) (\<lambda>_. ''{}'') True (safe_defaults True)
     [Start ''perm-1'' ''nu'' ''builtin'' ''{}'' [] None, Register ''perm-1'']
     (register ''perm-1'' demo_start)"
  using session_run.step [OF demo_run_start session_step.register, of "''perm-1''"] demo_fields by simp

lemma demo_run:
  "session_run (\<lambda>n. n \<noteq> []) (\<lambda>_. ''{}'') True (safe_defaults True) (demo_inputs d) (demo_end d)"
proof -
  have "ss_inbox (permission_stage ''perm-1'' d (register ''perm-1'' demo_start)) ''perm-1'' = Some d"
    by (simp add: permission_stage_def register_def)
  from session_run.step [OF session_run.step [OF demo_run_register session_step.submit]
      session_step.receive [OF this]]
  show ?thesis by (simp add: demo_inputs_def demo_end_def)
qed

lemma demo_outcome: "ss_outcome (demo_end PAllowAlways) ''perm-1'' = Some Granted"
  using demo_fields(3)
  by (auto simp: demo_end_def on_decision_def permission_stage_def register_def Let_def choice_of_def)

lemma granted_is_justified_witness:
  "\<exists>tool source args. call_of ''perm-1'' (demo_inputs PAllowAlways) = Some (tool, source, args) \<and>
    (pd_action (evaluate (safe_defaults True) tool args) = Allow \<or>
     pd_action (evaluate (safe_defaults True) tool args) = Ask \<and>
       ((\<exists>d. answered_with ''perm-1'' (demo_inputs PAllowAlways) = Some d \<and> d \<noteq> PDeny) \<or>
        always_answered (safe_defaults True) (demo_inputs PAllowAlways)
          (grant_key_of (evaluate (safe_defaults True) tool args) tool source)))"
  by (rule granted_is_justified [OF demo_run config_ok_defaults demo_outcome])

text \<open>
  C8. A request is decided once: no later step changes the outcome of a decided call, an answer that
  arrives late is reported as ignored and changes nothing else, and the steps of a waiting request
  (registration, receipt, cancel, deadline) can no longer happen for it.
\<close>

theorem decided_once:
  assumes "session_run name_ok ser renders cfg is s"
    and "session_step name_ok ser renders cfg s i t" and "ss_outcome s rid = Some r"
  shows "ss_outcome t rid = Some r \<and>
    (subject i = Some rid \<longrightarrow>
       (\<exists>d. i = Submit rid d) \<and> t = emit (DecisionIgnored rid ''request_not_pending'') s)"
proof -
  have ok: "request_ok cfg is s rid" using run_ok [OF assms(1)] by (simp add: run_ok_def)
  with assms(3) have "ss_waiting s rid = None" and i: "idle s rid"
    by (auto simp: request_ok_def split: option.splits)
  show ?thesis
  proof (cases "subject i = Some rid")
    case True
    with assms(2) have "(\<exists>d. i = Submit rid d) \<and> t = emit (DecisionIgnored rid ''request_not_pending'') s"
      using i assms(3)
      by (cases rule: session_step.cases) (auto simp: idle_def permission_stage_def)
    with assms(3) show ?thesis by auto
  next
    case False
    with step_other [OF assms(2) False] assms(3) show ?thesis by (simp add: slot_def)
  qed
qed

lemma decided_once_witness:
  "ss_outcome (permission_stage ''perm-1'' PDeny (demo_end PAllowAlways)) ''perm-1'' = Some Granted"
  using decided_once [OF demo_run session_step.submit demo_outcome] by blast

text \<open>
  C9. The answer to a registered request is applied exactly: it can be received, it decides the call
  (a refusal names the rule that asked), it stores a grant under the key of that call if and only if
  it is "always", and the user sees his decision published with the rule it was about.
\<close>

theorem answer_is_applied:
  assumes "session_run name_ok ser renders cfg is s" and "rid \<in> ss_pending s"
  shows "\<exists>tool source args t. call_of rid is = Some (tool, source, args) \<and>
    t = on_decision rid d (permission_stage rid d s) \<and>
    session_run name_ok ser renders cfg (is @ [Submit rid d, Receive rid]) t \<and>
    ss_outcome t rid = Some (if d = PDeny
      then Refused (deny_reason_of (pd_matched_rule (evaluate cfg tool args))) else Granted) \<and>
    ss_grants t = (if d = PAllowAlways
      then (ss_grants s)(grant_key_of (evaluate cfg tool args) tool source \<mapsto> Allow) else ss_grants s) \<and>
    ss_events t = ss_events s @
      [DecisionSubmitted rid d (rm_identity (pd_matched_rule (evaluate cfg tool args)))]"
proof -
  have ok: "request_ok cfg is s rid" using run_ok [OF assms(1)] by (simp add: run_ok_def)
  obtain w where w: "ss_waiting s rid = Some w" and p: "prompt_ok cfg is rid w"
    using waiting_phases [OF ok] assms(2) by blast
  from p obtain args where c: "call_of rid is = Some (w_tool_name w, w_source w, args)"
    and d: "w_decision w = evaluate cfg (w_tool_name w) args"
    and r: "w_deny_reason w = Some (deny_reason_of (pd_matched_rule (w_decision w)))"
    by (auto simp: prompt_ok_def)
  let ?s1 = "permission_stage rid d s"
  have s1: "ss_inbox ?s1 rid = Some d" "ss_waiting ?s1 rid = Some w" "ss_grants ?s1 = ss_grants s"
    "ss_events ?s1 = ss_events s"
    using assms(2) w by (simp_all add: permission_stage_def)
  have "session_run name_ok ser renders cfg (is @ [Submit rid d, Receive rid]) (on_decision rid d ?s1)"
    using session_run.step [OF session_run.step [OF assms(1) session_step.submit]
        session_step.receive [OF s1(1)]] by simp
  then show ?thesis
    using c s1 d r
    by (cases d) (auto simp: on_decision_def Let_def choice_of_def apply_ask_choice_def emit_def
        finish_def insert_allow_always_def grant_allow_def)
qed

lemma answer_is_applied_witness:
  "ss_outcome (demo_end PDeny) ''perm-1'' = Some (Refused (deny_reason_of
     (pd_matched_rule (evaluate (safe_defaults True) ''nu'' []))))"
proof -
  have "''perm-1'' \<in> ss_pending (register ''perm-1'' demo_start)" by (simp add: register_def)
  from answer_is_applied [OF demo_run_register this, of PDeny] show ?thesis
    by (auto simp: demo_end_def)
qed

text \<open>
  A request is published before its sender is registered, so an answer that arrives in between
  is lost: it is reported as not pending, and after the registration the request still waits with
  nothing to receive, until a cancel, the deadline or another answer.
\<close>

theorem early_answer_lost:
  assumes "session_run name_ok ser renders cfg is s" and "rid \<in> ss_publishing s"
  shows "\<exists>t. t = register rid (permission_stage rid d s) \<and>
    session_run name_ok ser renders cfg (is @ [Submit rid d, Register rid]) t \<and>
    ss_events t = ss_events s @ [DecisionIgnored rid ''request_not_pending''] \<and>
    rid \<in> ss_pending t \<and> ss_waiting t rid = ss_waiting s rid \<and> ss_waiting t rid \<noteq> None \<and>
    ss_outcome t rid = None \<and> ss_inbox t rid = None"
proof -
  have ok: "request_ok cfg is s rid" using run_ok [OF assms(1)] by (simp add: run_ok_def)
  obtain w where w: "ss_waiting s rid = Some w" "ss_outcome s rid = None"
    using waiting_phases [OF ok] assms(2) by blast
  have n: "rid \<notin> ss_pending s" "ss_inbox s rid = None"
    using ok assms(2) w by (auto simp: request_ok_def)
  then have e: "permission_stage rid d s = emit (DecisionIgnored rid ''request_not_pending'') s"
    by (simp add: permission_stage_def)
  have "rid \<in> ss_publishing (permission_stage rid d s)" using assms(2) by (simp add: e)
  from session_run.step [OF session_run.step [OF assms(1) session_step.submit]
      session_step.register [OF this]]
  have "session_run name_ok ser renders cfg (is @ [Submit rid d, Register rid])
      (register rid (permission_stage rid d s))" by simp
  with w n show ?thesis by (simp add: e register_def emit_def)
qed

lemma early_answer_lost_witness:
  "\<exists>t. session_run (\<lambda>n. n \<noteq> []) (\<lambda>_. ''{}'') True (safe_defaults True)
     [Start ''perm-1'' ''nu'' ''builtin'' ''{}'' [] None, Submit ''perm-1'' PAllowOnce,
      Register ''perm-1''] t \<and> ss_outcome t ''perm-1'' = None \<and> ss_inbox t ''perm-1'' = None"
  using early_answer_lost [OF demo_run_start, of "''perm-1''" PAllowOnce] demo_fields(1) by auto

section \<open>The policy resolver and the agent switch\<close>

text \<open>
  Without a user the resolver still decides at once: it never asks, leaves the grants alone,
  and grants exactly the calls with a valid name that the policy allows or that hold a grant; every
  refusal carries a reason.
\<close>

theorem policy_resolver_decides:
  assumes "grants_reachable cfg g"
  shows "\<exists>r events. policy_resolve name_ok cfg tool source args g = (r, events, g) \<and>
    (r = Granted \<longleftrightarrow> name_ok tool \<and>
       (pd_action (evaluate cfg tool args) = Allow \<or>
        grant_get g (evaluate cfg tool args) tool source = Some Allow)) \<and>
    (\<forall>e \<in> set events. \<exists>i reason. e = AutoResolved i (r \<noteq> Granted) reason) \<and>
    (r \<noteq> Granted \<and> name_ok tool \<longrightarrow>
       r = Refused (deny_reason_of (pd_matched_rule (evaluate cfg tool args))))"
proof -
  let ?d = "evaluate cfg tool args"
  obtain out where run: "enforce_authorization cfg g tool source args (\<lambda>_. ChooseDeny) = (out, g)"
    using sentinel_grants [of cfg g tool source args] by (metis prod.collapse)
  from gate_reason [OF run] have reason: "ao_deny_reason out =
       (if pd_action (ao_decision out) = Deny then Some (deny_reason_of (pd_matched_rule ?d)) else None)"
    by simp
  have "pd_action (ao_decision out) = Deny \<longleftrightarrow>
      \<not> (pd_action ?d = Allow \<or> grant_get g ?d tool source = Some Allow)"
  proof (cases "grant_get g ?d tool source")
    case (Some a)
    then have "a = Allow" using reachable_keys [OF assms] by (auto simp: grant_get_def)
    with Some run show ?thesis
      by (auto simp: enforce_authorization_def Let_def apply_session_grant_override_def)
  next
    case None
    with run show ?thesis
      by (cases "pd_action ?d")
        (auto simp: enforce_authorization_def Let_def override_none apply_ask_choice_def)
  qed
  with run reason show ?thesis
    by (auto simp: policy_resolve_def auto_resolved_def Let_def)
qed

lemma policy_resolver_decides_witness:
  "fst (policy_resolve (\<lambda>n. n \<noteq> []) (safe_defaults False) ''edit'' ''builtin'' [] Map.empty) \<noteq> Granted"
proof -
  have "pd_action (evaluate (safe_defaults False) ''edit'' []) = Deny" by code_simp
  with policy_resolver_decides [OF grants_reachable.start, where cfg = "safe_defaults False"
      and name_ok = "\<lambda>n. n \<noteq> []" and tool = "''edit''" and source = "''builtin''" and args = "[]"]
  show ?thesis by (auto simp: grant_get_def)
qed

text \<open>
  Switching agents does not accumulate permissions: whatever overlays came before, after a
  switch the session has exactly the policy that starting with this agent's overlay would give it
  (base, then agent, then command line), and no grant of the previous agent survives.
\<close>

theorem switch_matches_startup:
  assumes "st_base st = fst (resolve_effective_permissions permissions ov0 cli interactive)"
    and "st_cli_overlay st = cli"
  shows "st_permissions (switch_permissions (Some ov) (fold switch_permissions ovs st)) =
      fst (snd (resolve_effective_permissions permissions (Some ov) cli interactive)) \<and>
    st_session_grants (switch_permissions (Some ov) (fold switch_permissions ovs st)) = Map.empty"
proof -
  have keep: "st_base (switch_permissions x s) = st_base s \<and>
      st_cli_overlay (switch_permissions x s) = st_cli_overlay s" for x s
    by (simp add: switch_permissions_def with_agent_overlay_def clear_session_grants_def Let_def)
  have "st_base (fold switch_permissions ovs st) = st_base st \<and>
      st_cli_overlay (fold switch_permissions ovs st) = st_cli_overlay st"
    by (induction ovs arbitrary: st) (simp_all add: keep)
  moreover have "st_base st = from_plugin_config permissions interactive"
    using assms(1) by (simp add: resolve_effective_permissions_def Let_def)
  ultimately show ?thesis
    by (simp add: switch_permissions_def with_agent_overlay_def clear_session_grants_def Let_def
        grants_clear_def resolve_effective_permissions_def assms(2))
qed

definition demo_permission_state :: permission_state where
  "demo_permission_state = \<lparr>st_base = safe_defaults True, st_permissions = safe_defaults True,
     st_cli_overlay = None, st_session_grants = [grant_key_of (evaluate (safe_defaults True) ''nu'' [])
       ''nu'' ''builtin'' \<mapsto> Allow], st_startup_summary = [], st_startup_emitted = True\<rparr>"

lemma switch_matches_startup_witness:
  "st_session_grants (switch_permissions
     (Some \<lparr>po_global = Some Deny, po_tool_rules = [], po_nested_field_rules = []\<rparr>)
     (fold switch_permissions [None] demo_permission_state)) = Map.empty"
proof -
  have "st_base demo_permission_state = fst (resolve_effective_permissions None None None True)"
    "st_cli_overlay demo_permission_state = None"
    by (simp_all add: demo_permission_state_def resolve_effective_permissions_def Let_def
        from_plugin_config_def)
  from switch_matches_startup [OF this, where ovs = "[None]"
      and ov = "\<lparr>po_global = Some Deny, po_tool_rules = [], po_nested_field_rules = []\<rparr>"]
  show ?thesis by blast
qed

end
