(* ===== verification/Task_Store.thy ===== *)
theory Task_Store
  imports Prelude "HOL-Library.Product_Lexorder"
begin

text \<open>
  The A2A task store: the task data of \<open>crates/agnt-a2a/src/types/\<close> and the operations of
  \<open>InMemoryTaskStore\<close> in \<open>task_store/memory.rs\<close>.  An operation holds the lock of the task map while
  it changes a task, so each is one state change here.  Identifiers from \<open>Uuid::new_v4\<close> and clock
  readings are arguments; a clock reading is an integer.
\<close>

section \<open>Tasks\<close>

datatype task_state =
    Unspecified | Submitted | Working | InputRequired | Completed | Failed | Canceled | Rejected
  | AuthRequired

definition is_terminal :: "task_state \<Rightarrow> bool" where
  "is_terminal s \<longleftrightarrow> s = Completed \<or> s = Failed \<or> s = Canceled \<or> s = Rejected"

definition task_state_label :: "task_state \<Rightarrow> str" where
  "task_state_label s =
     (case s of Unspecified \<Rightarrow> ''unspecified'' | Submitted \<Rightarrow> ''submitted'' | Working \<Rightarrow> ''working''
      | InputRequired \<Rightarrow> ''input-required'' | Completed \<Rightarrow> ''completed'' | Failed \<Rightarrow> ''failed''
      | Canceled \<Rightarrow> ''canceled'' | Rejected \<Rightarrow> ''rejected'' | AuthRequired \<Rightarrow> ''auth-required'')"

definition task_state_display :: "task_state \<Rightarrow> str" where
  "task_state_display s =
     (case s of Unspecified \<Rightarrow> ''TASK_STATE_UNSPECIFIED'' | Submitted \<Rightarrow> ''TASK_STATE_SUBMITTED''
      | Working \<Rightarrow> ''TASK_STATE_WORKING'' | InputRequired \<Rightarrow> ''TASK_STATE_INPUT_REQUIRED''
      | Completed \<Rightarrow> ''TASK_STATE_COMPLETED'' | Failed \<Rightarrow> ''TASK_STATE_FAILED''
      | Canceled \<Rightarrow> ''TASK_STATE_CANCELED'' | Rejected \<Rightarrow> ''TASK_STATE_REJECTED''
      | AuthRequired \<Rightarrow> ''TASK_STATE_AUTH_REQUIRED'')"

definition task_state_try_from :: "str \<Rightarrow> str + task_state" where
  "task_state_try_from s =
     (if s = ''TASK_STATE_UNSPECIFIED'' then Inr Unspecified
      else if s = ''TASK_STATE_SUBMITTED'' then Inr Submitted
      else if s = ''TASK_STATE_WORKING'' then Inr Working
      else if s = ''TASK_STATE_INPUT_REQUIRED'' then Inr InputRequired
      else if s = ''TASK_STATE_COMPLETED'' then Inr Completed
      else if s = ''TASK_STATE_FAILED'' then Inr Failed
      else if s = ''TASK_STATE_CANCELED'' then Inr Canceled
      else if s = ''TASK_STATE_REJECTED'' then Inr Rejected
      else if s = ''TASK_STATE_AUTH_REQUIRED'' then Inr AuthRequired
      else Inl (''unknown task state: '' @ s))"

lemma task_state_round_trip: "task_state_try_from (task_state_display s) = Inr s"
  by (cases s) (simp_all add: task_state_try_from_def task_state_display_def)

definition is_valid_transition :: "task_state \<Rightarrow> task_state \<Rightarrow> bool" where
  "is_valid_transition frm to \<longleftrightarrow>
     (frm, to) \<in> {(Submitted, Working), (Submitted, Canceled), (Submitted, Rejected),
       (Working, InputRequired), (Working, Completed), (Working, Failed), (Working, Canceled),
       (Working, Rejected), (InputRequired, Working), (InputRequired, Canceled)}"

datatype role = RoleUser | RoleAgent

record file_content =
  fc_url :: str
  fc_filename :: str
  fc_media_type :: str

record data_content =
  dc_media_type :: str
  dc_schema :: json

datatype part = PText str | PFile file_content | PData data_content

type_synonym metadata = "(str \<times> json) list option"

record message =
  msg_role :: role
  msg_parts :: "part list"
  msg_id :: str
  msg_extensions :: "str list option"
  msg_metadata :: metadata

record artifact =
  art_id :: str
  art_name :: "str option"
  art_parts :: "part list"
  art_metadata :: metadata

record task_status =
  sta_state :: task_state
  sta_timestamp :: int
  sta_message :: "message option"

record task =
  task_id :: str
  task_context_id :: "str option"
  task_parent_id :: "str option"
  task_status :: task_status
  task_history :: "message list option"
  task_artifacts :: "artifact list"
  task_created_at :: "int option"
  task_metadata :: metadata

datatype task_event = StatusChanged str task_status | ArtifactAdded str artifact

datatype push_auth = Bearer str | Basic str str | Custom str json

record push_config =
  pn_id :: str
  pn_url :: str
  pn_task_id :: str
  pn_authentication :: "push_auth option"
  pn_created_at :: int

datatype a2a_error =
    ConnectionRefused str | RequestTimeout str | JsonRpcError int str "json option" | TaskNotFound str
  | InvalidStateTransition task_state task_state | SerializationError str | InternalError str

section \<open>The store\<close>

text \<open>
  A subscriber is a bounded channel of 64 events; \<open>ch_closed\<close> says that its receiver is gone.  A
  map whose iteration order is observable is an association list in that order.  \<open>ts_pushed\<close>
  collects the webhook deliveries that were spawned.
\<close>

record channel =
  ch_buffer :: "task_event list"
  ch_closed :: bool

record store =
  ts_tasks :: "(str \<times> task) list"
  ts_subs :: "str \<rightharpoonup> nat list"
  ts_channels :: "channel list"
  ts_push_configs :: "str \<rightharpoonup> push_config list"
  ts_idempotency :: "str \<rightharpoonup> str"
  ts_update_seq :: "str \<rightharpoonup> nat"
  ts_next_seq :: nat
  ts_pushed :: "(push_config \<times> task_event \<times> str option) list"

definition store_default :: store where
  "store_default = \<lparr>ts_tasks = [], ts_subs = Map.empty, ts_channels = [], ts_push_configs = Map.empty,
     ts_idempotency = Map.empty, ts_update_seq = Map.empty, ts_next_seq = 0, ts_pushed = []\<rparr>"

definition get_task :: "str \<Rightarrow> store \<Rightarrow> a2a_error + task" where
  "get_task i s = (case map_of (ts_tasks s) i of Some t \<Rightarrow> Inr t | None \<Rightarrow> Inl (TaskNotFound i))"

text \<open>\<open>fetch_add\<close> on an \<open>AtomicU64\<close> wraps around.\<close>

definition assign_update_seq :: "str \<Rightarrow> store \<Rightarrow> store" where
  "assign_update_seq i s =
     s\<lparr>ts_next_seq := (ts_next_seq s + 1) mod 2 ^ 64,
       ts_update_seq := (ts_update_seq s)(i \<mapsto> ts_next_seq s)\<rparr>"

section \<open>Subscriptions and notifications\<close>

definition new_channel :: "str \<Rightarrow> bool \<Rightarrow> store \<Rightarrow> store" where
  "new_channel i closed s =
     s\<lparr>ts_channels := ts_channels s @ [\<lparr>ch_buffer = [], ch_closed = closed\<rparr>],
       ts_subs := (ts_subs s)(i \<mapsto>
         (case ts_subs s i of None \<Rightarrow> [] | Some l \<Rightarrow> l) @ [length (ts_channels s)])\<rparr>"

definition subscribe :: "str \<Rightarrow> store \<Rightarrow> (nat \<times> bool) \<times> store" where
  "subscribe i s =
     ((length (ts_channels s), map_of (ts_tasks s) i \<noteq> None), new_channel i False s)"

definition prune_subscriptions :: "str \<Rightarrow> store \<Rightarrow> store" where
  "prune_subscriptions i s =
     (case ts_subs s i of None \<Rightarrow> s
      | Some l \<Rightarrow>
          (let l' = filter (\<lambda>c. \<not> ch_closed (ts_channels s ! c)) l
           in s\<lparr>ts_subs := (ts_subs s)(i := (if l' = [] then None else Some l'))\<rparr>))"

definition close_channel :: "nat \<Rightarrow> store \<Rightarrow> store" where
  "close_channel c s =
     s\<lparr>ts_channels := (ts_channels s)[c := (ts_channels s ! c)\<lparr>ch_closed := True\<rparr>]\<rparr>"

definition unregister_subscriber :: "str \<Rightarrow> nat \<Rightarrow> store \<Rightarrow> store" where
  "unregister_subscriber i c s = prune_subscriptions i (close_channel c s)"

text \<open>\<open>try_send\<close> fails on a full or closed channel; the loop goes on and remembers the failure.\<close>

definition try_send :: "nat \<Rightarrow> task_event \<Rightarrow> bool \<times> store \<Rightarrow> bool \<times> store" where
  "try_send c e fs =
     (case fs of (failed, s) \<Rightarrow>
       (let ch = ts_channels s ! c in
        if ch_closed ch \<or> 64 \<le> length (ch_buffer ch) then (True, s)
        else (failed,
              s\<lparr>ts_channels := (ts_channels s)[c := ch\<lparr>ch_buffer := ch_buffer ch @ [e]\<rparr>]\<rparr>)))"

definition notify_subscribers :: "str \<Rightarrow> task_event \<Rightarrow> store \<Rightarrow> store" where
  "notify_subscribers i e s =
     (case ts_subs s i of None \<Rightarrow> s
      | Some l \<Rightarrow>
          (let (failed, s1) = fold (\<lambda>c. try_send c e) l (False, s)
           in if failed then prune_subscriptions i s1 else s1))"

definition event_task :: "task_event \<Rightarrow> str" where
  "event_task e = (case e of StatusChanged i st \<Rightarrow> i | ArtifactAdded i a \<Rightarrow> i)"

definition notify_push_configs :: "task_event \<Rightarrow> store \<Rightarrow> store" where
  "notify_push_configs e s =
     (case ts_push_configs s (event_task e) of None \<Rightarrow> s
      | Some entries \<Rightarrow>
          (let context_id = Option.bind (map_of (ts_tasks s) (event_task e)) task_context_id
           in s\<lparr>ts_pushed := ts_pushed s @ map (\<lambda>c. (c, e, context_id)) entries\<rparr>))"

definition notify_status_change :: "str \<Rightarrow> task_status \<Rightarrow> store \<Rightarrow> store" where
  "notify_status_change i st s =
     notify_push_configs (StatusChanged i st) (notify_subscribers i (StatusChanged i st) s)"

definition notify_artifact_added :: "str \<Rightarrow> artifact \<Rightarrow> store \<Rightarrow> store" where
  "notify_artifact_added i a s =
     notify_push_configs (ArtifactAdded i a) (notify_subscribers i (ArtifactAdded i a) s)"

text \<open>The payload of a delivery; \<open>ser_status\<close> and \<open>ser_artifact\<close> are the derived serializers.\<close>

definition task_event_to_stream_response ::
  "(task_status \<Rightarrow> json) \<Rightarrow> (artifact \<Rightarrow> json) \<Rightarrow> task_event \<Rightarrow> str option \<Rightarrow> json" where
  "task_event_to_stream_response ser_status ser_artifact event context_id =
     (let ctx = (case context_id of None \<Rightarrow> [] | Some c \<Rightarrow> [(''contextId'', JString c)]) in
      case event of
        StatusChanged i st \<Rightarrow>
          JObject [(''statusUpdate'',
            JObject ([(''taskId'', JString i), (''status'', ser_status st)] @ ctx))]
      | ArtifactAdded i a \<Rightarrow>
          JObject [(''artifactUpdate'',
            JObject ([(''taskId'', JString i), (''artifact'', ser_artifact a)] @ ctx))])"

section \<open>Webhooks\<close>

definition create_push_config ::
  "str \<Rightarrow> int \<Rightarrow> str \<Rightarrow> str \<Rightarrow> push_auth option \<Rightarrow> store \<Rightarrow> push_config \<times> store" where
  "create_push_config uuid now i url authentication s =
     (let config = \<lparr>pn_id = uuid, pn_url = url, pn_task_id = i, pn_authentication = authentication,
                    pn_created_at = now\<rparr>
      in (config, s\<lparr>ts_push_configs := (ts_push_configs s)(i \<mapsto>
            (case ts_push_configs s i of None \<Rightarrow> [] | Some l \<Rightarrow> l) @ [config])\<rparr>))"

definition get_push_config :: "str \<Rightarrow> str \<Rightarrow> store \<Rightarrow> push_config option" where
  "get_push_config i config_id s =
     Option.bind (ts_push_configs s i) (find (\<lambda>c. pn_id c = config_id))"

definition list_push_configs :: "str \<Rightarrow> store \<Rightarrow> push_config list" where
  "list_push_configs i s = (case ts_push_configs s i of None \<Rightarrow> [] | Some l \<Rightarrow> l)"

definition delete_push_config :: "str \<Rightarrow> str \<Rightarrow> store \<Rightarrow> store" where
  "delete_push_config i config_id s =
     (case ts_push_configs s i of None \<Rightarrow> s
      | Some l \<Rightarrow> s\<lparr>ts_push_configs :=
          (ts_push_configs s)(i \<mapsto> filter (\<lambda>c. pn_id c \<noteq> config_id) l)\<rparr>)"

section \<open>Tasks in the store\<close>

definition create_task ::
  "str \<Rightarrow> int \<Rightarrow> int \<Rightarrow> str option \<Rightarrow> str option \<Rightarrow> metadata \<Rightarrow> store \<Rightarrow> task \<times> store" where
  "create_task uuid now created context_id parent_task_id metadata s =
     (let t = \<lparr>task_id = uuid, task_context_id = context_id, task_parent_id = parent_task_id,
               task_status = \<lparr>sta_state = Submitted, sta_timestamp = now, sta_message = None\<rparr>,
               task_history = None, task_artifacts = [], task_created_at = Some created,
               task_metadata = metadata\<rparr>
      in (t, assign_update_seq uuid (s\<lparr>ts_tasks := al_put uuid t (ts_tasks s)\<rparr>)))"

definition create_task_with_idempotency_impl ::
  "str \<Rightarrow> int \<Rightarrow> int \<Rightarrow> str \<Rightarrow> str option \<Rightarrow> str option \<Rightarrow> metadata \<Rightarrow> store \<Rightarrow>
   (task + task) \<times> store" where
  "create_task_with_idempotency_impl uuid now created key context_id parent_task_id metadata s =
     (case Option.bind (ts_idempotency s key) (map_of (ts_tasks s)) of
        Some t \<Rightarrow> (Inl t, s)
      | None \<Rightarrow>
          (let (t, s1) = create_task uuid now created context_id parent_task_id metadata s
           in (Inr t, s1\<lparr>ts_idempotency := (ts_idempotency s1)(key \<mapsto> task_id t)\<rparr>)))"

text \<open>The receiver made here is dropped on return, so the subscribed channel is already closed.\<close>

definition create_task_with_idempotency ::
  "str \<Rightarrow> int \<Rightarrow> int \<Rightarrow> str \<Rightarrow> str option \<Rightarrow> str option \<Rightarrow> metadata \<Rightarrow> store \<Rightarrow>
   (task \<times> nat + task) \<times> store" where
  "create_task_with_idempotency uuid now created key context_id parent_task_id metadata s =
     (case create_task_with_idempotency_impl uuid now created key context_id parent_task_id metadata s of
        (Inr t, s1) \<Rightarrow> (Inr t, new_channel (task_id t) True s1)
      | (Inl t, s1) \<Rightarrow> (Inl (t, length (ts_channels s1)), new_channel (task_id t) True s1))"

definition update_status ::
  "int \<Rightarrow> str \<Rightarrow> task_state \<Rightarrow> message option \<Rightarrow> store \<Rightarrow> (a2a_error + task) \<times> store" where
  "update_status now i new_state message s =
     (case map_of (ts_tasks s) i of
        None \<Rightarrow> (Inl (TaskNotFound i), s)
      | Some t \<Rightarrow>
          (if \<not> is_valid_transition (sta_state (task_status t)) new_state
           then (Inl (InvalidStateTransition (sta_state (task_status t)) new_state), s)
           else
             (let st = \<lparr>sta_state = new_state, sta_timestamp = now, sta_message = message\<rparr>;
                  t' = t\<lparr>task_status := st\<rparr>
              in (Inr t', notify_status_change i st
                   (assign_update_seq i (s\<lparr>ts_tasks := al_put i t' (ts_tasks s)\<rparr>))))))"

definition add_artifact :: "str \<Rightarrow> artifact \<Rightarrow> store \<Rightarrow> (a2a_error + task) \<times> store" where
  "add_artifact i a s =
     (case map_of (ts_tasks s) i of
        None \<Rightarrow> (Inl (TaskNotFound i), s)
      | Some t \<Rightarrow>
          (let t' = t\<lparr>task_artifacts := task_artifacts t @ [a]\<rparr>
           in (Inr t', notify_artifact_added i a (s\<lparr>ts_tasks := al_put i t' (ts_tasks s)\<rparr>))))"

definition agent_message :: "str \<Rightarrow> str \<Rightarrow> message" where
  "agent_message uuid content =
     \<lparr>msg_role = RoleAgent, msg_parts = [PText content], msg_id = uuid, msg_extensions = None,
      msg_metadata = None\<rparr>"

definition cancel_task :: "int \<Rightarrow> str \<Rightarrow> store \<Rightarrow> (a2a_error + task) \<times> store" where
  "cancel_task now i s = update_status now i Canceled None s"

definition fail_task :: "str \<Rightarrow> int \<Rightarrow> str \<Rightarrow> str \<Rightarrow> store \<Rightarrow> (a2a_error + task) \<times> store" where
  "fail_task uuid now i reason s = update_status now i Failed (Some (agent_message uuid reason)) s"

definition reject_task :: "str \<Rightarrow> int \<Rightarrow> str \<Rightarrow> str \<Rightarrow> store \<Rightarrow> (a2a_error + task) \<times> store" where
  "reject_task uuid now i reason s = update_status now i Rejected (Some (agent_message uuid reason)) s"

definition complete_task ::
  "str \<Rightarrow> str \<Rightarrow> int \<Rightarrow> str \<Rightarrow> str \<Rightarrow> store \<Rightarrow> (a2a_error + task) \<times> store" where
  "complete_task uuid uuid2 now i result s =
     (case map_of (ts_tasks s) i of
        None \<Rightarrow> (Inl (TaskNotFound i), s)
      | Some t \<Rightarrow>
          (if \<not> is_valid_transition (sta_state (task_status t)) Completed
           then (Inl (InvalidStateTransition (sta_state (task_status t)) Completed), s)
           else
             (let a = \<lparr>art_id = uuid, art_name = Some ''result'', art_parts = [PText result],
                       art_metadata = None\<rparr>;
                  st = \<lparr>sta_state = Completed, sta_timestamp = now,
                        sta_message = Some (agent_message uuid2 ''Task completed successfully'')\<rparr>;
                  t' = t\<lparr>task_artifacts := task_artifacts t @ [a], task_status := st\<rparr>
              in (Inr t', notify_status_change i st (notify_artifact_added i a
                   (s\<lparr>ts_tasks := al_put i t' (ts_tasks s)\<rparr>))))))"

definition append_history :: "str \<Rightarrow> message \<Rightarrow> store \<Rightarrow> (a2a_error + task) \<times> store" where
  "append_history i m s =
     (case map_of (ts_tasks s) i of
        None \<Rightarrow> (Inl (TaskNotFound i), s)
      | Some t \<Rightarrow>
          (if is_terminal (sta_state (task_status t))
           then (Inl (InvalidStateTransition (sta_state (task_status t)) (sta_state (task_status t))), s)
           else
             (let t' = t\<lparr>task_history :=
                    Some ((case task_history t of None \<Rightarrow> [] | Some h \<Rightarrow> h) @ [m])\<rparr>
              in (Inr t', s\<lparr>ts_tasks := al_put i t' (ts_tasks s)\<rparr>))))"

section \<open>Listing\<close>

text \<open>
  The comparison: newest status first, then the greatest update sequence (a task without one comes
  last), then the identifier.
\<close>

definition list_key :: "store \<Rightarrow> task \<Rightarrow> int \<times> int \<times> str" where
  "list_key s t =
     (- sta_timestamp (task_status t),
      (case ts_update_seq s (task_id t) of None \<Rightarrow> 1 | Some n \<Rightarrow> - int n), task_id t)"

definition cut_after_cursor :: "str option \<Rightarrow> task list \<Rightarrow> task list" where
  "cut_after_cursor cursor l =
     (case cursor of None \<Rightarrow> l
      | Some c \<Rightarrow>
          (case dropWhile (\<lambda>t. task_id t \<noteq> c) l of [] \<Rightarrow> l | t # rest \<Rightarrow> rest))"

definition page_of :: "nat \<Rightarrow> task list \<Rightarrow> task list \<times> str option" where
  "page_of limit l =
     (let p = take limit l
      in (p, if limit < length l \<and> p \<noteq> [] then Some (task_id (last p)) else None))"

definition list_tasks_filtered ::
  "task_state option \<Rightarrow> str option \<Rightarrow> nat \<Rightarrow> str option \<Rightarrow> store \<Rightarrow> task list \<times> str option" where
  "list_tasks_filtered status context_id limit cursor s =
     (let l = map snd (ts_tasks s);
          l1 = (case status of None \<Rightarrow> l | Some x \<Rightarrow> filter (\<lambda>t. sta_state (task_status t) = x) l);
          l2 = (case context_id of None \<Rightarrow> l1
                | Some c \<Rightarrow> filter (\<lambda>t. task_context_id t = Some c) l1)
      in page_of limit (cut_after_cursor cursor (sort_key (list_key s) l2)))"

definition list_tasks :: "task_state option \<Rightarrow> store \<Rightarrow> task list" where
  "list_tasks state s =
     (case state of
        Some x \<Rightarrow> filter (\<lambda>t. sta_state (task_status t) = x) (map snd (ts_tasks s))
      | None \<Rightarrow> map snd (ts_tasks s))"

definition backend_list_tasks ::
  "task_state list option \<Rightarrow> nat option \<Rightarrow> str option \<Rightarrow> store \<Rightarrow> task list \<times> nat \<times> str option" where
  "backend_list_tasks states page_size next_page_token s =
     (let limit = (case page_size of None \<Rightarrow> 50 | Some n \<Rightarrow> n);
          all_tasks = list_tasks None s;
          filtered = (case states of None \<Rightarrow> all_tasks
                      | Some xs \<Rightarrow> filter (\<lambda>t. sta_state (task_status t) \<in> set xs) all_tasks);
          (page, token) =
            page_of limit (cut_after_cursor next_page_token (sort_key (list_key s) filtered))
      in (page, length filtered, token))"

end
