(* ===== verification/Task_Store_Facts.thy ===== *)
theory Task_Store_Facts
  imports Task_Store
begin

text \<open>
  What the task store guarantees: a task only moves along the A2A state machine and a terminal task
  is final, every open subscriber is notified once per change, a repeated idempotency key creates
  nothing, and walking the pages lists every matching task once, newest first.
\<close>

section \<open>The interface of a task backend\<close>

text \<open>
  The contract of \<open>TaskStoreBackend\<close> for one task: a step keeps the identity of a task, moves its
  state along a valid transition or not at all, only appends artifacts and messages, and leaves the
  status and the history of a terminal task alone.
\<close>

definition same_identity :: "task \<Rightarrow> task \<Rightarrow> bool" where
  "same_identity t t' \<longleftrightarrow> task_id t' = task_id t \<and> task_context_id t' = task_context_id t \<and>
     task_parent_id t' = task_parent_id t \<and> task_created_at t' = task_created_at t \<and>
     task_metadata t' = task_metadata t"

definition messages :: "task \<Rightarrow> message list" where
  "messages t = (case task_history t of None \<Rightarrow> [] | Some h \<Rightarrow> h)"

definition task_step :: "task \<Rightarrow> task \<Rightarrow> bool" where
  "task_step t t' \<longleftrightarrow> same_identity t t' \<and>
     (task_status t' = task_status t \<or>
      is_valid_transition (sta_state (task_status t)) (sta_state (task_status t'))) \<and>
     prefix (task_artifacts t) (task_artifacts t') \<and> prefix (messages t) (messages t') \<and>
     (is_terminal (sta_state (task_status t)) \<longrightarrow>
        task_status t' = task_status t \<and> task_history t' = task_history t)"

definition task_life :: "task \<Rightarrow> task \<Rightarrow> bool" where
  "task_life t t' \<longleftrightarrow> same_identity t t' \<and>
     is_valid_transition\<^sup>*\<^sup>* (sta_state (task_status t)) (sta_state (task_status t')) \<and>
     prefix (task_artifacts t) (task_artifacts t') \<and> prefix (messages t) (messages t') \<and>
     (is_terminal (sta_state (task_status t)) \<longrightarrow>
        task_status t' = task_status t \<and> task_history t' = task_history t)"

lemma task_step_life: "task_step t t' \<Longrightarrow> task_life t t'"
  by (auto simp: task_step_def task_life_def)

lemma task_life_refl: "task_life t t"
  by (simp add: task_life_def same_identity_def)

lemma task_life_trans:
  assumes "task_life t u" and "task_life u v"
  shows "task_life t v"
proof -
  have 1: "same_identity t u" "is_valid_transition\<^sup>*\<^sup>* (sta_state (task_status t)) (sta_state (task_status u))"
    "prefix (task_artifacts t) (task_artifacts u)" "prefix (messages t) (messages u)"
    "is_terminal (sta_state (task_status t)) \<longrightarrow>
       task_status u = task_status t \<and> task_history u = task_history t"
    using assms(1) by (simp_all add: task_life_def)
  have 2: "same_identity u v" "is_valid_transition\<^sup>*\<^sup>* (sta_state (task_status u)) (sta_state (task_status v))"
    "prefix (task_artifacts u) (task_artifacts v)" "prefix (messages u) (messages v)"
    "is_terminal (sta_state (task_status u)) \<longrightarrow>
       task_status v = task_status u \<and> task_history v = task_history u"
    using assms(2) by (simp_all add: task_life_def)
  show ?thesis
    unfolding task_life_def
    using 1 2 rtranclp_trans [OF 1(2) 2(2)] prefix_order.trans [OF 1(3) 2(3)]
      prefix_order.trans [OF 1(4) 2(4)]
    by (auto simp: same_identity_def)
qed

locale task_backend =
  fixes get :: "'s \<Rightarrow> str \<Rightarrow> task option"
    and step :: "'s \<Rightarrow> 's \<Rightarrow> bool"
  assumes step_get: "step s s' \<Longrightarrow> get s i = Some t \<Longrightarrow> \<exists>t'. get s' i = Some t' \<and> task_step t t'"
begin

lemma run_life:
  "step\<^sup>*\<^sup>* s s' \<Longrightarrow> get s i = Some t \<Longrightarrow> \<exists>t'. get s' i = Some t' \<and> task_life t t'"
proof (induction rule: rtranclp_induct)
  case base
  then show ?case using task_life_refl by blast
next
  case (step u v)
  then obtain t1 where "get u i = Some t1" "task_life t t1" by blast
  with step_get [OF step.hyps(2)] task_step_life task_life_trans show ?case by blast
qed

end

section \<open>The steps of the store\<close>

lemma notify_subscribers_frame [simp]:
  "ts_tasks (notify_subscribers i e s) = ts_tasks s"
  "ts_push_configs (notify_subscribers i e s) = ts_push_configs s"
  "ts_idempotency (notify_subscribers i e s) = ts_idempotency s"
  "ts_update_seq (notify_subscribers i e s) = ts_update_seq s"
  "ts_next_seq (notify_subscribers i e s) = ts_next_seq s"
  "ts_pushed (notify_subscribers i e s) = ts_pushed s"
proof -
  have *: "\<exists>ch f. fold (\<lambda>c. try_send c e) l (b, s) = (f, s\<lparr>ts_channels := ch\<rparr>)" for l b s
  proof (induction l arbitrary: b s)
    case Nil
    then show ?case by (auto intro: exI [of _ "ts_channels s"])
  next
    case (Cons c l)
    show ?case
    proof (cases "try_send c e (b, s)")
      case (Pair b' s')
      then have "s' = s \<or> (\<exists>ch. s' = s\<lparr>ts_channels := ch\<rparr>)"
        by (auto simp: try_send_def Let_def split: if_splits)
      with Cons [of b' s'] Pair show ?thesis by auto
    qed
  qed
  have "\<exists>ch sb. notify_subscribers i e s = s\<lparr>ts_channels := ch, ts_subs := sb\<rparr>"
  proof (cases "ts_subs s i")
    case None
    then show ?thesis
      by (auto simp: notify_subscribers_def intro!: exI [of _ "ts_channels s"] exI [of _ "ts_subs s"])
  next
    case (Some l)
    from * [of l False s] obtain ch f where
      "fold (\<lambda>c. try_send c e) l (False, s) = (f, s\<lparr>ts_channels := ch\<rparr>)" by blast
    with Some show ?thesis
      by (auto simp: notify_subscribers_def prune_subscriptions_def Let_def)
        (auto intro!: exI [of _ ch] exI [of _ "ts_subs s"])
  qed
  then obtain ch sb where "notify_subscribers i e s = s\<lparr>ts_channels := ch, ts_subs := sb\<rparr>" by blast
  then show "ts_tasks (notify_subscribers i e s) = ts_tasks s"
    "ts_push_configs (notify_subscribers i e s) = ts_push_configs s"
    "ts_idempotency (notify_subscribers i e s) = ts_idempotency s"
    "ts_update_seq (notify_subscribers i e s) = ts_update_seq s"
    "ts_next_seq (notify_subscribers i e s) = ts_next_seq s"
    "ts_pushed (notify_subscribers i e s) = ts_pushed s"
    by simp_all
qed

lemma notify_frame [simp]:
  "ts_tasks (notify_push_configs e s) = ts_tasks s"
  "ts_idempotency (notify_push_configs e s) = ts_idempotency s"
  "ts_update_seq (notify_push_configs e s) = ts_update_seq s"
  "ts_next_seq (notify_push_configs e s) = ts_next_seq s"
  "ts_tasks (notify_status_change i st s) = ts_tasks s"
  "ts_idempotency (notify_status_change i st s) = ts_idempotency s"
  "ts_update_seq (notify_status_change i st s) = ts_update_seq s"
  "ts_next_seq (notify_status_change i st s) = ts_next_seq s"
  "ts_tasks (notify_artifact_added i a s) = ts_tasks s"
  "ts_idempotency (notify_artifact_added i a s) = ts_idempotency s"
  "ts_update_seq (notify_artifact_added i a s) = ts_update_seq s"
  "ts_next_seq (notify_artifact_added i a s) = ts_next_seq s"
  by (simp_all add: notify_push_configs_def notify_status_change_def notify_artifact_added_def Let_def
      split: option.split)

lemma prune_frame [simp]:
  "ts_tasks (prune_subscriptions i s) = ts_tasks s"
  "ts_idempotency (prune_subscriptions i s) = ts_idempotency s"
  "ts_update_seq (prune_subscriptions i s) = ts_update_seq s"
  by (simp_all add: prune_subscriptions_def Let_def split: option.split)

text \<open>Any operation of the store; a new identifier is one no task has.\<close>

inductive store_step :: "store \<Rightarrow> store \<Rightarrow> bool" where
  create: "map_of (ts_tasks s) uuid = None \<Longrightarrow>
    store_step s (snd (create_task uuid now created ctx parent md s))"
| create_idem: "map_of (ts_tasks s) uuid = None \<Longrightarrow>
    store_step s (snd (create_task_with_idempotency uuid now created key ctx parent md s))"
| status: "store_step s (snd (update_status now i new_state m s))"
| artifact: "store_step s (snd (add_artifact i a s))"
| complete: "store_step s (snd (complete_task uuid uuid2 now i result s))"
| history: "store_step s (snd (append_history i m s))"
| subscribe: "store_step s (snd (subscribe i s))"
| unregister: "c < length (ts_channels s) \<Longrightarrow> store_step s (unregister_subscriber i c s)"
| receive: "c < length (ts_channels s) \<Longrightarrow>
    store_step s (s\<lparr>ts_channels := (ts_channels s)[c := (ts_channels s ! c)\<lparr>ch_buffer := b\<rparr>]\<rparr>)"
| push: "store_step s (snd (create_push_config uuid now i url auth s))"
| unpush: "store_step s (delete_push_config i config_id s)"

lemma get_task_iff: "get_task i s = Inr t \<longleftrightarrow> map_of (ts_tasks s) i = Some t"
  by (auto simp: get_task_def split: option.split)

lemma task_step_refl: "task_step t t"
  by (simp add: task_step_def same_identity_def)

lemma valid_not_terminal: "is_valid_transition a b \<Longrightarrow> \<not> is_terminal a"
  by (auto simp: is_valid_transition_def is_terminal_def)

lemma store_step_task:
  assumes "store_step s s'" and "map_of (ts_tasks s) i = Some t"
  shows "\<exists>t'. map_of (ts_tasks s') i = Some t' \<and> task_step t t'"
  using assms
proof (cases rule: store_step.cases)
  case (create uuid now created ctx parent md)
  with assms(2) show ?thesis
    by (auto simp: create_task_def Let_def assign_update_seq_def task_step_refl)
next
  case (create_idem uuid now created key ctx parent md)
  with assms(2) show ?thesis
    by (auto simp: create_task_with_idempotency_def create_task_with_idempotency_impl_def
        create_task_def Let_def assign_update_seq_def new_channel_def task_step_refl
        split: option.split)
next
  case (status now j new_state m)
  with assms(2) show ?thesis
    by (auto simp: update_status_def Let_def assign_update_seq_def task_step_def same_identity_def
        messages_def dest: valid_not_terminal split: option.split)
next
  case (artifact j a)
  with assms(2) show ?thesis
    by (auto simp: add_artifact_def Let_def task_step_def same_identity_def messages_def
        split: option.split)
next
  case (complete uuid uuid2 now j result)
  with assms(2) show ?thesis
    by (auto simp: complete_task_def Let_def task_step_def same_identity_def messages_def
        dest: valid_not_terminal split: option.split)
next
  case (history j m)
  with assms(2) show ?thesis
    by (auto simp: append_history_def Let_def task_step_def same_identity_def messages_def
        split: option.split)
qed (auto simp: subscribe_def new_channel_def unregister_subscriber_def close_channel_def
      create_push_config_def delete_push_config_def Let_def task_step_refl split: option.split)

interpretation mem: task_backend "\<lambda>s. map_of (ts_tasks s)" store_step
  by unfold_locales (rule store_step_task)

text \<open>
  C10. The life of a task: through any sequence of operations of the store, a task keeps its
  identity, its state moves only along the A2A state machine, its artifacts and messages only grow,
  and once it is completed, failed, canceled or rejected its status and history never change again.
\<close>

theorem task_lifecycle:
  assumes "store_step\<^sup>*\<^sup>* s s'" and "get_task i s = Inr t"
  shows "\<exists>t'. get_task i s' = Inr t' \<and> same_identity t t' \<and>
    is_valid_transition\<^sup>*\<^sup>* (sta_state (task_status t)) (sta_state (task_status t')) \<and>
    prefix (task_artifacts t) (task_artifacts t') \<and> prefix (messages t) (messages t') \<and>
    (is_terminal (sta_state (task_status t)) \<longrightarrow>
       task_status t' = task_status t \<and> task_history t' = task_history t)"
  using mem.run_life [OF assms(1)] assms(2) by (simp add: get_task_iff task_life_def)

definition demo_store :: store where
  "demo_store = snd (cancel_task 7 ''t1'' (snd (create_task ''t1'' 5 5 None None None store_default)))"

lemma task_lifecycle_witness:
  "\<exists>t'. get_task ''t1'' (snd (update_status 9 ''t1'' Working None demo_store)) = Inr t' \<and>
     sta_state (task_status t') = Canceled"
proof -
  have t: "get_task ''t1'' demo_store = Inr
     \<lparr>task_id = ''t1'', task_context_id = None, task_parent_id = None,
      task_status = \<lparr>sta_state = Canceled, sta_timestamp = 7, sta_message = None\<rparr>,
      task_history = None, task_artifacts = [], task_created_at = Some 5, task_metadata = None\<rparr>"
    by (simp add: get_task_def demo_store_def cancel_task_def update_status_def create_task_def
        store_default_def Let_def assign_update_seq_def is_valid_transition_def)
  have "store_step\<^sup>*\<^sup>* demo_store (snd (update_status 9 ''t1'' Working None demo_store))"
    by (intro r_into_rtranclp store_step.status)
  from task_lifecycle [OF this t] show ?thesis by (auto simp: is_terminal_def)
qed

section \<open>The invariant of the store\<close>

definition store_ok :: "store \<Rightarrow> bool" where
  "store_ok s \<longleftrightarrow>
     distinct (map fst (ts_tasks s)) \<and>
     (\<forall>(k, t) \<in> set (ts_tasks s). task_id t = k) \<and>
     (\<forall>i l. ts_subs s i = Some l \<longrightarrow> distinct l \<and> (\<forall>c \<in> set l. c < length (ts_channels s))) \<and>
     (\<forall>key i. ts_idempotency s key = Some i \<longrightarrow> map_of (ts_tasks s) i \<noteq> None)"

lemma set_al_put: "set (al_put k v m) \<subseteq> insert (k, v) (set m)"
  by (induction k v m rule: al_put.induct) auto

text \<open>The four parts of the invariant, so that each operation is checked on the parts it touches.\<close>

definition tasks_ok :: "(str \<times> task) list \<Rightarrow> bool" where
  "tasks_ok m \<longleftrightarrow> distinct (map fst m) \<and> (\<forall>(k, t) \<in> set m. task_id t = k)"

definition subs_ok :: "(str \<rightharpoonup> nat list) \<Rightarrow> nat \<Rightarrow> bool" where
  "subs_ok subs n \<longleftrightarrow> (\<forall>i l. subs i = Some l \<longrightarrow> distinct l \<and> (\<forall>c \<in> set l. c < n))"

definition keys_ok :: "(str \<rightharpoonup> str) \<Rightarrow> (str \<times> task) list \<Rightarrow> bool" where
  "keys_ok keys m \<longleftrightarrow> (\<forall>key i. keys key = Some i \<longrightarrow> map_of m i \<noteq> None)"

lemma store_ok_parts:
  "store_ok s \<longleftrightarrow> tasks_ok (ts_tasks s) \<and> subs_ok (ts_subs s) (length (ts_channels s)) \<and>
     keys_ok (ts_idempotency s) (ts_tasks s)"
  unfolding store_ok_def tasks_ok_def subs_ok_def keys_ok_def by blast

lemma tasks_ok_put: "tasks_ok m \<Longrightarrow> task_id t = k \<Longrightarrow> tasks_ok (al_put k t m)"
  using set_al_put [of k t m] by (auto simp: tasks_ok_def distinct_al_put)

lemma tasks_ok_lookup: "tasks_ok m \<Longrightarrow> map_of m k = Some t \<Longrightarrow> task_id t = k"
  by (auto simp: tasks_ok_def dest!: map_of_SomeD)

lemma keys_ok_put: "keys_ok keys m \<Longrightarrow> keys_ok keys (al_put k t m)"
  by (auto simp: keys_ok_def)

lemma subs_ok_prune:
  "subs_ok (ts_subs s) n \<Longrightarrow> subs_ok (ts_subs (prune_subscriptions i s)) n"
  by (auto simp: subs_ok_def prune_subscriptions_def Let_def split: option.split)

lemma subs_ok_new:
  "subs_ok (ts_subs s) (length (ts_channels s)) \<Longrightarrow>
   subs_ok (ts_subs (new_channel i b s)) (length (ts_channels (new_channel i b s)))"
  by (fastforce simp: subs_ok_def new_channel_def less_Suc_eq split: option.split)

lemma try_send_frame:
  "ts_subs (snd (try_send c e fs)) = ts_subs (snd fs)"
  "length (ts_channels (snd (try_send c e fs))) = length (ts_channels (snd fs))"
  by (cases fs; simp add: try_send_def Let_def)+

lemma fold_try_send_frame:
  "ts_subs (snd (fold (\<lambda>c. try_send c e) l fs)) = ts_subs (snd fs) \<and>
   length (ts_channels (snd (fold (\<lambda>c. try_send c e) l fs))) = length (ts_channels (snd fs))"
  by (induction l arbitrary: fs) (simp_all add: try_send_frame)

lemma notify_subs:
  "length (ts_channels (notify_subscribers i e s)) = length (ts_channels s)"
  "subs_ok (ts_subs s) n \<Longrightarrow> subs_ok (ts_subs (notify_subscribers i e s)) n"
proof -
  consider "ts_subs s i = None" | l failed s1 where "ts_subs s i = Some l"
    "fold (\<lambda>c. try_send c e) l (False, s) = (failed, s1)" "ts_subs s1 = ts_subs s"
    "length (ts_channels s1) = length (ts_channels s)"
    using fold_try_send_frame [of e _ "(False, s)"] by (metis not_None_eq prod.collapse snd_conv)
  note cases = this
  show "length (ts_channels (notify_subscribers i e s)) = length (ts_channels s)"
    by (cases rule: cases) (simp_all add: notify_subscribers_def prune_subscriptions_def Let_def)
  show "subs_ok (ts_subs (notify_subscribers i e s)) n" if "subs_ok (ts_subs s) n"
    using that by (cases rule: cases) (simp_all add: notify_subscribers_def subs_ok_prune)
qed

lemma notify_ok:
  "store_ok s \<Longrightarrow> store_ok (notify_status_change i st s)"
  "store_ok s \<Longrightarrow> store_ok (notify_artifact_added i a s)"
  using notify_subs [where i = i and s = s]
  by (auto simp: store_ok_parts notify_status_change_def notify_artifact_added_def
      notify_push_configs_def Let_def split: option.split)

lemma store_ok_put:
  "store_ok s \<Longrightarrow> task_id t = i \<Longrightarrow> store_ok (s\<lparr>ts_tasks := al_put i t (ts_tasks s)\<rparr>)"
  by (simp add: store_ok_parts tasks_ok_put keys_ok_put)

lemma store_ok_id: "store_ok s \<Longrightarrow> map_of (ts_tasks s) i = Some t \<Longrightarrow> task_id t = i"
  using tasks_ok_lookup [of "ts_tasks s" i t] by (simp add: store_ok_parts)

lemma store_ok_seq: "store_ok s \<Longrightarrow> store_ok (assign_update_seq i s)"
  by (simp add: store_ok_parts assign_update_seq_def)

lemma store_ok_new_channel: "store_ok s \<Longrightarrow> store_ok (new_channel i b s)"
  using subs_ok_new [of s i b] by (auto simp: store_ok_parts) (simp_all add: new_channel_def)

lemma store_ok_create: "store_ok s \<Longrightarrow> store_ok (snd (create_task uuid now created ctx parent md s))"
  by (simp add: create_task_def Let_def store_ok_seq store_ok_put)

lemma store_ok_create_idem:
  assumes "store_ok s"
  shows "store_ok (snd (create_task_with_idempotency uuid now created key ctx parent md s))"
proof -
  have "store_ok (snd (create_task_with_idempotency_impl uuid now created key ctx parent md s))"
    using store_ok_create [OF assms, of uuid now created ctx parent md] assms
    by (auto simp: create_task_with_idempotency_impl_def Let_def split: option.split prod.split)
      (auto simp: store_ok_parts keys_ok_def create_task_def Let_def assign_update_seq_def)
  then show ?thesis
    by (auto simp: create_task_with_idempotency_def store_ok_new_channel
        split: prod.splits sum.splits)
qed

lemma store_ok_step:
  assumes "store_step s s'" and ok: "store_ok s"
  shows "store_ok s'"
  using assms(1)
proof (cases rule: store_step.cases)
  case (status now j new_state m)
  then show ?thesis
    using ok store_ok_id [of s j]
    by (auto simp: update_status_def Let_def notify_ok store_ok_seq store_ok_put split: option.split)
next
  case (artifact j a)
  then show ?thesis
    using ok store_ok_id [of s j]
    by (auto simp: add_artifact_def Let_def notify_ok store_ok_seq store_ok_put split: option.split)
next
  case (complete uuid uuid2 now j result)
  then show ?thesis
    using ok store_ok_id [of s j]
    by (auto simp: complete_task_def Let_def notify_ok store_ok_seq store_ok_put split: option.split)
next
  case (history j m)
  then show ?thesis
    using ok store_ok_id [of s j]
    by (auto simp: append_history_def Let_def notify_ok store_ok_seq store_ok_put split: option.split)
next
  case (unregister c i)
  then show ?thesis
    using ok subs_ok_prune [of "close_channel c s"]
    by (simp add: store_ok_parts unregister_subscriber_def close_channel_def prune_subscriptions_def
        Let_def split: option.split)
qed (use ok store_ok_create store_ok_create_idem store_ok_new_channel in
      \<open>auto simp: subscribe_def create_push_config_def delete_push_config_def Let_def store_ok_parts
        split: option.split\<close>)

lemma store_ok_run:
  assumes "store_step\<^sup>*\<^sup>* store_default s"
  shows "store_ok s"
  using assms
proof (induction rule: rtranclp_induct)
  case base
  show ?case by (simp add: store_ok_def store_default_def)
next
  case (step y z)
  then show ?case using store_ok_step by blast
qed

section \<open>Notifications\<close>

definition accepts :: "channel \<Rightarrow> bool" where
  "accepts ch \<longleftrightarrow> \<not> ch_closed ch \<and> length (ch_buffer ch) < 64"

definition delivered :: "task_event \<Rightarrow> channel \<Rightarrow> channel" where
  "delivered e ch = (if accepts ch then ch\<lparr>ch_buffer := ch_buffer ch @ [e]\<rparr> else ch)"

lemma try_send_eq:
  "c < length (ts_channels s) \<Longrightarrow>
   try_send c e (f, s) = (f \<or> \<not> accepts (ts_channels s ! c),
     s\<lparr>ts_channels := (ts_channels s)[c := delivered e (ts_channels s ! c)]\<rparr>)"
  by (auto simp: try_send_def accepts_def delivered_def Let_def)

lemma fold_try_send:
  "distinct l \<Longrightarrow> \<forall>c \<in> set l. c < length (ts_channels s) \<Longrightarrow>
   fold (\<lambda>c. try_send c e) l (f, s) =
     (f \<or> (\<exists>c \<in> set l. \<not> accepts (ts_channels s ! c)),
      s\<lparr>ts_channels := map (\<lambda>c. if c \<in> set l then delivered e (ts_channels s ! c) else ts_channels s ! c)
                        [0..<length (ts_channels s)]\<rparr>)"
proof (induction l arbitrary: f s)
  case Nil
  have "map ((!) (ts_channels s)) [0..<length (ts_channels s)] = ts_channels s" by (rule map_nth)
  then show ?case by simp
next
  case (Cons a l)
  let ?s = "s\<lparr>ts_channels := (ts_channels s)[a := delivered e (ts_channels s ! a)]\<rparr>"
  have a: "try_send a e (f, s) = (f \<or> \<not> accepts (ts_channels s ! a), ?s)"
    using Cons.prems by (simp add: try_send_eq)
  have "fold (\<lambda>c. try_send c e) l (f \<or> \<not> accepts (ts_channels s ! a), ?s) =
     (f \<or> \<not> accepts (ts_channels s ! a) \<or> (\<exists>c \<in> set l. \<not> accepts (ts_channels ?s ! c)),
      ?s\<lparr>ts_channels := map (\<lambda>c. if c \<in> set l then delivered e (ts_channels ?s ! c) else ts_channels ?s ! c)
                        [0..<length (ts_channels ?s)]\<rparr>)"
    using Cons.IH [of ?s] Cons.prems by simp
  moreover have "c \<in> set l \<Longrightarrow> ts_channels ?s ! c = ts_channels s ! c" for c
    using Cons.prems(1) by (cases "c = a") auto
  ultimately show ?case
    using a Cons.prems by (auto simp: nth_list_update intro!: nth_equalityI)
qed

definition subscribers :: "str \<Rightarrow> store \<Rightarrow> nat set" where
  "subscribers i s = (case ts_subs s i of None \<Rightarrow> {} | Some l \<Rightarrow> set l)"

lemma notify_subscribers_effect:
  assumes "subs_ok (ts_subs s) (length (ts_channels s))"
  shows "ts_channels (notify_subscribers i e s) =
      map (\<lambda>c. if c \<in> subscribers i s then delivered e (ts_channels s ! c) else ts_channels s ! c)
        [0..<length (ts_channels s)]"
    and "j \<noteq> i \<Longrightarrow> subscribers j (notify_subscribers i e s) = subscribers j s"
    and "{c \<in> subscribers i s. \<not> ch_closed (ts_channels s ! c)} \<subseteq> subscribers i (notify_subscribers i e s)"
proof -
  have map_all: "map ((!) (ts_channels s)) [0..<length (ts_channels s)] = ts_channels s"
    by (rule map_nth)
  have cl: "ch_closed (delivered e ch) = ch_closed ch" for ch by (simp add: delivered_def)
  let ?ch = "map (\<lambda>c. if c \<in> subscribers i s then delivered e (ts_channels s ! c) else ts_channels s ! c)
        [0..<length (ts_channels s)]"
  have "ts_channels (notify_subscribers i e s) = ?ch \<and>
      (\<forall>j. j \<noteq> i \<longrightarrow> subscribers j (notify_subscribers i e s) = subscribers j s) \<and>
      {c \<in> subscribers i s. \<not> ch_closed (ts_channels s ! c)} \<subseteq> subscribers i (notify_subscribers i e s)"
  proof (cases "ts_subs s i")
    case None
    then show ?thesis by (simp add: notify_subscribers_def subscribers_def map_all)
  next
    case (Some l)
    then have l: "distinct l" "\<forall>c \<in> set l. c < length (ts_channels s)"
      using assms by (auto simp: subs_ok_def)
    have sub: "subscribers i s = set l" using Some by (simp add: subscribers_def)
    obtain f where f: "fold (\<lambda>c. try_send c e) l (False, s) = (f, s\<lparr>ts_channels := ?ch\<rparr>)"
      using fold_try_send [OF l, of e False] sub by simp
    have keep: "filter (\<lambda>c. \<not> ch_closed (?ch ! c)) l = filter (\<lambda>c. \<not> ch_closed (ts_channels s ! c)) l"
      using l(2) cl by (intro filter_cong) (auto split: if_splits)
    have n: "notify_subscribers i e s =
        (if f then prune_subscriptions i (s\<lparr>ts_channels := ?ch\<rparr>) else s\<lparr>ts_channels := ?ch\<rparr>)"
      using Some f by (simp add: notify_subscribers_def)
    show ?thesis
      using Some
      by (auto simp: n prune_subscriptions_def Let_def subscribers_def keep [unfolded sub]
          filter_empty_conv sub [unfolded subscribers_def] split: option.split)
  qed
  then show "ts_channels (notify_subscribers i e s) = ?ch"
    and "j \<noteq> i \<Longrightarrow> subscribers j (notify_subscribers i e s) = subscribers j s"
    and "{c \<in> subscribers i s. \<not> ch_closed (ts_channels s ! c)} \<subseteq> subscribers i (notify_subscribers i e s)"
    by blast+
qed

text \<open>
  C11. A status update either fails and changes nothing (unknown task, or a transition the state
  machine does not have), or changes that one task and announces it: every open subscriber with room
  in its channel gets exactly this event appended, once, while an open subscriber whose channel is full
  misses it; no other channel changes, no open subscriber is dropped, and every registered webhook of
  the task is sent the new status with the task's context, once.
\<close>

theorem update_status_notifies:
  assumes "store_ok s" and "update_status now i new_state m s = (r, s')"
  shows "(case r of
     Inl err \<Rightarrow> s' = s \<and>
       (case get_task i s of Inl e \<Rightarrow> err = e
        | Inr t \<Rightarrow> \<not> is_valid_transition (sta_state (task_status t)) new_state \<and>
            err = InvalidStateTransition (sta_state (task_status t)) new_state)
   | Inr t' \<Rightarrow>
       (\<exists>t. get_task i s = Inr t \<and> is_valid_transition (sta_state (task_status t)) new_state \<and>
          t' = t\<lparr>task_status := \<lparr>sta_state = new_state, sta_timestamp = now, sta_message = m\<rparr>\<rparr>) \<and>
       (\<forall>j. get_task j s' = (if j = i then Inr t' else get_task j s)) \<and>
       (\<forall>c. c < length (ts_channels s) \<longrightarrow> ts_channels s' ! c =
          (if c \<in> subscribers i s then delivered (StatusChanged i (task_status t')) (ts_channels s ! c)
           else ts_channels s ! c)) \<and>
       {c \<in> subscribers i s. \<not> ch_closed (ts_channels s ! c)} \<subseteq> subscribers i s' \<and>
       ts_pushed s' = ts_pushed s @
         map (\<lambda>c. (c, StatusChanged i (task_status t'), task_context_id t')) (list_push_configs i s))"
proof (cases "map_of (ts_tasks s) i")
  case None
  with assms(2) show ?thesis by (auto simp: update_status_def get_task_def)
next
  case (Some t)
  show ?thesis
  proof (cases "is_valid_transition (sta_state (task_status t)) new_state")
    case False
    with assms(2) Some show ?thesis by (auto simp: update_status_def get_task_def)
  next
    case True
    let ?st = "\<lparr>sta_state = new_state, sta_timestamp = now, sta_message = m\<rparr>"
    let ?t = "t\<lparr>task_status := ?st\<rparr>"
    let ?s1 = "assign_update_seq i (s\<lparr>ts_tasks := al_put i ?t (ts_tasks s)\<rparr>)"
    have r: "r = Inr ?t" "s' = notify_status_change i ?st ?s1"
      using assms(2) Some True by (auto simp: update_status_def Let_def)
    have s1: "ts_subs ?s1 = ts_subs s" "ts_channels ?s1 = ts_channels s" "ts_pushed ?s1 = ts_pushed s"
      "ts_push_configs ?s1 = ts_push_configs s" "ts_tasks ?s1 = al_put i ?t (ts_tasks s)"
      "subscribers i ?s1 = subscribers i s"
      by (simp_all add: assign_update_seq_def subscribers_def)
    have ok: "subs_ok (ts_subs ?s1) (length (ts_channels ?s1))"
      using assms(1) s1 by (simp add: store_ok_parts)
    note eff = notify_subscribers_effect [OF ok, where i = i and e = "StatusChanged i ?st"]
    have ch: "ts_channels s' = ts_channels (notify_subscribers i (StatusChanged i ?st) ?s1)"
      "ts_subs s' = ts_subs (notify_subscribers i (StatusChanged i ?st) ?s1)"
      by (simp_all add: r notify_status_change_def notify_push_configs_def Let_def split: option.split)
    have tasks: "ts_tasks s' = al_put i ?t (ts_tasks s)" by (simp add: r s1)
    have pushed: "ts_pushed s' = ts_pushed s @
         map (\<lambda>c. (c, StatusChanged i ?st, task_context_id ?t)) (list_push_configs i s)"
      by (simp add: r notify_status_change_def notify_push_configs_def Let_def list_push_configs_def
          event_task_def s1 split: option.split)
    have "subscribers i s' = subscribers i (notify_subscribers i (StatusChanged i ?st) ?s1)"
      by (simp add: subscribers_def ch)
    then have subs: "{c \<in> subscribers i s. \<not> ch_closed (ts_channels s ! c)} \<subseteq> subscribers i s'"
      using eff(3) s1 by simp
    have chans: "\<forall>c. c < length (ts_channels s) \<longrightarrow> ts_channels s' ! c =
          (if c \<in> subscribers i s then delivered (StatusChanged i ?st) (ts_channels s ! c)
           else ts_channels s ! c)"
      using eff(1) s1 ch by simp
    show ?thesis
      using Some True subs chans pushed by (simp add: r(1) get_task_def tasks)
  qed
qed

lemma store_ok_default: "store_ok store_default"
  by (rule store_ok_run) simp

lemma update_status_notifies_witness:
  "ts_channels (snd (update_status 9 ''t1'' Working None
     (snd (subscribe ''t1'' (snd (create_task ''t1'' 5 5 None None None store_default)))))) ! 0 =
   \<lparr>ch_buffer = [StatusChanged ''t1'' \<lparr>sta_state = Working, sta_timestamp = 9, sta_message = None\<rparr>],
    ch_closed = False\<rparr>"
proof -
  let ?s0 = "snd (create_task ''t1'' 5 5 None None None store_default)"
  let ?s = "snd (subscribe ''t1'' ?s0)"
  have ok: "store_ok ?s"
    using store_ok_new_channel [OF store_ok_create [OF store_ok_default]] by (simp add: subscribe_def)
  have f: "get_task ''t1'' ?s = get_task ''t1'' ?s0" "subscribers ''t1'' ?s = {0}"
    "ts_channels ?s = [\<lparr>ch_buffer = [], ch_closed = False\<rparr>]"
    "\<exists>t. get_task ''t1'' ?s0 = Inr t \<and> sta_state (task_status t) = Submitted"
    by (simp_all add: subscribe_def new_channel_def get_task_def subscribers_def create_task_def
        store_default_def Let_def assign_update_seq_def)
  obtain r s' where u: "update_status 9 ''t1'' Working None ?s = (r, s')" by (metis surj_pair)
  from update_status_notifies [OF ok u] f show ?thesis
    by (auto simp: u is_valid_transition_def delivered_def accepts_def split: sum.splits)
qed

section \<open>Idempotent creation\<close>

lemma steps_keep_keys:
  assumes "store_step\<^sup>*\<^sup>* s s'" and "ts_idempotency s key = Some i" and "map_of (ts_tasks s) i \<noteq> None"
  shows "ts_idempotency s' key = Some i \<and> map_of (ts_tasks s') i \<noteq> None"
  using assms
proof (induction rule: rtranclp_induct)
  case (step u v)
  then have u: "ts_idempotency u key = Some i" "map_of (ts_tasks u) i \<noteq> None" by blast+
  from u(2) obtain t where "map_of (ts_tasks u) i = Some t" by blast
  with store_step_task [OF step.hyps(2)] have "map_of (ts_tasks v) i \<noteq> None" by blast
  moreover have "ts_idempotency v key = Some i"
    using step.hyps(2) u
    by (cases rule: store_step.cases)
       (auto simp: create_task_def Let_def assign_update_seq_def create_task_with_idempotency_def
          create_task_with_idempotency_impl_def new_channel_def update_status_def add_artifact_def
          complete_task_def append_history_def subscribe_def unregister_subscriber_def
          close_channel_def create_push_config_def delete_push_config_def split: option.split)
  ultimately show ?case by blast
qed simp

text \<open>
  Creating a task under an idempotency key is done once: after the first creation, whatever
  operations follow, a creation under the same key changes no task and returns the same task as it is
  then; a creation under a key never used makes a new submitted task under the new identifier.
\<close>

theorem idempotent_creation:
  assumes "store_ok s" and "map_of (ts_tasks s) uuid = None" and "ts_idempotency s key = None"
    and "create_task_with_idempotency uuid now created key ctx parent md s = (r, s1)"
    and "store_step\<^sup>*\<^sup>* s1 s2"
    and "create_task_with_idempotency uuid2 now2 created2 key ctx2 parent2 md2 s2 = (r2, s3)"
  shows "\<exists>t t2. r = Inr t \<and> task_id t = uuid \<and> sta_state (task_status t) = Submitted \<and>
    get_task uuid s1 = Inr t \<and> get_task uuid s2 = Inr t2 \<and> r2 = Inl (t2, length (ts_channels s2)) \<and>
    task_id t2 = uuid \<and> ts_tasks s3 = ts_tasks s2"
proof -
  obtain t where r: "r = Inr t" and t: "task_id t = uuid" "sta_state (task_status t) = Submitted"
    and g: "map_of (ts_tasks s1) uuid = Some t" and k: "ts_idempotency s1 key = Some uuid"
    using assms(3,4)
    by (auto simp: create_task_with_idempotency_def create_task_with_idempotency_impl_def
        create_task_def Let_def assign_update_seq_def new_channel_def)
  from mem.run_life [OF assms(5) g] obtain t2 where
    g2: "map_of (ts_tasks s2) uuid = Some t2" and l: "task_life t t2" by blast
  have k2: "ts_idempotency s2 key = Some uuid" using steps_keep_keys [OF assms(5) k] g by simp
  have "r2 = Inl (t2, length (ts_channels s2)) \<and> s3 = new_channel (task_id t2) True s2"
    using assms(6) k2 g2
    by (simp add: create_task_with_idempotency_def create_task_with_idempotency_impl_def)
  then show ?thesis
    using r t g g2 l by (auto simp: get_task_iff task_life_def same_identity_def new_channel_def)
qed

lemma idempotent_creation_witness:
  "ts_tasks (snd (create_task_with_idempotency ''t2'' 6 6 ''k'' None None None
     (snd (create_task_with_idempotency ''t1'' 5 5 ''k'' None None None store_default)))) =
   ts_tasks (snd (create_task_with_idempotency ''t1'' 5 5 ''k'' None None None store_default))"
proof -
  have f: "map_of (ts_tasks store_default) ''t1'' = None" "ts_idempotency store_default ''k'' = None"
    by (simp_all add: store_default_def)
  from idempotent_creation [OF store_ok_default f prod.collapse [symmetric] rtranclp.rtrancl_refl
      prod.collapse [symmetric]]
  show ?thesis by blast
qed

section \<open>Listing\<close>

definition matches_filter :: "task_state option \<Rightarrow> str option \<Rightarrow> task \<Rightarrow> bool" where
  "matches_filter status ctx t \<longleftrightarrow>
     (case status of None \<Rightarrow> True | Some x \<Rightarrow> sta_state (task_status t) = x) \<and>
     (case ctx of None \<Rightarrow> True | Some c \<Rightarrow> task_context_id t = Some c)"

definition full_list :: "task_state option \<Rightarrow> str option \<Rightarrow> store \<Rightarrow> task list" where
  "full_list status ctx s =
     sort_key (list_key s) (filter (matches_filter status ctx) (map snd (ts_tasks s)))"

lemma list_filtered_eq:
  "list_tasks_filtered status ctx limit cursor s =
   page_of limit (cut_after_cursor cursor (full_list status ctx s))"
  by (auto simp: list_tasks_filtered_def full_list_def matches_filter_def Let_def filter_map o_def
      intro!: arg_cong [where f = "\<lambda>l. page_of limit (cut_after_cursor cursor (sort_key (list_key s) l))"]
      filter_cong split: option.split)

text \<open>A client that follows the page tokens; \<open>n\<close> bounds the number of pages it asks for.\<close>

fun walk_pages ::
  "nat \<Rightarrow> task_state option \<Rightarrow> str option \<Rightarrow> nat \<Rightarrow> str option \<Rightarrow> store \<Rightarrow> task list" where
  "walk_pages 0 status ctx limit cursor s = []"
| "walk_pages (Suc n) status ctx limit cursor s =
     (case list_tasks_filtered status ctx limit cursor s of
        (page, None) \<Rightarrow> page
      | (page, Some token) \<Rightarrow> page @ walk_pages n status ctx limit (Some token) s)"

lemma cut_after_split:
  assumes "distinct (map task_id (xs @ t # ys))"
  shows "cut_after_cursor (Some (task_id t)) (xs @ t # ys) = ys"
proof -
  have "\<forall>x \<in> set xs. task_id x \<noteq> task_id t" using assms by (force simp: image_iff)
  then have "dropWhile (\<lambda>x. task_id x \<noteq> task_id t) (xs @ t # ys) = t # ys"
    by (induction xs) auto
  then show ?thesis by (simp add: cut_after_cursor_def)
qed

lemma walk_from:
  assumes "0 < limit" and "distinct (map task_id (full_list status ctx s))"
  shows "full_list status ctx s = xs @ ys \<Longrightarrow> length ys \<le> n * limit \<Longrightarrow> 0 < n \<Longrightarrow>
    cut_after_cursor cursor (full_list status ctx s) = ys \<Longrightarrow>
    walk_pages n status ctx limit cursor s = ys"
proof (induction n arbitrary: xs ys cursor)
  case (Suc n)
  have p: "list_tasks_filtered status ctx limit cursor s = page_of limit ys"
    using Suc.prems(4) by (simp add: list_filtered_eq)
  show ?case
  proof (cases "limit < length ys")
    case False
    then show ?thesis by (simp add: p page_of_def Let_def)
  next
    case True
    have ne: "take limit ys \<noteq> []" using True assms(1) by auto
    define t where "t = last (take limit ys)"
    obtain zs where zs: "take limit ys = zs @ [t]"
      unfolding t_def using ne by (metis append_butlast_last_id)
    have split: "full_list status ctx s = (xs @ zs) @ t # drop limit ys"
      using Suc.prems(1) zs by (metis append.assoc append_Cons append_Nil append_take_drop_id)
    have n: "0 < n" using Suc.prems(2) True by (cases n) auto
    have "walk_pages n status ctx limit (Some (task_id t)) s = drop limit ys"
    proof (rule Suc.IH)
      show "full_list status ctx s = (xs @ zs @ [t]) @ drop limit ys" using split by simp
      show "length (drop limit ys) \<le> n * limit" using Suc.prems(2) by simp
      show "cut_after_cursor (Some (task_id t)) (full_list status ctx s) = drop limit ys"
        using assms(2) cut_after_split [of "xs @ zs" t "drop limit ys"] by (simp add: split)
    qed (rule n)
    then show ?thesis
      using True ne by (simp add: p page_of_def Let_def t_def)
  qed
qed simp

lemma full_list_set:
  assumes "store_ok s"
  shows "set (full_list status ctx s) = {t. get_task (task_id t) s = Inr t \<and> matches_filter status ctx t}"
proof -
  have d: "distinct (map fst (ts_tasks s))" using assms by (simp add: store_ok_def)
  have "(\<exists>k. (k, t) \<in> set (ts_tasks s)) \<longleftrightarrow> get_task (task_id t) s = Inr t" for t
    using store_ok_id [OF assms] d by (auto simp: get_task_iff dest: map_of_SomeD)
  then show ?thesis by (force simp: full_list_def)
qed

lemma full_list_distinct:
  assumes "store_ok s"
  shows "distinct (map task_id (full_list status ctx s))"
proof -
  have ids: "map task_id (map snd (ts_tasks s)) = map fst (ts_tasks s)"
    using assms by (auto simp: store_ok_def)
  have "distinct (map task_id (filter (matches_filter status ctx) (map snd (ts_tasks s))))"
    using assms ids by (intro distinct_map_filter) (simp only: ids, simp add: store_ok_def)
  then show ?thesis by (simp add: full_list_def distinct_map)
qed

lemma full_list_sorted:
  assumes "store_ok s"
  shows "sorted_wrt (\<lambda>a b. list_key s a < list_key s b) (full_list status ctx s)"
proof -
  let ?l = "full_list status ctx s"
  have "inj_on (list_key s) (set ?l)"
    using full_list_distinct [OF assms] by (auto simp: distinct_map inj_on_def list_key_def)
  then have "distinct (map (list_key s) ?l)"
    using full_list_distinct [OF assms, of status ctx] by (simp add: distinct_map)
  moreover have "sorted (map (list_key s) ?l)" by (simp add: full_list_def)
  ultimately have "sorted_wrt (<) (map (list_key s) ?l)" by (simp add: strict_sorted_iff)
  then show ?thesis by (simp add: sorted_wrt_map)
qed

text \<open>
  C12. Paging is complete and exact: with a positive page size, the pages a client gets by following
  the tokens contain every matching task exactly once, ordered by status time (newest first), then by
  update sequence, then by identifier; the iteration order of the hash map does not show.
\<close>

theorem pages_list_every_task:
  assumes "store_ok s" and "0 < limit" and "length (ts_tasks s) < n"
  shows "sorted_wrt (\<lambda>a b. list_key s a < list_key s b) (walk_pages n status ctx limit None s) \<and>
    distinct (walk_pages n status ctx limit None s) \<and>
    set (walk_pages n status ctx limit None s) =
      {t. get_task (task_id t) s = Inr t \<and> matches_filter status ctx t}"
proof -
  have "length (full_list status ctx s) \<le> length (ts_tasks s)"
    by (simp add: full_list_def length_filter_le [THEN order_trans])
  with assms(2,3) have n: "length (full_list status ctx s) \<le> n * limit" "0 < n"
    by (auto intro: order_trans [of _ "n * 1"])
  have "walk_pages n status ctx limit None s = full_list status ctx s"
    using walk_from [OF assms(2) full_list_distinct [OF assms(1)], where xs = "[]"] n
    by (simp add: cut_after_cursor_def)
  with full_list_sorted [OF assms(1)] full_list_set [OF assms(1)] full_list_distinct [OF assms(1)]
  show ?thesis by (simp add: distinct_map)
qed

text \<open>With page size zero, which the handler passes on, the list is empty and there is no next page.\<close>

lemma zero_page_hides_tasks: "list_tasks_filtered status ctx 0 cursor s = ([], None)"
  by (simp add: list_filtered_eq page_of_def)

definition demo_two :: store where
  "demo_two = snd (create_task ''t2'' 6 6 None None None
     (snd (create_task ''t1'' 5 5 None None None store_default)))"

lemma demo_two_ok: "store_ok demo_two"
  unfolding demo_two_def by (intro store_ok_create store_ok_default)

lemma pages_list_every_task_witness:
  "card (set (walk_pages 3 None None 1 None demo_two)) = 2"
proof -
  have "length (ts_tasks demo_two) < 3"
    by (simp add: demo_two_def create_task_def Let_def assign_update_seq_def store_default_def)
  from pages_list_every_task [OF demo_two_ok _ this, of 1 None None]
  have "set (walk_pages 3 None None 1 None demo_two) = {t. get_task (task_id t) demo_two = Inr t}"
    by (simp add: matches_filter_def)
  also have "\<dots> = {fst (create_task ''t1'' 5 5 None None None store_default),
      fst (create_task ''t2'' 6 6 None None None store_default)}"
    by (auto simp: demo_two_def create_task_def Let_def assign_update_seq_def store_default_def
        get_task_iff split: if_splits)
  finally show ?thesis by (simp add: create_task_def Let_def)
qed

section \<open>The update sequence of a completed task\<close>

definition demo_working :: "int \<Rightarrow> store" where
  "demo_working now =
     (let s1 = snd (create_task ''a'' now now None None None store_default);
          s2 = snd (create_task ''b'' now now None None None s1);
          s3 = snd (update_status now ''a'' Working None s2)
      in snd (update_status now ''b'' Working None s3))"

lemma demo_working_tasks:
  "\<exists>ta tb. ts_tasks (demo_working now) = [(''a'', ta), (''b'', tb)] \<and> task_id ta = ''a'' \<and> task_id tb = ''b'' \<and>
     task_status ta = \<lparr>sta_state = Working, sta_timestamp = now, sta_message = None\<rparr> \<and>
     task_status tb = \<lparr>sta_state = Working, sta_timestamp = now, sta_message = None\<rparr>"
  "ts_update_seq (demo_working now) = [''a'' \<mapsto> 2, ''b'' \<mapsto> 3]" "ts_next_seq (demo_working now) = 4"
  by (auto simp: demo_working_def Let_def create_task_def update_status_def assign_update_seq_def
      store_default_def is_valid_transition_def fun_eq_iff)

lemma list_two:
  assumes "ts_tasks s = [(''a'', ta), (''b'', tb)]"
  shows "map task_id (fst (list_tasks_filtered None None 10 None s)) =
    (if list_key s ta \<le> list_key s tb then [task_id ta, task_id tb] else [task_id tb, task_id ta])"
  by (simp add: list_tasks_filtered_def assms Let_def page_of_def cut_after_cursor_def sort_key_def
      insort_key.simps)

text \<open>
  Completing a task does not refresh its place in the listing: of two working tasks whose last
  changes carry the same clock reading, the one completed afterwards is listed behind the other,
  because \<open>complete_task\<close> leaves the update sequence as it was, whereas the same change made by
  \<open>update_status\<close> puts it first.
\<close>

theorem complete_task_stale_sequence:
  "ts_update_seq (snd (complete_task uuid uuid2 now ''a'' result (demo_working now))) =
     ts_update_seq (demo_working now) \<and>
   map task_id (fst (list_tasks_filtered None None 10 None
     (snd (complete_task uuid uuid2 now ''a'' result (demo_working now))))) = [''b'', ''a''] \<and>
   map task_id (fst (list_tasks_filtered None None 10 None
     (snd (update_status now ''a'' Completed m (demo_working now))))) = [''a'', ''b'']"
proof -
  obtain ta tb where t: "ts_tasks (demo_working now) = [(''a'', ta), (''b'', tb)]"
    "task_id ta = ''a''" "task_id tb = ''b''"
    "task_status ta = \<lparr>sta_state = Working, sta_timestamp = now, sta_message = None\<rparr>"
    "task_status tb = \<lparr>sta_state = Working, sta_timestamp = now, sta_message = None\<rparr>"
    using demo_working_tasks(1) [of now] by blast
  let ?c = "snd (complete_task uuid uuid2 now ''a'' result (demo_working now))"
  let ?u = "snd (update_status now ''a'' Completed m (demo_working now))"
  have v: "is_valid_transition Working Completed" by (simp add: is_valid_transition_def)
  obtain tc where c: "ts_tasks ?c = [(''a'', tc), (''b'', tb)]" "task_id tc = ''a''"
      "sta_timestamp (task_status tc) = now"
    using t v by (simp add: complete_task_def Let_def)
  obtain tu where u: "ts_tasks ?u = [(''a'', tu), (''b'', tb)]" "task_id tu = ''a''"
      "sta_timestamp (task_status tu) = now"
    using t v by (simp add: update_status_def Let_def assign_update_seq_def)
  have cs: "ts_update_seq ?c = ts_update_seq (demo_working now)"
    using t v by (simp add: complete_task_def Let_def)
  have us: "ts_update_seq ?u = (ts_update_seq (demo_working now))(''a'' \<mapsto> 4)"
    using t v demo_working_tasks(3) [of now]
    by (simp add: update_status_def Let_def assign_update_seq_def)
  have "\<not> list_key ?c tc \<le> list_key ?c tb"
    using t c cs by (simp add: list_key_def demo_working_tasks(2) less_eq_prod_def)
  moreover have "list_key ?u tu \<le> list_key ?u tb"
    using t u us by (simp add: list_key_def demo_working_tasks(2) less_eq_prod_def)
  ultimately show ?thesis
    using cs list_two [OF c(1)] list_two [OF u(1)] t c u by simp
qed

end
