(* ===== verification/Doom_Loop.thy ===== *)
theory Doom_Loop
  imports Prelude
begin

text \<open>
  Loop detection on tool calls: \<open>crates/agnt-core/src/hook/doom_loop.rs\<close>, with the escalation
  ladder it shares with the detection of repeated output.  The main facts: a detection happens
  exactly when the last five calls have the same canonical signature, eight such calls in a row end in
  a stop, and the signature does not depend on the order of the keys of an argument object.
\<close>

section \<open>The escalation ladder\<close>

datatype level = LFirst | LBackoff | LStop

definition doom_loop_threshold :: nat where
  "doom_loop_threshold = 5"

definition doom_loop_backoff_limit :: nat where
  "doom_loop_backoff_limit = 2"

definition level_of :: "nat \<Rightarrow> level" where
  "level_of n = (if n \<le> 1 then LFirst else if n \<le> 1 + doom_loop_backoff_limit then LBackoff else LStop)"

text \<open>
  A detector counts its detections and reports the level of each.  What follows from the contract:
  the levels of consecutive detections after a reset, and that a detector that keeps detecting stops.
\<close>

locale ladder =
  fixes detections :: "'s \<Rightarrow> nat"
    and bump :: "'s \<Rightarrow> 'd \<times> 's"
    and level :: "'d \<Rightarrow> level"
  assumes bump_count: "detections (snd (bump s)) = Suc (detections s)"
    and bump_level: "level (fst (bump s)) = level_of (Suc (detections s))"
begin

primrec bumps :: "nat \<Rightarrow> 's \<Rightarrow> 's" where
  "bumps 0 s = s"
| "bumps (Suc n) s = snd (bump (bumps n s))"

lemma bumps_count: "detections (bumps n s) = detections s + n"
  by (induction n) (simp_all add: bump_count)

lemma nth_level: "level (fst (bump (bumps n s))) = level_of (Suc (detections s + n))"
  by (simp add: bump_level bumps_count)

lemma keeps_detecting_stops:
  "detections s = 0 \<Longrightarrow>
   map (\<lambda>n. level (fst (bump (bumps n s)))) [0..<4] = [LFirst, LBackoff, LBackoff, LStop] \<and>
   (\<forall>n \<ge> 3. level (fst (bump (bumps n s))) = LStop)"
  by (simp add: nth_level level_of_def doom_loop_backoff_limit_def upt_rec)

end

section \<open>Canonical arguments\<close>

text \<open>
  \<open>parse\<close>, \<open>ser_str\<close> and \<open>ser\<close> stand for \<open>serde_json::from_str\<close>, and \<open>to_string\<close> of a key and of
  a scalar.  An object with its entries canonicalized and sorted by key.
\<close>

fun canonical_value :: "(str \<Rightarrow> str) \<Rightarrow> (json \<Rightarrow> str) \<Rightarrow> json \<Rightarrow> str" where
  "canonical_value ser_str ser (JObject m) =
     ''{'' @ join '','' (map (\<lambda>(k, v). ser_str k @ '':'' @ v)
        (sort_key fst (map (\<lambda>(k, v). (k, canonical_value ser_str ser v)) m))) @ ''}''"
| "canonical_value ser_str ser (JArray xs) =
     ''['' @ join '','' (map (canonical_value ser_str ser) xs) @ '']''"
| "canonical_value ser_str ser v = ser v"

definition canonicalize_args :: "(str \<Rightarrow> json option) \<Rightarrow> (str \<Rightarrow> str) \<Rightarrow> (json \<Rightarrow> str) \<Rightarrow> str \<Rightarrow> str" where
  "canonicalize_args parse ser_str ser args =
     (case parse args of Some v \<Rightarrow> canonical_value ser_str ser v | None \<Rightarrow> args)"

section \<open>The detector\<close>

record doom_state =
  dl_recent_signatures :: "(str \<times> str) list"
  dl_escalation_count :: nat

definition doom_default :: doom_state where
  "doom_default = \<lparr>dl_recent_signatures = [], dl_escalation_count = 0\<rparr>"

datatype doom_detection = DoomFirst str | DoomBackoff str | DoomStop str

definition doom_reset :: "doom_state \<Rightarrow> doom_state" where
  "doom_reset s = s\<lparr>dl_recent_signatures := [], dl_escalation_count := 0\<rparr>"

definition doom_escalate :: "str \<Rightarrow> doom_state \<Rightarrow> doom_detection \<times> doom_state" where
  "doom_escalate name s =
     (let s1 = s\<lparr>dl_escalation_count := dl_escalation_count s + 1\<rparr>
      in ((if dl_escalation_count s1 = 1 then DoomFirst name
           else if dl_escalation_count s1 \<le> 1 + doom_loop_backoff_limit then DoomBackoff name
           else DoomStop name), s1))"

definition doom_check_and_record ::
  "(str \<Rightarrow> str) \<Rightarrow> str \<Rightarrow> str \<Rightarrow> doom_state \<Rightarrow> doom_detection option \<times> doom_state" where
  "doom_check_and_record canon name args s =
     (let s1 = s\<lparr>dl_recent_signatures := dl_recent_signatures s @ [(name, canon args)]\<rparr>;
          sigs = dl_recent_signatures s1
      in if length sigs < doom_loop_threshold then (None, s1)
         else
           (let last_n = drop (length sigs - doom_loop_threshold) sigs;
                frst = last_n ! 0
            in if \<not> list_all (\<lambda>sg. sg = frst) last_n then (None, s1)
               else (let (d, s2) = doom_escalate name s1 in (Some d, s2))))"

datatype dispatch_action = SkipCall str | StopRun str

definition doom_message :: "doom_detection \<Rightarrow> str" where
  "doom_message d =
     (case d of
        DoomFirst tool \<Rightarrow>
          ''Doom loop detected: '' @ [CHR 0x27] @ tool @ [CHR 0x27] @ '' called ''
          @ show_nat doom_loop_threshold @ '' times with identical arguments. ''
          @ ''Are you really sure you need so many tool calls? Reconsider your approach.''
      | DoomBackoff tool \<Rightarrow>
          ''Doom loop persisted: '' @ [CHR 0x27] @ tool @ [CHR 0x27]
          @ '' triggered repeated loop detections. Change your approach: use different arguments, ''
          @ ''a different tool, or ask the user for guidance.''
      | DoomStop tool \<Rightarrow>
          ''Doom loop stopped:'' @ '' '' @ [CHR 0x27] @ tool @ [CHR 0x27]
          @ '' kept looping after repeated steering. The run was stopped.'')"

text \<open>The hook: the action for the runner, the warnings published, and the new state.\<close>

definition doom_hook ::
  "(str \<Rightarrow> str) \<Rightarrow> str \<Rightarrow> str \<Rightarrow> doom_state \<Rightarrow> dispatch_action option \<times> str list \<times> doom_state" where
  "doom_hook canon tool_name args s =
     (let (detected, s1) = doom_check_and_record canon tool_name args s
      in case detected of
           Some (DoomFirst tool) \<Rightarrow>
             (Some (SkipCall (doom_message (DoomFirst tool))), [doom_message (DoomFirst tool)], s1)
         | Some (DoomBackoff tool) \<Rightarrow>
             (Some (SkipCall (doom_message (DoomBackoff tool))), [doom_message (DoomBackoff tool)], s1)
         | Some (DoomStop tool) \<Rightarrow> (Some (StopRun (doom_message (DoomStop tool))), [], s1)
         | None \<Rightarrow> (None, [], s1))"

definition doom_level :: "doom_detection \<Rightarrow> level" where
  "doom_level d = (case d of DoomFirst t \<Rightarrow> LFirst | DoomBackoff t \<Rightarrow> LBackoff | DoomStop t \<Rightarrow> LStop)"

interpretation doom: ladder dl_escalation_count "doom_escalate name" doom_level for name
  by unfold_locales
    (auto simp: doom_escalate_def Let_def level_of_def doom_level_def doom_loop_backoff_limit_def)

section \<open>Detection as a property of the history\<close>

text \<open>How often the last entry of a history has been repeated without a break.\<close>

definition run_length :: "'a list \<Rightarrow> nat" where
  "run_length l = length (takeWhile (\<lambda>x. x = last l) (rev l))"

lemma run_length_Nil [simp]: "run_length [] = 0"
  by (simp add: run_length_def)

lemma run_length_snoc:
  "run_length (l @ [x]) = (if l \<noteq> [] \<and> last l = x then Suc (run_length l) else 1)"
  by (cases l rule: rev_cases) (auto simp: run_length_def)

lemma run_length_le: "run_length l \<le> length l"
  unfolding run_length_def by (metis length_rev length_takeWhile_le)

lemma run_length_ge:
  "n \<le> run_length l \<longleftrightarrow> n \<le> length l \<and> (\<forall>x \<in> set (drop (length l - n) l). x = last l)"
proof (induction l arbitrary: n rule: rev_induct)
  case (snoc x l)
  show ?case
  proof (cases n)
    case (Suc m)
    have d: "drop (length l - m) (l @ [x]) = drop (length l - m) l @ [x]"
      by simp
    show ?thesis
    proof (cases "l \<noteq> [] \<and> last l = x")
      case True
      then show ?thesis using snoc.IH [of m] by (simp add: d Suc run_length_snoc del: drop_append)
    next
      case False
      have "m = 0" if "m \<le> length l" "\<forall>y \<in> set (drop (length l - m) l). y = x"
      proof (rule ccontr)
        assume "m \<noteq> 0"
        then have "l \<noteq> []" "drop (length l - m) l \<noteq> []" using that(1) by auto
        then have "last l \<in> set (drop (length l - m) l)"
          by (metis last_appendR append_take_drop_id last_in_set)
        with that(2) False \<open>l \<noteq> []\<close> show False by blast
      qed
      with False show ?thesis by (auto simp: d Suc run_length_snoc simp del: drop_append)
    qed
  qed simp
qed simp

text \<open>How many prefixes of the history end in a run of five.\<close>

definition detections_in :: "'a list \<Rightarrow> nat" where
  "detections_in l =
     length (filter (\<lambda>n. doom_loop_threshold \<le> run_length (take n l)) [0..<Suc (length l)])"

lemma detections_in_Nil [simp]: "detections_in [] = 0"
  by (simp add: detections_in_def doom_loop_threshold_def)

lemma detections_in_snoc:
  "detections_in (l @ [x]) =
     detections_in l + (if doom_loop_threshold \<le> run_length (l @ [x]) then 1 else 0)"
proof -
  have "filter (\<lambda>n. doom_loop_threshold \<le> run_length (take n (l @ [x]))) [0..<Suc (length l)] =
        filter (\<lambda>n. doom_loop_threshold \<le> run_length (take n l)) [0..<Suc (length l)]"
    by (intro filter_cong) auto
  then show ?thesis by (simp add: detections_in_def)
qed

lemma detections_ge_run: "run_length l \<le> detections_in l + 4"
  by (induction l rule: rev_induct) (auto simp: run_length_snoc detections_in_snoc doom_loop_threshold_def)

lemma doom_fold:
  "fold (\<lambda>(n, a) s. snd (doom_check_and_record canon n a s)) calls doom_default =
     \<lparr>dl_recent_signatures = map (\<lambda>(n, a). (n, canon a)) calls,
      dl_escalation_count = detections_in (map (\<lambda>(n, a). (n, canon a)) calls)\<rparr> \<and>
   (\<forall>name args. fst (doom_check_and_record canon name args
       (fold (\<lambda>(n, a) s. snd (doom_check_and_record canon n a s)) calls doom_default)) =
     (if doom_loop_threshold \<le> run_length (map (\<lambda>(n, a). (n, canon a)) calls @ [(name, canon args)])
      then Some (fst (doom_escalate name
        \<lparr>dl_recent_signatures = [], dl_escalation_count = detections_in (map (\<lambda>(n, a). (n, canon a)) calls)\<rparr>))
      else None))"
proof -
  have one: "doom_check_and_record canon name args
       \<lparr>dl_recent_signatures = l, dl_escalation_count = k\<rparr> =
     (if doom_loop_threshold \<le> run_length (l @ [(name, canon args)])
      then (Some (fst (doom_escalate name \<lparr>dl_recent_signatures = [], dl_escalation_count = k\<rparr>)),
        \<lparr>dl_recent_signatures = l @ [(name, canon args)], dl_escalation_count = Suc k\<rparr>)
      else (None, \<lparr>dl_recent_signatures = l @ [(name, canon args)], dl_escalation_count = k\<rparr>))"
    for name args l k
  proof -
    let ?sg = "l @ [(name, canon args)]"
    let ?d = "drop (length ?sg - doom_loop_threshold) ?sg"
    have tail: "list_all (\<lambda>sg. sg = ?d ! 0) ?d \<longleftrightarrow> (\<forall>sg \<in> set ?d. sg = last ?sg)"
      if "doom_loop_threshold \<le> length ?sg"
    proof -
      have ne: "?d \<noteq> []" using that by (auto simp: doom_loop_threshold_def)
      have "last ?d = last ?sg" using ne by (metis append_take_drop_id last_appendR)
      moreover have "last ?d \<in> set ?d" using ne by (rule last_in_set)
      moreover have "?d ! 0 \<in> set ?d" using ne by (metis length_greater_0_conv nth_mem)
      ultimately show ?thesis unfolding list_all_iff by metis
    qed
    show ?thesis
      using tail
      by (auto simp: doom_check_and_record_def Let_def run_length_ge doom_escalate_def not_less
          simp del: drop_append length_append)
  qed
  show ?thesis
  proof (induction calls rule: rev_induct)
    case Nil
    show ?case using one [of _ _ "[]" 0] by (simp add: doom_default_def)
  next
    case (snoc c calls)
    then show ?case by (cases c) (simp add: one detections_in_snoc)
  qed
qed

text \<open>
  C13. The detector is exact: over any history of calls since the last reset, the next call is flagged
  if and only if it completes a run of at least five calls with the same tool and canonical arguments,
  the flag is skip with steering for the first three detections and stop from the fourth on, and a run
  of eight such calls always ends in a stop.
\<close>

theorem doom_loop_exact:
  fixes calls :: "(str \<times> str) list"
  assumes sigs_def: "sigs = map (\<lambda>(n, a). (n, canon a)) calls @ [(name, canon args)]"
  shows "fst (doom_hook canon name args
      (fold (\<lambda>(n, a) s. snd (doom_check_and_record canon n a s)) calls doom_default)) =
    (if run_length sigs < 5 then None
     else (let k = detections_in (butlast sigs) in
       if k = 0 then Some (SkipCall (doom_message (DoomFirst name)))
       else if k \<le> 2 then Some (SkipCall (doom_message (DoomBackoff name)))
       else Some (StopRun (doom_message (DoomStop name))))) \<and>
    (8 \<le> run_length sigs \<longrightarrow> fst (doom_hook canon name args
      (fold (\<lambda>(n, a) s. snd (doom_check_and_record canon n a s)) calls doom_default)) =
      Some (StopRun (doom_message (DoomStop name))))"
proof -
  let ?s = "fold (\<lambda>(n, a) s. snd (doom_check_and_record canon n a s)) calls doom_default"
  let ?k = "detections_in (map (\<lambda>(n, a). (n, canon a)) calls)"
  have d: "fst (doom_check_and_record canon name args ?s) =
     (if 5 \<le> run_length sigs then Some (fst (doom_escalate name
        \<lparr>dl_recent_signatures = [], dl_escalation_count = ?k\<rparr>)) else None)"
    using doom_fold [of canon calls] unfolding sigs_def doom_loop_threshold_def by blast
  have h: "fst (doom_hook canon name args ?s) =
     (case fst (doom_check_and_record canon name args ?s) of
        Some (DoomFirst tool) \<Rightarrow> Some (SkipCall (doom_message (DoomFirst tool)))
      | Some (DoomBackoff tool) \<Rightarrow> Some (SkipCall (doom_message (DoomBackoff tool)))
      | Some (DoomStop tool) \<Rightarrow> Some (StopRun (doom_message (DoomStop tool)))
      | None \<Rightarrow> None)"
    by (simp add: doom_hook_def split: prod.split option.split doom_detection.split)
  have main: "fst (doom_hook canon name args ?s) =
    (if run_length sigs < 5 then None
     else (let k = detections_in (butlast sigs) in
       if k = 0 then Some (SkipCall (doom_message (DoomFirst name)))
       else if k \<le> 2 then Some (SkipCall (doom_message (DoomBackoff name)))
       else Some (StopRun (doom_message (DoomStop name)))))"
    unfolding h d by (auto simp: sigs_def doom_escalate_def Let_def doom_loop_backoff_limit_def)
  moreover have "2 < detections_in (butlast sigs)" if "8 \<le> run_length sigs"
    using detections_ge_run [of "butlast sigs"] that
    by (auto simp: sigs_def run_length_snoc split: if_splits)
  ultimately have "fst (doom_hook canon name args ?s) = Some (StopRun (doom_message (DoomStop name)))"
    if "8 \<le> run_length sigs"
    using that by (auto simp: Let_def)
  with main show ?thesis by blast
qed

lemma doom_loop_exact_witness:
  "fst (doom_hook id ''read'' ''{}'' (fold (\<lambda>(n, a) s. snd (doom_check_and_record id n a s))
     (replicate 7 (''read'', ''{}'')) doom_default)) = Some (StopRun (doom_message (DoomStop ''read'')))"
proof -
  have "run_length (map (\<lambda>(n, a). (n, id a)) (replicate 7 (''read'', ''{}'')) @ [(''read'', id ''{}'')]) = 8"
    by (simp add: run_length_def numeral_eq_Suc)
  with doom_loop_exact [OF refl, where canon = id and calls = "replicate 7 (''read'', ''{}'')"
      and name = "''read''" and args = "''{}''"] show ?thesis by auto
qed

section \<open>Key order does not hide a loop\<close>

text \<open>Two values that differ only in the order of object entries, at any depth.\<close>

inductive same_json :: "json \<Rightarrow> json \<Rightarrow> bool" where
  scalar: "same_json v v"
| array: "list_all2 same_json xs ys \<Longrightarrow> same_json (JArray xs) (JArray ys)"
| object: "distinct (map fst m) \<Longrightarrow> distinct (map fst m') \<Longrightarrow> set (map fst m) = set (map fst m') \<Longrightarrow>
    (\<And>k v v'. map_of m k = Some v \<Longrightarrow> map_of m' k = Some v' \<Longrightarrow> same_json v v') \<Longrightarrow>
    same_json (JObject m) (JObject m')"

lemma sort_entries_unique:
  fixes m :: "(str \<times> 'v) list"
  assumes "distinct (map fst m)" and "distinct (map fst m')" and "map_of m = map_of m'"
  shows "sort_key fst m = sort_key fst m'"
proof (rule sorted_map_unique)
  have s: "sorted_wrt (<) (map fst (sort_key fst l))" if "distinct (map fst l)" for l :: "(str \<times> 'v) list"
    using that by (simp add: strict_sorted_iff distinct_map)
  show "sorted_wrt (<) (map fst (sort_key fst m))" "sorted_wrt (<) (map fst (sort_key fst m'))"
    using assms s by blast+
  have "map_of (sort_key fst l) = map_of l" if "distinct (map fst l)" for l :: "(str \<times> 'v) list"
    using that by (intro map_of_eqI [symmetric]) (auto simp: map_of_inject_set distinct_map)
  with assms show "map_of (sort_key fst m) = map_of (sort_key fst m')" by metis
qed

text \<open>
  Reordering the keys of an argument object, at any depth, does not hide a loop: the two calls
  have the same canonical arguments and hence the same signature.
\<close>

theorem key_order_irrelevant:
  assumes "same_json v w"
  shows "canonical_value ser_str ser v = canonical_value ser_str ser w"
  using assms
proof (induction rule: same_json.induct)
  case (array xs ys)
  then have "map (canonical_value ser_str ser) xs = map (canonical_value ser_str ser) ys"
    by (induction xs ys rule: list_all2_induct) auto
  then show ?case by simp
next
  case (object m m')
  let ?c = "map (\<lambda>(k, v). (k, canonical_value ser_str ser v))"
  have f: "map fst (?c l) = map fst l" for l by (simp add: o_def case_prod_beta)
  have "map_of (?c m) = map_of (?c m')"
  proof
    fix k
    show "map_of (?c m) k = map_of (?c m') k"
    proof (cases "map_of m k")
      case None
      then have "map_of m' k = None" using object.hyps(3) by (simp add: map_of_eq_None_iff)
      with None show ?thesis by (simp add: map_of_map)
    next
      case (Some v)
      then have "k \<in> set (map fst m')"
        using object.hyps(3) by (metis map_of_eq_None_iff list.set_map option.distinct(1))
      then obtain v' where v': "map_of m' k = Some v'"
        by (metis map_of_eq_None_iff list.set_map not_None_eq)
      show ?thesis using object.IH [OF Some v'] Some v' by (simp add: map_of_map)
    qed
  qed
  then have "sort_key fst (?c m) = sort_key fst (?c m')"
    using object.hyps(1,2) by (intro sort_entries_unique) (simp_all only: f)
  then show ?case by simp
qed simp

lemma key_order_irrelevant_witness:
  "canonical_value id (\<lambda>_. ''1'') (JObject [(''b'', JNull), (''a'', JBool True)]) =
   canonical_value id (\<lambda>_. ''1'') (JObject [(''a'', JBool True), (''b'', JNull)])"
proof (rule key_order_irrelevant, rule same_json.object)
  fix k v v'
  assume "map_of [(''b'', JNull), (''a'', JBool True)] k = Some v"
    and "map_of [(''a'', JBool True), (''b'', JNull)] k = Some v'"
  then have "v = v'" by (simp split: if_split_asm)
  then show "same_json v v'" by (simp add: same_json.scalar)
qed auto

end
