(* ===== verification/Repetition.thy ===== *)
theory Repetition
  imports Doom_Loop
begin

text \<open>
  Detection of repeated assistant output: \<open>crates/agnt-core/src/hook/output_repetition.rs\<close>.  The
  check inside a stream is proved to stop exactly when the visible window ends in a phrase said five
  times, and the check across turns when the same text has been sent five times in a row.
\<close>

definition output_repetition_threshold :: nat where
  "output_repetition_threshold = 5"

definition output_repetition_check_interval :: nat where
  "output_repetition_check_interval = 100"

definition output_repetition_window :: nat where
  "output_repetition_window = 2000"

definition min_unit :: nat where
  "min_unit = 8"

definition output_repetition_message :: str where
  "output_repetition_message =
     ''Output repetition detected: your responses repeated the same content. ''
     @ ''Change your approach: write different content, call a tool, or ask the user for guidance.''"

definition output_repetition_stop_prefix :: str where
  "output_repetition_stop_prefix = ''Output repetition stopped:''"

definition output_repetition_backoff_message :: str where
  "output_repetition_backoff_message =
     ''Output repetition persisted: your responses repeated the same content again after steering. ''
     @ ''Change your approach now: write different content, call a tool, or ask the user for guidance.''"

record repetition_state =
  rs_last_segment :: "str option"
  rs_consecutive :: nat
  rs_escalation_count :: nat
  rs_last_check_len :: nat
  rs_intra_stream_detected :: bool

definition repetition_default :: repetition_state where
  "repetition_default = \<lparr>rs_last_segment = None, rs_consecutive = 0, rs_escalation_count = 0,
     rs_last_check_len = 0, rs_intra_stream_detected = False\<rparr>"

datatype repetition_detection = RepFirst str | RepBackoff str | RepStop str

datatype repetition_action = WarnAction | StopAction

definition reset_ladder :: "repetition_state \<Rightarrow> repetition_state" where
  "reset_ladder s = s\<lparr>rs_escalation_count := 0, rs_last_check_len := 0\<rparr>"

definition escalate :: "repetition_state \<Rightarrow> repetition_detection \<times> repetition_state" where
  "escalate s =
     (let s1 = s\<lparr>rs_escalation_count := rs_escalation_count s + 1\<rparr>
      in ((if rs_escalation_count s1 = 1 then RepFirst output_repetition_message
           else if rs_escalation_count s1 \<le> 1 + doom_loop_backoff_limit
           then RepBackoff output_repetition_backoff_message
           else RepStop (output_repetition_stop_prefix @ '' the assistant kept repeating the same output ''
             @ ''after repeated steering. The run was stopped.'')), s1))"

definition repetition_level :: "repetition_detection \<Rightarrow> level" where
  "repetition_level d = (case d of RepFirst t \<Rightarrow> LFirst | RepBackoff t \<Rightarrow> LBackoff | RepStop t \<Rightarrow> LStop)"

interpretation rep: ladder rs_escalation_count escalate repetition_level
  by unfold_locales
    (auto simp: escalate_def Let_def level_of_def repetition_level_def doom_loop_backoff_limit_def)

text \<open>\<open>lower\<close> is \<open>str::to_lowercase\<close>.\<close>

definition normalize :: "(str \<Rightarrow> str) \<Rightarrow> str \<Rightarrow> str" where
  "normalize lower t = squeeze (lower (trim t))"

definition record_response ::
  "(str \<Rightarrow> str) \<Rightarrow> str \<Rightarrow> bool \<Rightarrow> repetition_state \<Rightarrow> repetition_detection option \<times> repetition_state" where
  "record_response lower t had_tool_calls s =
     (let normalized = normalize lower t in
      if had_tool_calls then
        (None, reset_ladder (s\<lparr>rs_last_segment := None, rs_consecutive := 0\<rparr>))
      else if normalized = [] then (None, s)
      else
        (let s1 = (if rs_last_segment s \<noteq> Some normalized
                   then reset_ladder (s\<lparr>rs_last_segment := Some normalized, rs_consecutive := 1\<rparr>)
                   else s\<lparr>rs_consecutive := rs_consecutive s + 1\<rparr>)
         in if output_repetition_threshold \<le> rs_consecutive s1
            then (let (d, s2) = escalate s1 in (Some d, s2)) else (None, s1)))"

text \<open>The parts of a response the code looks at.\<close>

datatype content_item = TextItem str | ToolCallItem | OtherItem

fun turn_text :: "content_item list \<Rightarrow> str \<times> nat" where
  "turn_text [] = ([], 0)"
| "turn_text (TextItem t # xs) = (let (u, n) = turn_text xs in (t @ u, n))"
| "turn_text (ToolCallItem # xs) = (let (u, n) = turn_text xs in (u, Suc n))"
| "turn_text (OtherItem # xs) = turn_text xs"

definition record_turn_content ::
  "(str \<Rightarrow> str) \<Rightarrow> content_item list \<Rightarrow> repetition_state \<Rightarrow> repetition_detection option \<times> repetition_state" where
  "record_turn_content lower content s =
     (let (t, tool_calls) = turn_text content in record_response lower t (0 < tool_calls) s)"

definition finish_turn ::
  "(str \<Rightarrow> str) \<Rightarrow> content_item list \<Rightarrow> repetition_state \<Rightarrow> repetition_detection option \<times> repetition_state" where
  "finish_turn lower content s =
     (let s1 = s\<lparr>rs_intra_stream_detected := False\<rparr> in
      if rs_intra_stream_detected s
      then (let (d, s2) = escalate (s1\<lparr>rs_last_check_len := 0\<rparr>) in (Some d, s2))
      else record_turn_content lower content s1)"

fun chunks_exact :: "nat \<Rightarrow> nat \<Rightarrow> str \<Rightarrow> str list" where
  "chunks_exact 0 k xs = []"
| "chunks_exact (Suc n) k xs =
     (if k = 0 \<or> length xs < k then [] else take k xs # chunks_exact n k (drop k xs))"

definition window_of :: "str \<Rightarrow> str" where
  "window_of normalized =
     drop (floor_char_boundary normalized (length normalized - output_repetition_window)) normalized"

definition unit_repeats :: "str \<Rightarrow> nat \<Rightarrow> bool" where
  "unit_repeats window unit_len =
     (let n = length window; u = drop (n - unit_len) window;
          suffix = drop (n - unit_len * output_repetition_threshold) window
      in list_all (\<lambda>chunk. chunk = u) (chunks_exact (length suffix) unit_len suffix))"

definition check_aggregated ::
  "(str \<Rightarrow> str) \<Rightarrow> str \<Rightarrow> repetition_state \<Rightarrow> repetition_action option \<times> repetition_state" where
  "check_aggregated lower aggregated s =
     (if length aggregated < rs_last_check_len s + output_repetition_check_interval then (None, s)
      else
        (let s1 = s\<lparr>rs_last_check_len := length aggregated\<rparr>;
             window = window_of (normalize lower aggregated);
             window_len = length window
         in if window_len < output_repetition_threshold then (None, s1)
            else if list_ex (unit_repeats window)
                      [min_unit..<Suc (window_len div output_repetition_threshold)]
            then (Some StopAction, s1) else (None, s1)))"

section \<open>The check inside a stream\<close>

lemma chunks_replicate:
  "k \<noteq> 0 \<Longrightarrow> length xs = m * k \<Longrightarrow> m \<le> n \<Longrightarrow> length u = k \<Longrightarrow>
   list_all (\<lambda>c. c = u) (chunks_exact n k xs) \<longleftrightarrow> xs = concat (replicate m u)"
proof (induction n k xs arbitrary: m rule: chunks_exact.induct)
  case (2 n k xs)
  show ?case
  proof (cases m)
    case 0
    with 2 show ?thesis by simp
  next
    case (Suc m')
    then have len: "length (drop k xs) = m' * k" "\<not> length xs < k" using 2 by auto
    have "list_all (\<lambda>c. c = u) (chunks_exact n k (drop k xs)) \<longleftrightarrow> drop k xs = concat (replicate m' u)"
      by (rule "2.IH") (use 2 Suc len in auto)
    moreover have "xs = u @ concat (replicate m' u) \<longleftrightarrow> take k xs = u \<and> drop k xs = concat (replicate m' u)"
      using 2(5) by (metis append_eq_conv_conj append_take_drop_id)
    ultimately show ?thesis using Suc 2(2) len by simp
  qed
qed simp

lemma unit_repeats_iff:
  assumes "0 < k" and "k * 5 \<le> length window"
  shows "unit_repeats window k \<longleftrightarrow> (\<exists>p u. length u = k \<and> window = p @ concat (replicate 5 u))"
proof -
  let ?n = "length window"
  let ?u = "drop (?n - k) window"
  let ?sfx = "drop (?n - k * 5) window"
  have len: "length ?sfx = 5 * k" "length ?u = k" using assms by auto
  have r: "unit_repeats window k \<longleftrightarrow> ?sfx = concat (replicate 5 ?u)"
    unfolding unit_repeats_def Let_def output_repetition_threshold_def
    using assms by (intro chunks_replicate [OF _ len(1) _ len(2)]) auto
  show ?thesis
  proof
    assume "unit_repeats window k"
    then show "\<exists>p u. length u = k \<and> window = p @ concat (replicate 5 u)"
      using r len(2) by (metis append_take_drop_id)
  next
    assume "\<exists>p u. length u = k \<and> window = p @ concat (replicate 5 u)"
    then obtain p u where u: "length u = k" "window = p @ concat (replicate 5 u)" by blast
    have cl: "length (concat (replicate m u)) = m * k" for m by (induction m) (simp_all add: u(1))
    have "?sfx = concat (replicate 5 u)" using u cl [of 5] by simp
    moreover have "window = (p @ concat (replicate 4 u)) @ u"
      using u(2) by (simp add: numeral_eq_Suc)
    then have "?u = u" using u(1) by simp
    ultimately show "unit_repeats window k" using r by simp
  qed
qed

text \<open>
  C14. The check inside a stream is exact: once the text has grown by the check interval, it stops
  the stream if and only if the normalized window ends in some phrase of at least eight bytes said
  five times in a row; it never only warns, and it changes nothing but the growth mark.
\<close>

theorem stream_check_exact:
  "fst (check_aggregated lower aggregated s) =
     (if rs_last_check_len s + 100 \<le> length aggregated \<and>
         (\<exists>p u. 8 \<le> length u \<and> window_of (normalize lower aggregated) = p @ concat (replicate 5 u))
      then Some StopAction else None) \<and>
   snd (check_aggregated lower aggregated s) =
     (if rs_last_check_len s + 100 \<le> length aggregated
      then s\<lparr>rs_last_check_len := length aggregated\<rparr> else s)"
proof -
  let ?w = "window_of (normalize lower aggregated)"
  have cl: "length (concat (replicate m u)) = m * length u" for m and u :: str
    by (induction m) simp_all
  have "list_ex (unit_repeats ?w) [min_unit..<Suc (length ?w div 5)] \<longleftrightarrow>
      (\<exists>p u. 8 \<le> length u \<and> ?w = p @ concat (replicate 5 u))"
  proof
    assume "list_ex (unit_repeats ?w) [min_unit..<Suc (length ?w div 5)]"
    then obtain k where k: "8 \<le> k" "k \<le> length ?w div 5" "unit_repeats ?w k"
      by (auto simp: list_ex_iff min_unit_def)
    then have "0 < k" "k * 5 \<le> length ?w" by auto
    from unit_repeats_iff [OF this] k show "\<exists>p u. 8 \<le> length u \<and> ?w = p @ concat (replicate 5 u)"
      by blast
  next
    assume "\<exists>p u. 8 \<le> length u \<and> ?w = p @ concat (replicate 5 u)"
    then obtain p u where u: "8 \<le> length u" "?w = p @ concat (replicate 5 u)" by blast
    have "length ?w = length p + 5 * length u" by (subst u(2)) (simp add: cl)
    then have k: "0 < length u" "length u * 5 \<le> length ?w" using u(1) by auto
    have "unit_repeats ?w (length u)" using unit_repeats_iff [OF k] u(2) by blast
    then show "list_ex (unit_repeats ?w) [min_unit..<Suc (length ?w div 5)]"
      using k(2) u(1) by (auto simp: list_ex_iff min_unit_def intro!: bexI [of _ "length u"])
  qed
  moreover have "\<not> (\<exists>p u. 8 \<le> length u \<and> ?w = p @ concat (replicate 5 u))" if "length ?w < 5"
  proof
    assume "\<exists>p u. 8 \<le> length u \<and> ?w = p @ concat (replicate 5 u)"
    then obtain p u where u: "8 \<le> length u" "?w = p @ concat (replicate 5 u)" by blast
    have "length ?w = length p + 5 * length u" by (subst u(2)) (simp add: cl)
    with u(1) that show False by simp
  qed
  ultimately show ?thesis
    by (auto simp: check_aggregated_def Let_def output_repetition_threshold_def
        output_repetition_check_interval_def)
qed

section \<open>The check across turns\<close>

text \<open>
  A turn is its text and whether it called a tool.  The texts that count are the non-empty ones since
  the last turn with a tool call.
\<close>

fun counted :: "(str \<Rightarrow> str) \<Rightarrow> (str \<times> bool) list \<Rightarrow> str list \<Rightarrow> str list" where
  "counted lower [] acc = acc"
| "counted lower ((t, tools) # turns) acc =
     counted lower turns
       (if tools then [] else if normalize lower t = [] then acc else acc @ [normalize lower t])"

lemma counted_snoc:
  "counted lower (turns @ [(t, tools)]) acc =
     (if tools then [] else if normalize lower t = [] then counted lower turns acc
      else counted lower turns acc @ [normalize lower t])"
  by (induction lower turns acc rule: counted.induct) auto

definition turn_state :: "(str \<Rightarrow> str) \<Rightarrow> (str \<times> bool) list \<Rightarrow> repetition_state" where
  "turn_state lower turns =
     fold (\<lambda>(t, tools) s. snd (record_response lower t tools s)) turns repetition_default"

lemma turn_state_eq:
  "rs_last_segment (turn_state lower turns) =
     (if counted lower turns [] = [] then None else Some (last (counted lower turns []))) \<and>
   rs_consecutive (turn_state lower turns) = run_length (counted lower turns []) \<and>
   rs_escalation_count (turn_state lower turns) = run_length (counted lower turns []) - 4"
proof (induction turns rule: rev_induct)
  case Nil
  show ?case by (simp add: turn_state_def repetition_default_def)
next
  case (snoc x turns)
  obtain t tools where x: "x = (t, tools)" by (cases x)
  have st: "turn_state lower (turns @ [x]) = snd (record_response lower t tools (turn_state lower turns))"
    by (simp add: turn_state_def x)
  show ?case
    unfolding st
    using snoc
    by (auto simp: x counted_snoc record_response_def Let_def reset_ladder_def escalate_def run_length_snoc
        output_repetition_threshold_def split: prod.split)
qed

text \<open>
  C15. The check across turns is exact: a turn is flagged if and only if it calls no tool, has text,
  and that text has now been sent at least five times in a row (empty turns aside) since the last tool
  call; the fifth time steers, the sixth and seventh steer harder, and the eighth stops the run.
\<close>

theorem turn_repetition_exact:
  assumes "n = run_length (counted lower turns [] @ [normalize lower t])"
  shows "map_option repetition_level (fst (record_response lower t tools (turn_state lower turns))) =
    (if tools \<or> normalize lower t = [] \<or> n < 5 then None
     else Some (if n = 5 then LFirst else if n \<le> 7 then LBackoff else LStop))"
proof -
  have "rs_last_segment (turn_state lower turns) \<noteq> Some (normalize lower t) \<longleftrightarrow>
      \<not> (counted lower turns [] \<noteq> [] \<and> last (counted lower turns []) = normalize lower t)"
    using turn_state_eq [of lower turns] by auto
  then show ?thesis
    using turn_state_eq [of lower turns] rep.bump_level assms
    by (auto simp: record_response_def Let_def reset_ladder_def run_length_snoc escalate_def
        output_repetition_threshold_def repetition_level_def doom_loop_backoff_limit_def
        split: prod.split)
qed

lemma turn_repetition_exact_witness:
  "map_option repetition_level (fst (record_response id ''hello'' False
     (turn_state id (replicate 7 (''hello'', False))))) = Some LStop"
proof -
  have ws: "normalize id ''hello'' = ''hello''" by code_simp
  have "counted id (replicate n (''hello'', False)) acc = acc @ replicate n ''hello''" for n acc
    by (induction n arbitrary: acc) (simp_all add: ws)
  then have "counted id (replicate 7 (''hello'', False)) [] = replicate 7 ''hello''" by simp
  then have "8 = run_length (counted id (replicate 7 (''hello'', False)) [] @ [normalize id ''hello''])"
    by (simp add: ws run_length_def numeral_eq_Suc)
  from turn_repetition_exact [OF this, of False] show ?thesis by (simp add: ws)
qed

text \<open>
  No operation sets the flag for a detection inside the stream, so the turn boundary always takes the
  comparison across turns, and no check ever answers with a mere warning.
\<close>

lemma intra_stream_flag_stays_false:
  assumes "\<not> rs_intra_stream_detected s"
  shows "\<not> rs_intra_stream_detected (snd (check_aggregated lower a s))"
    and "\<not> rs_intra_stream_detected (snd (record_response lower t tools s))"
    and "\<not> rs_intra_stream_detected (reset_ladder s)"
    and "finish_turn lower content s = record_turn_content lower content s"
proof -
  have "s\<lparr>rs_intra_stream_detected := False\<rparr> = s" using assms by (cases s) simp
  with assms show "finish_turn lower content s = record_turn_content lower content s"
    by (simp only: finish_turn_def Let_def if_False)
qed (use assms in \<open>auto simp: check_aggregated_def record_response_def reset_ladder_def escalate_def
      Let_def split: prod.split\<close>)

end
