(* ===== verification/Retry.thy ===== *)
theory Retry
  imports Prelude
begin

text \<open>
  The retry loop around a turn: \<open>crates/agnt-core/src/conversation/turn/executor/retry.rs\<close> with the
  error classes of \<open>error_kind.rs\<close>, the feedback messages of \<open>feedback.rs\<close>, the error types of
  \<open>turn/error.rs\<close> and \<open>extract_retry_after_ms\<close> of \<open>response.rs\<close>.  \<open>execute_turn\<close> is the
  environment: the loop is a step function over the outcome of each attempt.  Messages and tool
  records are type parameters.
\<close>

section \<open>Error classes\<close>

datatype error_kind =
    RateLimit | Overloaded | ServerError | Network | RequestTooLarge | ContextOverflow | OutputBudget
  | ToolStructure | Auth | Quota | CreditsExhausted | Refusal | EndpointNotFound | UnknownKind

datatype error_category = Retryable | Steerable | HardStop

definition category :: "error_kind \<Rightarrow> error_category" where
  "category k =
     (case k of
        RateLimit \<Rightarrow> Retryable | Overloaded \<Rightarrow> Retryable | ServerError \<Rightarrow> Retryable
      | Network \<Rightarrow> Retryable
      | OutputBudget \<Rightarrow> Steerable | ToolStructure \<Rightarrow> Steerable | RequestTooLarge \<Rightarrow> Steerable
      | ContextOverflow \<Rightarrow> HardStop | Auth \<Rightarrow> HardStop | Quota \<Rightarrow> HardStop
      | CreditsExhausted \<Rightarrow> HardStop | Refusal \<Rightarrow> HardStop | EndpointNotFound \<Rightarrow> HardStop
      | UnknownKind \<Rightarrow> HardStop)"

definition is_retryable :: "error_kind \<Rightarrow> bool" where
  "is_retryable k \<longleftrightarrow> category k = Retryable"

definition is_model_correctable :: "error_kind \<Rightarrow> bool" where
  "is_model_correctable k \<longleftrightarrow> category k = Steerable"

definition kind_to_user_msg :: "error_kind \<Rightarrow> str \<Rightarrow> str" where
  "kind_to_user_msg k raw_msg =
     (case k of
        ToolStructure \<Rightarrow> ''Turn failed: the API rejected this turn ''
          @ em_dash @ '' a tool call was missing its result. The session has been repaired.''
      | ContextOverflow \<Rightarrow>
          ''Turn failed: conversation too long. Run '' @ [CHR 0x27] @ ''agent session compact''
          @ [CHR 0x27] @ '' to summarise.''
      | OutputBudget \<Rightarrow> ''Turn failed: output budget exhausted. Increase max_output_tokens ''
          @ ''in config or pass --max-output-tokens.''
      | RequestTooLarge \<Rightarrow> ''Turn failed: tool results too large. Lower max_tool_result_bytes in config.''
      | Refusal \<Rightarrow> ''Turn failed: the provider refused this request (content policy or safety filter).''
      | CreditsExhausted \<Rightarrow> ''Turn failed: account credits exhausted. Top up your provider account.''
      | Quota \<Rightarrow> ''Turn failed: billing limit reached. Check your provider account.''
      | RateLimit \<Rightarrow> ''Turn failed: rate limit reached.''
      | Overloaded \<Rightarrow> ''Turn failed: provider overloaded.''
      | ServerError \<Rightarrow> ''Turn failed: provider server error.''
      | Network \<Rightarrow> ''Turn failed: network error.''
      | EndpointNotFound \<Rightarrow> ''Turn failed: API endpoint not found. Check your provider configuration.''
      | Auth \<Rightarrow> ''Turn failed: authentication failed. Check your API key.''
      | UnknownKind \<Rightarrow> ''Turn failed: '' @ raw_msg)"

section \<open>Feedback messages\<close>

datatype feedback_phase = PhaseFirst | PhaseBackoff

definition feedback_prefix :: str where
  "feedback_prefix = ''The previous turn attempt failed at the provider.''"

definition max_turns_feedback_prefix :: str where
  "max_turns_feedback_prefix = ''The previous turn attempt used all its tool-call turns.''"

definition feedback_raw_msg_max_bytes :: nat where
  "feedback_raw_msg_max_bytes = 500"

definition default_output_budget_empty_remedy :: str where
  "default_output_budget_empty_remedy =
     ''the response hit the output token limit before any answer; ''
     @ ''produce your answer immediately without extended reasoning''"

definition output_budget_remedy :: "feedback_phase \<Rightarrow> str option \<Rightarrow> str option \<Rightarrow> str" where
  "output_budget_remedy phase empty_remedy remedy_mode =
     (let mode = (case remedy_mode of None \<Rightarrow> ''empty_output'' | Some m \<Rightarrow> m) in
      if mode = ''shorter_response'' then
        (case phase of
           PhaseFirst \<Rightarrow> ''the response hit the output token limit; continue with a shorter response''
         | PhaseBackoff \<Rightarrow> ''the response is still hitting the output token limit; shorten the response ''
             @ ''further or split the work across turns'')
      else
        (case phase of
           PhaseFirst \<Rightarrow>
             (case empty_remedy of None \<Rightarrow> default_output_budget_empty_remedy | Some r \<Rightarrow> r)
         | PhaseBackoff \<Rightarrow> ''the response is still hitting the output token limit; shorten the response ''
             @ ''or split the work across turns''))"

text \<open>The loop that backs off to a character boundary is \<^const>\<open>floor_boundary_from\<close>.\<close>

definition cut_at_char_boundary :: "str \<Rightarrow> nat \<Rightarrow> str" where
  "cut_at_char_boundary s max_bytes =
     (if length s \<le> max_bytes then s else take (floor_boundary_from s max_bytes) s)"

definition build_feedback_message ::
  "error_kind \<Rightarrow> feedback_phase \<Rightarrow> str \<Rightarrow> str option \<Rightarrow> str option \<Rightarrow> str" where
  "build_feedback_message kind phase raw_provider_msg empty_remedy remedy_mode =
     (let remedy =
        (case kind of
           ToolStructure \<Rightarrow>
             (case phase of
                PhaseFirst \<Rightarrow> ''ensure every tool call has a matching tool result''
              | PhaseBackoff \<Rightarrow> ''the tool sequence is still malformed; re-check that every tool call ''
                  @ ''has a matching tool result and that the arguments match the tool schema'')
         | OutputBudget \<Rightarrow> output_budget_remedy phase empty_remedy remedy_mode
         | RequestTooLarge \<Rightarrow>
             (case phase of
                PhaseFirst \<Rightarrow> ''the request was too large; reduce the size of attached tool results''
              | PhaseBackoff \<Rightarrow> ''the request is still too large; split the work across turns or drop ''
                  @ ''non-essential tool results before continuing'')
         | _ \<Rightarrow> ''wait for the operator to resolve the underlying issue'')
      in if raw_provider_msg = [] then feedback_prefix @ '' Remedy: '' @ remedy @ ''.''
         else feedback_prefix @ '' Remedy: '' @ remedy @ ''. Raw provider message: ''
           @ cut_at_char_boundary raw_provider_msg feedback_raw_msg_max_bytes)"

definition build_max_turns_feedback_message :: "nat \<Rightarrow> str" where
  "build_max_turns_feedback_message max_turns =
     max_turns_feedback_prefix @ '' The budget was '' @ show_nat max_turns @ '' tool-call turns. ''
     @ ''Question whether the task truly needs that many tool calls. ''
     @ ''Reconsider your approach and aim to accomplish the goal with fewer, larger steps. ''
     @ ''If you change course, a fresh budget of '' @ show_nat max_turns @ '' turns is available.''"

section \<open>The delay asked for by the provider\<close>

text \<open>
  Slicing from an index that is out of range or
  inside a character panics, which is \<open>None\<close> here.  \<open>lower\<close> is \<open>str::to_lowercase\<close>.
\<close>

definition slice_from :: "str \<Rightarrow> nat \<Rightarrow> str option" where
  "slice_from s i = (if i \<le> length s \<and> is_char_boundary s i then Some (drop i s) else None)"

definition is_digit :: "char \<Rightarrow> bool" where
  "is_digit c \<longleftrightarrow> 48 \<le> (of_char c :: nat) \<and> (of_char c :: nat) \<le> 57"

definition parse_digits :: "str \<Rightarrow> nat option" where
  "parse_digits s =
     (let n = foldl (\<lambda>n c. 10 * n + (of_char c - 48)) 0 s in if n \<le> word_max then Some n else None)"

definition retry_after_pattern :: "(str \<Rightarrow> str) \<Rightarrow> str \<Rightarrow> str \<Rightarrow> nat option option" where
  "retry_after_pattern lower msg pattern =
     (case str_find pattern (lower msg) of
        None \<Rightarrow> Some None
      | Some idx \<Rightarrow>
          (case slice_from msg (idx + length pattern) of
             None \<Rightarrow> None
           | Some after \<Rightarrow>
               (let digits = takeWhile is_digit after in
                if digits = [] then Some None
                else Some (map_option (\<lambda>secs. min (secs * 1000) word_max) (parse_digits digits)))))"

fun try_patterns :: "(str \<Rightarrow> str) \<Rightarrow> str \<Rightarrow> str list \<Rightarrow> nat option option" where
  "try_patterns lower msg [] = Some None"
| "try_patterns lower msg (p # ps) =
     (case retry_after_pattern lower msg p of
        None \<Rightarrow> None
      | Some (Some ms) \<Rightarrow> Some (Some ms)
      | Some None \<Rightarrow> try_patterns lower msg ps)"

definition extract_retry_after_ms :: "(str \<Rightarrow> str) \<Rightarrow> str \<Rightarrow> nat option option" where
  "extract_retry_after_ms lower msg =
     try_patterns lower msg [''retry after '', ''retry-after: '', ''retry_after: '']"

section \<open>Attempts and their outcomes\<close>

datatype 'm turn_error =
    Cancelled str "'m list"
  | MaxTurnsExceeded str nat "'m list"
  | UnknownTool str str "'m list"
  | CompletionFailed str error_kind
  | ToolExecutionFailed str

record ('m, 'r) turn_context =
  tc_last_known_history :: "'m list"
  tc_pre_turn_message_count :: nat
  tc_tool_records :: "'r list"

record ('m, 'r) turn_result =
  tr_text :: str
  tr_messages :: "'m list option"
  tr_cancelled :: bool
  tr_cancel_reason :: "str option"
  tr_last_known_history :: "'m list"
  tr_pre_turn_message_count :: nat
  tr_tool_records :: "'r list"

type_synonym ('m, 'r) attempt_outcome =
  "('m turn_error \<times> ('m, 'r) turn_context) + ('m, 'r) turn_result"

text \<open>What the loop does between two attempts.\<close>

datatype ('m, 'r) retry_effect =
    SleepMs nat
  | PublishWarning str
  | ResetRepetitionLadder
  | PersistDelta "'m list" nat str "'r list"

record retry_config =
  rc_max_retries :: "nat option"
  rc_retry_base_delay_ms :: "nat option"
  rc_empty_remedy :: "str option"
  rc_remedy_mode :: "str option"
  rc_raise_enabled :: "bool option"
  rc_raise_cap :: "nat option"
  rc_max_tokens :: "nat option"
  rc_max_output_tokens :: "nat option"

record retry_state =
  re_attempt :: nat
  re_feedback :: nat
  re_max_turns :: nat
  re_rep_stop :: nat
  re_steering :: "str option"
  re_raised :: "nat option"

definition retry_start :: retry_state where
  "retry_start = \<lparr>re_attempt = 0, re_feedback = 0, re_max_turns = 0, re_rep_stop = 0,
     re_steering = None, re_raised = None\<rparr>"

definition max_provider_feedback_retries :: nat where "max_provider_feedback_retries = 3"
definition max_turns_feedback_retries :: nat where "max_turns_feedback_retries = 1"
definition max_repetition_stop_retries :: nat where "max_repetition_stop_retries = 3"

definition max_retries_of :: "retry_config \<Rightarrow> nat" where
  "max_retries_of cfg = (case rc_max_retries cfg of None \<Rightarrow> 3 | Some n \<Rightarrow> n)"

definition raise_cap_of :: "retry_config \<Rightarrow> nat" where
  "raise_cap_of cfg = (case rc_raise_cap cfg of None \<Rightarrow> 32768 | Some n \<Rightarrow> n)"

definition interrupted_text :: str where
  "interrupted_text = ''[interrupted '' @ em_dash @ '' turn stopped before responding]''"

text \<open>The prompt and the token limit of an attempt.\<close>

definition attempt_prompt :: "str \<Rightarrow> retry_state \<Rightarrow> str" where
  "attempt_prompt prompt st =
     (case re_steering st of Some message \<Rightarrow> message @ newline @ newline @ prompt | None \<Rightarrow> prompt)"

definition attempt_max_tokens :: "retry_config \<Rightarrow> retry_state \<Rightarrow> nat option" where
  "attempt_max_tokens cfg st = (case re_raised st of Some m \<Rightarrow> Some m | None \<Rightarrow> rc_max_tokens cfg)"

text \<open>\<open>scale\<close> is the product with the configured multiplier, truncated to an integer.\<close>

definition raise_override :: "(nat \<Rightarrow> nat) \<Rightarrow> retry_config \<Rightarrow> error_kind \<Rightarrow> retry_state \<Rightarrow> nat option" where
  "raise_override scale cfg kind st =
     (case (case attempt_max_tokens cfg st of None \<Rightarrow> rc_max_output_tokens cfg | Some m \<Rightarrow> Some m) of
        Some base \<Rightarrow>
          (if kind = OutputBudget \<and>
              (case rc_raise_enabled cfg of None \<Rightarrow> False | Some b \<Rightarrow> b) \<and> base < raise_cap_of cfg
           then Some (min (scale base) (raise_cap_of cfg)) else None)
      | None \<Rightarrow> None)"

definition base_delay :: "retry_config \<Rightarrow> nat \<Rightarrow> nat" where
  "base_delay cfg attempt =
     min (min ((case rc_retry_base_delay_ms cfg of None \<Rightarrow> 1000 | Some d \<Rightarrow> d) * 2 ^ min attempt 5)
            word_max) 30000"

text \<open>The delay before jitter; \<open>None\<close> when reading the provider's delay panics.\<close>

definition raw_delay :: "(str \<Rightarrow> str) \<Rightarrow> retry_config \<Rightarrow> error_kind \<Rightarrow> str \<Rightarrow> nat \<Rightarrow> nat option" where
  "raw_delay lower cfg kind msg attempt =
     (if kind = RateLimit
      then map_option (\<lambda>d. case d of Some ms \<Rightarrow> ms | None \<Rightarrow> base_delay cfg attempt)
             (extract_retry_after_ms lower msg)
      else Some (base_delay cfg attempt))"

section \<open>One turn of the loop\<close>

text \<open>A step gives the result of the loop, or the next state and its effects; \<open>None\<close> is a panic.\<close>

definition completion_failed_step ::
  "(str \<Rightarrow> str) \<Rightarrow> (nat \<Rightarrow> nat) \<Rightarrow> retry_config \<Rightarrow> str \<Rightarrow> error_kind \<Rightarrow> ('m, 'r) turn_context \<Rightarrow>
   retry_state \<Rightarrow> (('m, 'r) attempt_outcome + retry_state \<times> ('m, 'r) retry_effect list) option" where
  "completion_failed_step lower scale cfg msg kind ctx st =
     (let has_partial_history = (tc_last_known_history ctx \<noteq> []);
          persist = PersistDelta (tc_last_known_history ctx) (tc_pre_turn_message_count ctx)
                      interrupted_text (tc_tool_records ctx)
      in if is_model_correctable kind \<and> re_feedback st < max_provider_feedback_retries \<and>
            has_partial_history
         then
           (let n = re_feedback st + 1;
                feedback = build_feedback_message kind (if n = 1 then PhaseFirst else PhaseBackoff) msg
                             (rc_empty_remedy cfg) (rc_remedy_mode cfg)
            in Some (Inr (st\<lparr>re_feedback := n, re_raised := raise_override scale cfg kind st,
                             re_steering := Some feedback\<rparr>, [persist])))
         else if is_retryable kind \<and> re_attempt st < max_retries_of cfg \<and> has_partial_history
         then
           (let n = re_attempt st + 1
            in case raw_delay lower cfg kind msg n of
                 None \<Rightarrow> None
               | Some delay \<Rightarrow> Some (Inr (st\<lparr>re_attempt := n\<rparr>, [SleepMs delay, persist])))
         else if 0 < re_attempt st
         then Some (Inl (Inl (CompletionFailed (''Turn failed after '' @ show_nat (re_attempt st) @
                         '' retries. '' @ msg) kind, ctx)))
         else if is_model_correctable kind \<and> max_provider_feedback_retries \<le> re_feedback st
         then Some (Inl (Inl (CompletionFailed (msg @ '' No output was produced.'') kind, ctx)))
         else Some (Inl (Inl (CompletionFailed msg kind, ctx))))"

definition max_turns_step ::
  "str \<Rightarrow> nat \<Rightarrow> 'm list \<Rightarrow> ('m, 'r) turn_context \<Rightarrow> retry_state \<Rightarrow>
   ('m, 'r) attempt_outcome + retry_state \<times> ('m, 'r) retry_effect list" where
  "max_turns_step msg max_turns messages ctx st =
     (if re_max_turns st < max_turns_feedback_retries
      then Inr (st\<lparr>re_max_turns := re_max_turns st + 1,
                   re_steering := Some (build_max_turns_feedback_message max_turns)\<rparr>,
                [PersistDelta messages (tc_pre_turn_message_count ctx) interrupted_text
                   (tc_tool_records ctx)])
      else Inl (Inl (MaxTurnsExceeded (''Turn failed: '' @ msg) max_turns messages, ctx)))"

definition is_repetition_stop :: "str \<Rightarrow> ('m, 'r) turn_result \<Rightarrow> bool" where
  "is_repetition_stop stop_prefix r \<longleftrightarrow>
     tr_cancelled r \<and> (case tr_cancel_reason r of None \<Rightarrow> False | Some x \<Rightarrow> prefix stop_prefix x)"

definition repetition_stop_step ::
  "str \<Rightarrow> str \<Rightarrow> ('m, 'r) turn_result \<Rightarrow> retry_state \<Rightarrow>
   ('m, 'r) attempt_outcome + retry_state \<times> ('m, 'r) retry_effect list" where
  "repetition_stop_step notice backoff_message r st =
     (if re_rep_stop st < max_repetition_stop_retries
      then Inr (st\<lparr>re_rep_stop := re_rep_stop st + 1, re_steering := Some backoff_message\<rparr>,
                [PublishWarning notice, ResetRepetitionLadder,
                 PersistDelta
                   (case tr_messages r of Some l \<Rightarrow> l | None \<Rightarrow> tr_last_known_history r)
                   (tr_pre_turn_message_count r) interrupted_text (tr_tool_records r)])
      else Inl (Inr r))"

text \<open>\<open>consts\<close> are the repetition guard's stop prefix, steering message and the notice.\<close>

definition retry_step ::
  "(str \<Rightarrow> str) \<Rightarrow> (nat \<Rightarrow> nat) \<Rightarrow> str \<times> str \<times> str \<Rightarrow> retry_config \<Rightarrow> ('m, 'r) attempt_outcome \<Rightarrow>
   retry_state \<Rightarrow> (('m, 'r) attempt_outcome + retry_state \<times> ('m, 'r) retry_effect list) option" where
  "retry_step lower scale names cfg outcome st =
     (case names of (stop_prefix, backoff_message, notice) \<Rightarrow>
       (case outcome of
          Inl (CompletionFailed msg kind, ctx) \<Rightarrow> completion_failed_step lower scale cfg msg kind ctx st
        | Inl (MaxTurnsExceeded msg max_turns messages, ctx) \<Rightarrow>
            Some (max_turns_step msg max_turns messages ctx st)
        | Inl (e, ctx) \<Rightarrow> Some (Inl (Inl (e, ctx)))
        | Inr r \<Rightarrow>
            (if is_repetition_stop stop_prefix r
             then Some (repetition_stop_step notice backoff_message r st) else Some (Inl (Inr r)))))"

text \<open>
  The loop: \<open>run n st\<close> is the outcome of attempt \<open>n\<close> started in state \<open>st\<close>.  A panic while an attempt's
  failure is handled ends the loop without a result.
\<close>

datatype ('m, 'r) loop_end = Finished "('m, 'r) attempt_outcome" | Panicked

fun run_retry_loop ::
  "(str \<Rightarrow> str) \<Rightarrow> (nat \<Rightarrow> nat) \<Rightarrow> str \<times> str \<times> str \<Rightarrow> retry_config \<Rightarrow>
   (nat \<Rightarrow> retry_state \<Rightarrow> ('m, 'r) attempt_outcome) \<Rightarrow> nat \<Rightarrow> nat \<Rightarrow> retry_state \<Rightarrow>
   (('m, 'r) loop_end \<times> nat \<times> retry_state) option" where
  "run_retry_loop lower scale names cfg run 0 n st = None"
| "run_retry_loop lower scale names cfg run (Suc fuel) n st =
     (case retry_step lower scale names cfg (run n st) st of
        None \<Rightarrow> Some (Panicked, n, st)
      | Some (Inl result) \<Rightarrow> Some (Finished result, n, st)
      | Some (Inr (st', effects)) \<Rightarrow> run_retry_loop lower scale names cfg run fuel (Suc n) st')"

end
