(* ===== verification/Retry_Facts.thy ===== *)
theory Retry_Facts
  imports Retry
begin

text \<open>
  What the retry loop guarantees: it ends within its budgets whatever the attempts do, it retries in
  exactly four situations and persists the failed attempt first, a raised token limit never exceeds
  the cap, and reading the provider's delay can panic, which is the only way it ends without a result.
\<close>

section \<open>Loops with a budget\<close>

text \<open>
  A loop whose step either gives a result or spends one unit of a budget.  \<open>outcome\<close> is what the
  environment does in the current state.
\<close>

locale budgeted_loop =
  fixes step :: "'o \<Rightarrow> 's \<Rightarrow> 'a + 's"
    and remaining :: "'s \<Rightarrow> nat"
  assumes spends: "step out st = Inr st' \<Longrightarrow> remaining st = Suc (remaining st')"
begin

fun iterate :: "(nat \<Rightarrow> 's \<Rightarrow> 'o) \<Rightarrow> nat \<Rightarrow> nat \<Rightarrow> 's \<Rightarrow> ('a \<times> nat \<times> 's) option" where
  "iterate run 0 n st = None"
| "iterate run (Suc fuel) n st =
     (case step (run n st) st of Inl r \<Rightarrow> Some (r, n, st) | Inr st' \<Rightarrow> iterate run fuel (Suc n) st')"

lemma iterate_ends:
  "remaining st < fuel \<Longrightarrow>
   \<exists>r m st'. iterate run fuel n st = Some (r, m, st') \<and> m + remaining st' = n + remaining st \<and>
     step (run m st') st' = Inl r"
proof (induction run fuel n st rule: iterate.induct)
  case (2 run fuel n st)
  show ?case
  proof (cases "step (run n st) st")
    case (Inr st')
    from spends [OF Inr] "2.prems" "2.IH" [OF Inr] obtain r m st'' where
      "iterate run fuel (Suc n) st' = Some (r, m, st'')" "m + remaining st'' = Suc n + remaining st'"
      "step (run m st'') st'' = Inl r" by auto
    then show ?thesis using Inr spends [OF Inr] by auto
  qed simp
qed simp

end

definition remaining :: "retry_config \<Rightarrow> retry_state \<Rightarrow> nat" where
  "remaining cfg st = (max_retries_of cfg - re_attempt st) +
     (max_provider_feedback_retries - re_feedback st) + (max_turns_feedback_retries - re_max_turns st) +
     (max_repetition_stop_retries - re_rep_stop st)"

definition spent :: "retry_state \<Rightarrow> nat" where
  "spent st = re_attempt st + re_feedback st + re_max_turns st + re_rep_stop st"

lemmas retry_step_defs = retry_step_def completion_failed_step_def max_turns_step_def
  repetition_stop_step_def Let_def

lemma retry_step_spends:
  assumes "retry_step lower scale names cfg outcome st = Some (Inr (st', effs))"
  shows "remaining cfg st = Suc (remaining cfg st')" and "spent st' = Suc (spent st)"
  using assms
  by (auto simp: retry_step_defs remaining_def spent_def is_model_correctable_def is_retryable_def
      split: prod.splits sum.splits option.splits turn_error.splits if_splits)

definition drop_effects ::
  "(('m, 'r) attempt_outcome + 's \<times> 'e) option \<Rightarrow> ('m, 'r) loop_end + 's" where
  "drop_effects x = (case x of None \<Rightarrow> Inl Panicked | Some (Inl a) \<Rightarrow> Inl (Finished a)
     | Some (Inr (s, e)) \<Rightarrow> Inr s)"

interpretation retry: budgeted_loop
  "\<lambda>out st. drop_effects (retry_step lower scale names cfg out st)" "remaining cfg"
  for lower scale names cfg
  by unfold_locales
    (auto simp: drop_effects_def retry_step_spends(1) split: option.splits sum.splits prod.splits)

lemma run_retry_loop_Suc:
  "run_retry_loop lower scale names cfg run (Suc fuel) n st =
     (case drop_effects (retry_step lower scale names cfg (run n st) st) of
        Inl result \<Rightarrow> Some (result, n, st)
      | Inr st' \<Rightarrow> run_retry_loop lower scale names cfg run fuel (Suc n) st')"
  by (simp add: drop_effects_def split: option.split sum.split prod.split)

lemma run_retry_loop_iterate:
  "run_retry_loop lower scale names cfg run fuel n st = retry.iterate lower scale names cfg run fuel n st"
proof (induction fuel arbitrary: n st)
  case 0
  show ?case by (simp add: retry.iterate.simps)
next
  case (Suc fuel)
  then show ?case
    unfolding run_retry_loop_Suc retry.iterate.simps by (simp split: sum.split)
qed

text \<open>The failures whose handling panics: the delay the provider asked for cannot be read.\<close>

fun delay_panics :: "(str \<Rightarrow> str) \<Rightarrow> retry_config \<Rightarrow> ('m, 'r) attempt_outcome \<Rightarrow> retry_state \<Rightarrow> bool" where
  "delay_panics lower cfg (Inl (CompletionFailed msg k, ctx)) st \<longleftrightarrow>
     k = RateLimit \<and> tc_last_known_history ctx \<noteq> [] \<and> re_attempt st < max_retries_of cfg \<and>
     extract_retry_after_ms lower msg = None"
| "delay_panics lower cfg outcome st \<longleftrightarrow> False"

lemma retry_step_panics:
  "retry_step lower scale names cfg outcome st = None \<longleftrightarrow> delay_panics lower cfg outcome st"
  by (cases "(lower, cfg, outcome, st)" rule: delay_panics.cases)
    (auto simp: retry_step_defs raw_delay_def is_model_correctable_def is_retryable_def category_def
      split: prod.splits option.splits)

text \<open>The error returned for a failed attempt: the same failure, possibly with a longer message.\<close>

fun same_failure :: "'m turn_error \<Rightarrow> 'm turn_error \<Rightarrow> bool" where
  "same_failure (CompletionFailed msg k) (CompletionFailed msg' k') \<longleftrightarrow> k = k' \<and> sublist msg msg'"
| "same_failure (MaxTurnsExceeded msg n l) (MaxTurnsExceeded msg' n' l') \<longleftrightarrow>
     n = n' \<and> l = l' \<and> sublist msg msg'"
| "same_failure e e' \<longleftrightarrow> e = e'"

lemma same_failure_refl: "same_failure e e"
  by (cases e) auto

lemma retry_step_result:
  assumes "retry_step lower scale names cfg outcome st = Some (Inl result)"
  shows "case outcome of Inr r \<Rightarrow> result = Inr r
     | Inl (e, ctx) \<Rightarrow> \<exists>e'. result = Inl (e', ctx) \<and> same_failure e e'"
proof -
  have m: "sublist msg (''Turn failed after '' @ show_nat n @ '' retries. '' @ msg)"
    "sublist msg (msg @ '' No output was produced.'')" "sublist msg (''Turn failed: '' @ msg)" for msg n
    using sublist_append_leftI [of msg "''Turn failed after '' @ show_nat n @ '' retries. ''"]
    by (simp_all only: append_assoc sublist_append_leftI sublist_append_rightI)
  show ?thesis
  proof (cases outcome)
    case (Inr r)
    with assms show ?thesis by (auto simp: retry_step_defs split: prod.splits if_splits)
  next
    case (Inl p)
    obtain e ctx where p: "p = (e, ctx)" by (cases p)
    show ?thesis
    proof (cases e)
      case (MaxTurnsExceeded msg n l)
      with assms m(3) [of msg] show ?thesis
        by (auto simp: Inl p retry_step_def max_turns_step_def simp del: append_Cons append.simps
            split: prod.splits if_splits)
    next
      case (CompletionFailed msg k)
      with assms m(1) [of msg "re_attempt st"] m(2) [of msg] show ?thesis
        by (auto simp: Inl p retry_step_def completion_failed_step_def Let_def
            simp del: append_Cons append.simps split: prod.splits option.splits if_splits)
    qed (use assms in \<open>auto simp: Inl p retry_step_def split: prod.splits\<close>)
  qed
qed

lemma retry_step_budgets:
  assumes "retry_step lower scale names cfg outcome st = Some (Inr (st', effs))"
    and "re_attempt st \<le> max_retries_of cfg" and "re_feedback st \<le> 3" and "re_max_turns st \<le> 1"
    and "re_rep_stop st \<le> 3"
  shows "re_attempt st' \<le> max_retries_of cfg \<and> re_feedback st' \<le> 3 \<and> re_max_turns st' \<le> 1 \<and>
    re_rep_stop st' \<le> 3"
  using assms
  by (auto simp: retry_step_defs max_provider_feedback_retries_def max_turns_feedback_retries_def
      max_repetition_stop_retries_def
      split: prod.splits sum.splits option.splits turn_error.splits if_splits)

lemma iterate_budgets:
  assumes "run_retry_loop lower scale names cfg run fuel n st = Some (result, m, st')"
    and "re_attempt st \<le> max_retries_of cfg \<and> re_feedback st \<le> 3 \<and> re_max_turns st \<le> 1 \<and>
      re_rep_stop st \<le> 3"
  shows "re_attempt st' \<le> max_retries_of cfg \<and> re_feedback st' \<le> 3 \<and> re_max_turns st' \<le> 1 \<and>
    re_rep_stop st' \<le> 3 \<and> drop_effects (retry_step lower scale names cfg (run m st') st') = Inl result \<and>
    m + spent st = n + spent st'"
  using assms
proof (induction fuel arbitrary: n st)
  case (Suc fuel)
  show ?case
  proof (cases "drop_effects (retry_step lower scale names cfg (run n st) st)")
    case (Inl a)
    with Suc.prems show ?thesis by (simp add: run_retry_loop_Suc del: run_retry_loop.simps)
  next
    case (Inr u)
    then obtain effs where s: "retry_step lower scale names cfg (run n st) st = Some (Inr (u, effs))"
      by (auto simp: drop_effects_def split: option.splits sum.splits)
    have r: "run_retry_loop lower scale names cfg run fuel (Suc n) u = Some (result, m, st')"
      using Suc.prems(1) Inr by (simp add: run_retry_loop_Suc del: run_retry_loop.simps)
    have b: "re_attempt u \<le> max_retries_of cfg \<and> re_feedback u \<le> 3 \<and> re_max_turns u \<le> 1 \<and>
        re_rep_stop u \<le> 3"
      using retry_step_budgets [OF s] Suc.prems(2) by blast
    from Suc.IH [OF r b] retry_step_spends(2) [OF s] show ?thesis by auto
  qed
qed simp

text \<open>
  C16. The retry loop always ends: whatever the attempts return, it ends after at most
  max_retries + 7 retries, each retry is charged to exactly one of the four budgets, which are never
  exceeded.  It ends in a panic exactly when the delay of a rate-limited attempt that is to be retried
  cannot be read; otherwise its result is that of the last attempt (a success unchanged, a failure as
  the same failure with the same context, its message possibly extended).
\<close>

theorem retry_loop_ends:
  assumes "max_retries_of cfg + 8 \<le> fuel"
  shows "\<exists>result n st. run_retry_loop lower scale names cfg run fuel 0 retry_start = Some (result, n, st) \<and>
    n \<le> max_retries_of cfg + 7 \<and>
    n = re_attempt st + re_feedback st + re_max_turns st + re_rep_stop st \<and>
    re_attempt st \<le> max_retries_of cfg \<and> re_feedback st \<le> 3 \<and> re_max_turns st \<le> 1 \<and>
    re_rep_stop st \<le> 3 \<and>
    (case result of
       Panicked \<Rightarrow> delay_panics lower cfg (run n st) st
     | Finished r \<Rightarrow> \<not> delay_panics lower cfg (run n st) st \<and>
         (case run n st of Inr a \<Rightarrow> r = Inr a
          | Inl (e, ctx) \<Rightarrow> \<exists>e'. r = Inl (e', ctx) \<and> same_failure e e'))"
proof -
  have "remaining cfg retry_start < fuel"
    using assms by (simp add: remaining_def retry_start_def max_provider_feedback_retries_def
        max_turns_feedback_retries_def max_repetition_stop_retries_def)
  from retry.iterate_ends [OF this, of lower scale names run 0] obtain result n st where
    r: "run_retry_loop lower scale names cfg run fuel 0 retry_start = Some (result, n, st)"
    by (auto simp: run_retry_loop_iterate)
  have b: "re_attempt retry_start \<le> max_retries_of cfg \<and> re_feedback retry_start \<le> 3 \<and>
      re_max_turns retry_start \<le> 1 \<and> re_rep_stop retry_start \<le> 3"
    by (simp add: retry_start_def)
  have s: "spent retry_start = 0" by (simp add: spent_def retry_start_def)
  from iterate_budgets [OF r b] s have
    n: "re_attempt st \<le> max_retries_of cfg \<and> re_feedback st \<le> 3 \<and> re_max_turns st \<le> 1 \<and>
      re_rep_stop st \<le> 3" "n = spent st"
    and step: "drop_effects (retry_step lower scale names cfg (run n st) st) = Inl result" by auto
  have "case result of
       Panicked \<Rightarrow> delay_panics lower cfg (run n st) st
     | Finished r \<Rightarrow> \<not> delay_panics lower cfg (run n st) st \<and>
         (case run n st of Inr a \<Rightarrow> r = Inr a
          | Inl (e, ctx) \<Rightarrow> \<exists>e'. r = Inl (e', ctx) \<and> same_failure e e')"
  proof (cases result)
    case Panicked
    with step have "retry_step lower scale names cfg (run n st) st = None"
      by (auto simp: drop_effects_def split: option.splits sum.splits)
    with Panicked show ?thesis by (simp add: retry_step_panics)
  next
    case (Finished r)
    with step have f: "retry_step lower scale names cfg (run n st) st = Some (Inl r)"
      by (auto simp: drop_effects_def split: option.splits sum.splits)
    with retry_step_panics [of lower scale names cfg "run n st" st]
    have "\<not> delay_panics lower cfg (run n st) st" by simp
    with retry_step_result [OF f] Finished show ?thesis by simp
  qed
  with r n show ?thesis by (auto simp: spent_def)
qed

definition plain_config :: retry_config where
  "plain_config = \<lparr>rc_max_retries = None, rc_retry_base_delay_ms = None, rc_empty_remedy = None,
     rc_remedy_mode = None, rc_raise_enabled = None, rc_raise_cap = None, rc_max_tokens = None,
     rc_max_output_tokens = None\<rparr>"

lemma retry_loop_ends_witness:
  "\<exists>result n st. run_retry_loop id id ([], [], []) plain_config
     (\<lambda>_ _. Inl (CompletionFailed ''down'' Network,
        \<lparr>tc_last_known_history = [()], tc_pre_turn_message_count = 0, tc_tool_records = [()]\<rparr>))
     20 0 retry_start = Some (result, n, st) \<and> n \<le> 10"
proof -
  have "max_retries_of plain_config + 8 \<le> 20" "max_retries_of plain_config = 3"
    by (simp_all add: max_retries_of_def plain_config_def)
  with retry_loop_ends [OF this(1), of id id "([], [], [])"
      "\<lambda>_ _. Inl (CompletionFailed ''down'' Network,
        \<lparr>tc_last_known_history = [()], tc_pre_turn_message_count = 0, tc_tool_records = [()]\<rparr>)"]
  show ?thesis by auto
qed

section \<open>When an attempt is retried\<close>

fun retry_wanted :: "str \<Rightarrow> retry_config \<Rightarrow> ('m, 'r) attempt_outcome \<Rightarrow> retry_state \<Rightarrow> bool" where
  "retry_wanted stop_prefix cfg (Inl (CompletionFailed msg k, ctx)) st \<longleftrightarrow>
     tc_last_known_history ctx \<noteq> [] \<and>
     (category k = Steerable \<and> re_feedback st < 3 \<or>
      category k = Retryable \<and> re_attempt st < max_retries_of cfg)"
| "retry_wanted stop_prefix cfg (Inl (MaxTurnsExceeded msg n l, ctx)) st \<longleftrightarrow> re_max_turns st < 1"
| "retry_wanted stop_prefix cfg (Inl (e, ctx)) st \<longleftrightarrow> False"
| "retry_wanted stop_prefix cfg (Inr r) st \<longleftrightarrow> is_repetition_stop stop_prefix r \<and> re_rep_stop st < 3"

text \<open>What is persisted of a failed attempt: its history, the log length at its start, its tools.\<close>

fun attempt_delta :: "('m, 'r) attempt_outcome \<Rightarrow> ('m, 'r) retry_effect" where
  "attempt_delta (Inl (MaxTurnsExceeded msg n l, ctx)) =
     PersistDelta l (tc_pre_turn_message_count ctx) interrupted_text (tc_tool_records ctx)"
| "attempt_delta (Inl (e, ctx)) =
     PersistDelta (tc_last_known_history ctx) (tc_pre_turn_message_count ctx) interrupted_text
       (tc_tool_records ctx)"
| "attempt_delta (Inr r) =
     PersistDelta (case tr_messages r of Some l \<Rightarrow> l | None \<Rightarrow> tr_last_known_history r)
       (tr_pre_turn_message_count r) interrupted_text (tr_tool_records r)"

lemma raise_override_le:
  "raise_override scale cfg kind st = Some m \<Longrightarrow> m \<le> raise_cap_of cfg"
  by (auto simp: raise_override_def split: option.splits if_splits)

text \<open>
  A failed attempt is retried (or the retry panics) in exactly four situations, each within its own budget (a
  correctable or a transient provider failure with some history, exhausted tool turns, a repetition
  stop); before every retry the failed attempt's own history is persisted last, exactly one retry is
  charged, and the token limit of the next attempt is the configured one, the one it had, or a raised
  one of at most the cap.
\<close>

theorem retry_step_policy:
  "case retry_step lower scale (stop_prefix, backoff_message, notice) cfg outcome st of
     None \<Rightarrow> retry_wanted stop_prefix cfg outcome st \<and> delay_panics lower cfg outcome st
   | Some (Inl result) \<Rightarrow> \<not> retry_wanted stop_prefix cfg outcome st
   | Some (Inr (st', effs)) \<Rightarrow> retry_wanted stop_prefix cfg outcome st \<and> effs \<noteq> [] \<and>
       last effs = attempt_delta outcome \<and> spent st' = Suc (spent st) \<and>
       (case re_raised st' of None \<Rightarrow> True | Some m \<Rightarrow> m \<le> raise_cap_of cfg \<or> re_raised st = Some m)"
proof (cases outcome)
  case (Inr r)
  then show ?thesis
    by (auto simp: retry_step_defs spent_def max_repetition_stop_retries_def split: option.split)
next
  case (Inl p)
  obtain e ctx where p: "p = (e, ctx)" by (cases p)
  show ?thesis
  proof (cases e)
    case (MaxTurnsExceeded msg n l)
    then show ?thesis
      by (auto simp: Inl p retry_step_def spent_def max_turns_step_def max_turns_feedback_retries_def
          split: option.split)
  next
    case (CompletionFailed msg k)
    show ?thesis
      using raise_override_le [of scale cfg k st]
      by (cases "category k")
        (auto simp: Inl p CompletionFailed retry_step_def spent_def completion_failed_step_def Let_def
          is_model_correctable_def is_retryable_def max_provider_feedback_retries_def raw_delay_def
          split: option.splits)
  qed (auto simp: Inl p retry_step_def)
qed

text \<open>
  A raised limit is not only for the next attempt: a later retry for another reason keeps it.
\<close>

lemma raise_outlives_next_attempt:
  assumes "category k = Retryable" and "re_raised st = Some m"
    and "retry_step lower scale names cfg (Inl (CompletionFailed msg k, ctx)) st = Some (Inr (st', effs))"
  shows "attempt_max_tokens cfg st' = Some m"
  using assms
  by (auto simp: retry_step_defs is_model_correctable_def is_retryable_def attempt_max_tokens_def
      split: prod.splits option.splits if_splits)

section \<open>Reading the provider's delay\<close>

definition dotted_I :: str where
  "dotted_I = [CHR 0xC4, CHR 0xB0]"

definition dotted_I_lower :: str where
  "dotted_I_lower = [CHR 0x69, CHR 0xCC, CHR 0x87]"

text \<open>
  Reading the delay asked for by the provider can panic: the position of the pattern is looked up
  in the lowercased message but used to slice the original one.  Lowercasing the capital I with dot
  (two bytes) gives three bytes, so with two of them before the pattern the slice starts past the end.
\<close>

theorem retry_after_can_panic:
  assumes "lower (dotted_I @ dotted_I @ ''Retry after 5'') =
    dotted_I_lower @ dotted_I_lower @ ''retry after 5''"
  shows "extract_retry_after_ms lower (dotted_I @ dotted_I @ ''Retry after 5'') = None \<and>
    raw_delay lower cfg RateLimit (dotted_I @ dotted_I @ ''Retry after 5'') attempt = None"
proof -
  have f: "str_find ''retry after '' (dotted_I_lower @ dotted_I_lower @ ''retry after 5'') = Some 6"
    by code_simp
  have s: "slice_from (dotted_I @ dotted_I @ ''Retry after 5'') (6 + length ''retry after '') = None"
    by code_simp
  have "retry_after_pattern lower (dotted_I @ dotted_I @ ''Retry after 5'') ''retry after '' = None"
    unfolding retry_after_pattern_def assms f option.case s ..
  then have "extract_retry_after_ms lower (dotted_I @ dotted_I @ ''Retry after 5'') = None"
    by (simp only: extract_retry_after_ms_def try_patterns.simps option.case)
  then show ?thesis by (simp only: raw_delay_def option.map simp_thms if_True)
qed

lemma retry_after_can_panic_witness:
  "extract_retry_after_ms (\<lambda>_. dotted_I_lower @ dotted_I_lower @ ''retry after 5'')
     (dotted_I @ dotted_I @ ''Retry after 5'') = None"
  using retry_after_can_panic [of "\<lambda>_. dotted_I_lower @ dotted_I_lower @ ''retry after 5''"] by simp

end
