(* ===== verification/Recovery.thy ===== *)
theory Recovery
  imports Prelude
begin

text \<open>
  What is kept of a turn that did not complete: the turn's tool log
  (\<open>crates/agnt-core/src/hook/turn_tools.rs\<close>), the repair of its messages (\<open>session/repair.rs\<close>), the
  recovery of its delta (\<open>conversation/turn/executor/recover.rs\<close>) and the facts settled with it
  (\<open>session/settle.rs\<close> over \<open>agnt-storage/src/services/settle.rs\<close>).  Messages are rig's types; the
  datatypes here have the variants the code matches on and one for all others.
\<close>

section \<open>Messages\<close>

datatype result_content = RText str | ROther

record tool_result =
  tre_call :: str
  tre_name :: str
  tre_content :: "result_content list"
  tre_is_error :: bool

datatype user_content = UText str | UToolResult tool_result | UOther

record tool_call =
  tca_id :: str
  tca_name :: str
  tca_arguments :: json

datatype assistant_content = AText str | AToolCall tool_call | AOther

datatype rig_message = User "user_content list" | Assistant "assistant_content list" | System str

fun user_text :: "user_content list \<Rightarrow> str" where
  "user_text [] = []"
| "user_text (UText t # xs) = t @ user_text xs"
| "user_text (_ # xs) = user_text xs"

fun results_in :: "user_content list \<Rightarrow> tool_result list" where
  "results_in [] = []"
| "results_in (UToolResult r # xs) = r # results_in xs"
| "results_in (_ # xs) = results_in xs"

fun calls_in :: "assistant_content list \<Rightarrow> tool_call list" where
  "calls_in [] = []"
| "calls_in (AToolCall c # xs) = c # calls_in xs"
| "calls_in (_ # xs) = calls_in xs"

definition message_results :: "rig_message \<Rightarrow> tool_result list" where
  "message_results m = (case m of User content \<Rightarrow> results_in content | _ \<Rightarrow> [])"

definition message_calls :: "rig_message \<Rightarrow> tool_call list" where
  "message_calls m = (case m of Assistant content \<Rightarrow> calls_in content | _ \<Rightarrow> [])"

section \<open>The turn's tool log\<close>

datatype tool_status = StatusSuccess | StatusFailed | StatusCancelled

record turn_tool_record =
  ttr_call_id :: str
  ttr_name :: str
  ttr_arguments :: str
  ttr_result :: "str option"
  ttr_success :: "bool option"
  ttr_error_kind :: "str option"
  ttr_status :: "tool_status option"

record settled_tool_call =
  stc_result :: str
  stc_success :: bool
  stc_status :: tool_status
  stc_error_kind :: "str option"

definition record_call :: "str \<Rightarrow> str \<Rightarrow> str \<Rightarrow> turn_tool_record list \<Rightarrow> turn_tool_record list" where
  "record_call call_id name arguments records =
     (if list_ex (\<lambda>r. ttr_call_id r = call_id) records then records
      else records @ [\<lparr>ttr_call_id = call_id, ttr_name = name, ttr_arguments = arguments,
        ttr_result = None, ttr_success = None, ttr_error_kind = None, ttr_status = None\<rparr>])"

definition record_result ::
  "str \<Rightarrow> str \<Rightarrow> str \<Rightarrow> settled_tool_call \<Rightarrow> turn_tool_record list \<Rightarrow> turn_tool_record list" where
  "record_result call_id name arguments settled records =
     (if list_ex (\<lambda>r. ttr_call_id r = call_id) records
      then update_first (\<lambda>r. ttr_call_id r = call_id)
        (\<lambda>r. r\<lparr>ttr_result := Some (stc_result settled), ttr_success := Some (stc_success settled),
               ttr_error_kind := stc_error_kind settled, ttr_status := Some (stc_status settled)\<rparr>) records
      else records @ [\<lparr>ttr_call_id = call_id, ttr_name = name, ttr_arguments = arguments,
        ttr_result = Some (stc_result settled), ttr_success = Some (stc_success settled),
        ttr_error_kind = stc_error_kind settled, ttr_status = Some (stc_status settled)\<rparr>])"

section \<open>Repair of a delta\<close>

type_synonym settled = "(str \<times> str \<times> bool) list"

definition unanswered_result_text :: str where
  "unanswered_result_text = ''[interrupted]''"

text \<open>The synthetic result of a call nothing answered.\<close>

definition closing_result :: "settled \<Rightarrow> tool_call \<Rightarrow> tool_result" where
  "closing_result results c =
     (let (content, is_error) =
        (case find (\<lambda>(i, t, e). i = tca_id c) results of
           Some (i, t, e) \<Rightarrow> (t, e) | None \<Rightarrow> (unanswered_result_text, False))
      in \<lparr>tre_call = tca_id c, tre_name = tca_name c, tre_content = [RText content],
          tre_is_error = is_error\<rparr>)"

definition answered_ids :: "rig_message list \<Rightarrow> str list" where
  "answered_ids messages = concat (map (\<lambda>m. map tre_call (message_results m)) messages)"

definition close_unanswered_tool_calls_with :: "settled \<Rightarrow> rig_message list \<Rightarrow> rig_message list" where
  "close_unanswered_tool_calls_with results messages =
     (let answered = answered_ids messages in
      concat (map (\<lambda>m.
        (let unanswered = filter (\<lambda>c. tca_id c \<notin> set answered) (message_calls m) in
         if unanswered = [] then [m]
         else [m, User (map (\<lambda>c. UToolResult (closing_result results c)) unanswered)])) messages))"

text \<open>\<open>no_result\<close> is rig's \<open>NO_RESULT_PROVIDED\<close>.\<close>

definition is_placeholder :: "str \<Rightarrow> tool_result \<Rightarrow> bool" where
  "is_placeholder no_result r \<longleftrightarrow> tre_is_error r \<and> tre_content r = [RText no_result]"

definition replace_item :: "str \<Rightarrow> settled \<Rightarrow> user_content \<Rightarrow> user_content" where
  "replace_item no_result results item =
     (case item of
        UToolResult r \<Rightarrow>
          (if is_placeholder no_result r then
             (case find (\<lambda>(i, t, e). i = tre_call r) results of
                Some (i, t, e) \<Rightarrow> UToolResult (r\<lparr>tre_content := [RText t], tre_is_error := e\<rparr>)
              | None \<Rightarrow> UToolResult r)
           else UToolResult r)
      | other \<Rightarrow> other)"

definition replace_placeholder_results_with ::
  "str \<Rightarrow> settled \<Rightarrow> rig_message list \<Rightarrow> rig_message list" where
  "replace_placeholder_results_with no_result results messages =
     map (\<lambda>m. case m of User content \<Rightarrow> User (map (replace_item no_result results) content)
                | other \<Rightarrow> other) messages"

section \<open>The delta of an interrupted turn\<close>

definition carries_prompt :: "str \<Rightarrow> rig_message \<Rightarrow> bool" where
  "carries_prompt prompt m =
     (case m of
        User content \<Rightarrow>
          user_text content = prompt \<or> suffix (newline @ newline @ prompt) (user_text content)
      | _ \<Rightarrow> False)"

text \<open>The history from the last message that carries the prompt.\<close>

fun from_anchor :: "str \<Rightarrow> rig_message list \<Rightarrow> rig_message list option" where
  "from_anchor prompt [] = None"
| "from_anchor prompt (m # ms) =
     (case from_anchor prompt ms of
        Some l \<Rightarrow> Some l
      | None \<Rightarrow> if carries_prompt prompt m then Some (m # ms) else None)"

definition drop_stored_results :: "str list \<Rightarrow> rig_message list \<Rightarrow> rig_message list" where
  "drop_stored_results stored delta =
     (if stored = [] then delta
      else case delta of
        User content # rest \<Rightarrow>
          (let kept = filter (\<lambda>item. case item of UToolResult r \<Rightarrow> tre_call r \<notin> set stored | _ \<Rightarrow> True)
                        content
           in if length kept = length content then delta
              else if kept = [] then rest else User kept # rest)
      | _ \<Rightarrow> delta)"

definition delta_call_ids :: "rig_message list \<Rightarrow> str list" where
  "delta_call_ids delta =
     concat (map (\<lambda>m. map tca_id (message_calls m) @ map tre_call (message_results m)) delta)"

text \<open>\<open>parse\<close> is rig's \<open>ToolFunction::parse\<close>.\<close>

definition missing_tool_calls ::
  "(str \<Rightarrow> json) \<Rightarrow> rig_message list \<Rightarrow> turn_tool_record list \<Rightarrow> assistant_content list" where
  "missing_tool_calls parse delta records =
     map (\<lambda>r. AToolCall \<lparr>tca_id = ttr_call_id r, tca_name = ttr_name r,
                         tca_arguments = parse (ttr_arguments r)\<rparr>)
       (filter (\<lambda>r. ttr_call_id r \<notin> set (delta_call_ids delta)) records)"

definition settled_results :: "turn_tool_record list \<Rightarrow> settled" where
  "settled_results records =
     concat (map (\<lambda>r. case ttr_result r of None \<Rightarrow> []
        | Some t \<Rightarrow> [(ttr_call_id r, t, ttr_success r = Some False)]) records)"

text \<open>\<open>atext\<close> is rig's \<open>AssistantMessage::text\<close>.\<close>

definition committed_text :: "(assistant_content list \<Rightarrow> str) \<Rightarrow> rig_message list \<Rightarrow> str" where
  "committed_text atext delta =
     concat (map (\<lambda>m. case m of Assistant content \<Rightarrow> atext content | _ \<Rightarrow> []) delta)"

definition add_streamed ::
  "(assistant_content list \<Rightarrow> str) \<Rightarrow> str option \<Rightarrow> rig_message list \<Rightarrow> rig_message list" where
  "add_streamed atext streamed delta =
     (case streamed of None \<Rightarrow> delta
      | Some t \<Rightarrow>
          (let committed = committed_text atext delta in
           if prefix committed t \<and> drop (length committed) t \<noteq> []
           then delta @ [Assistant [AText (drop (length committed) t)]] else delta))"

definition turn_delta ::
  "(assistant_content list \<Rightarrow> str) \<Rightarrow> (str \<Rightarrow> json) \<Rightarrow> str \<Rightarrow> str list \<Rightarrow> str \<Rightarrow> rig_message list \<Rightarrow> str \<Rightarrow>
   turn_tool_record list \<Rightarrow> str option \<Rightarrow> rig_message list" where
  "turn_delta atext parse no_result stored prompt full_history empty_delta_reply records streamed =
     (let anchor = from_anchor prompt full_history;
          d1 = drop_stored_results stored (case anchor of Some l \<Rightarrow> l | None \<Rightarrow> []);
          missing = missing_tool_calls parse d1 records;
          d2 = (if missing = [] then d1
                else (if anchor = None then User [UText prompt] # d1 else d1) @ [Assistant missing]);
          d3 = (if anchor = None \<and> d2 = []
                then [User [UText prompt], Assistant [AText empty_delta_reply]] else d2);
          settled = settled_results records;
          d4 = replace_placeholder_results_with no_result settled
                 (close_unanswered_tool_calls_with settled d3)
      in add_streamed atext streamed d4)"

section \<open>Facts of a settled turn\<close>

type_synonym message_key = "int \<times> int"

record turn_facts =
  tf_session_id :: str
  tf_turn_seq :: int
  tf_submitted_millis :: int
  tf_settled_millis :: int
  tf_model :: str
  tf_agent :: str

record call_fact =
  cf_session_id :: str
  cf_call :: str
  cf_turn_seq :: int
  cf_status :: tool_status
  cf_settled_millis :: int

record settle_record =
  sr_turn :: turn_facts
  sr_keys :: "message_key list"
  sr_calls :: "call_fact list"

record settle_input =
  si_session_id :: str
  si_model :: str
  si_agent :: str
  si_submitted_millis :: int
  si_keys :: "message_key list option"
  si_records :: "turn_tool_record list"

definition new_keys :: "message_key list \<Rightarrow> message_key list option \<Rightarrow> message_key list option" where
  "new_keys saved before = map_option (\<lambda>b. filter (\<lambda>k. k \<notin> set b) saved) before"

text \<open>The three fact tables; each insert replaces the row with the same key.\<close>

record fact_tables =
  ft_turns :: "turn_facts list"
  ft_entries :: "str \<times> message_key \<rightharpoonup> int"
  ft_calls :: "str \<times> str \<rightharpoonup> call_fact"

definition put_turn :: "turn_facts \<Rightarrow> turn_facts list \<Rightarrow> turn_facts list" where
  "put_turn t ts =
     (let same = (\<lambda>u. tf_session_id u = tf_session_id t \<and> tf_turn_seq u = tf_turn_seq t)
      in if list_ex same ts then update_first same (\<lambda>_. t) ts else ts @ [t])"

definition record_settle :: "settle_record \<Rightarrow> fact_tables \<Rightarrow> fact_tables" where
  "record_settle r ft =
     (let t = sr_turn r in
      ft\<lparr>ft_turns := put_turn t (ft_turns ft),
         ft_entries := fold (\<lambda>k m. m((tf_session_id t, k) \<mapsto> tf_turn_seq t)) (sr_keys r) (ft_entries ft),
         ft_calls := fold (\<lambda>c m. m((cf_session_id c, cf_call c) \<mapsto> c)) (sr_calls r) (ft_calls ft)\<rparr>)"

definition session_turns :: "str \<Rightarrow> fact_tables \<Rightarrow> turn_facts list" where
  "session_turns session_id ft = filter (\<lambda>t. tf_session_id t = session_id) (ft_turns ft)"

definition next_turn_seq :: "int list \<Rightarrow> int" where
  "next_turn_seq seqs = (if seqs = [] then 1 else Max (set seqs) + 1)"

definition settle :: "int \<Rightarrow> settle_input \<Rightarrow> fact_tables \<Rightarrow> fact_tables" where
  "settle now input ft =
     (case si_keys input of
        None \<Rightarrow> ft
      | Some keys \<Rightarrow>
          (let turn_seq = next_turn_seq (map tf_turn_seq (session_turns (si_session_id input) ft));
               calls = map (\<lambda>r. \<lparr>cf_session_id = si_session_id input, cf_call = ttr_call_id r,
                                 cf_turn_seq = turn_seq,
                                 cf_status = (case ttr_status r of None \<Rightarrow> StatusCancelled | Some x \<Rightarrow> x),
                                 cf_settled_millis = now\<rparr>) (si_records input);
               turn = \<lparr>tf_session_id = si_session_id input, tf_turn_seq = turn_seq,
                       tf_submitted_millis = si_submitted_millis input, tf_settled_millis = now,
                       tf_model = si_model input, tf_agent = si_agent input\<rparr>
           in record_settle \<lparr>sr_turn = turn, sr_keys = keys, sr_calls = calls\<rparr> ft))"

definition persist_tool_facts ::
  "int \<Rightarrow> str \<Rightarrow> str \<Rightarrow> str \<Rightarrow> message_key list \<Rightarrow> message_key list \<Rightarrow> turn_tool_record list \<Rightarrow>
   fact_tables \<Rightarrow> fact_tables" where
  "persist_tool_facts now session_id model agent saved loaded records ft =
     (if records = [] then ft
      else
        (let keys = new_keys saved (Some loaded);
             submitted = (case keys of Some (k # ks) \<Rightarrow> fst k | _ \<Rightarrow> now)
         in settle now \<lparr>si_session_id = session_id, si_model = model, si_agent = agent,
              si_submitted_millis = submitted, si_keys = keys, si_records = records\<rparr> ft))"

section \<open>Persisting the delta\<close>

text \<open>
  The session's log is its messages, each with its key.  The store is rig's: what it does at each of
  its calls is a parameter, and \<open>fresh\<close> gives the keys of the entries a save adds.
\<close>

record store_outcomes =
  so_opens :: bool
  so_loads :: bool
  so_saves :: bool
  so_reads_back :: bool
  so_facts_open :: bool

record session_store =
  log_messages :: "(message_key \<times> rig_message) list"
  log_facts :: fact_tables
  log_warnings :: "str list"

definition moved_warning :: str where
  "moved_warning = ''Turn stopped: the session log moved mid-turn; this turn''
     @ [CHR 0x27] @ ''s work was not saved''"

text \<open>The parts of the executor and of rig the recovery uses.\<close>

record recovery_env =
  re_text :: "assistant_content list \<Rightarrow> str"
  re_parse :: "str \<Rightarrow> json"
  re_no_result :: str
  re_fresh :: "nat \<Rightarrow> message_key list"
  re_now :: int
  re_model :: str
  re_agent :: str

definition persist_turn_delta ::
  "recovery_env \<Rightarrow> store_outcomes \<Rightarrow> str option \<Rightarrow> str \<Rightarrow> rig_message list \<Rightarrow> nat \<Rightarrow> str \<Rightarrow>
   turn_tool_record list \<Rightarrow> str option \<Rightarrow> session_store \<Rightarrow> session_store" where
  "persist_turn_delta env out session_id prompt full_history pre_turn_message_count empty_delta_reply
     records streamed s =
     (case session_id of
        None \<Rightarrow> s
      | Some sid \<Rightarrow>
          (if \<not> so_opens out \<or> \<not> so_loads out then s
           else if length (log_messages s) \<noteq> pre_turn_message_count
           then s\<lparr>log_warnings := log_warnings s @ [moved_warning]\<rparr>
           else
             (let stored = answered_ids (map snd (log_messages s));
                  delta = turn_delta (re_text env) (re_parse env) (re_no_result env) stored prompt
                            full_history empty_delta_reply records streamed;
                  loaded_keys = map fst (log_messages s);
                  s1 = (if so_saves out
                        then s\<lparr>log_messages := log_messages s @ zip (re_fresh env (length delta)) delta\<rparr>
                        else s);
                  keys = (if so_saves out \<and> so_reads_back out then map fst (log_messages s1) else [])
              in s1\<lparr>log_facts := (if so_facts_open out
                      then persist_tool_facts (re_now env) sid (re_model env) (re_agent env) keys
                             loaded_keys records (log_facts s1)
                      else log_facts s1)\<rparr>)))"

end
