(* ===== verification/Recovery_Facts.thy ===== *)
theory Recovery_Facts
  imports Recovery
begin

text \<open>
  What recovery guarantees of an interrupted turn: the saved delta starts with the prompt, answers
  every call it holds, keeps every call the turn dispatched with the outcome it settled with, and
  holds the streamed answer once; and it is only appended to a log nobody else has moved.
\<close>

section \<open>Calls and results under the repair passes\<close>

definition delta_results :: "rig_message list \<Rightarrow> tool_result list" where
  "delta_results delta = concat (map message_results delta)"

definition delta_calls :: "rig_message list \<Rightarrow> tool_call list" where
  "delta_calls delta = concat (map message_calls delta)"

lemma delta_simps [simp]:
  "delta_results [] = []" "delta_calls [] = []"
  "delta_results (m # ms) = message_results m @ delta_results ms"
  "delta_calls (m # ms) = message_calls m @ delta_calls ms"
  "delta_results (xs @ ys) = delta_results xs @ delta_results ys"
  "delta_calls (xs @ ys) = delta_calls xs @ delta_calls ys"
  by (simp_all add: delta_results_def delta_calls_def)

lemma message_simps [simp]:
  "message_results (User content) = results_in content" "message_calls (User content) = []"
  "message_results (Assistant a) = []" "message_calls (Assistant a) = calls_in a"
  "message_results (System t) = []" "message_calls (System t) = []"
  by (simp_all add: message_results_def message_calls_def)

lemma answered_ids_eq: "answered_ids ms = map tre_call (delta_results ms)"
  by (induction ms) (simp_all add: answered_ids_def)

lemma delta_call_ids_set: "set (delta_call_ids ms) = tca_id ` set (delta_calls ms) \<union> tre_call ` set (delta_results ms)"
  by (induction ms) (auto simp: delta_call_ids_def)

lemma results_in_map [simp]: "results_in (map (\<lambda>x. UToolResult (f x)) xs) = map f xs"
  by (induction xs) simp_all

lemma set_results_in: "r \<in> set (results_in content) \<longleftrightarrow> UToolResult r \<in> set content"
  by (induction content rule: results_in.induct) auto

definition closed_by :: "settled \<Rightarrow> str list \<Rightarrow> rig_message \<Rightarrow> rig_message list" where
  "closed_by results answered m =
     (let unanswered = filter (\<lambda>c. tca_id c \<notin> set answered) (message_calls m) in
      if unanswered = [] then [m]
      else [m, User (map (\<lambda>c. UToolResult (closing_result results c)) unanswered)])"

lemma closed_by_content:
  "delta_calls (concat (map (closed_by results answered) ms)) = delta_calls ms"
  "set (delta_results (concat (map (closed_by results answered) ms))) =
     set (delta_results ms) \<union>
     closing_result results ` {c \<in> set (delta_calls ms). tca_id c \<notin> set answered}"
  by (induction ms) (auto simp: closed_by_def Let_def filter_empty_conv)

lemma close_eq:
  "close_unanswered_tool_calls_with results ms = concat (map (closed_by results (answered_ids ms)) ms)"
  by (simp add: close_unanswered_tool_calls_with_def closed_by_def [abs_def] Let_def)

lemma closing_result_call [simp]: "tre_call (closing_result results c) = tca_id c"
  by (simp add: closing_result_def Let_def split: prod.split)

lemma close_content:
  "delta_calls (close_unanswered_tool_calls_with results ms) = delta_calls ms"
  "set (delta_results (close_unanswered_tool_calls_with results ms)) =
     set (delta_results ms) \<union> closing_result results `
       {c \<in> set (delta_calls ms). tca_id c \<notin> tre_call ` set (delta_results ms)}"
  by (simp_all add: close_eq closed_by_content answered_ids_eq)

lemma close_answers_all:
  "tca_id ` set (delta_calls ms) \<subseteq>
   tre_call ` set (delta_results (close_unanswered_tool_calls_with results ms))"
proof
  fix x assume "x \<in> tca_id ` set (delta_calls ms)"
  then obtain c where c: "c \<in> set (delta_calls ms)" "x = tca_id c" by blast
  show "x \<in> tre_call ` set (delta_results (close_unanswered_tool_calls_with results ms))"
  proof (cases "x \<in> tre_call ` set (delta_results ms)")
    case True
    then show ?thesis unfolding close_content by blast
  next
    case False
    then have "closing_result results c \<in> set (delta_results (close_unanswered_tool_calls_with results ms))"
      unfolding close_content using c by blast
    moreover have "x = tre_call (closing_result results c)" by (simp add: c(2))
    ultimately show ?thesis by blast
  qed
qed

lemma close_head:
  "ms = m # rest \<Longrightarrow> \<exists>rest'. close_unanswered_tool_calls_with results ms = m # rest'"
  by (simp add: close_eq closed_by_def Let_def)

text \<open>The result the replacement pass writes.\<close>

definition replaced_result :: "str \<Rightarrow> settled \<Rightarrow> tool_result \<Rightarrow> tool_result" where
  "replaced_result no_result results r =
     (if is_placeholder no_result r then
        (case find (\<lambda>(i, t, e). i = tre_call r) results of
           Some (i, t, e) \<Rightarrow> r\<lparr>tre_content := [RText t], tre_is_error := e\<rparr> | None \<Rightarrow> r)
      else r)"

lemma replaced_call [simp]: "tre_call (replaced_result no_result results r) = tre_call r"
  by (simp add: replaced_result_def split: option.split)

lemma replace_item_eq:
  "replace_item no_result results (UToolResult r) = UToolResult (replaced_result no_result results r)"
  by (auto simp: replace_item_def replaced_result_def split: option.split)

lemma replace_other [simp]:
  "replace_item no_result results (UText t) = UText t"
  "replace_item no_result results UOther = UOther"
  by (simp_all add: replace_item_def)

lemma results_in_replace:
  "results_in (map (replace_item no_result results) content) =
     map (replaced_result no_result results) (results_in content)"
  by (induction content rule: results_in.induct) (simp_all add: replace_item_eq)

lemma user_text_replace: "user_text (map (replace_item no_result results) content) = user_text content"
  by (induction content rule: user_text.induct)
    (simp_all add: replace_item_eq)

lemma replace_content:
  "delta_calls (replace_placeholder_results_with no_result results ms) = delta_calls ms"
  "delta_results (replace_placeholder_results_with no_result results ms) =
     map (replaced_result no_result results) (delta_results ms)"
  by (induction ms)
    (auto simp: replace_placeholder_results_with_def results_in_replace split: rig_message.splits)

lemma replace_head:
  "ms = m # rest \<Longrightarrow> carries_prompt prompt m \<Longrightarrow>
   \<exists>m' rest'. replace_placeholder_results_with no_result results ms = m' # rest' \<and> carries_prompt prompt m'"
  by (cases m) (simp_all add: replace_placeholder_results_with_def carries_prompt_def user_text_replace)

section \<open>The prompt\<close>

lemma from_anchor_head:
  "from_anchor prompt ms = Some l \<Longrightarrow> \<exists>m rest. l = m # rest \<and> carries_prompt prompt m"
  by (induction ms arbitrary: l) (auto split: option.splits if_splits)

lemma user_text_filter:
  "(\<And>t. P (UText t)) \<Longrightarrow> user_text (filter P content) = user_text content"
  by (induction content rule: user_text.induct) auto

lemma carries_prompt_text: "carries_prompt prompt m \<Longrightarrow> prompt \<noteq> [] \<Longrightarrow> \<exists>c. m = User c \<and> user_text c \<noteq> []"
  by (auto simp: carries_prompt_def suffix_def split: rig_message.splits)

lemma drop_stored_head:
  assumes "carries_prompt prompt m" and "prompt \<noteq> []"
  shows "\<exists>m'. drop_stored_results stored (m # rest) = m' # rest \<and> carries_prompt prompt m'"
proof -
  obtain c where c: "m = User c" "user_text c \<noteq> []" using carries_prompt_text [OF assms] by blast
  let ?k = "filter (\<lambda>item. case item of UToolResult r \<Rightarrow> tre_call r \<notin> set stored | _ \<Rightarrow> True) c"
  have t: "user_text ?k = user_text c" by (rule user_text_filter) simp
  with c(2) have "?k \<noteq> []" by auto
  with c t assms(1) show ?thesis
    by (auto simp: drop_stored_results_def Let_def carries_prompt_def)
qed

section \<open>The delta\<close>

lemma committed_text_snoc:
  "committed_text atext (d @ [Assistant content]) = committed_text atext d @ atext content"
  by (simp add: committed_text_def)

lemma add_streamed_exact:
  assumes "\<And>t. atext [AText t] = t"
  shows "case streamed of None \<Rightarrow> add_streamed atext streamed d0 = d0
     | Some t \<Rightarrow>
         if prefix (committed_text atext d0) t
         then (\<exists>u. t = committed_text atext d0 @ u \<and>
                 add_streamed atext streamed d0 = d0 @ (if u = [] then [] else [Assistant [AText u]]))
              \<and> committed_text atext (add_streamed atext streamed d0) = t
         else add_streamed atext streamed d0 = d0"
proof (cases streamed)
  case (Some t)
  show ?thesis
  proof (cases "prefix (committed_text atext d0) t")
    case True
    then obtain u where u: "t = committed_text atext d0 @ u" by (elim prefixE)
    then have "add_streamed atext streamed d0 = d0 @ (if u = [] then [] else [Assistant [AText u]])"
      by (simp add: Some add_streamed_def)
    with u show ?thesis by (simp add: Some committed_text_snoc assms)
  qed (simp add: Some add_streamed_def)
qed (simp add: add_streamed_def)

text \<open>
  C17. What recovery saves of an interrupted turn: the delta starts with the message that carries the
  prompt; every tool call in it is answered in it; every call the turn dispatched is in it, as a call
  or as a result; no placeholder is left for a call whose real outcome is known.  A streamed answer that
  extends the text the delta holds without it is saved as that text and one message with the rest, so that
  the saved text is exactly the answer; any other streamed answer adds nothing.
\<close>

theorem recovered_delta_sound:
  assumes "prompt \<noteq> []" and atext: "\<And>t. atext [AText t] = t"
    and "d = turn_delta atext parse no_result stored prompt full_history empty_reply records streamed"
  shows "(\<exists>m rest. d = m # rest \<and> carries_prompt prompt m) \<and>
    tca_id ` set (delta_calls d) \<subseteq> tre_call ` set (delta_results d) \<and>
    ttr_call_id ` set records \<subseteq> tca_id ` set (delta_calls d) \<union> tre_call ` set (delta_results d) \<and>
    {r \<in> set (delta_results d). is_placeholder no_result r \<and>
       (case find (\<lambda>(i, t, e). i = tre_call r) (settled_results records) of
          None \<Rightarrow> False | Some (i, t, e) \<Rightarrow> (t, e) \<noteq> (no_result, True))} = {} \<and>
    (let d0 = turn_delta atext parse no_result stored prompt full_history empty_reply records None in
     case streamed of None \<Rightarrow> d = d0
     | Some t \<Rightarrow>
         if prefix (committed_text atext d0) t
         then (\<exists>u. t = committed_text atext d0 @ u \<and> d = d0 @ (if u = [] then [] else [Assistant [AText u]]))
              \<and> committed_text atext d = t
         else d = d0)"
proof -
  define anchor where "anchor = from_anchor prompt full_history"
  define d1 where "d1 = drop_stored_results stored (case anchor of Some l \<Rightarrow> l | None \<Rightarrow> [])"
  define missing where "missing = missing_tool_calls parse d1 records"
  define d2 where "d2 = (if missing = [] then d1
     else (if anchor = None then User [UText prompt] # d1 else d1) @ [Assistant missing])"
  define d3 where "d3 = (if anchor = None \<and> d2 = []
     then [User [UText prompt], Assistant [AText empty_reply]] else d2)"
  define settled where "settled = settled_results records"
  define d4 where "d4 = replace_placeholder_results_with no_result settled
     (close_unanswered_tool_calls_with settled d3)"
  have d: "d = add_streamed atext streamed d4"
    unfolding assms(3) turn_delta_def Let_def d4_def d3_def d2_def missing_def d1_def anchor_def settled_def ..
  have user: "carries_prompt prompt (User [UText prompt])" by (simp add: carries_prompt_def)
  have d1_none: "d1 = []" if "anchor = None"
    using that by (simp add: d1_def drop_stored_results_def)
  have head1: "\<exists>m rest. d1 = m # rest \<and> carries_prompt prompt m" if ne: "anchor \<noteq> None"
  proof -
    from ne obtain l where l: "anchor = Some l" by blast
    from from_anchor_head [OF l [unfolded anchor_def]] obtain m rest where
      "l = m # rest" "carries_prompt prompt m" by blast
    moreover from drop_stored_head [OF this(2) assms(1), of stored rest] obtain m' where
      "drop_stored_results stored (m # rest) = m' # rest" "carries_prompt prompt m'" by blast
    ultimately show ?thesis using l by (simp add: d1_def)
  qed
  have head3: "\<exists>m rest. d3 = m # rest \<and> carries_prompt prompt m"
    using head1 d1_none user by (cases anchor) (auto simp: d3_def d2_def)
  then obtain m rest where m: "d3 = m # rest" "carries_prompt prompt m" by blast
  obtain rest' where c: "close_unanswered_tool_calls_with settled d3 = m # rest'"
    using close_head [OF m(1)] by blast
  have head4: "\<exists>m rest. d4 = m # rest \<and> carries_prompt prompt m"
    unfolding d4_def using replace_head [OF c m(2)] by blast
  have calls4: "delta_calls d4 = delta_calls d3" by (simp add: d4_def replace_content close_content)
  have res4: "delta_results d4 = map (replaced_result no_result settled)
     (delta_results (close_unanswered_tool_calls_with settled d3))"
    by (simp add: d4_def replace_content)
  have ids4: "tre_call ` set (delta_results d4) =
     tre_call ` set (delta_results (close_unanswered_tool_calls_with settled d3))"
    by (simp add: res4 image_image)
  have answered4: "tca_id ` set (delta_calls d4) \<subseteq> tre_call ` set (delta_results d4)"
    unfolding calls4 ids4 by (rule close_answers_all)
  have miss: "tca_id ` set (calls_in missing) =
      {ttr_call_id r |r. r \<in> set records \<and> ttr_call_id r \<notin> set (delta_call_ids d1)}"
  proof -
    have "calls_in (map (\<lambda>r. AToolCall (f r)) xs) = map f xs" for f :: "turn_tool_record \<Rightarrow> tool_call" and xs
      by (induction xs) simp_all
    then show ?thesis by (auto simp: missing_def missing_tool_calls_def image_image)
  qed
  have "set (delta_call_ids d1) \<union> tca_id ` set (calls_in missing) \<subseteq> set (delta_call_ids d3)"
    using d1_none by (cases "missing = []") (auto simp: d3_def d2_def delta_call_ids_set)
  moreover have "ttr_call_id ` set records \<subseteq> set (delta_call_ids d1) \<union> tca_id ` set (calls_in missing)"
    unfolding miss by blast
  ultimately have kept3: "ttr_call_id ` set records \<subseteq> set (delta_call_ids d3)" by blast
  have "tre_call ` set (delta_results d3) \<subseteq> tre_call ` set (delta_results d4)"
    unfolding ids4 close_content by auto
  with kept3 have kept4: "ttr_call_id ` set records \<subseteq>
      tca_id ` set (delta_calls d4) \<union> tre_call ` set (delta_results d4)"
    unfolding delta_call_ids_set calls4 by blast
  have place: "find (\<lambda>(i, t, e). i = tre_call r) settled = None \<or>
      (\<exists>i. find (\<lambda>(i, t, e). i = tre_call r) settled = Some (i, no_result, True))"
    if "r \<in> set (delta_results d4)" "is_placeholder no_result r" for r
    using that
    by (auto simp: res4 replaced_result_def is_placeholder_def split: option.splits if_splits)
  have results: "delta_results d = delta_results d4" "delta_calls d = delta_calls d4"
    and headd: "\<exists>m rest. d = m # rest \<and> carries_prompt prompt m"
    using head4 by (auto simp: d add_streamed_def Let_def split: option.split)
  have d0: "turn_delta atext parse no_result stored prompt full_history empty_reply records None = d4"
    unfolding turn_delta_def Let_def d4_def d3_def d2_def missing_def d1_def anchor_def settled_def
    by (simp add: add_streamed_def)
  have streamed: "let d0 = turn_delta atext parse no_result stored prompt full_history empty_reply records None in
     case streamed of None \<Rightarrow> d = d0
     | Some t \<Rightarrow>
         if prefix (committed_text atext d0) t
         then (\<exists>u. t = committed_text atext d0 @ u \<and> d = d0 @ (if u = [] then [] else [Assistant [AText u]]))
              \<and> committed_text atext d = t
         else d = d0"
    unfolding d0 Let_def d by (rule add_streamed_exact [where atext = atext, OF atext])
  have none_left: "{r \<in> set (delta_results d). is_placeholder no_result r \<and>
       (case find (\<lambda>(i, t, e). i = tre_call r) (settled_results records) of
          None \<Rightarrow> False | Some (i, t, e) \<Rightarrow> (t, e) \<noteq> (no_result, True))} = {}"
    using place unfolding results settled_def by (fastforce split: option.splits)
  show ?thesis
    using headd answered4 kept4 none_left streamed by (simp add: results)
qed

definition join_text :: "assistant_content list \<Rightarrow> str" where
  "join_text content = concat (map (\<lambda>a. case a of AText t \<Rightarrow> t | _ \<Rightarrow> []) content)"

lemma join_text_one: "join_text [AText t] = t"
  by (simp add: join_text_def)

definition nu_record :: turn_tool_record where
  "nu_record = \<lparr>ttr_call_id = ''c1'', ttr_name = ''nu'', ttr_arguments = ''{}'', ttr_result = Some ''out'',
     ttr_success = Some True, ttr_error_kind = None, ttr_status = Some StatusSuccess\<rparr>"

theorem recovered_delta_sound_witness:
  "let d = turn_delta join_text (\<lambda>_. JNull) ''none'' [] ''hi'' [User [UText ''hi'']] ''stopped''
             [nu_record] (Some ''ok'')
   in (\<exists>m rest. d = m # rest \<and> carries_prompt ''hi'' m) \<and>
      tca_id ` set (delta_calls d) \<subseteq> tre_call ` set (delta_results d) \<and>
      ttr_call_id ` set [nu_record] \<subseteq> tca_id ` set (delta_calls d) \<union> tre_call ` set (delta_results d) \<and>
      committed_text join_text d = ''ok''"
proof -
  let ?d = "turn_delta join_text (\<lambda>_. JNull) ''none'' [] ''hi'' [User [UText ''hi'']] ''stopped'' [nu_record]"
  have none: "committed_text join_text (?d None) = []"
    by code_simp
  have start: "''hi'' \<noteq> []" by simp
  note sound = recovered_delta_sound [where prompt = "''hi''" and streamed = "Some ''ok''" and d = "?d (Some ''ok'')",
      OF start join_text_one refl]
  have committed: "committed_text join_text (?d (Some ''ok'')) = ''ok''"
    using sound [THEN conjunct2, THEN conjunct2, THEN conjunct2, THEN conjunct2]
    unfolding Let_def none option.case(2) if_P [OF Nil_prefix] by (rule conjunct2)
  show ?thesis
    unfolding Let_def
    by (rule conjI [OF sound [THEN conjunct1] conjI [OF sound [THEN conjunct2, THEN conjunct1]
          conjI [OF sound [THEN conjunct2, THEN conjunct2, THEN conjunct1] committed]]])
qed

section \<open>What a settle writes\<close>

lemma fold_entries: "fold (\<lambda>k m. m((s, k) \<mapsto> q)) keys e (s', k') =
    (if s' = s \<and> k' \<in> set keys then Some q else e (s', k'))"
  by (induction keys arbitrary: e) auto

lemma put_turn_fresh:
  assumes "\<forall>u \<in> set ts. tf_session_id u = tf_session_id t \<longrightarrow> tf_turn_seq u \<noteq> tf_turn_seq t"
  shows "put_turn t ts = ts @ [t]"
  using assms by (auto simp: put_turn_def Let_def list_ex_iff)

lemma next_turn_seq_fresh: "q \<in> set seqs \<Longrightarrow> q < next_turn_seq seqs"
  by (auto simp: next_turn_seq_def intro: zle_add1_eq_le [THEN iffD2])

lemma settle_adds_turn:
  assumes "si_keys input = Some keys"
  shows "\<exists>t. ft_turns (settle now input ft) = ft_turns ft @ [t] \<and> tf_session_id t = si_session_id input \<and>
      tf_turn_seq t = next_turn_seq (map tf_turn_seq (session_turns (si_session_id input) ft))"
proof -
  let ?q = "next_turn_seq (map tf_turn_seq (session_turns (si_session_id input) ft))"
  have "tf_turn_seq u \<noteq> ?q" if "u \<in> set (ft_turns ft)" "tf_session_id u = si_session_id input" for u
    by (rule less_imp_neq, rule next_turn_seq_fresh) (use that in \<open>auto simp: session_turns_def\<close>)
  then have "ft_turns (settle now input ft) = ft_turns ft @
      [\<lparr>tf_session_id = si_session_id input, tf_turn_seq = ?q,
        tf_submitted_millis = si_submitted_millis input, tf_settled_millis = now,
        tf_model = si_model input, tf_agent = si_agent input\<rparr>]"
    using assms by (auto simp: settle_def record_settle_def Let_def intro!: put_turn_fresh)
  then show ?thesis by (intro exI conjI) (assumption | simp)+
qed

lemma settle_turns:
  "settle now input ft = ft \<or>
   (\<exists>t. ft_turns (settle now input ft) = ft_turns ft @ [t] \<and> tf_session_id t = si_session_id input \<and>
      tf_turn_seq t = next_turn_seq (map tf_turn_seq (session_turns (si_session_id input) ft)))"
  by (cases "si_keys input") (simp add: settle_def, blast dest: settle_adds_turn)

lemma settle_entries:
  "ft_entries (settle now input ft) (s, k) =
     (if s = si_session_id input \<and> k \<in> set (case si_keys input of None \<Rightarrow> [] | Some keys \<Rightarrow> keys)
      then Some (next_turn_seq (map tf_turn_seq (session_turns (si_session_id input) ft)))
      else ft_entries ft (s, k))"
  by (simp add: settle_def record_settle_def Let_def fold_entries split: option.split)

lemma facts_cases:
  "persist_tool_facts now sid model agent saved loaded records ft = ft \<or>
   (\<exists>input. persist_tool_facts now sid model agent saved loaded records ft = settle now input ft \<and>
      si_session_id input = sid \<and> si_records input = records \<and>
      si_keys input = Some (filter (\<lambda>k. k \<notin> set loaded) saved))"
proof (cases "records = []")
  case False
  then show ?thesis
    unfolding persist_tool_facts_def Let_def new_keys_def
    by (auto intro!: exI [where x = "\<lparr>si_session_id = sid, si_model = model, si_agent = agent,
          si_submitted_millis = (case filter (\<lambda>k. k \<notin> set loaded) saved of k # ks \<Rightarrow> fst k | _ \<Rightarrow> now),
          si_keys = Some (filter (\<lambda>k. k \<notin> set loaded) saved), si_records = records\<rparr>"])
qed (simp add: persist_tool_facts_def)

lemma facts_turns:
  "\<exists>added. ft_turns (persist_tool_facts now sid model agent saved loaded records ft) = ft_turns ft @ added \<and>
     (\<forall>t \<in> set added. tf_session_id t = sid \<and>
        (\<forall>u \<in> set (session_turns sid ft). tf_turn_seq u < tf_turn_seq t))"
proof -
  consider (same) "persist_tool_facts now sid model agent saved loaded records ft = ft"
    | (settled) input where
      "persist_tool_facts now sid model agent saved loaded records ft = settle now input ft"
      "si_session_id input = sid"
    using facts_cases [of now sid model agent saved loaded records ft] by blast
  then show ?thesis
  proof cases
    case same
    then show ?thesis by simp
  next
    case settled
    then show ?thesis
      using settle_turns [of now input ft] by (auto intro!: next_turn_seq_fresh)
  qed
qed

lemma facts_entries:
  assumes "s = sid \<longrightarrow> k \<in> set loaded"
  shows "ft_entries (persist_tool_facts now sid model agent saved loaded records ft) (s, k) =
     ft_entries ft (s, k)"
  using facts_cases [of now sid model agent saved loaded records ft] assms
  by (auto simp: settle_entries)


section \<open>Persisting an interrupted turn\<close>

text \<open>
  C18. Recovery never rewrites a session: it only appends to the log and to the turn table, it leaves
  the log and the facts untouched when the log moved since the turn started, it keeps the turn that
  every entry of the log is attributed to, it does not touch another session's attributions, and a
  turn row it adds is the session's with an ordinal above every one it had.
\<close>

theorem recovery_only_appends:
  assumes "s' = persist_turn_delta env out (Some sid) prompt full_history count reply records streamed s"
  shows "prefix (log_messages s) (log_messages s') \<and>
    (length (log_messages s) \<noteq> count \<longrightarrow>
       log_messages s' = log_messages s \<and> log_facts s' = log_facts s) \<and>
    (\<forall>sid' k. (sid' = sid \<longrightarrow> k \<in> set (map fst (log_messages s))) \<longrightarrow>
       ft_entries (log_facts s') (sid', k) = ft_entries (log_facts s) (sid', k)) \<and>
    (\<exists>added. ft_turns (log_facts s') = ft_turns (log_facts s) @ added \<and>
       (\<forall>t \<in> set added. tf_session_id t = sid \<and>
          (\<forall>u \<in> set (session_turns sid (log_facts s)). tf_turn_seq u < tf_turn_seq t)))"
proof -
  have facts: "log_facts s' = log_facts s \<or> (\<exists>saved. log_facts s' =
      persist_tool_facts (re_now env) sid (re_model env) (re_agent env) saved
        (map fst (log_messages s)) records (log_facts s))"
    unfolding assms persist_turn_delta_def Let_def by auto
  have log: "prefix (log_messages s) (log_messages s') \<and>
    (length (log_messages s) \<noteq> count \<longrightarrow>
       log_messages s' = log_messages s \<and> log_facts s' = log_facts s)"
    unfolding assms persist_turn_delta_def Let_def by auto
  from facts show ?thesis
  proof
    assume "log_facts s' = log_facts s"
    with log show ?thesis by simp
  next
    assume "\<exists>saved. log_facts s' =
      persist_tool_facts (re_now env) sid (re_model env) (re_agent env) saved
        (map fst (log_messages s)) records (log_facts s)"
    then obtain saved where f: "log_facts s' =
      persist_tool_facts (re_now env) sid (re_model env) (re_agent env) saved
        (map fst (log_messages s)) records (log_facts s)" by blast
    have "ft_entries (log_facts s') (sid', k) = ft_entries (log_facts s) (sid', k)"
      if "sid' = sid \<longrightarrow> k \<in> set (map fst (log_messages s))" for sid' k
      unfolding f by (rule facts_entries) (rule that)
    with log facts_turns show ?thesis unfolding f by blast
  qed
qed

definition sample_env :: recovery_env where
  "sample_env = \<lparr>re_text = join_text, re_parse = (\<lambda>_. JNull), re_no_result = ''none'',
     re_fresh = (\<lambda>n. map (\<lambda>i. (100, int i)) [0..<n]), re_now = 100, re_model = ''m'', re_agent = []\<rparr>"

definition sample_store :: session_store where
  "sample_store = \<lparr>log_messages = [((1, 1), User [UText ''earlier''])],
     log_facts = \<lparr>ft_turns = [], ft_entries = (\<lambda>_. None), ft_calls = (\<lambda>_. None)\<rparr>, log_warnings = []\<rparr>"

definition all_succeed :: store_outcomes where
  "all_succeed = \<lparr>so_opens = True, so_loads = True, so_saves = True, so_reads_back = True,
     so_facts_open = True\<rparr>"

theorem recovery_only_appends_witness:
  "prefix (log_messages sample_store) (log_messages
     (persist_turn_delta sample_env all_succeed (Some ''s'') ''hi'' [] 1 ''stopped'' [nu_record] None
       sample_store))"
  by (rule recovery_only_appends [OF refl, THEN conjunct1])

lemma fold_calls:
  fixes cs :: "call_fact list"
  assumes "distinct (map cf_call cs)" "\<forall>c \<in> set cs. cf_session_id c = sid" "c \<in> set cs"
  shows "fold (\<lambda>c m. m((cf_session_id c, cf_call c) \<mapsto> c)) cs m (sid, cf_call c) = Some c"
  using assms
proof (induction cs arbitrary: m)
  case (Cons a cs)
  have keep: "fold (\<lambda>c m. m((cf_session_id c, cf_call c) \<mapsto> c)) xs m' (sid, i) = m' (sid, i)"
    if "i \<notin> cf_call ` set xs" for xs :: "call_fact list" and m' i
    using that by (induction xs arbitrary: m') auto
  show ?case
  proof (cases "c = a")
    case True
    have s: "cf_session_id a = sid" "cf_call a \<notin> cf_call ` set cs" using Cons.prems by auto
    show ?thesis
      unfolding True fold_Cons o_apply
      using keep [OF s(2), of "m((cf_session_id a, cf_call a) \<mapsto> a)"] s(1) by (simp only: fun_upd_same)
  next
    case False
    with Cons show ?thesis by auto
  qed
qed simp

text \<open>
  A turn whose messages could not be saved, or could not be read back, still settles: its row is
  added to the turn table and every call of it gets a call row with its status, while no entry is
  attributed to it.
\<close>

theorem unsaved_turn_still_settles:
  assumes "so_opens out" "so_loads out" "so_facts_open out" "\<not> so_saves out \<or> \<not> so_reads_back out"
    and "records \<noteq> []" "distinct (map ttr_call_id records)"
    and "s' = persist_turn_delta env out (Some sid) prompt full_history (length (log_messages s)) reply
           records streamed s"
  shows "(\<exists>t. ft_turns (log_facts s') = ft_turns (log_facts s) @ [t] \<and> tf_session_id t = sid) \<and>
    ft_entries (log_facts s') = ft_entries (log_facts s) \<and>
    (\<forall>r \<in> set records. \<exists>c. ft_calls (log_facts s') (sid, ttr_call_id r) = Some c \<and>
       cf_status c = (case ttr_status r of None \<Rightarrow> StatusCancelled | Some x \<Rightarrow> x))"
proof -
  let ?ft = "log_facts s"
  let ?q = "next_turn_seq (map tf_turn_seq (session_turns sid ?ft))"
  let ?input = "\<lparr>si_session_id = sid, si_model = re_model env, si_agent = re_agent env,
     si_submitted_millis = re_now env, si_keys = Some [], si_records = records\<rparr>"
  let ?calls = "map (\<lambda>r. \<lparr>cf_session_id = sid, cf_call = ttr_call_id r, cf_turn_seq = ?q,
      cf_status = (case ttr_status r of None \<Rightarrow> StatusCancelled | Some x \<Rightarrow> x),
      cf_settled_millis = re_now env\<rparr>) records"
  have f: "log_facts s' = settle (re_now env) ?input ?ft"
    using assms by (auto simp: persist_turn_delta_def persist_tool_facts_def new_keys_def Let_def)
  have calls: "ft_calls (log_facts s') =
      fold (\<lambda>c m. m((cf_session_id c, cf_call c) \<mapsto> c)) ?calls (ft_calls ?ft)"
    unfolding f by (simp add: settle_def record_settle_def Let_def)
  have entries: "ft_entries (log_facts s') = ft_entries ?ft"
    unfolding f by (simp add: settle_def record_settle_def Let_def)
  have turns: "\<exists>t. ft_turns (log_facts s') = ft_turns ?ft @ [t] \<and> tf_session_id t = sid"
    unfolding f using settle_adds_turn [of ?input "[]"] by auto
  have rows: "\<exists>c. ft_calls (log_facts s') (sid, ttr_call_id r) = Some c \<and>
       cf_status c = (case ttr_status r of None \<Rightarrow> StatusCancelled | Some x \<Rightarrow> x)"
    if "r \<in> set records" for r
  proof -
    let ?c = "\<lparr>cf_session_id = sid, cf_call = ttr_call_id r, cf_turn_seq = ?q,
      cf_status = (case ttr_status r of None \<Rightarrow> StatusCancelled | Some x \<Rightarrow> x),
      cf_settled_millis = re_now env\<rparr>"
    have "fold (\<lambda>c m. m((cf_session_id c, cf_call c) \<mapsto> c)) ?calls (ft_calls ?ft) (sid, cf_call ?c) = Some ?c"
      by (rule fold_calls) (use that assms(6) in \<open>auto simp: o_def\<close>)
    then show ?thesis unfolding calls by (intro exI [where x = ?c]) simp
  qed
  show ?thesis using turns entries rows by blast
qed

theorem unsaved_turn_still_settles_witness:
  "\<exists>t. ft_turns (log_facts (persist_turn_delta sample_env (all_succeed\<lparr>so_saves := False\<rparr>) (Some ''s'')
     ''hi'' [] (length (log_messages sample_store)) ''stopped'' [nu_record] None sample_store)) =
     ft_turns (log_facts sample_store) @ [t] \<and> tf_session_id t = ''s''"
  by (rule unsaved_turn_still_settles [THEN conjunct1, OF _ _ _ _ _ _ refl])
    (simp_all add: all_succeed_def)

end
