(* ===== verification/Circuit_Breaker.thy ===== *)
theory Circuit_Breaker
  imports Prelude
begin

text \<open>
  The MCP side of the hook chain: the registry of exposed tools
  (\<open>crates/agnt-core/src/tools/handler/types.rs\<close>), the breaker that counts transport failures per
  server (\<open>tools/mcp/circuit_breaker.rs\<close>) and the guard that classifies results and disables a
  server (\<open>hook/circuit_breaker_guard.rs\<close>).  The breaker is proved exact on every history of results
  and toggles, and a registration is proved atomic.
\<close>

section \<open>The registry\<close>

record mcp_tool =
  mt_name :: str
  mt_raw_name :: str
  mt_server :: str

record mcp_registry =
  mr_names :: "str set"
  mr_raw_name_by_exposed_name :: "str \<rightharpoonup> str"
  mr_server_by_exposed_name :: "str \<rightharpoonup> str"
  mr_enabled_servers :: "str set"

definition empty_registry :: mcp_registry where
  "empty_registry = \<lparr>mr_names = {}, mr_raw_name_by_exposed_name = Map.empty,
     mr_server_by_exposed_name = Map.empty, mr_enabled_servers = {}\<rparr>"

definition quote1 :: "str \<Rightarrow> str" where
  "quote1 s = [CHR 0x27] @ s @ [CHR 0x27]"

definition add_tool :: "mcp_tool \<Rightarrow> mcp_registry \<Rightarrow> mcp_registry" where
  "add_tool t r =
     r\<lparr>mr_names := insert (mt_name t) (mr_names r),
       mr_raw_name_by_exposed_name := (mr_raw_name_by_exposed_name r)(mt_name t \<mapsto> mt_raw_name t),
       mr_server_by_exposed_name := (mr_server_by_exposed_name r)(mt_name t \<mapsto> mt_server t),
       mr_enabled_servers := insert (mt_server t) (mr_enabled_servers r)\<rparr>"

fun from_tools_loop :: "mcp_tool list \<Rightarrow> mcp_registry \<Rightarrow> str + mcp_registry" where
  "from_tools_loop [] r = Inr r"
| "from_tools_loop (t # ts) r =
     (if mt_name t \<in> mr_names r
      then Inl (''duplicate exposed MCP tool name '' @ quote1 (mt_name t) @ '' while building MCP registry'')
      else from_tools_loop ts (add_tool t r))"

definition from_tools :: "mcp_tool list \<Rightarrow> str + mcp_registry" where
  "from_tools tools = from_tools_loop tools empty_registry"

text \<open>
  \<open>register_tools\<close>: every tool is checked against the tools seen in the same call and against the
  registry before anything is written.  A pending tool carries whether its mapping is new.
\<close>

definition raw_conflict :: "str \<Rightarrow> str \<Rightarrow> str \<Rightarrow> str" where
  "raw_conflict exposed existing new =
     ''conflicting raw MCP tool mapping for '' @ quote1 exposed @ '': existing='' @ quote1 existing
     @ '' new='' @ quote1 new"

definition owner_conflict :: "str \<Rightarrow> str \<Rightarrow> str \<Rightarrow> str" where
  "owner_conflict exposed existing new =
     ''conflicting MCP tool owner for '' @ quote1 exposed @ '': existing='' @ quote1 existing
     @ '' new='' @ quote1 new"

definition check_tool ::
  "mcp_registry \<Rightarrow> (str \<rightharpoonup> str \<times> str) \<Rightarrow> mcp_tool \<Rightarrow> str option" where
  "check_tool r seen t =
     (let n = mt_name t; raw = mt_raw_name t; server = mt_server t;
          with_registry =
            (case mr_raw_name_by_exposed_name r n of
               None \<Rightarrow> None
             | Some existing_raw \<Rightarrow>
                 (if existing_raw \<noteq> raw then Some (raw_conflict n existing_raw raw)
                  else case mr_server_by_exposed_name r n of
                    None \<Rightarrow> None
                  | Some existing \<Rightarrow>
                      (if existing \<noteq> server then Some (owner_conflict n existing server) else None)))
      in case seen n of
           None \<Rightarrow> with_registry
         | Some (seen_raw, seen_server) \<Rightarrow>
             (if seen_raw \<noteq> raw then Some (raw_conflict n seen_raw raw)
              else if seen_server \<noteq> server then Some (owner_conflict n seen_server server)
              else with_registry))"

fun pending_tools ::
  "mcp_registry \<Rightarrow> mcp_tool list \<Rightarrow> (str \<rightharpoonup> str \<times> str) \<Rightarrow> str set \<Rightarrow> str + (mcp_tool \<times> bool) list" where
  "pending_tools r [] seen new = Inr []"
| "pending_tools r (t # ts) seen new =
     (let n = mt_name t;
          is_new = (mr_raw_name_by_exposed_name r n = None \<and> n \<notin> new);
          new' = (if mr_raw_name_by_exposed_name r n = None then insert n new else new)
      in case check_tool r seen t of
           Some e \<Rightarrow> Inl e
         | None \<Rightarrow>
             (let seen' = (if seen n = None then seen(n \<mapsto> (mt_raw_name t, mt_server t)) else seen)
              in case pending_tools r ts seen' new' of
                   Inl e \<Rightarrow> Inl e
                 | Inr ps \<Rightarrow> Inr ((t, is_new) # ps)))"

definition apply_pending :: "mcp_tool \<times> bool \<Rightarrow> mcp_registry \<Rightarrow> mcp_registry" where
  "apply_pending p r =
     (if snd p then add_tool (fst p) r
      else r\<lparr>mr_enabled_servers := insert (mt_server (fst p)) (mr_enabled_servers r)\<rparr>)"

definition register_tools :: "mcp_tool list \<Rightarrow> mcp_registry \<Rightarrow> (str + unit) \<times> mcp_registry" where
  "register_tools tools r =
     (case pending_tools r tools Map.empty {} of
        Inl e \<Rightarrow> (Inl e, r)
      | Inr ps \<Rightarrow> (Inr (), fold apply_pending ps r))"

definition server_name_for :: "mcp_registry \<Rightarrow> str \<Rightarrow> str option" where
  "server_name_for r n = mr_server_by_exposed_name r n"

definition raw_name_for :: "mcp_registry \<Rightarrow> str \<Rightarrow> str option" where
  "raw_name_for r n = mr_raw_name_by_exposed_name r n"

definition is_registered :: "mcp_registry \<Rightarrow> str \<Rightarrow> bool" where
  "is_registered r n \<longleftrightarrow> n \<in> mr_names r"

definition is_server_enabled :: "mcp_registry \<Rightarrow> str \<Rightarrow> bool" where
  "is_server_enabled r server \<longleftrightarrow> server \<in> mr_enabled_servers r"

definition is_tool_enabled :: "mcp_registry \<Rightarrow> str \<Rightarrow> bool" where
  "is_tool_enabled r n =
     (case mr_server_by_exposed_name r n of None \<Rightarrow> False | Some s \<Rightarrow> s \<in> mr_enabled_servers r)"

definition registry_contains :: "mcp_registry \<Rightarrow> str \<Rightarrow> bool" where
  "registry_contains r n \<longleftrightarrow> n \<in> mr_names r \<and> is_tool_enabled r n"

definition set_server_enabled :: "str \<Rightarrow> bool \<Rightarrow> mcp_registry \<Rightarrow> mcp_registry" where
  "set_server_enabled server enabled r =
     r\<lparr>mr_enabled_servers := (if enabled then insert server (mr_enabled_servers r)
                                else mr_enabled_servers r - {server})\<rparr>"

section \<open>The breaker\<close>

record breaker =
  cb_failure_counts :: "str \<rightharpoonup> nat"
  cb_threshold :: nat

definition default_threshold :: nat where "default_threshold = 10"

definition breaker_new :: "nat \<Rightarrow> breaker" where
  "breaker_new threshold =
     \<lparr>cb_failure_counts = Map.empty,
      cb_threshold = (if threshold = 0 then default_threshold else threshold)\<rparr>"

definition record_failure :: "str \<Rightarrow> breaker \<Rightarrow> bool \<times> breaker" where
  "record_failure server b =
     (let count = (case cb_failure_counts b server of None \<Rightarrow> 0 | Some n \<Rightarrow> n) + 1
      in (cb_threshold b \<le> count, b\<lparr>cb_failure_counts := (cb_failure_counts b)(server \<mapsto> count)\<rparr>))"

definition record_success :: "str \<Rightarrow> breaker \<Rightarrow> breaker" where
  "record_success server b = b\<lparr>cb_failure_counts := (cb_failure_counts b)(server := None)\<rparr>"

section \<open>The guard\<close>

text \<open>
  What the hooks read of a tool result: rig's disposition, the error's kind (its name and whether it
  is rig's \<open>Cancelled\<close>), its HTTP status and the chain of its sources.
\<close>

datatype error_source = TransportSend | TransportClosed | UnexpectedResponse | OtherSource

record tool_error =
  ter_kind :: str
  ter_is_cancelled :: bool
  ter_http_status :: "nat option"
  ter_sources :: "error_source list"

record raw_result =
  rr_success :: bool
  rr_skipped :: bool
  rr_error :: "tool_error option"
  rr_text :: str

definition source_is_transport :: "tool_error \<Rightarrow> bool" where
  "source_is_transport e =
     list_ex (\<lambda>s. s \<in> {TransportSend, TransportClosed, UnexpectedResponse}) (ter_sources e)"

definition is_auth_error :: "tool_error \<Rightarrow> bool" where
  "is_auth_error e \<longleftrightarrow> ter_http_status e \<in> {Some 401, Some 403}"

definition skip_disabled :: "str \<Rightarrow> str" where
  "skip_disabled server =
     ''MCP server '' @ quote1 server @ '' is disabled (circuit breaker tripped). Re-enable via MCP panel.''"

definition check_server_enabled :: "str \<Rightarrow> mcp_registry \<Rightarrow> str option" where
  "check_server_enabled tool_name r =
     (case server_name_for r tool_name of
        Some server \<Rightarrow> (if is_server_enabled r server then None else Some (skip_disabled server))
      | None \<Rightarrow> None)"

definition disconnected_warning :: "str \<Rightarrow> str" where
  "disconnected_warning server =
     ''MCP server '' @ quote1 server @ '' disconnected '' @ em_dash
     @ '' tools disabled. Re-enable via MCP panel.''"

text \<open>The guard's state is the breaker, the registry it disables servers in and the warnings sent.\<close>

record guard =
  gd_breaker :: breaker
  gd_registry :: mcp_registry
  gd_warnings :: "str list"

definition guard_record_result :: "str \<Rightarrow> raw_result \<Rightarrow> guard \<Rightarrow> guard" where
  "guard_record_result tool_name res g =
     (case server_name_for (gd_registry g) tool_name of
        None \<Rightarrow> g
      | Some server \<Rightarrow>
          (if (case rr_error res of None \<Rightarrow> False | Some e \<Rightarrow> is_auth_error e) then g
           else if (case rr_error res of None \<Rightarrow> False | Some e \<Rightarrow> source_is_transport e) then
             (let (tripped, b) = record_failure server (gd_breaker g);
                  g1 = g\<lparr>gd_breaker := b\<rparr>
              in if tripped
                 then g1\<lparr>gd_registry := set_server_enabled server False (gd_registry g1),
                         gd_warnings := gd_warnings g1 @ [disconnected_warning server]\<rparr>
                 else g1)
           else if rr_success res then g\<lparr>gd_breaker := record_success server (gd_breaker g)\<rparr>
           else g))"

section \<open>The breaker on a history\<close>

text \<open>What a history holds: results of tools and the user's toggles of a server.\<close>

datatype guard_input = Result str raw_result | Toggle str bool

definition guard_step :: "guard_input \<Rightarrow> guard \<Rightarrow> guard" where
  "guard_step i g =
     (case i of
        Result tool res \<Rightarrow> guard_record_result tool res g
      | Toggle server enabled \<Rightarrow> g\<lparr>gd_registry := set_server_enabled server enabled (gd_registry g)\<rparr>)"

definition guard_run :: "guard_input list \<Rightarrow> guard \<Rightarrow> guard" where
  "guard_run is g = fold guard_step is g"

datatype verdict = Failure | Success | Neither

text \<open>What a result says about the connection of a server.\<close>

definition verdict_of :: "mcp_registry \<Rightarrow> str \<Rightarrow> guard_input \<Rightarrow> verdict" where
  "verdict_of r server i =
     (case i of
        Toggle s b \<Rightarrow> Neither
      | Result tool res \<Rightarrow>
          (if server_name_for r tool \<noteq> Some server then Neither
           else case rr_error res of
             Some e \<Rightarrow>
               (if is_auth_error e then Neither
                else if source_is_transport e then Failure
                else if rr_success res then Success else Neither)
           | None \<Rightarrow> (if rr_success res then Success else Neither)))"

text \<open>The failures since the last success.\<close>

definition consecutive :: "verdict list \<Rightarrow> nat" where
  "consecutive vs = length (filter (\<lambda>v. v = Failure) (takeWhile (\<lambda>v. v \<noteq> Success) (rev vs)))"

lemma consecutive_simps [simp]:
  "consecutive [] = 0"
  "consecutive (vs @ [Failure]) = Suc (consecutive vs)"
  "consecutive (vs @ [Success]) = 0"
  "consecutive (vs @ [Neither]) = consecutive vs"
  by (simp_all add: consecutive_def)

text \<open>When a server is up: a toggle decides, a failure at the threshold takes it down.\<close>

fun server_up :: "nat \<Rightarrow> mcp_registry \<Rightarrow> str \<Rightarrow> guard_input list \<Rightarrow> bool" where
  "server_up threshold r server [] = (server \<in> mr_enabled_servers r)"
| "server_up threshold r server (i # rest) =
     (case i of
        Toggle s b \<Rightarrow> if s = server then b else server_up threshold r server rest
      | Result tool res \<Rightarrow>
          (if verdict_of r server i = Failure \<and>
              threshold \<le> consecutive (map (verdict_of r server) (rev (i # rest)))
           then False else server_up threshold r server rest))"

lemma set_server_enabled_names [simp]:
  "mr_names (set_server_enabled s b r) = mr_names r"
  "mr_raw_name_by_exposed_name (set_server_enabled s b r) = mr_raw_name_by_exposed_name r"
  "mr_server_by_exposed_name (set_server_enabled s b r) = mr_server_by_exposed_name r"
  "server_name_for (set_server_enabled s b r) = server_name_for r"
  by (simp_all add: set_server_enabled_def server_name_for_def [abs_def])

lemma guard_step_names [simp]:
  "server_name_for (gd_registry (guard_step i g)) = server_name_for (gd_registry g)"
  "cb_threshold (gd_breaker (guard_step i g)) = cb_threshold (gd_breaker g)"
  by (auto simp: guard_step_def guard_record_result_def record_failure_def record_success_def Let_def
      split: guard_input.split option.split)

definition failures :: "breaker \<Rightarrow> str \<Rightarrow> nat" where
  "failures b server = (case cb_failure_counts b server of None \<Rightarrow> 0 | Some n \<Rightarrow> n)"

lemma guard_step_failures:
  "failures (gd_breaker (guard_step i g)) server =
     (case verdict_of (gd_registry g) server i of
        Failure \<Rightarrow> Suc (failures (gd_breaker g) server)
      | Success \<Rightarrow> 0
      | Neither \<Rightarrow> failures (gd_breaker g) server)"
  by (auto simp: guard_step_def guard_record_result_def record_failure_def record_success_def Let_def
      verdict_of_def failures_def split: guard_input.split option.split)

lemma guard_step_enabled:
  "server \<in> mr_enabled_servers (gd_registry (guard_step i g)) \<longleftrightarrow>
     (case i of
        Toggle s b \<Rightarrow> if s = server then b else server \<in> mr_enabled_servers (gd_registry g)
      | Result tool res \<Rightarrow>
          \<not> (verdict_of (gd_registry g) server i = Failure \<and>
              cb_threshold (gd_breaker g) \<le> Suc (failures (gd_breaker g) server)) \<and>
          server \<in> mr_enabled_servers (gd_registry g))"
  by (auto simp: guard_step_def guard_record_result_def record_failure_def set_server_enabled_def
      Let_def verdict_of_def failures_def split: guard_input.split option.split)

lemma guard_run_snoc: "guard_run (is @ [i]) g = guard_step i (guard_run is g)"
  by (simp add: guard_run_def)

lemma guard_run_names [simp]:
  "server_name_for (gd_registry (guard_run is g)) = server_name_for (gd_registry g)"
  "cb_threshold (gd_breaker (guard_run is g)) = cb_threshold (gd_breaker g)"
  by (induction "is" rule: rev_induct) (simp_all add: guard_run_snoc, simp_all add: guard_run_def)

lemma verdict_of_cong:
  "server_name_for r = server_name_for r' \<Longrightarrow> verdict_of r server i = verdict_of r' server i"
  by (simp only: verdict_of_def)

lemma failures_exact:
  assumes "failures (gd_breaker g) server = 0"
  shows "failures (gd_breaker (guard_run is g)) server =
    consecutive (map (verdict_of (gd_registry g) server) is)"
proof (induction "is" rule: rev_induct)
  case Nil
  with assms show ?case by (simp add: guard_run_def)
next
  case (snoc i "is")
  have "verdict_of (gd_registry (guard_run is g)) server i = verdict_of (gd_registry g) server i"
    by (rule verdict_of_cong) simp
  then show ?case
    by (cases "verdict_of (gd_registry g) server i")
      (simp_all add: guard_run_snoc guard_step_failures snoc.IH)
qed

text \<open>
  C19. The breaker is exact on every history of results and toggles: the count of a server is the
  number of its transport failures since its last success, whatever other servers and neutral
  results do, and the tools of a server are skipped exactly from the result that reaches the threshold,
  or a toggle off, until the next toggle on.
\<close>

theorem breaker_exact:
  assumes "gd_breaker g = breaker_new threshold"
  shows "failures (gd_breaker (guard_run is g)) server =
      consecutive (map (verdict_of (gd_registry g) server) is) \<and>
    (\<forall>tool. server_name_for (gd_registry g) tool = Some server \<longrightarrow>
       (check_server_enabled tool (gd_registry (guard_run is g)) = None \<longleftrightarrow>
        server_up (if threshold = 0 then 10 else threshold) (gd_registry g) server (rev is)))"
proof -
  let ?r = "gd_registry g" and ?k = "if threshold = 0 then 10 else threshold"
  have z: "failures (gd_breaker g) server = 0"
    by (simp add: assms failures_def breaker_new_def)
  note count = failures_exact [OF z]
  have k: "cb_threshold (gd_breaker g) = ?k"
    by (simp add: assms breaker_new_def default_threshold_def)
  have up: "server \<in> mr_enabled_servers (gd_registry (guard_run is g)) \<longleftrightarrow> server_up ?k ?r server (rev is)"
  proof (induction "is" rule: rev_induct)
    case Nil
    show ?case by (simp add: guard_run_def)
  next
    case (snoc i "is")
    have v: "verdict_of (gd_registry (guard_run is g)) server i = verdict_of ?r server i"
      by (rule verdict_of_cong) simp
    show ?case
      unfolding guard_run_snoc guard_step_enabled v guard_run_names k count
      using snoc.IH
      by (cases i; cases "verdict_of ?r server i") (simp_all add: snoc.IH)
  qed
  show ?thesis
    using count up by (simp add: check_server_enabled_def is_server_enabled_def)
qed

definition search_tool :: mcp_tool where
  "search_tool = \<lparr>mt_name = ''web__search'', mt_raw_name = ''search'', mt_server = ''web''\<rparr>"

definition lost_connection :: raw_result where
  "lost_connection = \<lparr>rr_success = False, rr_skipped = False,
     rr_error = Some \<lparr>ter_kind = ''other'', ter_is_cancelled = False, ter_http_status = None, ter_sources = [TransportClosed]\<rparr>,
     rr_text = []\<rparr>"

definition search_guard :: guard where
  "search_guard = \<lparr>gd_breaker = breaker_new 2, gd_registry = add_tool search_tool empty_registry,
     gd_warnings = []\<rparr>"

text \<open>
  Two failures take the server down; enabling it again does not reset the count, so one more failure
  takes it down once more.
\<close>

theorem breaker_exact_witness:
  "let fail = Result ''web__search'' lost_connection; on = Toggle ''web'' True;
       up = (\<lambda>is. check_server_enabled ''web__search'' (gd_registry (guard_run is search_guard)) = None)
   in up [fail] \<and> \<not> up [fail, fail] \<and> up [fail, fail, on] \<and> \<not> up [fail, fail, on, fail]"
proof -
  have b: "gd_breaker search_guard = breaker_new 2" by (simp add: search_guard_def)
  have s: "server_name_for (gd_registry search_guard) ''web__search'' = Some ''web''"
    by (simp add: search_guard_def server_name_for_def add_tool_def search_tool_def)
  have e: "''web'' \<in> mr_enabled_servers (gd_registry search_guard)"
    by (simp add: search_guard_def add_tool_def search_tool_def)
  have v: "verdict_of (gd_registry search_guard) ''web'' (Result ''web__search'' lost_connection) = Failure"
    by (simp add: verdict_of_def s lost_connection_def is_auth_error_def source_is_transport_def)
  have t: "verdict_of (gd_registry search_guard) ''web'' (Toggle ''web'' True) = Neither"
    by (simp add: verdict_of_def)
  note up = breaker_exact [OF b, THEN conjunct2, rule_format, OF s]
  show ?thesis
    unfolding Let_def up by (simp add: v t e consecutive_def)
qed

section \<open>Registering the tools of a server\<close>

text \<open>The three maps of a registry hold the same names.\<close>

definition registry_ok :: "mcp_registry \<Rightarrow> bool" where
  "registry_ok r \<longleftrightarrow> dom (mr_raw_name_by_exposed_name r) = mr_names r \<and>
     dom (mr_server_by_exposed_name r) = mr_names r"

definition mapping :: "mcp_registry \<Rightarrow> str \<Rightarrow> (str \<times> str) option" where
  "mapping r n =
     (case (mr_raw_name_by_exposed_name r n, mr_server_by_exposed_name r n) of
        (Some raw, Some server) \<Rightarrow> Some (raw, server) | _ \<Rightarrow> None)"

definition tool_pair :: "mcp_tool \<Rightarrow> str \<times> str" where
  "tool_pair t = (mt_raw_name t, mt_server t)"

definition agrees :: "(str \<Rightarrow> (str \<times> str) option) \<Rightarrow> mcp_tool \<Rightarrow> bool" where
  "agrees m t \<longleftrightarrow> m (mt_name t) = None \<or> m (mt_name t) = Some (tool_pair t)"

lemma registry_maps:
  assumes "registry_ok r"
  shows "mr_raw_name_by_exposed_name r n = map_option fst (mapping r n)"
    and "mr_server_by_exposed_name r n = map_option snd (mapping r n)"
    and "n \<in> mr_names r \<longleftrightarrow> mapping r n \<noteq> None"
proof -
  have "(mr_raw_name_by_exposed_name r n = None) = (mr_server_by_exposed_name r n = None)"
    "n \<in> mr_names r \<longleftrightarrow> mr_raw_name_by_exposed_name r n \<noteq> None"
    using assms unfolding registry_ok_def by blast+
  then show "mr_raw_name_by_exposed_name r n = map_option fst (mapping r n)"
    and "mr_server_by_exposed_name r n = map_option snd (mapping r n)"
    and "n \<in> mr_names r \<longleftrightarrow> mapping r n \<noteq> None"
    by (auto simp: mapping_def split: option.split)
qed

lemma check_tool_None:
  assumes "registry_ok r"
  shows "check_tool r seen t = None \<longleftrightarrow> agrees seen t \<and> agrees (mapping r) t"
  by (auto simp: check_tool_def registry_maps [OF assms] agrees_def tool_pair_def Let_def
      split: option.split)

lemma agrees_seen:
  "agrees seen t \<Longrightarrow>
   agrees (if seen (mt_name t) = None then seen(mt_name t \<mapsto> tool_pair t) else seen) u \<longleftrightarrow>
   agrees seen u \<and> (mt_name u = mt_name t \<longrightarrow> tool_pair u = tool_pair t)"
  by (auto simp: agrees_def)

lemma pair_closure:
  "P t \<and> Q t \<and>
   (\<forall>u \<in> S. (P u \<and> (f u = f t \<longrightarrow> h u = h t)) \<and> Q u \<and> (\<forall>w \<in> S. f w = f u \<longrightarrow> h w = h u)) \<longleftrightarrow>
   (\<forall>u \<in> insert t S. P u \<and> Q u \<and> (\<forall>w \<in> insert t S. f w = f u \<longrightarrow> h w = h u))"
  (is "?l \<longleftrightarrow> ?r")
proof
  assume l: ?l
  show ?r
  proof (intro ballI conjI impI)
    fix u w assume "u \<in> insert t S" "w \<in> insert t S" "f w = f u"
    then show "h w = h u" using l by (metis insert_iff)
  qed (use l in blast)+
next
  assume ?r
  then show ?l by blast
qed

lemma pending_succeeds:
  assumes "registry_ok r"
  shows "(\<exists>ps. pending_tools r ts seen new = Inr ps) \<longleftrightarrow>
    (\<forall>t \<in> set ts. agrees seen t \<and> agrees (mapping r) t \<and>
       (\<forall>u \<in> set ts. mt_name u = mt_name t \<longrightarrow> tool_pair u = tool_pair t))"
proof (induction ts arbitrary: seen new)
  case (Cons t ts)
  let ?new = "if mr_raw_name_by_exposed_name r (mt_name t) = None then insert (mt_name t) new else new"
  let ?seen = "if seen (mt_name t) = None then seen(mt_name t \<mapsto> tool_pair t) else seen"
  have "(\<exists>ps. pending_tools r (t # ts) seen new = Inr ps) \<longleftrightarrow>
      check_tool r seen t = None \<and> (\<exists>ps. pending_tools r ts ?seen ?new = Inr ps)"
    by (auto simp: Let_def tool_pair_def split: option.split sum.split)
  also have "\<dots> \<longleftrightarrow> agrees seen t \<and> agrees (mapping r) t \<and>
      (\<forall>u \<in> set ts. agrees ?seen u \<and> agrees (mapping r) u \<and>
         (\<forall>w \<in> set ts. mt_name w = mt_name u \<longrightarrow> tool_pair w = tool_pair u))"
    unfolding Cons.IH check_tool_None [OF assms] by simp
  also have "\<dots> \<longleftrightarrow> (\<forall>u \<in> set (t # ts). agrees seen u \<and> agrees (mapping r) u \<and>
       (\<forall>w \<in> set (t # ts). mt_name w = mt_name u \<longrightarrow> tool_pair w = tool_pair u))"
  proof (cases "agrees seen t")
    case True
    show ?thesis
      unfolding agrees_seen [OF True]
      unfolding list.set by (rule pair_closure)
  next
    case False
    then show ?thesis by simp
  qed
  finally show ?case .
qed simp

text \<open>Which pending tools bring a new mapping, and what applying them leaves.\<close>

lemma pending_flags:
  assumes "registry_ok r" and "pending_tools r ts seen new = Inr ps"
  shows "map fst ps = ts \<and> (\<forall>p \<in> set ps. snd p \<longrightarrow> mapping r (mt_name (fst p)) = None) \<and>
    (\<forall>t \<in> set ts. mapping r (mt_name t) \<noteq> None \<or> mt_name t \<in> new \<or>
       (\<exists>p \<in> set ps. snd p \<and> mt_name (fst p) = mt_name t))"
  using assms(2)
proof (induction ts arbitrary: seen new ps)
  case (Cons t ts)
  let ?new = "if mr_raw_name_by_exposed_name r (mt_name t) = None then insert (mt_name t) new else new"
  let ?seen = "if seen (mt_name t) = None then seen(mt_name t \<mapsto> (mt_raw_name t, mt_server t)) else seen"
  from Cons.prems obtain qs where q: "pending_tools r ts ?seen ?new = Inr qs"
    and ps: "ps = (t, mapping r (mt_name t) = None \<and> mt_name t \<notin> new) # qs"
    by (auto simp: Let_def registry_maps [OF assms(1)] split: option.splits sum.splits)
  from Cons.IH [OF q] show ?case
    by (auto simp: ps registry_maps [OF assms(1)] split: if_splits)
qed simp

lemma apply_pending_enabled:
  "mr_enabled_servers (fold apply_pending ps r) = mr_enabled_servers r \<union> (mt_server \<circ> fst) ` set ps"
  by (induction ps arbitrary: r) (auto simp: apply_pending_def add_tool_def)

lemma mapping_add [simp]:
  "mapping (add_tool t r) n = (if n = mt_name t then Some (tool_pair t) else mapping r n)"
  by (simp add: mapping_def add_tool_def tool_pair_def)

lemma mapping_enabled [simp]: "mapping (r\<lparr>mr_enabled_servers := e\<rparr>) = mapping r"
  by (rule ext) (simp add: mapping_def split: option.split)

lemma apply_pending_last:
  "mapping (fold apply_pending (ps @ [p]) r) n =
     (if snd p \<and> n = mt_name (fst p) then Some (tool_pair (fst p)) else mapping (fold apply_pending ps r) n)"
  by (simp add: apply_pending_def)

lemma apply_pending_new:
  assumes "\<forall>p \<in> set ps. mt_name (fst p) = mt_name (fst q) \<longrightarrow> tool_pair (fst p) = tool_pair (fst q)"
    and "q \<in> set ps" "snd q"
  shows "mapping (fold apply_pending ps r) (mt_name (fst q)) = Some (tool_pair (fst q))"
  using assms
proof (induction ps rule: rev_induct)
  case (snoc p ps)
  show ?case
  proof (cases "snd p \<and> mt_name (fst q) = mt_name (fst p)")
    case True
    moreover have "tool_pair (fst p) = tool_pair (fst q)"
      using True snoc.prems(1) by (simp del: fold_append)
    ultimately show ?thesis by (simp only: apply_pending_last simp_thms if_True)
  next
    case False
    then have "q \<in> set ps" using snoc.prems(2,3) by auto
    moreover have "\<forall>p \<in> set ps. mt_name (fst p) = mt_name (fst q) \<longrightarrow> tool_pair (fst p) = tool_pair (fst q)"
      using snoc.prems(1) by simp
    ultimately have "mapping (fold apply_pending ps r) (mt_name (fst q)) = Some (tool_pair (fst q))"
      using snoc.IH snoc.prems(3) by blast
    then show ?thesis unfolding apply_pending_last using False by (simp only: if_False)
  qed
qed simp

lemma apply_pending_old:
  "\<forall>p \<in> set ps. snd p \<longrightarrow> mt_name (fst p) \<noteq> n \<Longrightarrow> mapping (fold apply_pending ps r) n = mapping r n"
proof (induction ps rule: rev_induct)
  case (snoc p ps)
  then have "\<not> (snd p \<and> n = mt_name (fst p))" "\<forall>p \<in> set ps. snd p \<longrightarrow> mt_name (fst p) \<noteq> n" by auto
  with snoc.IH show ?case by (simp only: apply_pending_last if_False)
qed simp

lemma apply_pending_ok: "registry_ok r \<Longrightarrow> registry_ok (fold apply_pending ps r)"
proof (induction ps rule: rev_induct)
  case (snoc p ps)
  then show ?case by (auto simp: apply_pending_def registry_ok_def add_tool_def)
qed simp

text \<open>
  A registration is all or nothing.  It succeeds exactly when the tools agree with each other and
  with the registry on the raw name and the owner of every name; a refused one changes nothing, so no
  server can take over the name of another's tool; an accepted one keeps every mapping, maps and
  enables every tool it was given, and adds no other name.
\<close>

theorem register_tools_exact:
  assumes "registry_ok r" and "register_tools tools r = (answer, r')"
  shows "((\<exists>e. answer = Inl e) \<longrightarrow> r' = r) \<and>
    (answer = Inr () \<longleftrightarrow>
       (\<forall>t \<in> set tools. agrees (mapping r) t \<and>
          (\<forall>u \<in> set tools. mt_name u = mt_name t \<longrightarrow> tool_pair u = tool_pair t))) \<and>
    (answer = Inr () \<longrightarrow> registry_ok r' \<and> mapping r \<subseteq>\<^sub>m mapping r' \<and>
       (\<forall>t \<in> set tools. mapping r' (mt_name t) = Some (tool_pair t) \<and> registry_contains r' (mt_name t)) \<and>
       mr_names r' = mr_names r \<union> mt_name ` set tools)"
proof (cases "pending_tools r tools Map.empty {}")
  case (Inl e)
  with assms(2) have "answer = Inl e" "r' = r" by (simp_all add: register_tools_def)
  with Inl pending_succeeds [OF assms(1), of tools Map.empty "{}"] show ?thesis
    by (auto simp: agrees_def)
next
  case (Inr ps)
  with assms(2) have r': "answer = Inr ()" "r' = fold apply_pending ps r"
    by (simp_all add: register_tools_def)
  from Inr have "\<exists>ps. pending_tools r tools Map.empty {} = Inr ps" by blast
  then have ok: "\<forall>t \<in> set tools. agrees (mapping r) t \<and>
      (\<forall>u \<in> set tools. mt_name u = mt_name t \<longrightarrow> tool_pair u = tool_pair t)"
    unfolding pending_succeeds [OF assms(1)] by blast
  note flags = pending_flags [OF assms(1) Inr]
  then have in_ps: "set tools = fst ` set ps" by (metis list.set_map)
  with ok have same: "\<forall>p \<in> set ps. \<forall>q \<in> set ps.
      mt_name (fst q) = mt_name (fst p) \<longrightarrow> tool_pair (fst q) = tool_pair (fst p)" by blast
  have new: "mapping r' (mt_name (fst p)) = Some (tool_pair (fst p))" if "p \<in> set ps" "snd p" for p
    unfolding r'(2) by (rule apply_pending_new) (use same that in blast)+
  have old: "mapping r' n = mapping r n" if "\<forall>p \<in> set ps. snd p \<longrightarrow> mt_name (fst p) \<noteq> n" for n
    unfolding r'(2) by (rule apply_pending_old) (rule that)
  have tools': "mapping r' (mt_name t) = Some (tool_pair t)" if "t \<in> set tools" for t
  proof (cases "\<exists>p \<in> set ps. snd p \<and> mt_name (fst p) = mt_name t")
    case True
    then obtain p where p: "p \<in> set ps" "snd p" "mt_name (fst p) = mt_name t" by blast
    moreover have "tool_pair (fst p) = tool_pair t" using ok that in_ps p by blast
    ultimately show ?thesis using new [OF p(1,2)] by simp
  next
    case False
    then have "mapping r' (mt_name t) = mapping r (mt_name t)" by (intro old) blast
    moreover have "mapping r (mt_name t) \<noteq> None" using flags that False by blast
    moreover have "agrees (mapping r) t" using ok that by blast
    ultimately show ?thesis unfolding agrees_def by metis
  qed
  have keep: "mapping r \<subseteq>\<^sub>m mapping r'"
    unfolding map_le_def
  proof
    fix n assume "n \<in> dom (mapping r)"
    then have some: "mapping r n \<noteq> None" by (simp only: domIff not_False_eq_True)
    have "mt_name (fst p) \<noteq> n" if "p \<in> set ps" "snd p" for p
      using flags [THEN conjunct2, THEN conjunct1, rule_format, OF that] some by metis
    then show "mapping r n = mapping r' n" by (intro old [symmetric]) blast
  qed
  have ok': "registry_ok r'" unfolding r'(2) by (rule apply_pending_ok [OF assms(1)])
  have other: "mapping r' n = mapping r n" if "n \<notin> mt_name ` set tools" for n
    using that in_ps by (intro old) blast
  have enabled: "mt_server t \<in> mr_enabled_servers r'" if "t \<in> set tools" for t
    using that unfolding r'(2) apply_pending_enabled in_ps by auto
  have contains: "registry_contains r' (mt_name t)" if "t \<in> set tools" for t
    using tools' [OF that] enabled [OF that]
    by (simp add: registry_contains_def is_tool_enabled_def registry_maps [OF ok'] tool_pair_def)
  have names: "mr_names r' = mr_names r \<union> mt_name ` set tools"
  proof (rule set_eqI)
    fix n
    show "n \<in> mr_names r' \<longleftrightarrow> n \<in> mr_names r \<union> mt_name ` set tools"
    proof (cases "n \<in> mt_name ` set tools")
      case True
      then show ?thesis using tools' by (auto simp: registry_maps(3) [OF ok'])
    next
      case False
      then show ?thesis
        using other by (simp add: registry_maps(3) [OF ok'] registry_maps(3) [OF assms(1)])
    qed
  qed
  have success: "answer = Inr ()" "\<not> (\<exists>e. answer = Inl e)" using r'(1) by simp_all
  show ?thesis
    by (intro conjI impI ballI iffI)
      (use success ok in blast | rule ok' keep tools' contains names; assumption?)+
qed

theorem register_tools_exact_witness:
  "mapping (snd (register_tools [search_tool] empty_registry)) ''web__search'' = Some (''search'', ''web'')"
proof -
  have "registry_ok empty_registry" by (simp add: registry_ok_def empty_registry_def)
  moreover have "agrees (mapping empty_registry) search_tool"
    by (simp add: agrees_def mapping_def empty_registry_def)
  ultimately show ?thesis
    using register_tools_exact [of empty_registry "[search_tool]", OF _ prod.collapse [symmetric]]
    by (simp add: search_tool_def tool_pair_def)
qed

end
