(* ===== verification/Usage.thy ===== *)
theory Usage
  imports Recovery
begin

text \<open>
  Token counts and cost: the usage a turn and a session accumulate
  (\<open>crates/agnt-core/src/hook/turn_usage.rs\<close>), the price of a completion
  (\<open>llm/cost.rs\<close>), the size estimate of a conversation
  (\<open>conversation/turn/token_estimate.rs\<close>) and the models already reported as unpriced
  (\<open>hook/unpriced_warnings.rs\<close>).  A cost is an \<open>f64\<close>; its addition and its zero are parameters, so
  the sums here are in the order the code adds them.
\<close>

section \<open>Usage of a turn\<close>

record 'c turn_usage =
  tu_input_tokens :: nat
  tu_output_tokens :: nat
  tu_total_tokens :: "nat option"
  tu_cost :: "'c option"
  tu_cost_complete :: bool

definition usage_default :: "'c turn_usage" where
  "usage_default = \<lparr>tu_input_tokens = 0, tu_output_tokens = 0, tu_total_tokens = None,
     tu_cost = None, tu_cost_complete = True\<rparr>"

definition add_call ::
  "('c \<Rightarrow> 'c \<Rightarrow> 'c) \<Rightarrow> 'c \<Rightarrow> nat \<Rightarrow> nat \<Rightarrow> nat option \<Rightarrow> 'c option \<Rightarrow> bool \<Rightarrow> 'c turn_usage \<Rightarrow> 'c turn_usage" where
  "add_call fadd fzero input_tokens output_tokens total_of_call cost cost_complete u =
     \<lparr>tu_input_tokens = tu_input_tokens u + input_tokens,
      tu_output_tokens = tu_output_tokens u + output_tokens,
      tu_total_tokens =
        (case total_of_call of None \<Rightarrow> tu_total_tokens u
         | Some t \<Rightarrow> Some ((case tu_total_tokens u of None \<Rightarrow> 0 | Some s \<Rightarrow> s) + t)),
      tu_cost =
        (case cost of None \<Rightarrow> tu_cost u
         | Some c \<Rightarrow> Some (fadd (case tu_cost u of None \<Rightarrow> fzero | Some s \<Rightarrow> s) c)),
      tu_cost_complete = (tu_cost_complete u \<and> cost_complete)\<rparr>"

definition usage_reset :: "'c turn_usage \<Rightarrow> 'c turn_usage" where
  "usage_reset u = u\<lparr>tu_input_tokens := 0, tu_output_tokens := 0, tu_total_tokens := None,
     tu_cost := None, tu_cost_complete := True\<rparr>"

section \<open>The price of a completion\<close>

record 'c rig_usage =
  ru_input_tokens :: "nat option"
  ru_output_tokens :: "nat option"
  ru_total_tokens :: "nat option"
  ru_cost :: "('c \<times> bool) option"

datatype pricing_skip = NoSpec | NoPricing | MissingCounters

datatype 'c priced_outcome = Priced 'c bool | SkippedPrice pricing_skip

text \<open>
  \<open>spec\<close> is the wire's catalog entry: no entry, an entry without a price, or the price list, which
  maps a usage to a cost and whether the cost is complete (rig's \<open>Pricing::cost\<close>).
\<close>

definition computed_cost ::
  "('c rig_usage \<Rightarrow> ('c \<times> bool) option) option option \<Rightarrow> 'c rig_usage \<Rightarrow> 'c priced_outcome" where
  "computed_cost spec usage =
     (case spec of
        None \<Rightarrow> SkippedPrice NoSpec
      | Some None \<Rightarrow> SkippedPrice NoPricing
      | Some (Some pricing) \<Rightarrow>
          (if ru_input_tokens usage = None \<or> ru_output_tokens usage = None
           then SkippedPrice MissingCounters
           else case pricing usage of
             None \<Rightarrow> SkippedPrice MissingCounters
           | Some (amount, complete) \<Rightarrow> Priced amount complete))"

definition first_time :: "str \<Rightarrow> str set \<Rightarrow> bool \<times> str set" where
  "first_time model_id warned = (model_id \<notin> warned, insert model_id warned)"

section \<open>The size of a conversation\<close>

definition result_content_chars :: "result_content \<Rightarrow> nat" where
  "result_content_chars c = (case c of RText t \<Rightarrow> length t | ROther \<Rightarrow> 0)"

definition user_content_chars :: "user_content \<Rightarrow> nat" where
  "user_content_chars c =
     (case c of
        UText t \<Rightarrow> length t
      | UToolResult r \<Rightarrow> sum_list (map result_content_chars (tre_content r))
      | UOther \<Rightarrow> 0)"

definition assistant_content_chars :: "(json \<Rightarrow> str) \<Rightarrow> assistant_content \<Rightarrow> nat" where
  "assistant_content_chars ser c =
     (case c of
        AText t \<Rightarrow> length t
      | AToolCall tc \<Rightarrow> length (tca_name tc) + length (ser (tca_arguments tc))
      | AOther \<Rightarrow> 0)"

definition message_char_count :: "(json \<Rightarrow> str) \<Rightarrow> rig_message \<Rightarrow> nat" where
  "message_char_count ser m =
     (case m of
        User content \<Rightarrow> sum_list (map user_content_chars content)
      | Assistant content \<Rightarrow> sum_list (map (assistant_content_chars ser) content)
      | System content \<Rightarrow> length content)"

definition estimate_token_count :: "(json \<Rightarrow> str) \<Rightarrow> rig_message list \<Rightarrow> nat" where
  "estimate_token_count ser messages =
     sum_list (map (message_char_count ser) messages) div 4 + length messages * 4"

lemma estimate_mono: "estimate_token_count ser ms \<le> estimate_token_count ser (ms @ ns)"
  by (simp add: estimate_token_count_def add_mono div_le_mono)

section \<open>What the sums are\<close>

record 'c call_usage =
  cu_input :: nat
  cu_output :: nat
  cu_total :: "nat option"
  cu_cost :: "'c option"
  cu_complete :: bool

definition add_calls :: "('c \<Rightarrow> 'c \<Rightarrow> 'c) \<Rightarrow> 'c \<Rightarrow> 'c call_usage list \<Rightarrow> 'c turn_usage \<Rightarrow> 'c turn_usage" where
  "add_calls fadd fzero calls u =
     fold (\<lambda>c. add_call fadd fzero (cu_input c) (cu_output c) (cu_total c) (cu_cost c) (cu_complete c)) calls u"

definition reported :: "('a \<Rightarrow> 'b option) \<Rightarrow> 'a list \<Rightarrow> 'b list" where
  "reported f xs = concat (map (\<lambda>x. case f x of None \<Rightarrow> [] | Some y \<Rightarrow> [y]) xs)"

lemma reported_snoc [simp]:
  "reported f [] = []" "reported f (xs @ [x]) = reported f xs @ (case f x of None \<Rightarrow> [] | Some y \<Rightarrow> [y])"
  by (simp_all add: reported_def)

lemma usage_sums:
  "add_calls fadd fzero calls usage_default =
     \<lparr>tu_input_tokens = sum_list (map cu_input calls),
      tu_output_tokens = sum_list (map cu_output calls),
      tu_total_tokens = (if reported cu_total calls = [] then None else Some (sum_list (reported cu_total calls))),
      tu_cost = (if reported cu_cost calls = [] then None else Some (foldl fadd fzero (reported cu_cost calls))),
      tu_cost_complete = list_all cu_complete calls\<rparr>"
proof (induction calls rule: rev_induct)
  case Nil
  show ?case by (simp add: add_calls_def usage_default_def)
next
  case (snoc c calls)
  have "add_calls fadd fzero (calls @ [c]) usage_default =
      add_call fadd fzero (cu_input c) (cu_output c) (cu_total c) (cu_cost c) (cu_complete c)
        (add_calls fadd fzero calls usage_default)"
    by (simp add: add_calls_def)
  then show ?case
    unfolding snoc.IH by (auto simp: add_call_def split: option.split)
qed

end
