(* ===== verification/Hook_Chain.thy ===== *)
theory Hook_Chain
  imports Resolver Doom_Loop Repetition Circuit_Breaker Usage
begin

text \<open>
  The hook chain of \<open>crates/agnt-core/src/hook/chain.rs\<close>: the handlers the runner calls around every
  model call and every tool call, composed of the concerns of the other theories in the order the code
  has them, with the sub-turn cap of \<open>hook/subturn_cap.rs\<close>, the history snapshot of
  \<open>hook/history_snapshot.rs\<close> and the compaction decision.  The chain is generic in its permission
  resolver, as in the code.
\<close>

section \<open>The environment\<close>

text \<open>
  What a poll of the cancel channel answers, and what the session store answers when the compaction
  decision reads it.
\<close>

datatype cancel_poll = Requested | PollEmpty | PollClosed | PollLagged nat

datatype store_read = StoreDead str | LoadFailed str | Loaded "rig_message list"

record ('q, 'p, 'c) chain_env =
  ce_poll :: "'q \<Rightarrow> cancel_poll \<times> 'q"
  ce_resolve :: "str \<Rightarrow> str \<Rightarrow> str option \<Rightarrow> 'p \<Rightarrow> resolution \<times> permission_event list \<times> 'p"
  ce_take_previewed :: "str \<Rightarrow> str \<Rightarrow> 'p \<Rightarrow> bool \<times> 'p"
  ce_render :: "str \<Rightarrow> str \<Rightarrow> str"
  ce_display_from_arguments :: "str \<Rightarrow> str \<Rightarrow> tool_display option"
  ce_display_from_result :: "str \<Rightarrow> str \<Rightarrow> tool_display option"
  ce_name_ok :: "str \<Rightarrow> bool"
  ce_closures :: "str \<Rightarrow> bool"
  ce_parse :: "str \<Rightarrow> json option"
  ce_ser_str :: "str \<Rightarrow> str"
  ce_ser :: "json \<Rightarrow> str"
  ce_lower :: "str \<Rightarrow> str"
  ce_store :: "store_read"
  ce_fadd :: "'c \<Rightarrow> 'c \<Rightarrow> 'c"
  ce_fzero :: 'c
  ce_spec :: "('c rig_usage \<Rightarrow> ('c \<times> bool) option) option option"
  ce_model_id :: str
  ce_repetition_guard :: bool
  ce_threshold_tokens :: "nat option"
  ce_has_compaction_spec :: bool

section \<open>Events and actions\<close>

record call_info =
  ci_tool :: str
  ci_source :: str
  ci_arguments :: str
  ci_call_line :: str

record outcome_info =
  oi_success :: bool
  oi_status :: tool_status
  oi_result :: str
  oi_display :: "tool_display option"
  oi_error_kind :: "str option"
  oi_message :: "str option"

record 'c usage_info =
  ui_response_chars :: nat
  ui_tool_calls :: nat
  ui_input_tokens :: nat
  ui_output_tokens :: nat
  ui_total_tokens :: "nat option"
  ui_cost :: "'c option"
  ui_cost_complete :: bool

datatype 'c chain_event =
    ToolStarted call_info
  | ToolPreview call_info tool_display
  | ToolCompleted call_info outcome_info
  | PermissionEvent permission_event
  | Warning str
  | InferenceStarted
  | InferenceChunk str str
  | InferenceCompleted "'c usage_info"
  | CompactionRequested str
  | CompactionFailed str str

datatype chain_action = Proceed | Skip str | Stop str

datatype run_action = ContinueRun | StopTurn str | RetryWith str

section \<open>The state\<close>

record ('q, 'p, 'c) chain =
  hc_cancel_rx :: 'q
  hc_subturn_max :: nat
  hc_subturn_count :: nat
  hc_doom :: doom_state
  hc_repetition :: repetition_state
  hc_breaker :: breaker
  hc_registry :: mcp_registry
  hc_history :: "rig_message list"
  hc_turn_tools :: "turn_tool_record list"
  hc_permission :: 'p
  hc_last_total_tokens :: "nat option"
  hc_turn_usage :: "'c turn_usage"
  hc_session_usage :: "'c turn_usage"
  hc_store_latch :: "str option"
  hc_unpriced :: "str set"
  hc_events :: "'c chain_event list"

definition send :: "'c chain_event \<Rightarrow> ('q, 'p, 'c) chain \<Rightarrow> ('q, 'p, 'c) chain" where
  "send e s = s\<lparr>hc_events := hc_events s @ [e]\<rparr>"

section \<open>The small concerns\<close>

definition max_tool_calls_per_subturn :: nat where "max_tool_calls_per_subturn = 25"

definition subturn_max :: "nat option \<Rightarrow> nat" where
  "subturn_max configured = (case configured of None \<Rightarrow> max_tool_calls_per_subturn | Some n \<Rightarrow> n)"

definition cap_message :: "nat \<Rightarrow> str" where
  "cap_message m =
     ''Sub-turn tool call limit reached ('' @ show_nat m @ ''). No further tools will be called in this ''
     @ ''response. Please summarise what you have accomplished so far and continue in the next turn if needed.''"

definition check_and_increment :: "('q, 'p, 'c) chain \<Rightarrow> str option \<times> ('q, 'p, 'c) chain" where
  "check_and_increment s =
     (if hc_subturn_max s = 0 then (None, s)
      else if hc_subturn_max s \<le> hc_subturn_count s then (Some (cap_message (hc_subturn_max s)), s)
      else (None, s\<lparr>hc_subturn_count := hc_subturn_count s + 1\<rparr>))"

definition subturn_reset :: "('q, 'p, 'c) chain \<Rightarrow> ('q, 'p, 'c) chain" where
  "subturn_reset s = s\<lparr>hc_subturn_count := 0\<rparr>"

definition history_update ::
  "rig_message list \<Rightarrow> rig_message \<Rightarrow> ('q, 'p, 'c) chain \<Rightarrow> ('q, 'p, 'c) chain" where
  "history_update history prompt s = s\<lparr>hc_history := history @ [prompt]\<rparr>"

definition is_cancelled ::
  "('q, 'p, 'c) chain_env \<Rightarrow> ('q, 'p, 'c) chain \<Rightarrow> bool \<times> ('q, 'p, 'c) chain" where
  "is_cancelled env s =
     (let (poll, rx) = ce_poll env (hc_cancel_rx s)
      in (case poll of Requested \<Rightarrow> True | PollLagged n \<Rightarrow> True | _ \<Rightarrow> False, s\<lparr>hc_cancel_rx := rx\<rparr>))"

definition status_of_result :: "raw_result \<Rightarrow> tool_status" where
  "status_of_result r =
     (if rr_success r then StatusSuccess
      else if rr_skipped r then StatusCancelled
      else case rr_error r of
        Some e \<Rightarrow> if ter_is_cancelled e then StatusCancelled else StatusFailed
      | None \<Rightarrow> StatusFailed)"

section \<open>A call that never ran\<close>

definition cancelled_dispatch_message :: str where
  "cancelled_dispatch_message = ''Interrupted: the turn stopped before this call ran''"

datatype not_run_outcome = NotRunCancelled | NotRunDenied str

text \<open>\<open>publish_start\<close> is false when the caller already published \<open>ToolStarted\<close>.\<close>

definition emit_not_run_dispatch ::
  "('q, 'p, 'c) chain_env \<Rightarrow> call_info \<Rightarrow> bool \<Rightarrow> not_run_outcome \<Rightarrow> bool \<Rightarrow>
   ('q, 'p, 'c) chain \<Rightarrow> ('q, 'p, 'c) chain" where
  "emit_not_run_dispatch env call publish_start outcome preview s =
     (let s1 = (if publish_start then send (ToolStarted call) s else s);
          s2 = (case (preview, ce_display_from_arguments env (ci_tool call) (ci_arguments call)) of
                  (True, Some d) \<Rightarrow> send (ToolPreview call d) s1 | _ \<Rightarrow> s1);
          (error_kind, message) = (case outcome of
             NotRunCancelled \<Rightarrow> (''cancelled'', cancelled_dispatch_message)
           | NotRunDenied reason \<Rightarrow> (''denied'', reason))
      in send (ToolCompleted call
           \<lparr>oi_success = False, oi_status = StatusCancelled, oi_result = [], oi_display = None,
            oi_error_kind = Some error_kind, oi_message = Some message\<rparr>) s2)"

section \<open>Dispatch of a tool call\<close>

record dispatch_event =
  de_tool_name :: "str option"
  de_args :: "str option"
  de_call_id :: "str option"

text \<open>What the synchronous part of \<open>on_dispatch\<close> computes before the asynchronous part runs.\<close>

record dispatch_checks =
  dc_cancelled :: bool
  dc_subturn :: "str option"
  dc_circuit :: "str option"
  dc_source :: str

definition dispatch_sync ::
  "('q, 'p, 'c) chain_env \<Rightarrow> dispatch_event \<Rightarrow> ('q, 'p, 'c) chain \<Rightarrow>
   dispatch_checks \<times> ('q, 'p, 'c) chain" where
  "dispatch_sync env ev s =
     (case de_tool_name ev of
        None \<Rightarrow> (\<lparr>dc_cancelled = False, dc_subturn = None, dc_circuit = None, dc_source = []\<rparr>, s)
      | Some name \<Rightarrow>
          (let s1 = (case de_call_id ev of
                 Some call_id \<Rightarrow>
                   (if ce_name_ok env name
                    then s\<lparr>hc_turn_tools := record_call call_id name
                             (case de_args ev of None \<Rightarrow> [] | Some a \<Rightarrow> a) (hc_turn_tools s)\<rparr>
                    else s)
               | None \<Rightarrow> s);
               (cancelled, s2) = is_cancelled env s1;
               (subturn, s3) = check_and_increment s2
           in (\<lparr>dc_cancelled = cancelled, dc_subturn = subturn,
                dc_circuit = check_server_enabled name (hc_registry s3),
                dc_source = source_as_str (resolve_tool_source (ce_closures env)
                              (registry_contains (hc_registry s3)) name)\<rparr>, s3)))"

definition doom_check ::
  "('q, 'p, 'c) chain_env \<Rightarrow> str \<Rightarrow> str \<Rightarrow> ('q, 'p, 'c) chain \<Rightarrow>
   chain_action option \<times> ('q, 'p, 'c) chain" where
  "doom_check env tool_name args s =
     (if \<not> ce_repetition_guard env then (None, s)
      else
        (let (action, warnings, d) =
               doom_hook (canonicalize_args (ce_parse env) (ce_ser_str env) (ce_ser env))
                 tool_name args (hc_doom s);
             s1 = fold (\<lambda>w. send (Warning w)) warnings (s\<lparr>hc_doom := d\<rparr>)
         in (map_option (\<lambda>a. case a of SkipCall m \<Rightarrow> Skip m | StopRun m \<Rightarrow> Stop m) action, s1)))"

definition permission_gate ::
  "('q, 'p, 'c) chain_env \<Rightarrow> call_info \<Rightarrow> str option \<Rightarrow> ('q, 'p, 'c) chain \<Rightarrow>
   chain_action \<times> ('q, 'p, 'c) chain" where
  "permission_gate env call call_id s =
     (let (decision, events, p) =
            ce_resolve env (ci_tool call) (ci_arguments call) call_id (hc_permission s);
          s1 = fold (\<lambda>e. send (PermissionEvent e)) events (s\<lparr>hc_permission := p\<rparr>)
      in case decision of
           Granted \<Rightarrow> (Proceed, s1)
         | Refused reason \<Rightarrow>
             (let (previewed, p') = ce_take_previewed env (ci_tool call) (ci_arguments call) (hc_permission s1);
                  s2 = s1\<lparr>hc_permission := p'\<rparr>
              in (Skip reason, emit_not_run_dispatch env call False (NotRunDenied reason) (\<not> previewed) s2)))"

definition dispatch_async ::
  "('q, 'p, 'c) chain_env \<Rightarrow> dispatch_event \<Rightarrow> dispatch_checks \<Rightarrow> ('q, 'p, 'c) chain \<Rightarrow>
   chain_action \<times> ('q, 'p, 'c) chain" where
  "dispatch_async env ev checks s =
     (case de_tool_name ev of
        None \<Rightarrow> (Proceed, s)
      | Some tool_name \<Rightarrow>
          (let args = (case de_args ev of None \<Rightarrow> [] | Some a \<Rightarrow> a);
               call = \<lparr>ci_tool = tool_name, ci_source = dc_source checks, ci_arguments = args,
                       ci_call_line = ce_render env tool_name args\<rparr>
           in if dc_cancelled checks
              then (Stop ''Cancelled by user'', emit_not_run_dispatch env call True NotRunCancelled True s)
              else case dc_subturn checks of
                Some m \<Rightarrow> (Skip m, s)
              | None \<Rightarrow>
                  (case doom_check env tool_name args s of
                     (Some action, s1) \<Rightarrow> (action, s1)
                   | (None, s1) \<Rightarrow>
                       (case dc_circuit checks of
                          Some m \<Rightarrow> (Skip m, s1)
                        | None \<Rightarrow> permission_gate env call (de_call_id ev) (send (ToolStarted call) s1)))))"

definition on_dispatch ::
  "('q, 'p, 'c) chain_env \<Rightarrow> dispatch_event \<Rightarrow> ('q, 'p, 'c) chain \<Rightarrow>
   chain_action \<times> ('q, 'p, 'c) chain" where
  "on_dispatch env ev s = (let (checks, s1) = dispatch_sync env ev s in dispatch_async env ev checks s1)"

section \<open>The compaction decision\<close>

text \<open>The latch makes an unreadable store cost one line.\<close>

definition emit_store_dead :: "str \<Rightarrow> str \<Rightarrow> ('q, 'p, 'c) chain \<Rightarrow> ('q, 'p, 'c) chain" where
  "emit_store_dead message source s =
     (if hc_store_latch s \<noteq> None then s
      else send (CompactionFailed source message) (s\<lparr>hc_store_latch := Some message\<rparr>))"

definition current_conversation ::
  "('q, 'p, 'c) chain_env \<Rightarrow> ('q, 'p, 'c) chain \<Rightarrow> rig_message list option \<times> ('q, 'p, 'c) chain" where
  "current_conversation env s =
     (case ce_store env of
        StoreDead e \<Rightarrow> (None, emit_store_dead e ''auto'' s)
      | LoadFailed e \<Rightarrow> (None, send (CompactionFailed ''auto'' (''Failed to load the session: '' @ e)) s)
      | Loaded messages \<Rightarrow> (Some messages, s))"

definition decide_compaction ::
  "('q, 'p, 'c) chain_env \<Rightarrow> rig_message \<Rightarrow> ('q, 'p, 'c) chain \<Rightarrow> ('q, 'p, 'c) chain" where
  "decide_compaction env prompt s =
     (if hc_store_latch s \<noteq> None then s
      else case ce_threshold_tokens env of
        None \<Rightarrow> s
      | Some threshold_tokens \<Rightarrow>
          (if \<not> ce_has_compaction_spec env then s
           else case current_conversation env s of
             (None, s1) \<Rightarrow> s1
           | (Some conversation, s1) \<Rightarrow>
               (if conversation = [] then s1
                else
                  (let base_tokens = (case hc_last_total_tokens s1 of
                         Some n \<Rightarrow> n | None \<Rightarrow> estimate_token_count (ce_ser env) conversation);
                       prompt_estimate = estimate_token_count (ce_ser env) [prompt]
                   in if base_tokens + prompt_estimate < threshold_tokens then s1
                      else send (CompactionRequested ''auto'') s1))))"

section \<open>The other handlers\<close>

definition on_completion_call ::
  "('q, 'p, 'c) chain_env \<Rightarrow> rig_message list \<Rightarrow> rig_message \<Rightarrow> ('q, 'p, 'c) chain \<Rightarrow>
   run_action \<times> ('q, 'p, 'c) chain" where
  "on_completion_call env history prompt s =
     (let s1 = subturn_reset (history_update history prompt s);
          (cancelled, s2) = is_cancelled env s1
      in if cancelled then (StopTurn ''Cancelled by user'', s2)
         else (ContinueRun, decide_compaction env prompt (send InferenceStarted s2)))"

definition on_text_delta ::
  "('q, 'p, 'c) chain_env \<Rightarrow> str \<Rightarrow> str \<Rightarrow> ('q, 'p, 'c) chain \<Rightarrow> run_action \<times> ('q, 'p, 'c) chain" where
  "on_text_delta env delta aggregated s =
     (let (cancelled, s1) = is_cancelled env s;
          (action, s2) =
            (if ce_repetition_guard env
             then (let (a, r) = check_aggregated (ce_lower env) aggregated (hc_repetition s1)
                   in (a, s1\<lparr>hc_repetition := r\<rparr>))
             else (None, s1))
      in if cancelled then (StopTurn ''Cancelled by user'', s2)
         else if action \<noteq> None
         then (StopTurn (output_repetition_stop_prefix @ '' the assistant kept repeating the same output ''
                 @ ''after repeated steering. The run was stopped.''), s2)
         else (ContinueRun, send (InferenceChunk delta aggregated) s2))"

definition on_model_turn_finished ::
  "('q, 'p, 'c) chain_env \<Rightarrow> content_item list \<Rightarrow> ('q, 'p, 'c) chain \<Rightarrow>
   run_action \<times> ('q, 'p, 'c) chain" where
  "on_model_turn_finished env content s =
     (if \<not> ce_repetition_guard env then (ContinueRun, s)
      else
        (let (detection, r) = finish_turn (ce_lower env) content (hc_repetition s);
             s1 = s\<lparr>hc_repetition := r\<rparr>
         in case detection of
              None \<Rightarrow> (ContinueRun, s1)
            | Some (RepFirst m) \<Rightarrow> (RetryWith m, send (Warning m) s1)
            | Some (RepBackoff m) \<Rightarrow> (RetryWith m, send (Warning m) s1)
            | Some (RepStop m) \<Rightarrow> (StopTurn m, s1)))"

definition on_invalid_tool_call ::
  "str \<Rightarrow> str list \<Rightarrow> ('q, 'p, 'c) chain \<Rightarrow> run_action \<times> ('q, 'p, 'c) chain" where
  "on_invalid_tool_call tool_name available s =
     (let feedback = ''Tool '' @ quote1 tool_name @ '' is not available. Available tools: [''
            @ join '', '' available @ '']''
      in (RetryWith feedback, send (Warning feedback) s))"

section \<open>Outcomes\<close>

definition suppress_previewed_display ::
  "('q, 'p, 'c) chain_env \<Rightarrow> str \<Rightarrow> str \<Rightarrow> tool_display option \<Rightarrow> ('q, 'p, 'c) chain \<Rightarrow>
   tool_display option \<times> ('q, 'p, 'c) chain" where
  "suppress_previewed_display env tool_name args display s =
     (let (previewed, p) = ce_take_previewed env tool_name args (hc_permission s)
      in (if previewed then None else display, s\<lparr>hc_permission := p\<rparr>))"

record outcome_event =
  oe_tool_name :: "str option"
  oe_args :: "str option"
  oe_call_id :: "str option"

definition circuit_record_result ::
  "str \<Rightarrow> raw_result \<Rightarrow> ('q, 'p, 'c) chain \<Rightarrow> ('q, 'p, 'c) chain" where
  "circuit_record_result tool_name res s =
     (let g = guard_record_result tool_name res
            \<lparr>gd_breaker = hc_breaker s, gd_registry = hc_registry s, gd_warnings = []\<rparr>
      in fold (\<lambda>w. send (Warning w)) (gd_warnings g)
           (s\<lparr>hc_breaker := gd_breaker g, hc_registry := gd_registry g\<rparr>))"

definition on_tool_outcome ::
  "('q, 'p, 'c) chain_env \<Rightarrow> outcome_event \<Rightarrow> raw_result \<Rightarrow> ('q, 'p, 'c) chain \<Rightarrow> ('q, 'p, 'c) chain" where
  "on_tool_outcome env ev res s =
     (let tool_name = (case oe_tool_name ev of None \<Rightarrow> [] | Some n \<Rightarrow> n);
          args = (case oe_args ev of None \<Rightarrow> [] | Some a \<Rightarrow> a);
          (display, s1) = suppress_previewed_display env tool_name args
             (ce_display_from_result env tool_name (rr_text res)) s;
          source = source_as_str (resolve_tool_source (ce_closures env)
                     (registry_contains (hc_registry s1)) tool_name);
          error_kind = map_option ter_kind (rr_error res);
          status = status_of_result res;
          s2 = (case oe_call_id ev of
             Some call_id \<Rightarrow>
               (if ce_name_ok env tool_name
                then s1\<lparr>hc_turn_tools := record_result call_id tool_name args
                          \<lparr>stc_result = rr_text res, stc_success = rr_success res, stc_status = status,
                           stc_error_kind = error_kind\<rparr> (hc_turn_tools s1)\<rparr>
                else s1)
           | None \<Rightarrow> s1);
          call = \<lparr>ci_tool = tool_name, ci_source = source, ci_arguments = args,
                  ci_call_line = ce_render env tool_name args\<rparr>;
          s3 = send (ToolCompleted call
                 \<lparr>oi_success = rr_success res, oi_status = status, oi_result = rr_text res,
                  oi_display = display, oi_error_kind = error_kind, oi_message = None\<rparr>) s2
      in circuit_record_result tool_name res s3)"

text \<open>A reply of the model: its usage and its content.\<close>

definition response_chars :: "content_item list \<Rightarrow> nat" where
  "response_chars content =
     sum_list (map (\<lambda>i. case i of TextItem t \<Rightarrow> length (chars t) | _ \<Rightarrow> 0) content)"

definition response_tool_calls :: "content_item list \<Rightarrow> nat" where
  "response_tool_calls content = length (filter (\<lambda>i. i = ToolCallItem) content)"

definition total_tokens_of :: "'c rig_usage \<Rightarrow> nat option" where
  "total_tokens_of u =
     (case (ru_total_tokens u, ru_input_tokens u, ru_output_tokens u) of
        (Some t, _, _) \<Rightarrow> Some t
      | (None, Some i, Some out) \<Rightarrow> Some (i + out)
      | _ \<Rightarrow> None)"

definition price_of ::
  "('q, 'p, 'c) chain_env \<Rightarrow> 'c rig_usage \<Rightarrow> ('q, 'p, 'c) chain \<Rightarrow>
   ('c option \<times> bool) \<times> ('q, 'p, 'c) chain" where
  "price_of env usage s =
     (case ru_cost usage of
        Some (c, complete) \<Rightarrow> ((Some c, complete), s)
      | None \<Rightarrow>
          (case computed_cost (ce_spec env) usage of
             Priced amount complete \<Rightarrow> ((Some amount, complete), s)
           | SkippedPrice reason \<Rightarrow>
               ((None, False), s\<lparr>hc_unpriced := snd (first_time (ce_model_id env) (hc_unpriced s))\<rparr>)))"

definition on_completion_outcome ::
  "('q, 'p, 'c) chain_env \<Rightarrow> 'c rig_usage \<Rightarrow> content_item list \<Rightarrow> ('q, 'p, 'c) chain \<Rightarrow>
   ('q, 'p, 'c) chain" where
  "on_completion_outcome env usage content s =
     (if ru_input_tokens usage = None \<and> ru_output_tokens usage = None \<and> ru_total_tokens usage = None
      then s
      else
        (let or0 = (\<lambda>x. case x of None \<Rightarrow> 0 | Some n \<Rightarrow> n);
             ttl = total_tokens_of usage;
             s1 = (case ttl of None \<Rightarrow> s | Some t \<Rightarrow> s\<lparr>hc_last_total_tokens := Some t\<rparr>);
             ((cost, complete), s2) = price_of env usage s1;
             add = add_call (ce_fadd env) (ce_fzero env) (or0 (ru_input_tokens usage))
                     (or0 (ru_output_tokens usage)) ttl cost complete;
             s3 = s2\<lparr>hc_turn_usage := add (hc_turn_usage s2), hc_session_usage := add (hc_session_usage s2)\<rparr>
         in send (InferenceCompleted
              \<lparr>ui_response_chars = response_chars content, ui_tool_calls = response_tool_calls content,
               ui_input_tokens = or0 (ru_input_tokens usage), ui_output_tokens = or0 (ru_output_tokens usage),
               ui_total_tokens = ru_total_tokens usage, ui_cost = cost, ui_cost_complete = complete\<rparr>) s3))"

definition on_outcome ::
  "('q, 'p, 'c) chain_env \<Rightarrow> outcome_event \<Rightarrow> raw_result option \<Rightarrow>
   ('c rig_usage \<times> content_item list) option \<Rightarrow> ('q, 'p, 'c) chain \<Rightarrow> chain_action \<times> ('q, 'p, 'c) chain" where
  "on_outcome env ev tool_result completion s =
     (let s1 = (case tool_result of None \<Rightarrow> s | Some res \<Rightarrow> on_tool_outcome env ev res s);
          s2 = (case completion of None \<Rightarrow> s1 | Some (usage, content) \<Rightarrow> on_completion_outcome env usage content s1)
      in (Proceed, s2))"

end
