(* ===== verification/Hook_Chain_Facts.thy ===== *)
theory Hook_Chain_Facts
  imports Hook_Chain
begin

text \<open>
  What the hook chain guarantees: which dispatched calls run, what each refusal leaves in the event
  stream, and, over all interleavings of a batch, how many calls one model reply can run.
\<close>

section \<open>Sending changes only the event stream\<close>

lemma send_fields [simp]:
  "hc_cancel_rx (send e s) = hc_cancel_rx s" "hc_subturn_max (send e s) = hc_subturn_max s"
  "hc_subturn_count (send e s) = hc_subturn_count s" "hc_doom (send e s) = hc_doom s"
  "hc_repetition (send e s) = hc_repetition s" "hc_breaker (send e s) = hc_breaker s"
  "hc_registry (send e s) = hc_registry s" "hc_turn_tools (send e s) = hc_turn_tools s"
  "hc_permission (send e s) = hc_permission s" "hc_store_latch (send e s) = hc_store_latch s"
  "hc_last_total_tokens (send e s) = hc_last_total_tokens s"
  "hc_events (send e s) = hc_events s @ [e]"
  by (simp_all add: send_def)

lemma send_all_fields [simp]:
  "hc_subturn_max (fold (\<lambda>x. send (f x)) xs s) = hc_subturn_max s"
  "hc_subturn_count (fold (\<lambda>x. send (f x)) xs s) = hc_subturn_count s"
  "hc_turn_tools (fold (\<lambda>x. send (f x)) xs s) = hc_turn_tools s"
  "hc_permission (fold (\<lambda>x. send (f x)) xs s) = hc_permission s"
  "hc_events (fold (\<lambda>x. send (f x)) xs s) = hc_events s @ map f xs"
  by (induction xs arbitrary: s) simp_all

text \<open>The calls opened and the calls closed by a list of events.\<close>

definition starts :: "'c chain_event list \<Rightarrow> call_info list" where
  "starts es = concat (map (\<lambda>e. case e of ToolStarted c \<Rightarrow> [c] | _ \<Rightarrow> []) es)"

definition completions :: "'c chain_event list \<Rightarrow> call_info list" where
  "completions es = concat (map (\<lambda>e. case e of ToolCompleted c out \<Rightarrow> [c] | _ \<Rightarrow> []) es)"

lemma event_lists [simp]:
  "starts [] = []" "completions [] = []"
  "starts (es @ fs) = starts es @ starts fs" "completions (es @ fs) = completions es @ completions fs"
  "starts (ToolStarted c # es) = c # starts es" "completions (ToolStarted c # es) = completions es"
  "starts (ToolCompleted c out # es) = starts es"
  "completions (ToolCompleted c out # es) = c # completions es"
  "starts (ToolPreview c d # es) = starts es" "completions (ToolPreview c d # es) = completions es"
  "starts (Warning w # es) = starts es" "completions (Warning w # es) = completions es"
  "starts (map Warning ws) = []" "completions (map Warning ws) = []"
  "starts (map PermissionEvent ps) = []" "completions (map PermissionEvent ps) = []"
  by (simp_all add: starts_def completions_def comp_def)

lemma emit_not_run_fields [simp]:
  "hc_subturn_max (emit_not_run_dispatch env call p out v s) = hc_subturn_max s"
  "hc_subturn_count (emit_not_run_dispatch env call p out v s) = hc_subturn_count s"
  "hc_turn_tools (emit_not_run_dispatch env call p out v s) = hc_turn_tools s"
  "hc_permission (emit_not_run_dispatch env call p out v s) = hc_permission s"
  by (simp_all add: emit_not_run_dispatch_def Let_def split: bool.split option.split not_run_outcome.split)

text \<open>What a call that never runs shows: its arguments, if they can be displayed, and why it ended.\<close>

definition preview_of :: "('q, 'p, 'c) chain_env \<Rightarrow> call_info \<Rightarrow> 'c chain_event list" where
  "preview_of env call =
     (case ce_display_from_arguments env (ci_tool call) (ci_arguments call) of
        Some d \<Rightarrow> [ToolPreview call d] | None \<Rightarrow> [])"

definition not_run :: "str \<Rightarrow> str \<Rightarrow> outcome_info" where
  "not_run kind message =
     \<lparr>oi_success = False, oi_status = StatusCancelled, oi_result = [], oi_display = None,
      oi_error_kind = Some kind, oi_message = Some message\<rparr>"

lemma preview_calls [simp]: "starts (preview_of env call) = []" "completions (preview_of env call) = []"
  by (simp_all add: preview_of_def split: option.split)

lemma emit_not_run_events:
  "hc_events (emit_not_run_dispatch env call p out v s) =
     hc_events s @ (if p then [ToolStarted call] else []) @ (if v then preview_of env call else []) @
     [ToolCompleted call (case out of
        NotRunCancelled \<Rightarrow> not_run ''cancelled'' cancelled_dispatch_message
      | NotRunDenied reason \<Rightarrow> not_run ''denied'' reason)]"
  by (simp add: emit_not_run_dispatch_def preview_of_def not_run_def Let_def
      split: bool.split option.split not_run_outcome.split)

section \<open>One dispatch\<close>

definition poll_cancels :: "cancel_poll \<Rightarrow> bool" where
  "poll_cancels p = (case p of Requested \<Rightarrow> True | PollLagged n \<Rightarrow> True | _ \<Rightarrow> False)"

definition args_of :: "dispatch_event \<Rightarrow> str" where
  "args_of ev = (case de_args ev of None \<Rightarrow> [] | Some a \<Rightarrow> a)"

text \<open>The call as it is shown to the user.\<close>

definition call_of :: "('q, 'p, 'c) chain_env \<Rightarrow> dispatch_event \<Rightarrow> str \<Rightarrow> ('q, 'p, 'c) chain \<Rightarrow> call_info" where
  "call_of env ev name s =
     \<lparr>ci_tool = name,
      ci_source = source_as_str (resolve_tool_source (ce_closures env)
                    (registry_contains (hc_registry s)) name),
      ci_arguments = args_of ev, ci_call_line = ce_render env name (args_of ev)\<rparr>"

lemma call_of_fields [simp]:
  "ci_tool (call_of env ev name s) = name" "ci_arguments (call_of env ev name s) = args_of ev"
  by (simp_all add: call_of_def)

text \<open>What the loop detector finds in a call, if it is on.\<close>

definition doom_found ::
  "('q, 'p, 'c) chain_env \<Rightarrow> str \<Rightarrow> str \<Rightarrow> doom_state \<Rightarrow> doom_detection option" where
  "doom_found env name args d =
     (if ce_repetition_guard env
      then fst (doom_check_and_record (canonicalize_args (ce_parse env) (ce_ser_str env) (ce_ser env))
                  name args d)
      else None)"

text \<open>The gates before the permission resolver.\<close>

definition gates_pass :: "('q, 'p, 'c) chain_env \<Rightarrow> dispatch_event \<Rightarrow> str \<Rightarrow> ('q, 'p, 'c) chain \<Rightarrow> bool" where
  "gates_pass env ev name s \<longleftrightarrow>
     \<not> poll_cancels (fst (ce_poll env (hc_cancel_rx s))) \<and>
     (hc_subturn_max s = 0 \<or> hc_subturn_count s < hc_subturn_max s) \<and>
     doom_found env name (args_of ev) (hc_doom s) = None \<and>
     check_server_enabled name (hc_registry s) = None"

lemma check_and_increment_fields [simp]:
  "fst (check_and_increment s) = None \<longleftrightarrow> hc_subturn_max s = 0 \<or> hc_subturn_count s < hc_subturn_max s"
  "hc_subturn_max (snd (check_and_increment s)) = hc_subturn_max s"
  "hc_cancel_rx (snd (check_and_increment s)) = hc_cancel_rx s"
  "hc_doom (snd (check_and_increment s)) = hc_doom s"
  "hc_registry (snd (check_and_increment s)) = hc_registry s"
  "hc_permission (snd (check_and_increment s)) = hc_permission s"
  "hc_turn_tools (snd (check_and_increment s)) = hc_turn_tools s"
  "hc_events (snd (check_and_increment s)) = hc_events s"
  by (auto simp: check_and_increment_def)

definition logged :: "('q, 'p, 'c) chain_env \<Rightarrow> dispatch_event \<Rightarrow> str \<Rightarrow> turn_tool_record list \<Rightarrow> turn_tool_record list" where
  "logged env ev name log =
     (case de_call_id ev of
        Some call_id \<Rightarrow> if ce_name_ok env name then record_call call_id name (args_of ev) log else log
      | None \<Rightarrow> log)"

lemma is_cancelled_fields [simp]:
  "fst (is_cancelled env s) = poll_cancels (fst (ce_poll env (hc_cancel_rx s)))"
  "snd (is_cancelled env s) = s\<lparr>hc_cancel_rx := snd (ce_poll env (hc_cancel_rx s))\<rparr>"
  by (simp_all add: is_cancelled_def poll_cancels_def split: prod.split)

lemma dispatch_sync_eq:
  assumes "de_tool_name ev = Some name"
  shows "dispatch_sync env ev s =
    (let s2 = s\<lparr>hc_turn_tools := logged env ev name (hc_turn_tools s),
                 hc_cancel_rx := snd (ce_poll env (hc_cancel_rx s))\<rparr>;
         s3 = snd (check_and_increment s2)
     in (\<lparr>dc_cancelled = poll_cancels (fst (ce_poll env (hc_cancel_rx s))),
          dc_subturn = fst (check_and_increment s2),
          dc_circuit = check_server_enabled name (hc_registry s3),
          dc_source = source_as_str (resolve_tool_source (ce_closures env)
                        (registry_contains (hc_registry s3)) name)\<rparr>, s3))"
proof -
  have log: "(case de_call_id ev of
       Some call_id \<Rightarrow>
         (if ce_name_ok env name
          then s\<lparr>hc_turn_tools := record_call call_id name
                   (case de_args ev of None \<Rightarrow> [] | Some a \<Rightarrow> a) (hc_turn_tools s)\<rparr>
          else s)
     | None \<Rightarrow> s) = s\<lparr>hc_turn_tools := logged env ev name (hc_turn_tools s)\<rparr>"
    by (simp add: logged_def args_of_def split: option.split)
  show ?thesis
    unfolding dispatch_sync_def assms option.case log Let_def
    by (simp add: case_prod_unfold)
qed

lemma dispatch_sync_result:
  assumes "de_tool_name ev = Some name" and "dispatch_sync env ev s = (checks, s1)"
  shows "dc_cancelled checks = poll_cancels (fst (ce_poll env (hc_cancel_rx s)))"
    and "dc_subturn checks = None \<longleftrightarrow> hc_subturn_max s = 0 \<or> hc_subturn_count s < hc_subturn_max s"
    and "dc_subturn checks \<noteq> None \<Longrightarrow> dc_subturn checks = Some (cap_message (hc_subturn_max s))"
    and "dc_source checks = ci_source (call_of env ev name s)"
    and "dc_circuit checks = check_server_enabled name (hc_registry s)"
    and "hc_doom s1 = hc_doom s" "hc_permission s1 = hc_permission s" "hc_events s1 = hc_events s"
    and "hc_subturn_max s1 = hc_subturn_max s"
    and "hc_subturn_count s1 =
      (if hc_subturn_max s \<noteq> 0 \<and> dc_subturn checks = None then Suc (hc_subturn_count s) else hc_subturn_count s)"
    and "hc_turn_tools s1 = logged env ev name (hc_turn_tools s)"
  using assms(2) unfolding dispatch_sync_eq [OF assms(1)] Let_def
  by (auto simp: check_and_increment_def call_of_def split: if_splits)

lemma doom_check_fields:
  assumes "doom_check env name args s = (action, s1)"
  shows "hc_subturn_max s1 = hc_subturn_max s" "hc_subturn_count s1 = hc_subturn_count s"
    "hc_turn_tools s1 = hc_turn_tools s" "hc_permission s1 = hc_permission s"
    "hc_events s1 = hc_events s @ (case doom_found env name args (hc_doom s) of
        None \<Rightarrow> [] | Some (DoomStop t) \<Rightarrow> [] | Some d \<Rightarrow> [Warning (doom_message d)])"
    "action = (case doom_found env name args (hc_doom s) of
        None \<Rightarrow> None | Some (DoomStop t) \<Rightarrow> Some (Stop (doom_message (DoomStop t)))
      | Some d \<Rightarrow> Some (Skip (doom_message d)))"
  using assms
  by (auto simp: doom_check_def doom_found_def doom_hook_def Let_def
      split: if_splits prod.splits option.splits doom_detection.splits)

lemma permission_gate_fields:
  assumes "permission_gate env call call_id s = (action, s1)"
    and "ce_resolve env (ci_tool call) (ci_arguments call) call_id (hc_permission s) = (decision, asked, p)"
  shows "hc_subturn_max s1 = hc_subturn_max s" "hc_subturn_count s1 = hc_subturn_count s"
    "hc_turn_tools s1 = hc_turn_tools s"
    "action = (case decision of Granted \<Rightarrow> Proceed | Refused reason \<Rightarrow> Skip reason)"
    "hc_events s1 = hc_events s @ map PermissionEvent asked @
       (case decision of Granted \<Rightarrow> []
        | Refused reason \<Rightarrow>
            (if fst (ce_take_previewed env (ci_tool call) (ci_arguments call) p) then []
             else preview_of env call) @ [ToolCompleted call (not_run ''denied'' reason)])"
  using assms
  by (auto simp: permission_gate_def Let_def emit_not_run_events split: prod.splits resolution.splits)

text \<open>
  C20. What a dispatched call is answered and what it leaves behind.  A call runs exactly when no
  cancel is pending, the reply's cap is not reached, the loop detector is silent, the tool's server is
  enabled and the permission resolver grants it; the resolver is consulted only when all the other
  gates pass; a call with an id and a valid name is recorded in the turn's log whatever the answer.
  The first gate that fails decides the answer and the events: a pending cancel stops the run and
  shows the call started, previewed and completed as cancelled; a reached cap skips it with the cap's
  message and no event; a detected loop skips it with a warning or stops the run without one; a
  disabled server skips it silently; a call the resolver answers is started, then the resolver's events
  follow, and a refused one is completed as denied with the refusal's reason, after its preview unless the
  resolver already showed one.  So a call that does not run is never left open.
\<close>

theorem dispatch_decides:
  assumes "de_tool_name ev = Some name" and "on_dispatch env ev s = (action, s')"
    and "ce_resolve env name (args_of ev) (de_call_id ev) (hc_permission s) = (decision, asked, p)"
  shows "(action = Proceed \<longleftrightarrow> gates_pass env ev name s \<and> decision = Granted) \<and>
    (\<not> gates_pass env ev name s \<longrightarrow> hc_permission s' = hc_permission s) \<and>
    hc_turn_tools s' = logged env ev name (hc_turn_tools s) \<and>
    (\<exists>es. hc_events s' = hc_events s @ es \<and>
       completions es = (if action = Proceed then [] else starts es) \<and>
       (let call = call_of env ev name s;
            found = doom_found env name (args_of ev) (hc_doom s)
        in if poll_cancels (fst (ce_poll env (hc_cancel_rx s)))
           then action = Stop ''Cancelled by user'' \<and>
             es = [ToolStarted call] @ preview_of env call @
               [ToolCompleted call (not_run ''cancelled'' cancelled_dispatch_message)]
           else if hc_subturn_max s \<noteq> 0 \<and> hc_subturn_max s \<le> hc_subturn_count s
           then action = Skip (cap_message (hc_subturn_max s)) \<and> es = []
           else if found \<noteq> None
           then (case the found of
                   DoomStop t \<Rightarrow> action = Stop (doom_message (DoomStop t)) \<and> es = []
                 | d \<Rightarrow> action = Skip (doom_message d) \<and> es = [Warning (doom_message d)])
           else case check_server_enabled name (hc_registry s) of
                  Some m \<Rightarrow> action = Skip m \<and> es = []
                | None \<Rightarrow>
                   (case decision of
                      Granted \<Rightarrow> action = Proceed \<and> es = [ToolStarted call] @ map PermissionEvent asked
                    | Refused reason \<Rightarrow> action = Skip reason \<and>
                        es = [ToolStarted call] @ map PermissionEvent asked @
                          (if fst (ce_take_previewed env name (args_of ev) p) then []
                           else preview_of env call) @
                          [ToolCompleted call (not_run ''denied'' reason)])))"
proof -
  obtain checks s1 where sync: "dispatch_sync env ev s = (checks, s1)" by (cases "dispatch_sync env ev s")
  note r = dispatch_sync_result [OF assms(1) sync]
  from assms(2) have async: "dispatch_async env ev checks s1 = (action, s')"
    by (simp add: on_dispatch_def sync)
  define call where "call = call_of env ev name s"
  have call: "\<lparr>ci_tool = name, ci_source = dc_source checks, ci_arguments = args_of ev,
      ci_call_line = ce_render env name (args_of ev)\<rparr> = call"
    by (simp add: call_def call_of_def r)
  have c: "ci_tool call = name" "ci_arguments call = args_of ev" by (simp_all add: call_def)
  note eqs = dispatch_async_def assms(1) args_of_def [symmetric] call Let_def
  consider (cancel) "dc_cancelled checks"
    | (cap) m where "\<not> dc_cancelled checks" "dc_subturn checks = Some m"
    | (open_cap) "\<not> dc_cancelled checks" "dc_subturn checks = None" by fastforce
  then show ?thesis
  proof cases
    case cancel
    then have "action = Stop ''Cancelled by user''" "s' = emit_not_run_dispatch env call True NotRunCancelled True s1"
      using async by (simp_all add: eqs)
    with cancel r show ?thesis
      by (simp add: gates_pass_def emit_not_run_events call_def)
  next
    case cap
    then have "action = Skip m" "s' = s1" using async by (simp_all add: eqs)
    with cap r show ?thesis by (auto simp: gates_pass_def)
  next
    case open_cap
    obtain doom s2 where d: "doom_check env name (args_of ev) s1 = (doom, s2)"
      by (cases "doom_check env name (args_of ev) s1")
    note dr = doom_check_fields [OF d]
    show ?thesis
    proof (cases doom)
      case (Some a)
      then have "action = a" "s' = s2" using async open_cap d by (simp_all add: eqs)
      with Some open_cap r dr show ?thesis
        by (auto simp: gates_pass_def split: option.splits doom_detection.splits)
    next
      case None
      then have silent: "doom_found env name (args_of ev) (hc_doom s) = None"
        using dr(6) r by (auto split: option.splits doom_detection.splits)
      show ?thesis
      proof (cases "dc_circuit checks")
        case (Some m)
        then have "action = Skip m" "s' = s2" using async open_cap d None by (simp_all add: eqs)
        with Some silent open_cap r dr show ?thesis by (auto simp: gates_pass_def)
      next
        case None': None
        then have gate: "permission_gate env call (de_call_id ev) (send (ToolStarted call) s2) = (action, s')"
          using async open_cap d None by (simp add: eqs)
        have "ce_resolve env (ci_tool call) (ci_arguments call) (de_call_id ev)
            (hc_permission (send (ToolStarted call) s2)) = (decision, asked, p)"
          by (simp add: c dr r assms(3))
        note pr = permission_gate_fields [OF gate this]
        show ?thesis
          using silent None' open_cap r dr pr
          by (cases decision) (auto simp: gates_pass_def call_def)
      qed
    qed
  qed
qed


text \<open>A chain with no cancel pending, one cancel at most in its channel, and a resolver that grants.\<close>

definition sample_chain_env :: "(nat, unit, nat) chain_env" where
  "sample_chain_env =
     \<lparr>ce_poll = (\<lambda>n. if n = 0 then (PollEmpty, 0) else (Requested, n - 1)),
      ce_resolve = (\<lambda>_ _ _ p. (Granted, [], p)), ce_take_previewed = (\<lambda>_ _ p. (False, p)),
      ce_render = (\<lambda>name _. name), ce_display_from_arguments = (\<lambda>_ _. None),
      ce_display_from_result = (\<lambda>_ _. None), ce_name_ok = (\<lambda>n. n \<noteq> []), ce_closures = (\<lambda>_. False),
      ce_parse = (\<lambda>_. None), ce_ser_str = id, ce_ser = (\<lambda>_. []), ce_lower = id,
      ce_store = Loaded [], ce_fadd = (+), ce_fzero = 0, ce_spec = None, ce_model_id = ''m'',
      ce_repetition_guard = True, ce_threshold_tokens = None, ce_has_compaction_spec = False\<rparr>"

definition sample_chain :: "nat \<Rightarrow> (nat, unit, nat) chain" where
  "sample_chain cap =
     \<lparr>hc_cancel_rx = 0, hc_subturn_max = cap, hc_subturn_count = 0, hc_doom = doom_default,
      hc_repetition = repetition_default, hc_breaker = breaker_new 0, hc_registry = empty_registry,
      hc_history = [], hc_turn_tools = [], hc_permission = (), hc_last_total_tokens = None,
      hc_turn_usage = usage_default, hc_session_usage = usage_default, hc_store_latch = None,
      hc_unpriced = {}, hc_events = []\<rparr>"

definition read_call :: "str \<Rightarrow> dispatch_event" where
  "read_call i = \<lparr>de_tool_name = Some ''read'', de_args = Some ''{}'', de_call_id = Some i\<rparr>"

lemma sample_gates: "gates_pass sample_chain_env (read_call i) ''read'' (sample_chain 1)"
  by (simp add: gates_pass_def sample_chain_env_def sample_chain_def poll_cancels_def doom_found_def
      doom_check_and_record_def doom_default_def doom_loop_threshold_def check_server_enabled_def
      server_name_for_def empty_registry_def Let_def)

theorem dispatch_decides_witness:
  "\<exists>s'. on_dispatch sample_chain_env (read_call ''c1'') (sample_chain 1) = (Proceed, s') \<and>
     hc_events s' = [ToolStarted (call_of sample_chain_env (read_call ''c1'') ''read'' (sample_chain 1))]"
proof -
  obtain action s' where d: "on_dispatch sample_chain_env (read_call ''c1'') (sample_chain 1) = (action, s')"
    by (cases "on_dispatch sample_chain_env (read_call ''c1'') (sample_chain 1)")
  have n: "de_tool_name (read_call ''c1'') = Some ''read''" by (simp add: read_call_def)
  have g: "ce_resolve sample_chain_env ''read'' (args_of (read_call ''c1'')) (de_call_id (read_call ''c1''))
      (hc_permission (sample_chain 1)) = (Granted, [], ())"
    by (simp add: sample_chain_env_def)
  have e: "hc_events (sample_chain n) = []" "hc_subturn_count (sample_chain n) = 0" for n
    by (simp_all add: sample_chain_def)
  from dispatch_decides [OF n d g] sample_gates [of "''c1''"] show ?thesis
    unfolding d by (simp add: gates_pass_def e Let_def split: if_splits)
qed

section \<open>A reply's batch of calls\<close>

text \<open>
  The runner dispatches the calls of one reply concurrently: the synchronous part of a dispatch runs
  at once, its asynchronous part any time later, and outcomes arrive in any order.  The runner asks the
  model again only when no dispatch is under way.  The ghost fields hold the calls let through since
  the last model call and the call ids the turn has seen.
\<close>

record ('q, 'p, 'c) batch =
  ba_chain :: "('q, 'p, 'c) chain"
  ba_inflight :: "(dispatch_event \<times> dispatch_checks) list"
  ba_proceeded :: nat
  ba_seen :: "str set"

definition seen_call :: "('q, 'p, 'c) chain_env \<Rightarrow> str option \<Rightarrow> str \<Rightarrow> str set \<Rightarrow> str set" where
  "seen_call env call_id name seen =
     (case call_id of Some i \<Rightarrow> if ce_name_ok env name then insert i seen else seen | None \<Rightarrow> seen)"

inductive batch_step ::
  "('q, 'p, 'c) chain_env \<Rightarrow> ('q, 'p, 'c) batch \<Rightarrow> ('q, 'p, 'c) batch \<Rightarrow> bool"
  for env where
  model_call: "ba_inflight b = [] \<Longrightarrow> on_completion_call env history prompt (ba_chain b) = (action, s') \<Longrightarrow>
    batch_step env b (b\<lparr>ba_chain := s', ba_proceeded := 0\<rparr>)"
| dispatch_starts: "de_tool_name ev = Some name \<Longrightarrow> dispatch_sync env ev (ba_chain b) = (checks, s') \<Longrightarrow>
    batch_step env b (b\<lparr>ba_chain := s', ba_inflight := ba_inflight b @ [(ev, checks)],
      ba_seen := seen_call env (de_call_id ev) name (ba_seen b)\<rparr>)"
| dispatch_ends: "ba_inflight b = before @ (ev, checks) # after \<Longrightarrow> de_tool_name ev = Some name \<Longrightarrow>
    dispatch_async env ev checks (ba_chain b) = (action, s') \<Longrightarrow>
    batch_step env b (b\<lparr>ba_chain := s', ba_inflight := before @ after,
      ba_proceeded := ba_proceeded b + (if action = Proceed then 1 else 0)\<rparr>)"
| outcome: "on_outcome env ev (Some res) None (ba_chain b) = (action, s') \<Longrightarrow>
    batch_step env b (b\<lparr>ba_chain := s',
      ba_seen := seen_call env (oe_call_id ev) (case oe_tool_name ev of None \<Rightarrow> [] | Some n \<Rightarrow> n) (ba_seen b)\<rparr>)"
| reply: "on_outcome env ev None (Some (usage, content)) (ba_chain b) = (action, s') \<Longrightarrow>
    batch_step env b (b\<lparr>ba_chain := s'\<rparr>)"
| text_delta: "on_text_delta env delta aggregated (ba_chain b) = (action, s') \<Longrightarrow>
    batch_step env b (b\<lparr>ba_chain := s'\<rparr>)"
| turn_ends: "on_model_turn_finished env content (ba_chain b) = (action, s') \<Longrightarrow>
    batch_step env b (b\<lparr>ba_chain := s'\<rparr>)"

inductive batch_reach ::
  "('q, 'p, 'c) chain_env \<Rightarrow> ('q, 'p, 'c) chain \<Rightarrow> ('q, 'p, 'c) batch \<Rightarrow> bool" for env s0 where
  init: "batch_reach env s0 \<lparr>ba_chain = s0, ba_inflight = [], ba_proceeded = 0, ba_seen = {}\<rparr>"
| step: "batch_reach env s0 b \<Longrightarrow> batch_step env b b' \<Longrightarrow> batch_reach env s0 b'"

definition capped_pass :: "dispatch_event \<times> dispatch_checks \<Rightarrow> bool" where
  "capped_pass p \<longleftrightarrow> dc_subturn (snd p) = None"

lemma record_call_ids:
  "map ttr_call_id (record_call i name args log) =
     map ttr_call_id log @ (if i \<in> ttr_call_id ` set log then [] else [i])"
  by (auto simp: record_call_def list_ex_iff)

lemma update_first_ids:
  assumes "\<And>x. ttr_call_id (f x) = ttr_call_id x"
  shows "map ttr_call_id (update_first p f log) = map ttr_call_id log"
  by (induction log) (simp_all add: assms)

lemma record_result_ids:
  "map ttr_call_id (record_result i name args r log) =
     map ttr_call_id log @ (if i \<in> ttr_call_id ` set log then [] else [i])"
  by (auto simp: record_result_def list_ex_iff update_first_ids)

text \<open>A log that holds each seen call once.\<close>

definition log_ok :: "str set \<Rightarrow> turn_tool_record list \<Rightarrow> bool" where
  "log_ok seen log \<longleftrightarrow> distinct (map ttr_call_id log) \<and> ttr_call_id ` set log = seen"

lemma log_ok_ids:
  "log_ok seen log \<Longrightarrow>
   map ttr_call_id log' = map ttr_call_id log @ (if i \<in> ttr_call_id ` set log then [] else [i]) \<Longrightarrow>
   log_ok (insert i seen) log'"
proof -
  assume ok: "log_ok seen log"
    and ids: "map ttr_call_id log' = map ttr_call_id log @ (if i \<in> ttr_call_id ` set log then [] else [i])"
  have "set (map ttr_call_id log') = insert i seen"
    unfolding ids using ok by (auto simp: log_ok_def)
  moreover have "distinct (map ttr_call_id log')"
    unfolding ids using ok by (auto simp: log_ok_def)
  ultimately show "log_ok (insert i seen) log'" by (simp add: log_ok_def)
qed

lemma logged_ok:
  "log_ok seen log \<Longrightarrow> log_ok (seen_call env (de_call_id ev) name seen) (logged env ev name log)"
  by (auto simp: logged_def seen_call_def split: option.split intro: log_ok_ids [OF _ record_call_ids])

text \<open>What each handler does to the cap and to the log.\<close>

definition cap_view :: "('q, 'p, 'c) chain \<Rightarrow> nat \<times> nat \<times> turn_tool_record list" where
  "cap_view s = (hc_subturn_max s, hc_subturn_count s, hc_turn_tools s)"

lemma cap_view_send [simp]: "cap_view (send e s) = cap_view s"
  by (simp add: cap_view_def)

lemma cap_view_fold [simp]: "cap_view (fold (\<lambda>x. send (f x)) xs s) = cap_view s"
  by (simp add: cap_view_def)

lemma cap_view_update [simp]:
  "cap_view (s\<lparr>hc_cancel_rx := q\<rparr>) = cap_view s" "cap_view (s\<lparr>hc_doom := d\<rparr>) = cap_view s"
  "cap_view (s\<lparr>hc_repetition := r\<rparr>) = cap_view s" "cap_view (s\<lparr>hc_permission := p\<rparr>) = cap_view s"
  "cap_view (s\<lparr>hc_history := h\<rparr>) = cap_view s" "cap_view (s\<lparr>hc_store_latch := l\<rparr>) = cap_view s"
  "cap_view (s\<lparr>hc_breaker := b\<rparr>) = cap_view s" "cap_view (s\<lparr>hc_registry := g\<rparr>) = cap_view s"
  "cap_view (s\<lparr>hc_last_total_tokens := t\<rparr>) = cap_view s" "cap_view (s\<lparr>hc_unpriced := u\<rparr>) = cap_view s"
  "cap_view (s\<lparr>hc_turn_usage := tu\<rparr>) = cap_view s" "cap_view (s\<lparr>hc_session_usage := su\<rparr>) = cap_view s"
  by (simp_all add: cap_view_def)

lemma decide_compaction_view [simp]: "cap_view (decide_compaction env prompt s) = cap_view s"
  by (simp add: decide_compaction_def current_conversation_def emit_store_dead_def Let_def
      split: option.split store_read.split)

lemma completion_call_view:
  assumes "on_completion_call env history prompt s = (action, s')"
  shows "cap_view s' = (hc_subturn_max s, 0, hc_turn_tools s)"
proof -
  have v: "cap_view (subturn_reset (history_update history prompt s)) = (hc_subturn_max s, 0, hc_turn_tools s)"
    by (simp add: subturn_reset_def history_update_def cap_view_def)
  show ?thesis
    using assms unfolding on_completion_call_def Let_def case_prod_unfold is_cancelled_fields
    by (auto simp: v split: if_splits)
qed

lemma text_delta_view:
  "on_text_delta env delta aggregated s = (action, s') \<Longrightarrow> cap_view s' = cap_view s"
  unfolding on_text_delta_def Let_def case_prod_unfold is_cancelled_fields
  by (auto split: if_splits)

lemma turn_finished_view:
  "on_model_turn_finished env content s = (action, s') \<Longrightarrow> cap_view s' = cap_view s"
  unfolding on_model_turn_finished_def Let_def case_prod_unfold
  by (auto split: if_splits option.splits repetition_detection.splits)

lemma circuit_view [simp]: "cap_view (circuit_record_result name res s) = cap_view s"
  by (simp add: circuit_record_result_def Let_def)

lemma completion_outcome_view [simp]: "cap_view (on_completion_outcome env usage content s) = cap_view s"
proof -
  have "cap_view (snd (price_of env usage s)) = cap_view s" for s
    by (simp add: price_of_def split: option.split priced_outcome.split)
  then show ?thesis
    unfolding on_completion_outcome_def Let_def case_prod_unfold by (simp split: option.split)
qed

lemma tool_outcome_view:
  fixes ev :: outcome_event
  defines "name \<equiv> (case oe_tool_name ev of None \<Rightarrow> [] | Some n \<Rightarrow> n)"
  shows "\<exists>log. cap_view (on_tool_outcome env ev res s) = (hc_subturn_max s, hc_subturn_count s, log) \<and>
    (log_ok seen (hc_turn_tools s) \<longrightarrow> log_ok (seen_call env (oe_call_id ev) name seen) log)"
proof -
  show ?thesis
  proof (cases "\<exists>i. oe_call_id ev = Some i \<and> ce_name_ok env name")
    case True
    then obtain i where i: "oe_call_id ev = Some i" "ce_name_ok env name" by blast
    have "\<exists>a r. cap_view (on_tool_outcome env ev res s) =
        (hc_subturn_max s, hc_subturn_count s, record_result i name a r (hc_turn_tools s))"
      unfolding on_tool_outcome_def Let_def case_prod_unfold suppress_previewed_display_def
      by (simp add: i name_def [symmetric]) (auto simp: cap_view_def)
    then show ?thesis
      using i by (auto simp: seen_call_def intro: log_ok_ids [OF _ record_result_ids])
  next
    case False
    then have "cap_view (on_tool_outcome env ev res s) = cap_view s"
      unfolding on_tool_outcome_def Let_def case_prod_unfold suppress_previewed_display_def
      by (auto simp: name_def [symmetric] split: option.split)
    with False show ?thesis by (auto simp: cap_view_def seen_call_def split: option.split)
  qed
qed


lemma dispatch_async_view:
  assumes "de_tool_name ev = Some name" "dispatch_async env ev checks s = (action, s')"
  shows "cap_view s' = cap_view s" "action = Proceed \<Longrightarrow> dc_subturn checks = None"
proof -
  have gate: "cap_view s' = cap_view s1"
    if "permission_gate env call i s1 = (action, s')" for call i s1
    by (cases "ce_resolve env (ci_tool call) (ci_arguments call) i (hc_permission s1)")
      (use permission_gate_fields [OF that] in \<open>simp add: cap_view_def\<close>)
  have doom: "cap_view s2 = cap_view s" "a \<noteq> Some Proceed"
    if "doom_check env name args s = (a, s2)" for args a s2
    using doom_check_fields [OF that]
    by (auto simp: cap_view_def split: option.splits doom_detection.splits)
  show "cap_view s' = cap_view s"
    using assms unfolding dispatch_async_def Let_def
    by (auto split: if_splits option.splits prod.splits dest!: gate doom(1) simp: cap_view_def)
  show "action = Proceed \<Longrightarrow> dc_subturn checks = None"
    using assms unfolding dispatch_async_def Let_def
    by (auto split: if_splits option.splits)
qed

definition batch_inv :: "nat \<Rightarrow> ('q, 'p, 'c) batch \<Rightarrow> bool" where
  "batch_inv cap b \<longleftrightarrow>
     (case cap_view (ba_chain b) of (m, n, log) \<Rightarrow>
        m = cap \<and> log_ok (ba_seen b) log \<and>
        (cap \<noteq> 0 \<longrightarrow> ba_proceeded b + length (filter capped_pass (ba_inflight b)) \<le> n \<and> n \<le> cap))"

lemma batch_step_inv [inv_intros]:
  assumes "batch_step env b b'" and "batch_inv cap b"
  shows "batch_inv cap b'"
  using assms
proof (induction rule: batch_step.induct)
  case (model_call b history prompt action s')
  then show ?case by (auto simp: batch_inv_def completion_call_view cap_view_def [of "ba_chain b"])
next
  case (dispatch_starts ev name b checks s')
  note r = dispatch_sync_result [OF dispatch_starts(1,2)]
  have "cap_view s' = (hc_subturn_max (ba_chain b),
      (if hc_subturn_max (ba_chain b) \<noteq> 0 \<and> dc_subturn checks = None then Suc (hc_subturn_count (ba_chain b))
       else hc_subturn_count (ba_chain b)), logged env ev name (hc_turn_tools (ba_chain b)))"
    by (simp add: cap_view_def r)
  moreover have "log_ok (seen_call env (de_call_id ev) name (ba_seen b))
      (logged env ev name (hc_turn_tools (ba_chain b)))"
    using dispatch_starts(3) by (intro logged_ok) (simp add: batch_inv_def cap_view_def)
  ultimately show ?case
    using dispatch_starts(3) r(2)
    by (auto simp: batch_inv_def cap_view_def [of "ba_chain b"] capped_pass_def)
next
  case (dispatch_ends b before ev checks after name action s')
  note v = dispatch_async_view [OF dispatch_ends(2,3)]
  from v(2) have "(if action = Proceed then 1 else 0) \<le> length (filter capped_pass [(ev, checks)])"
    by (auto simp: capped_pass_def)
  with dispatch_ends(1,4) show ?case
    by (auto simp: batch_inv_def v(1) split: prod.splits if_splits)
next
  case (outcome ev res b action s')
  then have s': "s' = on_tool_outcome env ev res (ba_chain b)" by (simp add: on_outcome_def)
  from tool_outcome_view [of env ev res "ba_chain b" "ba_seen b"] outcome(2) show ?case
    by (auto simp: batch_inv_def s' cap_view_def [of "ba_chain b"])
next
  case (reply usage content b action s')
  then show ?case by (auto simp: batch_inv_def on_outcome_def)
next
  case (text_delta delta aggregated b action s')
  then show ?case by (simp add: batch_inv_def text_delta_view)
next
  case (turn_ends content b action s')
  then show ?case by (simp add: batch_inv_def turn_finished_view)
qed

text \<open>
  C21. A nonzero cap is a bound on what one reply can run, however its calls interleave: at most the
  configured number of calls are let through between two requests to the model, these and the calls
  under way that passed the cap are within the counter, the counter never exceeds the cap, and (for any
  cap) the turn's log holds, at every moment, every call with an id and a valid name the turn has seen,
  exactly once.
\<close>

theorem cap_bounds_every_reply:
  assumes "batch_reach env s0 b" and "hc_turn_tools s0 = []" and "hc_subturn_count s0 = 0"
  shows "(hc_subturn_max s0 \<noteq> 0 \<longrightarrow>
       ba_proceeded b + length (filter (\<lambda>(ev, checks). dc_subturn checks = None) (ba_inflight b))
         \<le> hc_subturn_count (ba_chain b) \<and>
       hc_subturn_count (ba_chain b) \<le> hc_subturn_max s0 \<and> ba_proceeded b \<le> hc_subturn_max s0) \<and>
    distinct (map ttr_call_id (hc_turn_tools (ba_chain b))) \<and>
    ttr_call_id ` set (hc_turn_tools (ba_chain b)) = ba_seen b"
proof -
  from assms have "batch_inv (hc_subturn_max s0) b"
  proof (induction rule: batch_reach.induct)
    case init
    then show ?case by (simp add: batch_inv_def cap_view_def log_ok_def)
  next
    case (step b b')
    then show ?case by (blast intro: inv_intros)
  qed
  moreover have "filter (\<lambda>(ev, checks). dc_subturn checks = None) l = filter capped_pass l" for l
    by (rule filter_cong) (auto simp: capped_pass_def)
  ultimately show ?thesis by (auto simp: batch_inv_def cap_view_def log_ok_def)
qed

theorem cap_bounds_every_reply_witness:
  "\<exists>b. batch_reach sample_chain_env (sample_chain 1) b \<and> ba_inflight b \<noteq> [] \<and> ba_proceeded b \<le> 1"
proof -
  let ?b0 = "\<lparr>ba_chain = sample_chain 1, ba_inflight = [], ba_proceeded = 0, ba_seen = {}\<rparr>"
  obtain checks s1 where d: "dispatch_sync sample_chain_env (read_call ''c1'') (ba_chain ?b0) = (checks, s1)"
    by (cases "dispatch_sync sample_chain_env (read_call ''c1'') (ba_chain ?b0)")
  have n: "de_tool_name (read_call ''c1'') = Some ''read''" by (simp add: read_call_def)
  note reach = batch_reach.step [OF batch_reach.init batch_step.dispatch_starts [OF n d]]
  have "hc_subturn_max (sample_chain 1) = 1" "hc_turn_tools (sample_chain 1) = []"
    "hc_subturn_count (sample_chain 1) = 0" by (simp_all add: sample_chain_def)
  with cap_bounds_every_reply [OF reach] reach show ?thesis by (intro exI conjI) (assumption | simp)+
qed

end
