(* ===== verification/Compaction.thy ===== *)
theory Compaction
  imports Recovery
begin

text \<open>
  Compaction of a session: the compactor of
  \<open>crates/agnt-core/src/conversation/compaction/compactor.rs\<close> and \<open>run_compaction\<close> of
  \<open>hook/chain.rs\<close>.  rig's policy, store, stream and summarizer are parameters; the select between the
  stream and the cancel channel is the position of the cancel in the sequence of inputs.
\<close>

section \<open>The inputs\<close>

datatype stream_item =
    TextChunk str
  | ReasoningChunk
  | PartStart
  | PartEndToolCall
  | ArgumentsChunk
  | PartEnd
  | UnknownChunk
  | StreamError str
  | CancelRequest

text \<open>
  \<open>en_store_refusal\<close> is the text of a store that cannot be opened; \<open>en_save_error k\<close> says whether the
  save number \<open>k\<close> of the compaction fails.
\<close>

record 'plan compaction_env =
  en_store_refusal :: "str option"
  en_has_spec :: bool
  en_load_error :: "str option"
  en_clear :: "rig_message list \<Rightarrow> nat \<times> rig_message list"
  en_save_error :: "nat \<Rightarrow> str option"
  en_plan :: "rig_message list \<Rightarrow> str + 'plan option"
  en_stream :: "'plan \<Rightarrow> str + stream_item list"
  en_summary_text :: "'plan \<Rightarrow> str + str"
  en_splice :: "'plan \<Rightarrow> str \<Rightarrow> rig_message list \<Rightarrow> rig_message list option"

datatype compaction_event =
    CStarted
  | CSummaryChunk str str
  | CCompleted str str
  | CFailed str

record compaction_state =
  cs_store :: "rig_message list"
  cs_latch :: "str option"
  cs_last_total :: "nat option"
  cs_events :: "compaction_event list"

definition cemit :: "compaction_event \<Rightarrow> compaction_state \<Rightarrow> compaction_state" where
  "cemit e s = s\<lparr>cs_events := cs_events s @ [e]\<rparr>"

text \<open>A failure is emitted and is the result.\<close>

definition cfail :: "str \<Rightarrow> compaction_state \<Rightarrow> (str + 'a) \<times> compaction_state" where
  "cfail message s = (Inl message, cemit (CFailed message) s)"

section \<open>The summary\<close>

fun stream_loop :: "str + str \<Rightarrow> str \<Rightarrow> stream_item list \<Rightarrow> compaction_state \<Rightarrow> (str + str) \<times> compaction_state" where
  "stream_loop answer aggregated [] s =
     (case answer of
        Inr t \<Rightarrow> (Inr t, s)
      | Inl e \<Rightarrow> cfail (''Compaction produced an unusable summary: '' @ e) s)"
| "stream_loop answer aggregated (item # rest) s =
     (case item of
        TextChunk t \<Rightarrow>
          stream_loop answer (aggregated @ t) rest (cemit (CSummaryChunk t (aggregated @ t)) s)
      | ReasoningChunk \<Rightarrow> stream_loop answer aggregated rest s
      | PartStart \<Rightarrow> stream_loop answer aggregated rest s
      | PartEnd \<Rightarrow> stream_loop answer aggregated rest s
      | PartEndToolCall \<Rightarrow> cfail ''Unexpected tool call during compaction'' s
      | ArgumentsChunk \<Rightarrow> cfail ''Unexpected tool call during compaction'' s
      | UnknownChunk \<Rightarrow> cfail ''Unexpected stream chunk: unknown'' s
      | StreamError e \<Rightarrow> cfail (''Compaction stream error: '' @ e) s
      | CancelRequest \<Rightarrow> cfail ''Compaction cancelled by user'' s)"

definition stream_summary ::
  "'plan compaction_env \<Rightarrow> 'plan \<Rightarrow> compaction_state \<Rightarrow> (str + str) \<times> compaction_state" where
  "stream_summary env plan s =
     (case en_stream env plan of
        Inl e \<Rightarrow> cfail (''Compaction stream error: '' @ e) s
      | Inr items \<Rightarrow> stream_loop (en_summary_text env plan) [] items s)"

section \<open>The compactor\<close>

definition save_conversation ::
  "'plan compaction_env \<Rightarrow> nat \<Rightarrow> rig_message list \<Rightarrow> compaction_state \<Rightarrow>
   (str + rig_message list) \<times> compaction_state" where
  "save_conversation env k conversation s =
     (case en_save_error env k of
        Some e \<Rightarrow> cfail (''Compaction save error: '' @ e) s
      | None \<Rightarrow> (Inr conversation, s\<lparr>cs_store := conversation\<rparr>))"

definition emit_completed :: "str \<Rightarrow> compaction_state \<Rightarrow> compaction_state" where
  "emit_completed summary = cemit (CCompleted (concat (take 200 (chars summary))) summary)"

text \<open>From the plan on: the summary is streamed, spliced in and saved.\<close>

definition compact_planned ::
  "'plan compaction_env \<Rightarrow> 'plan \<Rightarrow> rig_message list \<Rightarrow> compaction_state \<Rightarrow>
   (str + rig_message list option) \<times> compaction_state" where
  "compact_planned env plan conversation s =
     (case stream_summary env plan (cemit CStarted s) of
        (Inl e, s1) \<Rightarrow> (Inl e, s1)
      | (Inr summary, s1) \<Rightarrow>
          (case en_splice env plan summary conversation of
             None \<Rightarrow> cfail ''Compaction summary could not be spliced in'' s1
           | Some spliced \<Rightarrow>
               (case save_conversation env 1 spliced s1 of
                  (Inl e, s2) \<Rightarrow> (Inl e, s2)
                | (Inr saved, s2) \<Rightarrow> (Inr (Some saved), emit_completed summary s2))))"

definition compact ::
  "'plan compaction_env \<Rightarrow> compaction_state \<Rightarrow> (str + rig_message list option) \<times> compaction_state" where
  "compact env s =
     (if \<not> en_has_spec env
      then cfail ''Compaction is disabled: the session's provider resolved to no rig provider id'' s
      else case en_load_error env of
        Some e \<Rightarrow> cfail (''Compaction load error: '' @ e) s
      | None \<Rightarrow>
          (let (results, cleared) = en_clear env (cs_store s)
           in case (if results = 0 then (Inr cleared, s) else save_conversation env 0 cleared s) of
                (Inl e, s1) \<Rightarrow> (Inl e, s1)
              | (Inr conversation, s1) \<Rightarrow>
                  (case en_plan env conversation of
                     Inl e \<Rightarrow> cfail (''Compaction plan error: '' @ e) s1
                   | Inr None \<Rightarrow> (Inr None, s1)
                   | Inr (Some plan) \<Rightarrow> compact_planned env plan conversation s1)))"

text \<open>The worker's command; the result is the history after the splice.\<close>

definition run_compaction ::
  "'plan compaction_env \<Rightarrow> compaction_state \<Rightarrow> rig_message list option \<times> compaction_state" where
  "run_compaction env s =
     (case en_store_refusal env of
        Some message \<Rightarrow>
          (None, if cs_latch s \<noteq> None then s
                 else cemit (CFailed message) (s\<lparr>cs_latch := Some message\<rparr>))
      | None \<Rightarrow>
          (case compact env (s\<lparr>cs_latch := None\<rparr>) of
             (Inr (Some messages), s1) \<Rightarrow> (Some messages, s1\<lparr>cs_last_total := None\<rparr>)
           | (Inr None, s1) \<Rightarrow> (None, cemit (CCompleted [] []) s1)
           | (Inl e, s1) \<Rightarrow> (None, s1)))"

section \<open>Every run reports once\<close>

definition reports :: "compaction_event list \<Rightarrow> nat" where
  "reports es = length (filter (\<lambda>e. case e of CCompleted p b \<Rightarrow> True | CFailed m \<Rightarrow> True | _ \<Rightarrow> False) es)"

lemma reports_simps [simp]:
  "reports [] = 0" "reports (es @ fs) = reports es + reports fs"
  "reports [CStarted] = 0" "reports [CSummaryChunk t a] = 0" "reports [CCompleted p b] = 1" "reports [CFailed m] = 1"
  by (simp_all add: reports_def)

lemma cemit_fields [simp]:
  "cs_store (cemit e s) = cs_store s" "cs_latch (cemit e s) = cs_latch s"
  "cs_last_total (cemit e s) = cs_last_total s" "cs_events (cemit e s) = cs_events s @ [e]"
  by (simp_all add: cemit_def)

text \<open>The view of a step: what it leaves of the store and how often it reported.\<close>

lemma stream_loop_reports:
  "stream_loop answer agg items s = (r, s') \<Longrightarrow>
   cs_store s' = cs_store s \<and> cs_latch s' = cs_latch s \<and> cs_last_total s' = cs_last_total s \<and>
   reports (cs_events s') = reports (cs_events s) + (case r of Inl e \<Rightarrow> 1 | Inr t \<Rightarrow> 0)"
proof (induction items arbitrary: agg s)
  case Nil
  then show ?case by (auto simp: cfail_def split: sum.splits)
next
  case (Cons item items)
  then show ?case
    by (cases item) (auto simp: cfail_def dest!: Cons.IH)
qed

lemma stream_summary_reports:
  "stream_summary env plan s = (r, s') \<Longrightarrow>
   cs_store s' = cs_store s \<and> cs_latch s' = cs_latch s \<and> cs_last_total s' = cs_last_total s \<and>
   reports (cs_events s') = reports (cs_events s) + (case r of Inl e \<Rightarrow> 1 | Inr t \<Rightarrow> 0)"
  by (auto simp: stream_summary_def cfail_def split: sum.splits dest!: stream_loop_reports)

lemma save_reports:
  "save_conversation env k c s = (r, s') \<Longrightarrow>
   cs_store s' = (case r of Inl e \<Rightarrow> cs_store s | Inr d \<Rightarrow> c) \<and>
   (case r of Inl e \<Rightarrow> True | Inr d \<Rightarrow> d = c) \<and>
   cs_latch s' = cs_latch s \<and> cs_last_total s' = cs_last_total s \<and>
   reports (cs_events s') = reports (cs_events s) + (case r of Inl e \<Rightarrow> 1 | Inr t \<Rightarrow> 0)"
  by (auto simp: save_conversation_def cfail_def split: option.splits)

lemma planned_reports:
  assumes "compact_planned env plan c s = (r, s')"
  shows "r \<noteq> Inr None" "reports (cs_events s') = reports (cs_events s) + 1"
    "cs_latch s' = cs_latch s" "cs_last_total s' = cs_last_total s"
    "cs_store s' = (case r of Inr (Some m) \<Rightarrow> m | _ \<Rightarrow> cs_store s)"
  using assms
  by (auto simp: compact_planned_def cfail_def emit_completed_def split: sum.splits prod.splits option.splits
      dest!: stream_summary_reports save_reports)

lemma planned_splice:
  "compact_planned env plan c s = (Inr (Some m), s') \<Longrightarrow>
   \<exists>plan summary c. en_splice env plan summary c = Some m"
  by (auto simp: compact_planned_def cfail_def split: sum.splits prod.splits option.splits dest!: save_reports) blast

lemma compact_reports:
  assumes "compact env s = (r, s')"
  shows "reports (cs_events s') = reports (cs_events s) + (if r = Inr None then 0 else 1)"
    "cs_latch s' = cs_latch s" "cs_last_total s' = cs_last_total s"
    "case r of Inr (Some m) \<Rightarrow> cs_store s' = m \<and> (\<exists>plan summary c. en_splice env plan summary c = Some m)
     | _ \<Rightarrow> cs_store s' \<in> {cs_store s, snd (en_clear env (cs_store s))}"
  using assms
  by (auto simp: compact_def cfail_def split: sum.splits prod.splits option.splits if_splits
      dest!: save_reports dest: planned_reports planned_splice)


text \<open>
  C22. Every compaction run reports its end to the user exactly once, whatever fails or is cancelled,
  with one exception: while the store cannot be opened and that was reported before, a run, also one
  the user asked for, reports nothing.  Only a successful run replaces the conversation by a splice
  and forgets the measured context size; any other leaves the store as it was or with the old tool
  outputs cleared.  The latch is set exactly while the store cannot be opened.
\<close>

theorem compaction_reports_once:
  assumes "run_compaction env s = (answer, s')"
  shows "reports (cs_events s') = reports (cs_events s) +
      (if en_store_refusal env \<noteq> None \<and> cs_latch s \<noteq> None then 0 else 1) \<and>
    (case answer of
       Some m \<Rightarrow> cs_store s' = m \<and> cs_last_total s' = None \<and>
         (\<exists>plan summary c. en_splice env plan summary c = Some m)
     | None \<Rightarrow> cs_last_total s' = cs_last_total s \<and>
         cs_store s' \<in> {cs_store s, snd (en_clear env (cs_store s))}) \<and>
    (cs_latch s' = None \<longleftrightarrow> en_store_refusal env = None)"
proof (cases "en_store_refusal env")
  case (Some message)
  with assms show ?thesis by (auto simp: run_compaction_def split: if_splits)
next
  case None
  obtain r s1 where c: "compact env (s\<lparr>cs_latch := None\<rparr>) = (r, s1)"
    by (cases "compact env (s\<lparr>cs_latch := None\<rparr>)")
  from compact_reports [OF c] assms None c show ?thesis
    by (auto simp: run_compaction_def split: sum.splits option.splits)
qed

definition dead_store :: "unit compaction_env" where
  "dead_store = \<lparr>en_store_refusal = Some ''store locked'', en_has_spec = True, en_load_error = None,
     en_clear = (\<lambda>c. (0, c)), en_save_error = (\<lambda>_. None), en_plan = (\<lambda>_. Inr None),
     en_stream = (\<lambda>_. Inr []), en_summary_text = (\<lambda>_. Inr []), en_splice = (\<lambda>_ _ _. None)\<rparr>"

definition fresh_compaction :: compaction_state where
  "fresh_compaction = \<lparr>cs_store = [], cs_latch = None, cs_last_total = Some 7, cs_events = []\<rparr>"

theorem compaction_reports_once_witness:
  "let s1 = snd (run_compaction dead_store fresh_compaction);
       s2 = snd (run_compaction dead_store s1)
   in reports (cs_events s1) = 1 \<and> reports (cs_events s2) = 1"
proof -
  note once = compaction_reports_once [OF prod.collapse [symmetric]]
  have d: "en_store_refusal dead_store \<noteq> None" by (simp add: dead_store_def)
  have f: "cs_latch fresh_compaction = None" "reports (cs_events fresh_compaction) = 0"
    by (simp_all add: fresh_compaction_def)
  show ?thesis
    unfolding Let_def
    using once [of dead_store fresh_compaction]
      once [of dead_store "snd (run_compaction dead_store fresh_compaction)"] d f by simp
qed

end
