(* ===== verification/Fs_Text.thy ===== *)
theory Fs_Text
  imports Prelude
begin

text \<open>
  The text operations of the file tools: lines with their terminators and the window \<open>read\<close> returns
  (\<open>crates/agnt-core/src/tools/fs/core.rs\<close>), literal search and replace, the bounds put on a diff
  (\<open>tools/fs/diff.rs\<close>) and on a tool's output (\<open>tools/limits.rs\<close>).
\<close>

section \<open>Lines\<close>

fun split_lines_from :: "str \<Rightarrow> str \<Rightarrow> str list" where
  "split_lines_from acc [] = (if acc = [] then [] else [acc])"
| "split_lines_from acc (c # cs) =
     (if c = CHR 0x0A then (acc @ [c]) # split_lines_from [] cs else split_lines_from (acc @ [c]) cs)"

definition split_lines :: "str \<Rightarrow> str list" where
  "split_lines content = split_lines_from [] content"

text \<open>The content \<open>read_file\<close> returns; a window is cut only when both bounds are given.\<close>

definition read_window :: "nat option \<Rightarrow> nat option \<Rightarrow> str \<Rightarrow> str" where
  "read_window offset limit full_content =
     (case (offset, limit) of
        (Some off, Some n) \<Rightarrow> concat (take n (drop off (split_lines full_content)))
      | _ \<Rightarrow> full_content)"

lemma concat_split_lines_from: "concat (split_lines_from acc s) = acc @ s"
  by (induction acc s rule: split_lines_from.induct) simp_all

lemma concat_split_lines [simp]: "concat (split_lines s) = s"
  by (simp add: split_lines_def concat_split_lines_from)

text \<open>A line is empty of newlines but for its last character.\<close>

definition is_line :: "str \<Rightarrow> bool" where
  "is_line l \<longleftrightarrow> CHR 0x0A \<notin> set (butlast l) \<and> l \<noteq> []"

definition terminated :: "str \<Rightarrow> bool" where
  "terminated l \<longleftrightarrow> is_line l \<and> last l = CHR 0x0A"

lemma split_lines_shape:
  "CHR 0x0A \<notin> set acc \<Longrightarrow> k < length (split_lines_from acc s) \<Longrightarrow>
   is_line (split_lines_from acc s ! k) \<and>
   (Suc k < length (split_lines_from acc s) \<longrightarrow> terminated (split_lines_from acc s ! k))"
proof (induction acc s arbitrary: k rule: split_lines_from.induct)
  case (1 acc)
  then show ?case by (auto simp: is_line_def dest: in_set_butlastD split: if_splits)
next
  case (2 acc c cs)
  show ?case
  proof (cases "c = CHR 0x0A")
    case True
    with 2 show ?thesis
      by (cases k) (auto simp: is_line_def terminated_def butlast_append)
  next
    case False
    with 2 show ?thesis by auto
  qed
qed

lemma split_lines_from_terminated:
  assumes "CHR 0x0A \<notin> set l"
  shows "split_lines_from acc (l @ CHR 0x0A # s) = (acc @ l @ [CHR 0x0A]) # split_lines_from [] s"
  using assms by (induction l arbitrary: acc) auto

lemma split_lines_terminated:
  assumes "terminated l"
  shows "split_lines (l @ s) = l # split_lines s"
proof -
  from assms have "l = butlast l @ [CHR 0x0A]" "CHR 0x0A \<notin> set (butlast l)"
    by (auto simp: terminated_def is_line_def) (metis append_butlast_last_id)
  then show ?thesis
    unfolding split_lines_def using split_lines_from_terminated [of "butlast l" "[]" s]
    by (metis append.assoc append_Cons append_Nil)
qed

lemma split_lines_all_terminated:
  "\<forall>l \<in> set ls. terminated l \<Longrightarrow> split_lines (concat ls @ s) = ls @ split_lines s"
  by (induction ls) (simp_all add: split_lines_terminated)

lemma split_lines_one: "is_line l \<Longrightarrow> split_lines l = [l]"
proof -
  assume l: "is_line l"
  show ?thesis
  proof (cases "last l = CHR 0x0A")
    case True
    with l have "terminated l" by (simp add: terminated_def)
    from split_lines_terminated [OF this, of "[]"] show ?thesis by (simp add: split_lines_def)
  next
    case False
    have "split_lines_from acc l = [acc @ l]" if "CHR 0x0A \<notin> set l" "acc @ l \<noteq> []" for acc
      using that by (induction l arbitrary: acc) auto
    moreover from l False have "CHR 0x0A \<notin> set l"
      by (auto simp: is_line_def) (metis append_butlast_last_id in_set_conv_decomp rotate1.simps(2) set_ConsD set_rotate1)
    ultimately show ?thesis using l by (simp add: split_lines_def is_line_def)
  qed
qed

lemma split_lines_prefix_terminated:
  assumes "k < length (split_lines s)"
  shows "\<forall>l \<in> set (take k (split_lines s)). terminated l"
proof
  fix l assume "l \<in> set (take k (split_lines s))"
  then obtain j where j: "j < k" "l = split_lines s ! j"
    using assms by (auto simp: in_set_conv_nth)
  then show "terminated l"
    using split_lines_shape [of "[]" j s] assms by (auto simp: split_lines_def)
qed

text \<open>A block of consecutive lines of a text is split into the same lines.\<close>

lemma split_lines_block:
  "split_lines (concat (take n (drop off (split_lines s)))) = take n (drop off (split_lines s))"
proof -
  let ?L = "split_lines s"
  let ?B = "take n (drop off ?L)"
  show ?thesis
  proof (cases "?B = []")
    case True
    show ?thesis unfolding True by (simp add: split_lines_def)
  next
    case False
    then have B: "?B = butlast ?B @ [last ?B]" by simp
    have nth: "?B ! j = ?L ! (off + j)" "off + j < length ?L" if "j < length ?B" for j
      using that by auto
    have "terminated l" if "l \<in> set (butlast ?B)" for l
    proof -
      from that obtain j where j: "j < length ?B - 1" "l = butlast ?B ! j"
        by (auto simp: in_set_conv_nth)
      then have l: "l = ?L ! (off + j)" "Suc (off + j) < length ?L"
        using nth(1) [of j] nth(2) [of "Suc j"] by (auto simp: nth_butlast)
      then show ?thesis using split_lines_shape [of "[]" "off + j" s] by (simp add: split_lines_def)
    qed
    moreover have "is_line (last ?B)"
    proof -
      have j: "length ?B - 1 < length ?B" using False by (metis diff_less length_greater_0_conv zero_less_one)
      have "last ?B = ?L ! (off + (length ?B - 1))"
        by (rule trans [OF last_conv_nth [OF False] nth(1) [OF j]])
      moreover have "off + (length ?B - 1) < length ?L" by (rule nth(2) [OF j])
      ultimately show ?thesis
        using split_lines_shape [of "[]" "off + (length ?B - 1)" s] by (simp only: split_lines_def list.set empty_iff not_False_eq_True)
    qed
    ultimately have "split_lines (concat (butlast ?B) @ last ?B) = butlast ?B @ [last ?B]"
      using split_lines_all_terminated [of "butlast ?B" "last ?B"] split_lines_one [of "last ?B"]
      by metis
    moreover have "concat ?B = concat (butlast ?B) @ last ?B"
      by (subst B) (simp only: concat_append concat.simps append_Nil2)
    ultimately show ?thesis using B by simp
  qed
qed

text \<open>
  C23. Reading a file window by window loses nothing: the windows of \<open>limit\<close> lines, one after the
  other, put together are the file; each window holds at most \<open>limit\<close> lines and cuts no line; and a
  window past the end is empty.
\<close>

theorem read_windows_roundtrip:
  assumes "0 < limit"
  shows "concat (map (\<lambda>k. read_window (Some (k * limit)) (Some limit) content)
           [0..<Suc (length (split_lines content) div limit)]) = content \<and>
    (\<forall>offset. split_lines (read_window (Some offset) (Some limit) content) =
       take limit (drop offset (split_lines content))) \<and>
    (\<forall>offset \<ge> length (split_lines content). read_window (Some offset) (Some limit) content = [])"
proof -
  let ?L = "split_lines content"
  have chunks: "concat (map (\<lambda>k. read_window (Some (k * limit)) (Some limit) content) [0..<n]) =
      concat (take (n * limit) ?L)" for n
  proof (induction n)
    case (Suc n)
    have "take (Suc n * limit) ?L = take (n * limit) ?L @ take limit (drop (n * limit) ?L)"
      by (metis add.commute mult_Suc take_add)
    with Suc show ?case by (simp add: read_window_def)
  qed simp
  have "length ?L < Suc (length ?L div limit) * limit"
    using assms by (metis dividend_less_div_times mult.commute mult_Suc add.commute)
  then have "take (Suc (length ?L div limit) * limit) ?L = ?L" by simp
  with chunks have "concat (map (\<lambda>k. read_window (Some (k * limit)) (Some limit) content)
           [0..<Suc (length ?L div limit)]) = content" by (simp only: concat_split_lines)
  moreover have "split_lines (read_window (Some offset) (Some limit) content) = take limit (drop offset ?L)" for offset
    by (simp add: read_window_def split_lines_block)
  ultimately show ?thesis by (simp add: read_window_def)
qed


definition two_lines :: str where
  "two_lines = ''ab'' @ newline @ ''cd''"

theorem read_windows_roundtrip_witness:
  "concat (map (\<lambda>k. read_window (Some (k * 1)) (Some 1) two_lines)
     [0..<Suc (length (split_lines two_lines) div 1)]) = two_lines"
  by (rule read_windows_roundtrip [THEN conjunct1]) simp

section \<open>Literal search and replace\<close>

text \<open>
  \<open>replacen\<close> at the first match, and \<open>matches\<close> and \<open>replace\<close> over all matches from the left.  An empty
  search text matches at every character boundary.
\<close>

definition replace_first :: "str \<Rightarrow> str \<Rightarrow> str \<Rightarrow> str \<times> nat" where
  "replace_first search replacement content =
     (case str_find search content of
        Some start \<Rightarrow> (take start content @ replacement @ drop (start + length search) content, 1)
      | None \<Rightarrow> (content, 0))"

function cut_matches :: "str \<Rightarrow> str \<Rightarrow> str list" where
  "cut_matches search content =
     (if search = [] then [] # chars content @ [[]]
      else case str_find search content of
        None \<Rightarrow> [content]
      | Some i \<Rightarrow> take i content # cut_matches search (drop (i + length search) content))"
  by pat_completeness auto
termination
proof (relation "measure (\<lambda>(search, content). length content)")
  fix search content i
  assume "search \<noteq> []" and i: "str_find search content = Some i"
  then have "0 < length search" "i + length search \<le> length content" by (simp_all add: str_find_bound)
  then show "((search, drop (i + length search) content), search, content) \<in> measure (\<lambda>(search, content). length content)"
    by (auto intro!: diff_less)
qed simp

declare cut_matches.simps [simp del]

definition count_matches :: "str \<Rightarrow> str \<Rightarrow> nat" where
  "count_matches search content = length (cut_matches search content) - 1"

definition replace_matches :: "str \<Rightarrow> str \<Rightarrow> str \<Rightarrow> str" where
  "replace_matches search replacement content = join replacement (cut_matches search content)"

definition replace_all :: "str \<Rightarrow> str \<Rightarrow> str \<Rightarrow> str \<times> nat" where
  "replace_all search replacement content =
     (let replacements = count_matches search content in
      if replacements = 0 then (content, 0)
      else (replace_matches search replacement content, replacements))"

lemma cut_matches_nonempty [simp]: "cut_matches search content \<noteq> []"
  by (subst cut_matches.simps) (simp split: option.split)

lemma join_Cons: "xs \<noteq> [] \<Longrightarrow> join sep (x # xs) = x @ sep @ join sep xs"
  by (cases xs) simp_all

lemma join_empty: "join [] xs = concat xs"
  by (induction xs rule: induct_list012) simp_all

lemma cut_matches_join: "join search (cut_matches search content) = content"
proof (induction search content rule: cut_matches.induct)
  case (1 search content)
  show ?case
  proof (cases "search = []")
    case True
    then show ?thesis by (simp add: cut_matches.simps [of "[]"] join_empty)
  next
    case False
    show ?thesis
    proof (cases "str_find search content")
      case None
      with False show ?thesis by (simp add: cut_matches.simps [of search content])
    next
      case (Some i)
      with 1 False have "join search (cut_matches search (drop (i + length search) content)) =
          drop (i + length search) content" by simp
      with False Some str_find_Some [OF Some] show ?thesis
        by (subst cut_matches.simps) (simp add: join_Cons)
    qed
  qed
qed

lemma cut_matches_pieces:
  "search \<noteq> [] \<Longrightarrow> piece \<in> set (cut_matches search content) \<Longrightarrow> \<not> sublist search piece"
proof (induction search content rule: cut_matches.induct)
  case (1 search content)
  show ?case
  proof (cases "str_find search content")
    case None
    with 1 show ?thesis by (simp add: cut_matches.simps [of search content] str_find_None)
  next
    case (Some i)
    then consider "piece = take i content" | "piece \<in> set (cut_matches search (drop (i + length search) content))"
      using 1(2,3) by (subst (asm) cut_matches.simps) auto
    then show ?thesis
    proof cases
      case 1
      show ?thesis
      proof
        assume "sublist search piece"
        then obtain u v where uv: "piece = u @ search @ v" by (auto simp: sublist_def)
        then have "u @ search @ (v @ drop i content) = content"
          unfolding 1 by (metis append_assoc append_take_drop_id)
        from str_find_first [OF Some this] have "i \<le> length u" .
        moreover have "length piece \<le> i" by (simp add: 1)
        moreover have "0 < length search" using \<open>search \<noteq> []\<close> by simp
        ultimately show False using uv by simp
      qed
    next
      case 2
      from \<open>search \<noteq> []\<close> show ?thesis by (intro "1.IH" [OF _ Some _ 2])
    qed
  qed
qed

section \<open>The bounds of a diff\<close>

record diff_bounds =
  db_max_bytes :: nat
  db_max_lines :: nat

definition default_diff_bounds :: diff_bounds where
  "default_diff_bounds = \<lparr>db_max_bytes = 128 * 1024, db_max_lines = 4000\<rparr>"

definition count_hunks :: "str list \<Rightarrow> nat" where
  "count_hunks ls = length (filter (prefix ''@@ '') ls)"

definition build_truncation_marker :: "nat \<Rightarrow> nat \<Rightarrow> str" where
  "build_truncation_marker omitted_lines omitted_hunks =
     ''... diff truncated ... omitted_lines='' @ show_nat omitted_lines
     @ '' omitted_hunks='' @ show_nat omitted_hunks @ newline"

definition compact_markers :: "str list" where
  "compact_markers = [''...'' @ newline, ''...'', ''..'', ''.'', []]"

definition build_truncation_marker_bounded :: "nat \<Rightarrow> nat \<Rightarrow> nat \<Rightarrow> str" where
  "build_truncation_marker_bounded omitted_lines omitted_hunks max_bytes =
     (let marker = build_truncation_marker omitted_lines omitted_hunks in
      if length marker \<le> max_bytes then marker
      else case find (\<lambda>m. length m \<le> max_bytes) compact_markers of Some m \<Rightarrow> m | None \<Rightarrow> [])"

text \<open>The lines kept, from the front: how many and their bytes.\<close>

fun keep_lines :: "nat \<Rightarrow> nat \<Rightarrow> str list \<Rightarrow> nat \<Rightarrow> nat \<Rightarrow> nat \<times> nat" where
  "keep_lines max_lines max_bytes [] keep current = (keep, current)"
| "keep_lines max_lines max_bytes (line # rest) keep current =
     (if max_lines < keep + 1 \<or> max_bytes < current + length line then (keep, current)
      else keep_lines max_lines max_bytes rest (keep + 1) (current + length line))"

text \<open>The marker for what is left out; a kept line gives way while the marker does not fit.\<close>

fun marker_loop :: "nat \<Rightarrow> nat \<Rightarrow> str list \<Rightarrow> nat \<Rightarrow> nat \<Rightarrow> str \<times> nat" where
  "marker_loop max_lines max_bytes ls keep current =
     (let marker = build_truncation_marker_bounded (length ls - keep) (count_hunks (drop keep ls))
                     (max_bytes - current)
      in if keep + (if marker = [] then 0 else 1) \<le> max_lines \<and> current + length marker \<le> max_bytes
         then (marker, keep)
         else case keep of
           0 \<Rightarrow> (marker, 0)
         | Suc k \<Rightarrow> marker_loop max_lines max_bytes ls k (current - length (ls ! k)))"

definition apply_bounds :: "str \<Rightarrow> diff_bounds \<Rightarrow> str \<times> bool \<times> nat" where
  "apply_bounds diff_text bounds =
     (let ls = split_lines diff_text;
          max_lines = max (db_max_lines bounds) 1;
          max_bytes = db_max_bytes bounds;
          (keep, current) = keep_lines max_lines max_bytes ls 0 0
      in if keep = length ls then (diff_text, False, 0)
         else
           (let (marker, keep) = marker_loop max_lines max_bytes ls keep current
            in (concat (take keep ls) @ marker, True, count_hunks (drop keep ls))))"

declare marker_loop.simps [simp del]

lemma marker_bounded:
  "length (build_truncation_marker_bounded l h n) \<le> n"
  by (auto simp: build_truncation_marker_bounded_def compact_markers_def Let_def newline_def)

lemma marker_is_line:
  "build_truncation_marker_bounded l h n = [] \<or> is_line (build_truncation_marker_bounded l h n)"
proof -
  have "CHR 0x0A \<notin> set (show_nat k)" for k
  proof (induction k rule: show_nat.induct)
    case (1 n)
    have d: "char_of (48 + d) \<noteq> (CHR 0x0A :: char)" if "d < 10" for d :: nat
      using that by (auto simp: char_of_eq_iff take_bit_eq_mod)
    show ?case
      using 1 d [of n] d [of "n mod 10"] by (subst show_nat.simps) auto
  qed
  then have "is_line (build_truncation_marker l h)"
    by (auto simp: is_line_def build_truncation_marker_def newline_def butlast_append)
  then show ?thesis
    by (auto simp: build_truncation_marker_bounded_def compact_markers_def Let_def newline_def is_line_def)
qed

lemma keep_lines_inv:
  assumes "keep_lines max_lines max_bytes rest keep0 current0 = (keep, current)"
    and "keep0 \<le> max_lines" and "current0 \<le> max_bytes"
  shows "keep0 \<le> keep \<and> keep \<le> max_lines \<and> current \<le> max_bytes \<and> keep - keep0 \<le> length rest \<and>
    current0 + length (concat (take (keep - keep0) rest)) = current \<and>
    (keep - keep0 < length rest \<longrightarrow> max_lines < keep + 1 \<or> max_bytes < current + length (rest ! (keep - keep0)))"
  using assms
proof (induction max_lines max_bytes rest keep0 current0 arbitrary: rule: keep_lines.induct)
  case (2 max_lines max_bytes line rest k c)
  show ?case
  proof (cases "max_lines < k + 1 \<or> max_bytes < c + length line")
    case True
    with 2 show ?thesis by auto
  next
    case False
    from False 2(2) have "keep_lines max_lines max_bytes rest (k + 1) (c + length line) = (keep, current)"
      by simp
    from "2.IH" [OF False this] False have ih: "k + 1 \<le> keep \<and> keep \<le> max_lines \<and> current \<le> max_bytes \<and> keep - (k + 1) \<le> length rest \<and>
        c + length line + length (concat (take (keep - (k + 1)) rest)) = current \<and>
        (keep - (k + 1) < length rest \<longrightarrow> max_lines < keep + 1 \<or> max_bytes < current + length (rest ! (keep - (k + 1))))"
      by simp
    then have "k + 1 \<le> keep" by (rule conjunct1)
    then have k: "keep - k = Suc (keep - (k + 1))" by arith
    from ih show ?thesis unfolding k by (simp add: add.assoc)
  qed
qed auto

lemma marker_loop_inv:
  assumes "marker_loop max_lines max_bytes ls keep0 current = (marker, keep)"
    and "current = length (concat (take keep0 ls))" and "keep0 \<le> length ls"
    and "current \<le> max_bytes" and "0 < max_lines" and "keep0 \<le> max_lines"
  shows "keep \<le> keep0 \<and> keep + (if marker = [] then 0 else 1) \<le> max_lines \<and>
    length (concat (take keep ls)) + length marker \<le> max_bytes \<and>
    build_truncation_marker_bounded (length ls - keep) (count_hunks (drop keep ls))
      (max_bytes - length (concat (take keep ls))) = marker"
  using assms
proof (induction keep0 arbitrary: current)
  case 0
  then show ?case
    using marker_bounded [of _ _ max_bytes]
    by (subst (asm) marker_loop.simps) (auto simp: Let_def split: if_splits)
next
  case (Suc k)
  let ?m = "build_truncation_marker_bounded (length ls - Suc k) (count_hunks (drop (Suc k) ls)) (max_bytes - current)"
  show ?case
  proof (cases "Suc k + (if ?m = [] then 0 else 1) \<le> max_lines \<and> current + length ?m \<le> max_bytes")
    case True
    have "(?m, Suc k) = (marker, keep)"
      using Suc.prems(1) by (subst (asm) marker_loop.simps) (simp only: Let_def True if_True simp_thms)
    then have m: "marker = ?m" "keep = Suc k" by (metis prod.inject)+
    show ?thesis unfolding m using True Suc.prems(2) by simp
  next
    case False
    have step: "take (Suc k) ls = take k ls @ [ls ! k]"
      using Suc.prems(3) by (simp add: take_Suc_conv_app_nth)
    from False Suc.prems(1) have "marker_loop max_lines max_bytes ls k (current - length (ls ! k)) = (marker, keep)"
      by (subst (asm) marker_loop.simps) (simp add: Let_def split: if_splits)
    from Suc.IH [OF this] Suc.prems step show ?thesis by simp
  qed
qed

lemma count_hunks_split: "count_hunks (take k ls) + count_hunks (drop k ls) = count_hunks ls"
  unfolding count_hunks_def by (metis append_take_drop_id filter_append length_append)

text \<open>
  A diff shown to the user is bounded in bytes and in lines, is the diff itself exactly when that fits,
  and otherwise a prefix of its lines with a marker; the hunks not shown are counted.
\<close>

lemma apply_bounds_sound:
  assumes "apply_bounds diff_text bounds = (shown, truncated, omitted)"
  shows "length shown \<le> db_max_bytes bounds \<and> length (split_lines shown) \<le> max (db_max_lines bounds) 1 \<and>
    (truncated \<longleftrightarrow> \<not> (length diff_text \<le> db_max_bytes bounds \<and>
                     length (split_lines diff_text) \<le> max (db_max_lines bounds) 1)) \<and>
    (\<exists>keep marker. shown = concat (take keep (split_lines diff_text)) @ marker \<and>
       count_hunks (take keep (split_lines diff_text)) + omitted = count_hunks (split_lines diff_text) \<and>
       (marker = [] \<or> is_line marker) \<and> (truncated \<longrightarrow> keep < length (split_lines diff_text)) \<and>
       (\<not> truncated \<longrightarrow> shown = diff_text))"
proof -
  let ?L = "split_lines diff_text"
  let ?lines = "max (db_max_lines bounds) 1"
  let ?bytes = "db_max_bytes bounds"
  obtain keep current where k: "keep_lines ?lines ?bytes ?L 0 0 = (keep, current)"
    by (cases "keep_lines ?lines ?bytes ?L 0 0")
  note inv = keep_lines_inv [OF k]
  show ?thesis
  proof (cases "keep = length ?L")
    case True
    with assms k have "shown = diff_text" "\<not> truncated" "omitted = 0"
      by (simp_all add: apply_bounds_def Let_def)
    moreover from inv True have "length (concat ?L) \<le> ?bytes" "length ?L \<le> ?lines" by simp_all
    ultimately show ?thesis
      by (intro conjI exI [of _ "length ?L"] exI [of _ "[]"]) simp_all
  next
    case False
    with inv have less: "keep < length ?L" by simp
    obtain marker kept where mk: "marker_loop ?lines ?bytes ?L keep current = (marker, kept)"
      by (cases "marker_loop ?lines ?bytes ?L keep current")
    from assms k False mk have eqs: "shown = concat (take kept ?L) @ marker" "truncated" "omitted = count_hunks (drop kept ?L)"
      by (simp_all add: apply_bounds_def Let_def)
    from inv have "current = length (concat (take keep ?L))" "current \<le> ?bytes" "keep \<le> ?lines" by simp_all
    from marker_loop_inv [OF mk this(1) less_imp_le [OF less] this(2) _ this(3)]
    have loop: "kept \<le> keep" "kept + (if marker = [] then 0 else 1) \<le> ?lines"
        "length (concat (take kept ?L)) + length marker \<le> ?bytes"
        "marker = [] \<or> is_line marker"
      using marker_is_line by (auto simp: less_max_iff_disj)
    have "\<forall>l \<in> set (take kept ?L). terminated l"
      by (rule split_lines_prefix_terminated) (use loop(1) less in simp)
    then have "split_lines shown = take kept ?L @ split_lines marker"
      unfolding eqs by (rule split_lines_all_terminated)
    moreover have "length (split_lines marker) = (if marker = [] then 0 else 1)"
      using loop(4) split_lines_one [of marker] by (cases "marker = []") (simp_all add: split_lines_def)
    ultimately have "length (split_lines shown) \<le> ?lines" using loop(1,2) less by simp
    moreover have "\<not> (length diff_text \<le> ?bytes \<and> length ?L \<le> ?lines)"
    proof
      assume fits: "length diff_text \<le> ?bytes \<and> length ?L \<le> ?lines"
      have "length (concat (take (Suc keep) ?L)) + length (concat (drop (Suc keep) ?L)) = length diff_text"
        by (metis append_take_drop_id concat_append concat_split_lines length_append)
      moreover have "take (Suc keep) ?L = take keep ?L @ [?L ! keep]"
        using less by (rule take_Suc_conv_app_nth)
      ultimately have "current + length (?L ! keep) \<le> length diff_text"
        using inv by simp
      with inv fits less show False by auto
    qed
    ultimately show ?thesis
      using eqs loop less count_hunks_split [of kept ?L]
      by (intro conjI exI [of _ kept] exI [of _ marker]) auto
  qed
qed

section \<open>The output of a tool\<close>

text \<open>
  \<open>saved\<close> is the path of the file the full output was written to, when that worked.  A limit of 0
  turns truncation off.
\<close>

definition truncate_tool_output :: "str option \<Rightarrow> str \<Rightarrow> nat \<Rightarrow> str" where
  "truncate_tool_output saved output max_bytes =
     (if max_bytes = 0 \<or> length output \<le> max_bytes then output
      else
        (let boundary = floor_char_boundary output max_bytes;
             head = newline @ ''[output truncated: '' @ show_nat (length output)
                    @ '' bytes total, showing first '' @ show_nat max_bytes @ '' bytes. '';
             suffix = (case saved of
                Some path \<Rightarrow> head @ ''Full output saved to: '' @ path
                    @ ''. Use the `read` tool with offset and limit parameters to read more of the file.]''
              | None \<Rightarrow> head @ ''Full output could not be saved.]'')
         in take boundary output @ suffix))"

lemma truncate_tool_output_prefix:
  "truncate_tool_output saved output max_bytes = output \<or>
   (0 < max_bytes \<and> max_bytes < length output \<and>
    (\<exists>k suffix. truncate_tool_output saved output max_bytes = take k output @ newline @ suffix \<and>
       k \<le> max_bytes \<and> is_char_boundary output k))"
proof (cases "max_bytes = 0 \<or> length output \<le> max_bytes")
  case False
  have "is_char_boundary output (floor_boundary_from output i)" for i
    by (induction i) (auto simp: is_char_boundary_def)
  then have "is_char_boundary output (floor_char_boundary output max_bytes)"
    by (auto simp: floor_char_boundary_def is_char_boundary_def)
  with False floor_char_boundary_le [of "output" max_bytes] show ?thesis
    unfolding truncate_tool_output_def Let_def
    by (intro disjI2 conjI exI [of _ "floor_char_boundary output max_bytes"]) (auto split: option.split)
qed (simp add: truncate_tool_output_def)

end
