(* ===== verification/Fs_Edit.thy ===== *)
theory Fs_Edit
  imports Fs_Text
begin

text \<open>
  The \<open>read\<close> and \<open>edit\<close> tools: the plan and the application of an edit
  (\<open>crates/agnt-core/src/tools/fs/core.rs\<close>), the diff shown of it (\<open>tools/fs/diff.rs\<close>) and the
  handlers (\<open>tools/handler/edit.rs\<close>, \<open>read.rs\<close>, \<open>resolve.rs\<close>, \<open>pre_authorize.rs\<close>).  The file system is
  shared with other processes: every access is preceded by what they did since the last one, and may
  fail.  The hash, the regular expressions, the diff and serde's decoding are parameters.
\<close>

section \<open>Paths\<close>

text \<open>\<open>std::path\<close> on Unix: \<open>is_absolute\<close>, \<open>join\<close> and \<open>parent\<close>, which works on the components.\<close>

definition is_absolute :: "str \<Rightarrow> bool" where
  "is_absolute p \<longleftrightarrow> prefix ''/'' p"

definition path_join :: "str \<Rightarrow> str \<Rightarrow> str" where
  "path_join base p =
     (if is_absolute p then p
      else if base = [] \<or> last base = CHR ''/'' then base @ p else base @ ''/'' @ p)"

fun split_slash :: "str \<Rightarrow> str \<Rightarrow> str list" where
  "split_slash acc [] = [acc]"
| "split_slash acc (c # cs) =
     (if c = CHR ''/'' then acc # split_slash [] cs else split_slash (acc @ [c]) cs)"

definition path_components :: "str \<Rightarrow> str list" where
  "path_components p =
     (let parts = split_slash [] p;
          rest = filter (\<lambda>c. c \<noteq> [] \<and> c \<noteq> ''.'') parts
      in if hd parts = ''.'' then ''.'' # rest else rest)"

definition path_parent :: "str \<Rightarrow> str option" where
  "path_parent p =
     (case path_components p of
        [] \<Rightarrow> None
      | c # cs \<Rightarrow> Some ((if is_absolute p then ''/'' else []) @ join ''/'' (butlast (c # cs))))"

definition resolve_fs_path_for_cwd :: "str \<Rightarrow> str \<Rightarrow> str" where
  "resolve_fs_path_for_cwd p cwd = (if is_absolute p then p else path_join cwd p)"

section \<open>The file system\<close>

text \<open>
  An error has the name of its \<open>ErrorKind\<close> and its text.  An access of \<open>FailsAfter\<close> fails once the new
  file is in place, when the directory is synced.
\<close>

record io_error =
  ie_kind :: str
  ie_text :: str

datatype fault = FailsBefore io_error | FailsAfter io_error

record access =
  ac_others :: "(str \<times> str option) list"
  ac_fault :: "fault option"

text \<open>\<open>dk_writes\<close> records the overwrites of this process; the code has no such field.\<close>

record disk =
  dk_files :: "str \<rightharpoonup> str"
  dk_dirs :: "str set"
  dk_schedule :: "access list"
  dk_writes :: "(str \<times> str) list"

definition next_access :: "disk \<Rightarrow> fault option \<times> disk" where
  "next_access d =
     (case dk_schedule d of
        [] \<Rightarrow> (None, d)
      | a # rest \<Rightarrow>
          (ac_fault a, d\<lparr>dk_files := fold (\<lambda>(p, c) fs. fs(p := c)) (ac_others a) (dk_files d),
                         dk_schedule := rest\<rparr>))"

definition not_found :: io_error where
  "not_found = \<lparr>ie_kind = ''NotFound'', ie_text = ''No such file or directory (os error 2)''\<rparr>"

definition is_a_directory :: io_error where
  "is_a_directory = \<lparr>ie_kind = ''IsADirectory'', ie_text = ''Is a directory (os error 21)''\<rparr>"

definition fault_error :: "fault \<Rightarrow> io_error" where
  "fault_error f = (case f of FailsBefore e \<Rightarrow> e | FailsAfter e \<Rightarrow> e)"

definition path_exists :: "str \<Rightarrow> disk \<Rightarrow> bool \<times> disk" where
  "path_exists p d =
     (let (f, d1) = next_access d in (f = None \<and> (dk_files d1 p \<noteq> None \<or> p \<in> dk_dirs d1), d1))"

definition read_to_string :: "str \<Rightarrow> disk \<Rightarrow> (io_error + str) \<times> disk" where
  "read_to_string p d =
     (let (f, d1) = next_access d in
      case f of
        Some e \<Rightarrow> (Inl (fault_error e), d1)
      | None \<Rightarrow>
          (case dk_files d1 p of
             Some c \<Rightarrow> (Inr c, d1)
           | None \<Rightarrow> (Inl (if p \<in> dk_dirs d1 then is_a_directory else not_found), d1)))"

definition put_file :: "str \<Rightarrow> str \<Rightarrow> disk \<Rightarrow> disk" where
  "put_file p content d =
     d\<lparr>dk_files := (dk_files d)(p \<mapsto> content), dk_writes := dk_writes d @ [(p, content)]\<rparr>"

text \<open>A temporary file in the same directory is renamed over the path.\<close>

definition atomic_overwrite :: "str \<Rightarrow> str \<Rightarrow> disk \<Rightarrow> (io_error + unit) \<times> disk" where
  "atomic_overwrite p content d =
     (case path_parent p of
        None \<Rightarrow> (Inl \<lparr>ie_kind = ''InvalidInput'',
                      ie_text = ''cannot atomically overwrite path without parent directory''\<rparr>, d)
      | Some parent \<Rightarrow>
          (let (f, d1) = next_access d in
           if parent \<notin> dk_dirs d1 then (Inl not_found, d1)
           else if p \<in> dk_dirs d1 then (Inl is_a_directory, d1)
           else case f of
             Some (FailsBefore e) \<Rightarrow> (Inl e, d1)
           | Some (FailsAfter e) \<Rightarrow> (Inl e, put_file p content d1)
           | None \<Rightarrow> (Inr (), put_file p content d1)))"

section \<open>Plans\<close>

datatype edit_match_mode = Literal | Regex
datatype edit_occurrence = FirstOccurrence | AllOccurrences

record edit_operation =
  eo_search :: str
  eo_replacement :: str
  eo_match_mode :: edit_match_mode
  eo_occurrence :: edit_occurrence

text \<open>A compiled expression, as far as the code uses it.\<close>

record regex =
  rx_is_match :: "str \<Rightarrow> bool"
  rx_count :: "str \<Rightarrow> nat"
  rx_replace_first :: "str \<Rightarrow> str \<Rightarrow> str"
  rx_replace_all :: "str \<Rightarrow> str \<Rightarrow> str"

datatype mutate_error =
    MissingExpectedVersion
  | Conflict str str
  | Io io_error
  | InvalidRegexPattern str str

record edit_env =
  ee_version :: "str \<Rightarrow> str"
  ee_regex :: "str \<Rightarrow> str + regex"
  ee_diff :: "str \<Rightarrow> str \<Rightarrow> str \<Rightarrow> str \<Rightarrow> str \<times> nat \<times> nat"

record edit_plan =
  pl_replacements :: nat
  pl_would_change :: bool
  pl_noop :: bool
  pl_conflict :: bool
  pl_expected_version :: str
  pl_previous_version :: str
  pl_new_version :: str
  pl_previous_bytes :: nat
  pl_new_bytes :: nat
  pl_previous_lines :: nat
  pl_new_lines :: nat
  pl_previous_content :: str
  pl_new_content :: str

record edit_summary =
  su_replacements :: nat
  su_wrote :: bool
  su_changed :: bool
  su_noop :: bool
  su_conflict :: bool
  su_expected_version :: str
  su_previous_version :: str
  su_new_version :: str

record apply_summary =
  as_wrote :: bool
  as_changed :: bool
  as_previous_version :: str
  as_new_version :: str
  as_previous_bytes :: nat
  as_new_bytes :: nat
  as_previous_lines :: nat
  as_new_lines :: nat

definition line_count :: "str \<Rightarrow> nat" where
  "line_count content = length (split_lines content)"

definition compile_regex :: "edit_env \<Rightarrow> str \<Rightarrow> mutate_error + regex" where
  "compile_regex env pattern =
     (case ee_regex env pattern of
        Inl message \<Rightarrow> Inl (InvalidRegexPattern pattern message)
      | Inr r \<Rightarrow> Inr r)"

definition compute_edit_result ::
  "edit_env \<Rightarrow> str \<Rightarrow> edit_operation \<Rightarrow> mutate_error + str \<times> nat" where
  "compute_edit_result env content op =
     (case (eo_match_mode op, eo_occurrence op) of
        (Literal, FirstOccurrence) \<Rightarrow> Inr (replace_first (eo_search op) (eo_replacement op) content)
      | (Literal, AllOccurrences) \<Rightarrow> Inr (replace_all (eo_search op) (eo_replacement op) content)
      | (Regex, FirstOccurrence) \<Rightarrow>
          (case compile_regex env (eo_search op) of
             Inl e \<Rightarrow> Inl e
           | Inr r \<Rightarrow> Inr (if \<not> rx_is_match r content then (content, 0)
                           else (rx_replace_first r content (eo_replacement op), 1)))
      | (Regex, AllOccurrences) \<Rightarrow>
          (case compile_regex env (eo_search op) of
             Inl e \<Rightarrow> Inl e
           | Inr r \<Rightarrow> Inr (if rx_count r content = 0 then (content, 0)
                           else (rx_replace_all r content (eo_replacement op), rx_count r content))))"

definition plan_search_replace_from_content ::
  "edit_env \<Rightarrow> str \<Rightarrow> str \<Rightarrow> edit_operation \<Rightarrow> mutate_error + edit_plan" where
  "plan_search_replace_from_content env content expected op =
     (let current = ee_version env content in
      if expected \<noteq> current
      then Inr \<lparr>pl_replacements = 0, pl_would_change = False, pl_noop = False, pl_conflict = True,
             pl_expected_version = expected, pl_previous_version = current, pl_new_version = current,
             pl_previous_bytes = length content, pl_new_bytes = length content,
             pl_previous_lines = line_count content, pl_new_lines = line_count content,
             pl_previous_content = content, pl_new_content = content\<rparr>
      else case compute_edit_result env content op of
        Inl e \<Rightarrow> Inl e
      | Inr (new_content, replacements) \<Rightarrow>
          Inr \<lparr>pl_replacements = replacements, pl_would_change = new_content \<noteq> content,
             pl_noop = (new_content = content), pl_conflict = False,
             pl_expected_version = expected, pl_previous_version = current,
             pl_new_version = (if new_content \<noteq> content then ee_version env new_content else current),
             pl_previous_bytes = length content, pl_new_bytes = length new_content,
             pl_previous_lines = line_count content, pl_new_lines = line_count new_content,
             pl_previous_content = content, pl_new_content = new_content\<rparr>)"

definition plan_search_replace_edit ::
  "edit_env \<Rightarrow> str \<Rightarrow> str option \<Rightarrow> edit_operation \<Rightarrow> disk \<Rightarrow> (mutate_error + edit_plan) \<times> disk" where
  "plan_search_replace_edit env p expected op d =
     (case expected of
        None \<Rightarrow> (Inl MissingExpectedVersion, d)
      | Some v \<Rightarrow>
          (case read_to_string p d of
             (Inl e, d1) \<Rightarrow> (Inl (Io e), d1)
           | (Inr content, d1) \<Rightarrow> (plan_search_replace_from_content env content v op, d1)))"

definition plan_create_from_content :: "edit_env \<Rightarrow> str \<Rightarrow> str option \<Rightarrow> edit_plan" where
  "plan_create_from_content env content existing =
     (case existing of
        Some current \<Rightarrow>
          \<lparr>pl_replacements = 0, pl_would_change = False, pl_noop = False, pl_conflict = True,
           pl_expected_version = [], pl_previous_version = ee_version env current,
           pl_new_version = ee_version env current,
           pl_previous_bytes = length current, pl_new_bytes = length current,
           pl_previous_lines = line_count current, pl_new_lines = line_count current,
           pl_previous_content = current, pl_new_content = current\<rparr>
      | None \<Rightarrow>
          \<lparr>pl_replacements = 0, pl_would_change = True, pl_noop = False, pl_conflict = False,
           pl_expected_version = [], pl_previous_version = ee_version env [],
           pl_new_version = ee_version env content,
           pl_previous_bytes = 0, pl_new_bytes = length content,
           pl_previous_lines = 0, pl_new_lines = line_count content,
           pl_previous_content = [], pl_new_content = content\<rparr>)"

definition plan_create_file ::
  "edit_env \<Rightarrow> str \<Rightarrow> str \<Rightarrow> disk \<Rightarrow> (mutate_error + edit_plan) \<times> disk" where
  "plan_create_file env p content d =
     (case path_exists p d of
        (False, d1) \<Rightarrow> (Inr (plan_create_from_content env content None), d1)
      | (True, d1) \<Rightarrow>
          (case read_to_string p d1 of
             (Inl e, d2) \<Rightarrow> (Inl (Io e), d2)
           | (Inr current, d2) \<Rightarrow> (Inr (plan_create_from_content env content (Some current)), d2)))"

section \<open>Application\<close>

definition check_conflict :: "str option \<Rightarrow> str \<Rightarrow> mutate_error + unit" where
  "check_conflict expected current =
     (case expected of
        Some v \<Rightarrow> if v \<noteq> current then Inl (Conflict v current) else Inr ()
      | None \<Rightarrow> Inr ())"

definition apply_full_content_mutation ::
  "edit_env \<Rightarrow> str \<Rightarrow> str option \<Rightarrow> str \<Rightarrow> disk \<Rightarrow> (mutate_error + apply_summary) \<times> disk" where
  "apply_full_content_mutation env p expected new_content d =
     (case expected of
        None \<Rightarrow> (Inl MissingExpectedVersion, d)
      | Some v \<Rightarrow>
          (case read_to_string p d of
             (Inl e, d1) \<Rightarrow> (Inl (Io e), d1)
           | (Inr content, d1) \<Rightarrow>
               (let current = ee_version env content in
                case check_conflict (Some v) current of
                  Inl e \<Rightarrow> (Inl e, d1)
                | Inr u \<Rightarrow>
                    (let summary = \<lparr>as_wrote = False, as_changed = False, as_previous_version = current,
                           as_new_version = current, as_previous_bytes = length content,
                           as_new_bytes = length new_content, as_previous_lines = line_count content,
                           as_new_lines = line_count new_content\<rparr>
                     in if content = new_content then (Inr summary, d1)
                        else case atomic_overwrite p new_content d1 of
                          (Inl e, d2) \<Rightarrow> (Inl (Io e), d2)
                        | (Inr w, d2) \<Rightarrow>
                            (Inr (summary\<lparr>as_wrote := True, as_changed := True,
                                    as_new_version := ee_version env new_content\<rparr>), d2)))))"

definition plan_summary :: "edit_plan \<Rightarrow> bool \<Rightarrow> bool \<Rightarrow> nat \<Rightarrow> edit_summary" where
  "plan_summary plan noop conflict replacements =
     \<lparr>su_replacements = replacements, su_wrote = False, su_changed = False, su_noop = noop,
      su_conflict = conflict, su_expected_version = pl_expected_version plan,
      su_previous_version = pl_previous_version plan, su_new_version = pl_new_version plan\<rparr>"

definition apply_search_replace_edit ::
  "edit_env \<Rightarrow> str \<Rightarrow> str option \<Rightarrow> edit_operation \<Rightarrow> disk \<Rightarrow> (mutate_error + edit_summary) \<times> disk" where
  "apply_search_replace_edit env p expected op d =
     (case plan_search_replace_edit env p expected op d of
        (Inl e, d1) \<Rightarrow> (Inl e, d1)
      | (Inr plan, d1) \<Rightarrow>
          (if pl_conflict plan then (Inr (plan_summary plan False True 0), d1)
           else if \<not> pl_would_change plan
           then (Inr (plan_summary plan True False (pl_replacements plan)), d1)
           else case apply_full_content_mutation env p (Some (pl_expected_version plan))
                       (pl_new_content plan) d1 of
             (Inl e, d2) \<Rightarrow> (Inl e, d2)
           | (Inr applied, d2) \<Rightarrow>
               (Inr \<lparr>su_replacements = pl_replacements plan, su_wrote = as_wrote applied,
                     su_changed = as_changed applied, su_noop = (\<not> as_changed applied),
                     su_conflict = False, su_expected_version = pl_expected_version plan,
                     su_previous_version = as_previous_version applied,
                     su_new_version = as_new_version applied\<rparr>, d2)))"

definition apply_create_file ::
  "edit_env \<Rightarrow> str \<Rightarrow> str \<Rightarrow> disk \<Rightarrow> (mutate_error + edit_summary) \<times> disk" where
  "apply_create_file env p content d =
     (case path_exists p d of
        (True, d1) \<Rightarrow>
          (case read_to_string p d1 of
             (Inl e, d2) \<Rightarrow> (Inl (Io e), d2)
           | (Inr current, d2) \<Rightarrow>
               (Inr \<lparr>su_replacements = 0, su_wrote = False, su_changed = False, su_noop = False,
                     su_conflict = True, su_expected_version = [],
                     su_previous_version = ee_version env current,
                     su_new_version = ee_version env current\<rparr>, d2))
      | (False, d1) \<Rightarrow>
          (case atomic_overwrite p content d1 of
             (Inl e, d2) \<Rightarrow> (Inl (Io e), d2)
           | (Inr u, d2) \<Rightarrow>
               (Inr \<lparr>su_replacements = 0, su_wrote = True, su_changed = True, su_noop = False,
                     su_conflict = False, su_expected_version = [],
                     su_previous_version = ee_version env [], su_new_version = ee_version env content\<rparr>, d2)))"

end
