(* ===== verification/Edit_Tool.thy ===== *)
theory Edit_Tool
  imports Fs_Edit
begin

text \<open>
  The handlers of the \<open>edit\<close> and \<open>read\<close> tools
  (\<open>crates/agnt-core/src/tools/handler/edit.rs\<close>, \<open>read.rs\<close>): the arguments, the diff shown, the
  response the model reads and the errors, on the file system of \<open>Fs_Edit\<close>.  A JSON response is a record
  of its fields.
\<close>

section \<open>Arguments\<close>

record edit_operation_args =
  ea_operation_type :: "str option"
  ea_search :: "str option"
  ea_replacement :: "str option"
  ea_match_mode :: "str option"
  ea_occurrence :: "str option"
  ea_content :: "str option"

record edit_args =
  ea_path :: str
  ea_expected_version :: "str option"
  ea_mode :: "str option"
  ea_operation :: edit_operation_args

datatype resolved_edit_operation = SearchReplace edit_operation | Create str

datatype edit_tool_mode = Preview | Apply

datatype tool_error_kind =
    KTimeout | KValidation | KAuthorization | KRuntime | KTransport | KUnknown | KNotRun

definition quoted :: "str \<Rightarrow> str" where
  "quoted s = [CHR 0x27] @ s @ [CHR 0x27]"

definition parse_edit_match_mode :: "str option \<Rightarrow> str + edit_match_mode" where
  "parse_edit_match_mode value =
     (let v = (case value of None \<Rightarrow> ''literal'' | Some s \<Rightarrow> s) in
      if v = ''literal'' then Inr Literal
      else if v = ''regex'' then Inr Regex
      else Inl (''Invalid edit.match_mode '' @ quoted v @ '': expected '' @ quoted ''literal'' @ '' or '' @ quoted ''regex''))"

definition parse_edit_occurrence :: "str option \<Rightarrow> str + edit_occurrence" where
  "parse_edit_occurrence value =
     (let v = (case value of None \<Rightarrow> ''first'' | Some s \<Rightarrow> s) in
      if v = ''first'' then Inr FirstOccurrence
      else if v = ''all'' then Inr AllOccurrences
      else Inl (''Invalid edit.occurrence '' @ quoted v @ '': expected '' @ quoted ''first'' @ '' or '' @ quoted ''all''))"

definition parse_edit_mode :: "str option \<Rightarrow> str + edit_tool_mode" where
  "parse_edit_mode value =
     (let v = (case value of None \<Rightarrow> ''apply'' | Some s \<Rightarrow> s) in
      if v = ''preview'' then Inr Preview
      else if v = ''apply'' then Inr Apply
      else Inl (''Invalid edit.mode '' @ quoted v @ '': expected '' @ quoted ''preview'' @ '' or '' @ quoted ''apply''))"

text \<open>Every refusal here is a validation error without details, so its message stands for it.\<close>

definition resolve_edit_operation :: "edit_args \<Rightarrow> str + resolved_edit_operation" where
  "resolve_edit_operation args =
     (let op = ea_operation args;
          op_type = (case ea_operation_type op of None \<Rightarrow> ''search_replace'' | Some t \<Rightarrow> t)
      in if op_type = ''create''
         then (case ea_content op of
                 None \<Rightarrow> Inl ''Invalid edit arguments: missing field `operation.content` for create operation''
               | Some content \<Rightarrow> Inr (Create content))
         else if op_type = ''search_replace''
         then (case ea_search op of
                 None \<Rightarrow> Inl ''Invalid edit arguments: missing field `operation.search` for search_replace operation''
               | Some search \<Rightarrow>
             (case ea_replacement op of
                 None \<Rightarrow> Inl ''Invalid edit arguments: missing field `operation.replacement` for search_replace operation''
               | Some replacement \<Rightarrow>
             (case parse_edit_match_mode (ea_match_mode op) of
                 Inl e \<Rightarrow> Inl e
               | Inr match_mode \<Rightarrow>
             (case parse_edit_occurrence (ea_occurrence op) of
                 Inl e \<Rightarrow> Inl e
               | Inr occurrence \<Rightarrow>
                   Inr (SearchReplace \<lparr>eo_search = search, eo_replacement = replacement,
                          eo_match_mode = match_mode, eo_occurrence = occurrence\<rparr>)))))
         else Inl (''Invalid edit.operation.type '' @ quoted op_type @ '': expected ''
                   @ quoted ''search_replace'' @ '' or '' @ quoted ''create''))"

section \<open>The diff\<close>

record unified_diff =
  ud_text :: str
  ud_truncated :: bool
  ud_omitted_files :: nat
  ud_omitted_hunks :: nat
  ud_files_changed :: nat
  ud_insertions :: nat
  ud_deletions :: nat

definition normalize_path_for_diff :: "str \<Rightarrow> str" where
  "normalize_path_for_diff p =
     (let normalized = map (\<lambda>c. if c = CHR 0x5C then CHR ''/'' else c) p
      in if normalized = [] then ''file'' else normalized)"

definition compute_edit_unified_diff_bounded ::
  "edit_env \<Rightarrow> str \<Rightarrow> str \<Rightarrow> str \<Rightarrow> diff_bounds \<Rightarrow> unified_diff" where
  "compute_edit_unified_diff_bounded env p previous next_text bounds =
     (if previous = next_text
      then \<lparr>ud_text = [], ud_truncated = False, ud_omitted_files = 0, ud_omitted_hunks = 0,
            ud_files_changed = 0, ud_insertions = 0, ud_deletions = 0\<rparr>
      else
        (let (rendered, insertions, deletions) =
               ee_diff env (''a/'' @ normalize_path_for_diff p) (''b/'' @ normalize_path_for_diff p)
                 previous next_text;
             (bounded, truncated, omitted) = apply_bounds rendered bounds
         in \<lparr>ud_text = bounded, ud_truncated = truncated, ud_omitted_files = 0,
             ud_omitted_hunks = omitted, ud_files_changed = 1, ud_insertions = insertions,
             ud_deletions = deletions\<rparr>))"

definition plan_diff :: "edit_env \<Rightarrow> str \<Rightarrow> edit_plan \<Rightarrow> unified_diff" where
  "plan_diff env p plan =
     compute_edit_unified_diff_bounded env p (pl_previous_content plan) (pl_new_content plan)
       default_diff_bounds"

text \<open>The display of a preview is one diff section for a path.\<close>

record edit_display =
  ed_path :: str
  ed_diff :: unified_diff

definition edit_preview_display :: "edit_env \<Rightarrow> str \<Rightarrow> edit_plan \<Rightarrow> edit_display" where
  "edit_preview_display env p plan = \<lparr>ed_path = p, ed_diff = plan_diff env p plan\<rparr>"

section \<open>Responses and errors\<close>

record edit_outcome =
  eu_changed :: bool
  eu_replacements :: nat
  eu_wrote :: bool
  eu_noop :: bool
  eu_conflict :: bool
  eu_expected_version :: str
  eu_previous_version :: str
  eu_new_version :: str

record edit_stats =
  es_replacements :: nat
  es_previous_bytes :: nat
  es_new_bytes :: nat
  es_previous_lines :: nat
  es_new_lines :: nat
  es_files_changed :: nat
  es_insertions :: nat
  es_deletions :: nat
  es_diff_truncated :: bool
  es_omitted_files :: nat
  es_omitted_hunks :: nat

text \<open>The last two fields are absent from a response that reports an error, or that embeds no display.\<close>

record edit_response =
  er_path :: str
  er_mode :: edit_tool_mode
  er_applied :: bool
  er_would_change :: bool
  er_diff :: str
  er_stats :: edit_stats
  er_diagnostics :: "(str \<times> str) list"
  er_outcome :: "edit_outcome option"
  er_display :: "edit_display option"

datatype error_details = NoDetails | ClassDetails str "str option" | ResponseDetails edit_response

record handler_error =
  he_kind :: tool_error_kind
  he_message :: str
  he_details :: error_details

definition validation_error :: "str \<Rightarrow> handler_error" where
  "validation_error message = \<lparr>he_kind = KValidation, he_message = message, he_details = NoDetails\<rparr>"

definition map_edit_contract_error :: "handler_error \<Rightarrow> str" where
  "map_edit_contract_error e =
     (case he_details e of
        ClassDetails class io_kind \<Rightarrow>
          (if class \<in> {''validation'', ''stale'', ''permission'', ''conflict''} then class else ''internal'')
      | _ \<Rightarrow> (if he_kind e = KValidation then ''validation'' else ''internal''))"

definition mutate_error_text :: "mutate_error \<Rightarrow> str" where
  "mutate_error_text e =
     (case e of
        MissingExpectedVersion \<Rightarrow> ''missing expected_version for mutating operation''
      | Conflict expected current \<Rightarrow>
          ''version conflict: expected '' @ quoted expected @ '', current '' @ quoted current
      | Io io \<Rightarrow> ie_text io
      | InvalidRegexPattern pattern message \<Rightarrow>
          ''invalid regex pattern '' @ quoted pattern @ '': '' @ message)"

definition map_mutate_error :: "mutate_error \<Rightarrow> handler_error" where
  "map_mutate_error e =
     (case e of
        Io io \<Rightarrow>
          \<lparr>he_kind = KRuntime, he_message = ie_text io,
           he_details = ClassDetails (if ie_kind io = ''PermissionDenied'' then ''permission'' else ''internal'')
                          (Some (ie_kind io))\<rparr>
      | Conflict expected current \<Rightarrow>
          \<lparr>he_kind = KValidation, he_message = mutate_error_text e, he_details = ClassDetails ''stale'' None\<rparr>
      | _ \<Rightarrow>
          \<lparr>he_kind = KValidation, he_message = mutate_error_text e,
           he_details = ClassDetails ''validation'' None\<rparr>)"

definition build_edit_contract_response ::
  "edit_env \<Rightarrow> str \<Rightarrow> edit_tool_mode \<Rightarrow> edit_plan \<Rightarrow> bool \<Rightarrow> edit_summary option \<Rightarrow> edit_response" where
  "build_edit_contract_response env p mode plan applied summary =
     (let diff = plan_diff env p plan;
          out = (case summary of
             Some s \<Rightarrow>
               \<lparr>eu_changed = su_changed s, eu_replacements = pl_replacements plan, eu_wrote = su_wrote s,
                eu_noop = su_noop s, eu_conflict = su_conflict s,
                eu_expected_version = su_expected_version s,
                eu_previous_version = su_previous_version s, eu_new_version = su_new_version s\<rparr>
           | None \<Rightarrow>
               \<lparr>eu_changed = pl_would_change plan, eu_replacements = pl_replacements plan,
                eu_wrote = (applied \<and> pl_would_change plan), eu_noop = pl_noop plan,
                eu_conflict = pl_conflict plan, eu_expected_version = pl_expected_version plan,
                eu_previous_version = pl_previous_version plan, eu_new_version = pl_new_version plan\<rparr>)
      in \<lparr>er_path = p, er_mode = mode, er_applied = applied, er_would_change = eu_changed out,
          er_diff = ud_text diff,
          er_stats = \<lparr>es_replacements = pl_replacements plan, es_previous_bytes = pl_previous_bytes plan,
             es_new_bytes = pl_new_bytes plan, es_previous_lines = pl_previous_lines plan,
             es_new_lines = pl_new_lines plan, es_files_changed = ud_files_changed diff,
             es_insertions = ud_insertions diff, es_deletions = ud_deletions diff,
             es_diff_truncated = ud_truncated diff, es_omitted_files = ud_omitted_files diff,
             es_omitted_hunks = ud_omitted_hunks diff\<rparr>,
          er_diagnostics = (if eu_conflict out
             then [(''stale'', ''stale expected_version '' @ quoted (eu_expected_version out)
                     @ '' (current '' @ quoted (eu_previous_version out) @ '')'')]
             else []),
          er_outcome = Some out, er_display = None\<rparr>)"

definition build_edit_contract_error_response ::
  "str \<Rightarrow> edit_tool_mode \<Rightarrow> str \<Rightarrow> str \<Rightarrow> edit_response" where
  "build_edit_contract_error_response p mode class message =
     \<lparr>er_path = p, er_mode = mode, er_applied = False, er_would_change = False, er_diff = [],
      er_stats = \<lparr>es_replacements = 0, es_previous_bytes = 0, es_new_bytes = 0,
         es_previous_lines = 0, es_new_lines = 0, es_files_changed = 0, es_insertions = 0,
         es_deletions = 0, es_diff_truncated = False, es_omitted_files = 0, es_omitted_hunks = 0\<rparr>,
      er_diagnostics = [(class, message)], er_outcome = None, er_display = None\<rparr>"

definition mutate_error_response :: "str \<Rightarrow> edit_tool_mode \<Rightarrow> mutate_error \<Rightarrow> edit_response" where
  "mutate_error_response p mode e =
     (let mapped = map_mutate_error e
      in build_edit_contract_error_response p mode (map_edit_contract_error mapped) (he_message mapped))"

definition noop_or_conflict_error ::
  "edit_env \<Rightarrow> str \<Rightarrow> edit_tool_mode \<Rightarrow> edit_plan \<Rightarrow> handler_error" where
  "noop_or_conflict_error env p mode plan =
     \<lparr>he_kind = KValidation,
      he_message = (if pl_conflict plan
        then ''edit conflict: '' @ quoted p @ '' was modified since it was read (expected version ''
             @ quoted (pl_expected_version plan) @ '', current '' @ quoted (pl_previous_version plan) @ '')''
        else if pl_replacements plan = 0
        then ''edit no change: search string not found in '' @ quoted p
        else ''edit no change: replacement is identical to the search string in '' @ quoted p),
      he_details = ResponseDetails (build_edit_contract_response env p mode plan False None)\<rparr>"

definition create_conflict_error ::
  "edit_env \<Rightarrow> str \<Rightarrow> edit_tool_mode \<Rightarrow> edit_plan \<Rightarrow> handler_error" where
  "create_conflict_error env p mode plan =
     \<lparr>he_kind = KValidation,
      he_message = ''edit conflict: file already exists: '' @ quoted p,
      he_details = ResponseDetails (build_edit_contract_response env p mode plan False None)\<rparr>"

definition embed_display_payload :: "edit_response \<Rightarrow> edit_display \<Rightarrow> edit_response" where
  "embed_display_payload response display = response\<lparr>er_display := Some display\<rparr>"

section \<open>The preview\<close>

text \<open>\<open>decode\<close> is serde's decoding of the arguments.\<close>

type_synonym decoder = "json \<Rightarrow> str + edit_args"

definition preview_version :: "edit_env \<Rightarrow> edit_args \<Rightarrow> str \<Rightarrow> disk \<Rightarrow> str option \<times> disk" where
  "preview_version env ea p d =
     (case ea_expected_version ea of
        Some v \<Rightarrow> (Some v, d)
      | None \<Rightarrow>
          (case read_to_string p d of
             (Inl e, d1) \<Rightarrow> (None, d1)
           | (Inr content, d1) \<Rightarrow> (Some (ee_version env content), d1)))"

definition preview_plan ::
  "edit_env \<Rightarrow> edit_args \<Rightarrow> resolved_edit_operation \<Rightarrow> str \<Rightarrow> disk \<Rightarrow> edit_plan option \<times> disk" where
  "preview_plan env ea op p d =
     (case op of
        SearchReplace sr \<Rightarrow>
          (let (v, d1) = preview_version env ea p d in
           case plan_search_replace_edit env p v sr d1 of
             (Inl e, d2) \<Rightarrow> (None, d2)
           | (Inr plan, d2) \<Rightarrow> (Some plan, d2))
      | Create content \<Rightarrow>
          (case path_parent p of
             None \<Rightarrow> (None, d)
           | Some parent \<Rightarrow>
               (case path_exists parent d of
                  (False, d1) \<Rightarrow> (None, d1)
                | (True, d1) \<Rightarrow>
                    (case plan_create_file env p content d1 of
                       (Inl e, d2) \<Rightarrow> (None, d2)
                     | (Inr plan, d2) \<Rightarrow> (Some plan, d2)))))"

definition preview ::
  "edit_env \<Rightarrow> decoder \<Rightarrow> json \<Rightarrow> str \<Rightarrow> disk \<Rightarrow> edit_display option \<times> disk" where
  "preview env decode args cwd d =
     (case decode args of
        Inl e \<Rightarrow> (None, d)
      | Inr ea \<Rightarrow>
          (if parse_edit_mode (ea_mode ea) \<noteq> Inr Apply then (None, d)
           else case resolve_edit_operation ea of
             Inl e \<Rightarrow> (None, d)
           | Inr op \<Rightarrow>
               (case preview_plan env ea op (resolve_fs_path_for_cwd (ea_path ea) cwd) d of
                  (None, d1) \<Rightarrow> (None, d1)
                | (Some plan, d1) \<Rightarrow>
                    (if pl_noop plan \<or> pl_conflict plan then None
                     else Some (edit_preview_display env (ea_path ea) plan), d1))))"

text \<open>Inside \<open>execute\<close>: the gate's preview, or the display of the plan already made.\<close>

definition display_for_apply ::
  "edit_env \<Rightarrow> decoder \<Rightarrow> json \<Rightarrow> str \<Rightarrow> str \<Rightarrow> edit_plan \<Rightarrow> disk \<Rightarrow> edit_display \<times> disk" where
  "display_for_apply env decode args cwd p plan d =
     (let (shown, d1) = (case args of JObject fs \<Rightarrow> preview env decode args cwd d | _ \<Rightarrow> (None, d))
      in (case shown of Some display \<Rightarrow> display | None \<Rightarrow> edit_preview_display env p plan, d1))"

section \<open>Execution\<close>

type_synonym edit_result = "(handler_error + edit_response) \<times> disk"

text \<open>What is answered when the file changed between the plan and the application.\<close>

definition answer_refreshed ::
  "edit_env \<Rightarrow> str \<Rightarrow> edit_tool_mode \<Rightarrow> edit_display \<Rightarrow> (edit_plan \<Rightarrow> handler_error) \<Rightarrow>
   (mutate_error + edit_plan) \<times> disk \<Rightarrow> edit_result" where
  "answer_refreshed env p mode display refuse refreshed =
     (case refreshed of
        (Inl e, d) \<Rightarrow> (Inr (embed_display_payload (mutate_error_response p mode e) display), d)
      | (Inr plan, d) \<Rightarrow> (Inl (refuse plan), d))"

definition execute_search_replace ::
  "edit_env \<Rightarrow> decoder \<Rightarrow> json \<Rightarrow> str \<Rightarrow> edit_args \<Rightarrow> edit_tool_mode \<Rightarrow> edit_operation \<Rightarrow> disk \<Rightarrow> edit_result" where
  "execute_search_replace env decode args cwd ea mode op d =
     (let p = ea_path ea;
          resolved = resolve_fs_path_for_cwd p cwd;
          replan = plan_search_replace_edit env resolved (ea_expected_version ea) op
      in case replan d of
        (Inl e, d1) \<Rightarrow> (Inr (mutate_error_response p mode e), d1)
      | (Inr plan, d1) \<Rightarrow>
          (case mode of
             Preview \<Rightarrow> (Inr (build_edit_contract_response env p mode plan False None), d1)
           | Apply \<Rightarrow>
               (if pl_conflict plan \<or> \<not> pl_would_change plan
                then (Inl (noop_or_conflict_error env p mode plan), d1)
                else
                  (let (display, d2) = display_for_apply env decode args cwd p plan d1 in
                   case apply_search_replace_edit env resolved (ea_expected_version ea) op d2 of
                     (Inl e, d3) \<Rightarrow>
                       (case e of
                          Conflict v w \<Rightarrow>
                            answer_refreshed env p mode display (noop_or_conflict_error env p mode) (replan d3)
                        | _ \<Rightarrow> (Inr (embed_display_payload (mutate_error_response p mode e) display), d3))
                   | (Inr summary, d3) \<Rightarrow>
                       (if su_conflict summary
                        then answer_refreshed env p mode display (noop_or_conflict_error env p mode) (replan d3)
                        else (Inr (embed_display_payload
                                (build_edit_contract_response env p mode plan True (Some summary)) display), d3))))))"

definition execute_create ::
  "edit_env \<Rightarrow> decoder \<Rightarrow> json \<Rightarrow> str \<Rightarrow> edit_args \<Rightarrow> edit_tool_mode \<Rightarrow> str \<Rightarrow> disk \<Rightarrow> edit_result" where
  "execute_create env decode args cwd ea mode content d =
     (let p = ea_path ea;
          resolved = resolve_fs_path_for_cwd p cwd;
          (parent_ok, d1) = (case path_parent resolved of
             None \<Rightarrow> (True, d) | Some parent \<Rightarrow> path_exists parent d)
      in if \<not> parent_ok
         then (Inr (build_edit_contract_error_response p mode ''internal''
                 (''Parent directory does not exist for '' @ quoted p)), d1)
         else case plan_create_file env resolved content d1 of
           (Inl e, d2) \<Rightarrow> (Inr (mutate_error_response p mode e), d2)
         | (Inr plan, d2) \<Rightarrow>
             (case mode of
                Preview \<Rightarrow> (Inr (build_edit_contract_response env p mode plan False None), d2)
              | Apply \<Rightarrow>
                  (if pl_conflict plan then (Inl (create_conflict_error env p mode plan), d2)
                   else
                     (let (display, d3) = display_for_apply env decode args cwd p plan d2 in
                      case apply_create_file env resolved content d3 of
                        (Inl e, d4) \<Rightarrow> (Inr (embed_display_payload (mutate_error_response p mode e) display), d4)
                      | (Inr summary, d4) \<Rightarrow>
                          (if su_conflict summary
                           then answer_refreshed env p mode display (create_conflict_error env p mode)
                                  (plan_create_file env resolved content d4)
                           else (Inr (embed_display_payload
                                   (build_edit_contract_response env p mode plan True (Some summary)) display), d4))))))"

definition execute ::
  "edit_env \<Rightarrow> decoder \<Rightarrow> json \<Rightarrow> str \<Rightarrow> disk \<Rightarrow> edit_result" where
  "execute env decode args cwd d =
     (case decode args of
        Inl e \<Rightarrow> (Inl (validation_error (''Invalid edit arguments: '' @ e)), d)
      | Inr ea \<Rightarrow>
          (case parse_edit_mode (ea_mode ea) of
             Inl e \<Rightarrow> (Inr (build_edit_contract_error_response (ea_path ea) Apply
                      (map_edit_contract_error (validation_error e)) e), d)
           | Inr mode \<Rightarrow>
               (case resolve_edit_operation ea of
                  Inl e \<Rightarrow> (Inr (build_edit_contract_error_response (ea_path ea) mode
                           (map_edit_contract_error (validation_error e)) e), d)
                | Inr (SearchReplace op) \<Rightarrow> execute_search_replace env decode args cwd ea mode op d
                | Inr (Create content) \<Rightarrow> execute_create env decode args cwd ea mode content d)))"

section \<open>Reading\<close>

record read_args =
  ra_path :: str
  ra_offset :: "nat option"
  ra_limit :: "nat option"

record read_response =
  rs_path :: str
  rs_content :: str
  rs_total_lines :: nat
  rs_offset :: "nat option"
  rs_limit :: "nat option"
  rs_version :: str

definition read_file ::
  "edit_env \<Rightarrow> str \<Rightarrow> nat option \<Rightarrow> nat option \<Rightarrow> disk \<Rightarrow> (io_error + str \<times> nat \<times> str) \<times> disk" where
  "read_file env p offset limit d =
     (case read_to_string p d of
        (Inl e, d1) \<Rightarrow> (Inl e, d1)
      | (Inr full, d1) \<Rightarrow> (Inr (read_window offset limit full, line_count full, ee_version env full), d1))"

definition read_execute ::
  "edit_env \<Rightarrow> (json \<Rightarrow> str + read_args) \<Rightarrow> json \<Rightarrow> str \<Rightarrow> disk \<Rightarrow> (handler_error + read_response) \<times> disk" where
  "read_execute env decode args cwd d =
     (case decode args of
        Inl e \<Rightarrow> (Inl (validation_error (''Invalid read arguments: '' @ e)), d)
      | Inr ra \<Rightarrow>
          (case read_file env (resolve_fs_path_for_cwd (ra_path ra) cwd) (ra_offset ra) (ra_limit ra) d of
             (Inl e, d1) \<Rightarrow> (Inl \<lparr>he_kind = KRuntime, he_message = ''read failed: '' @ ie_text e,
                                he_details = NoDetails\<rparr>, d1)
           | (Inr (content, n, v), d1) \<Rightarrow>
               (Inr \<lparr>rs_path = ra_path ra, rs_content = content, rs_total_lines = n,
                     rs_offset = ra_offset ra, rs_limit = ra_limit ra, rs_version = v\<rparr>, d1)))"

end
