(* ===== verification/Edit_Facts.thy ===== *)
theory Edit_Facts
  imports Edit_Tool
begin

text \<open>
  What an edit does to the file system: which calls write, what they write, and what the answer says of
  it, whatever other processes do between the accesses and whichever access fails.
\<close>

section \<open>Accesses that only read\<close>

text \<open>
  The disk after some accesses that only read: what the other processes did before each of them, and
  nothing else, has happened to it.
\<close>

definition reads_only :: "disk \<Rightarrow> disk \<Rightarrow> bool" where
  "reads_only d d' \<longleftrightarrow> (\<exists>n. d' = ((\<lambda>d. snd (next_access d)) ^^ n) d)"

text \<open>A later access fails after its file is in place.\<close>

definition late_fault :: "disk \<Rightarrow> bool" where
  "late_fault d \<longleftrightarrow> (\<exists>a \<in> set (dk_schedule d). \<exists>io. ac_fault a = Some (FailsAfter io))"

text \<open>
  A run whose last two accesses are a check and the write: the check reads a content with the expected
  version, or finds no file.
\<close>

definition checked_write :: "edit_env \<Rightarrow> str \<Rightarrow> str \<Rightarrow> str \<Rightarrow> disk \<Rightarrow> disk \<Rightarrow> bool" where
  "checked_write env p v new_content d d' \<longleftrightarrow>
     (\<exists>d0 latest d1. reads_only d d0 \<and> read_to_string p d0 = (Inr latest, d1) \<and> ee_version env latest = v \<and>
        d' = snd (atomic_overwrite p new_content d1))"

definition created :: "str \<Rightarrow> str \<Rightarrow> disk \<Rightarrow> disk \<Rightarrow> bool" where
  "created p content d d' \<longleftrightarrow>
     (\<exists>d0 d1. reads_only d d0 \<and> path_exists p d0 = (False, d1) \<and> d' = snd (atomic_overwrite p content d1))"

text \<open>
  A run that writes an edit: an earlier access read a content with the expected version, and the written
  content is that content edited and differs from it.
\<close>

definition edit_of ::
  "edit_env \<Rightarrow> str \<Rightarrow> str option \<Rightarrow> edit_operation \<Rightarrow> str \<Rightarrow> disk \<Rightarrow> disk \<Rightarrow> bool" where
  "edit_of env p expected op new_content d d' \<longleftrightarrow>
     (\<exists>v d0 content d1 n. expected = Some v \<and> reads_only d d0 \<and> read_to_string p d0 = (Inr content, d1) \<and>
        ee_version env content = v \<and> compute_edit_result env content op = Inr (new_content, n) \<and>
        new_content \<noteq> content \<and> checked_write env p v new_content d1 d')"

lemma next_access_frame:
  "dk_writes (snd (next_access d)) = dk_writes d" "dk_dirs (snd (next_access d)) = dk_dirs d"
  "dk_schedule (snd (next_access d)) = drop 1 (dk_schedule d)"
  by (simp_all add: next_access_def split: list.split)

lemma reads_only_frame:
  assumes "reads_only d d'"
  shows "dk_writes d' = dk_writes d" "dk_dirs d' = dk_dirs d" "\<exists>n. dk_schedule d' = drop n (dk_schedule d)"
proof -
  obtain n where d': "d' = ((\<lambda>d. snd (next_access d)) ^^ n) d"
    using assms by (auto simp: reads_only_def)
  have "dk_writes d' = dk_writes d \<and> dk_dirs d' = dk_dirs d \<and> dk_schedule d' = drop n (dk_schedule d)"
    unfolding d' by (induction n) (simp_all add: next_access_frame)
  then show "dk_writes d' = dk_writes d" "dk_dirs d' = dk_dirs d" "\<exists>n. dk_schedule d' = drop n (dk_schedule d)"
    by auto
qed

lemma reads_only_refl [simp, intro]: "reads_only d d"
  by (auto simp: reads_only_def intro: exI [of _ 0])

lemma reads_only_trans [trans]: "reads_only d e \<Longrightarrow> reads_only e f \<Longrightarrow> reads_only d f"
  unfolding reads_only_def by (metis comp_apply funpow_add)

lemma late_fault_later: "reads_only d d' \<Longrightarrow> late_fault d' \<Longrightarrow> late_fault d"
  using reads_only_frame(3) unfolding late_fault_def by (metis in_set_dropD)

lemma edit_of_later: "reads_only d e \<Longrightarrow> edit_of env p expected op c e d' \<Longrightarrow> edit_of env p expected op c d d'"
  unfolding edit_of_def by (blast intro: reads_only_trans)

lemma created_later: "reads_only d e \<Longrightarrow> created p c e d' \<Longrightarrow> created p c d d'"
  unfolding created_def by (blast intro: reads_only_trans)

lemmas reads_only_writes = reads_only_frame(1)

lemma next_access_reads: "next_access d = (f, d') \<Longrightarrow> reads_only d d'"
  by (auto simp: reads_only_def intro: exI [of _ "1::nat"])

lemma path_exists_reads: "path_exists p d = (b, d') \<Longrightarrow> reads_only d d'"
  by (auto simp: path_exists_def dest: next_access_reads split: prod.splits)

lemma read_to_string_reads: "read_to_string p d = (r, d') \<Longrightarrow> reads_only d d'"
  by (auto simp: read_to_string_def dest: next_access_reads split: prod.splits option.splits)

lemma plan_search_replace_reads: "plan_search_replace_edit env p v op d = (r, d') \<Longrightarrow> reads_only d d'"
  by (auto simp: plan_search_replace_edit_def dest: read_to_string_reads
      split: option.splits prod.splits sum.splits)

lemma plan_create_reads: "plan_create_file env p content d = (r, d') \<Longrightarrow> reads_only d d'"
  by (auto simp: plan_create_file_def dest!: path_exists_reads read_to_string_reads intro: reads_only_trans
      split: prod.splits sum.splits bool.splits)

lemma preview_reads: "preview env decode args cwd d = (r, d') \<Longrightarrow> reads_only d d'"
  by (auto simp: preview_def preview_plan_def preview_version_def
      dest!: path_exists_reads read_to_string_reads plan_search_replace_reads plan_create_reads
      intro: reads_only_trans
      split: prod.splits sum.splits option.splits if_splits bool.splits resolved_edit_operation.splits)

lemma display_reads: "display_for_apply env decode args cwd p plan d = (r, d') \<Longrightarrow> reads_only d d'"
  by (auto simp: display_for_apply_def dest: preview_reads split: json.splits prod.splits)

lemma refreshed_reads:
  "answer_refreshed env p mode display refuse (r, e) = (answer, d') \<Longrightarrow>
   d' = e \<and> (\<forall>resp. answer = Inr resp \<longrightarrow> er_outcome resp = None)"
  by (auto simp: answer_refreshed_def embed_display_payload_def mutate_error_response_def Let_def
      build_edit_contract_error_response_def split: sum.splits)

section \<open>The one write\<close>

text \<open>
  The report of an operation that may write once: \<open>w\<close> is what it wrote, \<open>wrote\<close> what its summary says.
\<close>

definition reports_write :: "('e + 'a) \<Rightarrow> ('a \<Rightarrow> bool) \<Rightarrow> (str \<times> str) list \<Rightarrow> disk \<Rightarrow> bool" where
  "reports_write r wrote w d \<longleftrightarrow>
     (case r of Inr a \<Rightarrow> wrote a \<longleftrightarrow> w \<noteq> [] | Inl e \<Rightarrow> w \<noteq> [] \<longrightarrow> late_fault d)"

lemma atomic_overwrite_writes:
  assumes "atomic_overwrite p content d = (r, d')"
  shows "\<exists>w. dk_writes d' = dk_writes d @ w \<and> (w = [] \<or> w = [(p, content)]) \<and>
    reports_write r (\<lambda>_. True) w d"
proof (cases "path_parent p")
  case None
  with assms show ?thesis by (auto simp: atomic_overwrite_def reports_write_def)
next
  case (Some parent)
  obtain f d1 where n: "next_access d = (f, d1)" by (cases "next_access d")
  have f: "late_fault d" if "f = Some (FailsAfter io)" for io
    using n that by (auto simp: next_access_def late_fault_def split: list.splits)
  note w = reads_only_writes [OF next_access_reads [OF n]]
  show ?thesis
  proof (cases "parent \<notin> dk_dirs d1 \<or> p \<in> dk_dirs d1 \<or> (\<exists>e. f = Some (FailsBefore e))")
    case True
    with assms Some n w have "dk_writes d' = dk_writes d" "\<exists>e. r = Inl e"
      by (auto simp: atomic_overwrite_def split: if_splits)
    then show ?thesis by (intro exI [of _ "[]"]) (auto simp: reports_write_def split: sum.splits)
  next
    case False
    then consider "f = None" | io where "f = Some (FailsAfter io)" by (metis fault.exhaust option.exhaust)
    then show ?thesis
    proof cases
      case 1
      with False assms Some n w have "dk_writes d' = dk_writes d @ [(p, content)]" "r = Inr ()"
        by (auto simp: atomic_overwrite_def put_file_def)
      then show ?thesis by (auto simp: reports_write_def split: sum.splits)
    next
      case 2
      with False assms Some n w have "dk_writes d' = dk_writes d @ [(p, content)]" "r = Inl io"
        by (auto simp: atomic_overwrite_def put_file_def)
      with f [OF 2] show ?thesis by (auto simp: reports_write_def split: sum.splits)
    qed
  qed
qed

lemma apply_full_writes:
  assumes "apply_full_content_mutation env p (Some v) new_content d = (r, d')"
  shows "\<exists>w. dk_writes d' = dk_writes d @ w \<and> (w = [] \<or> w = [(p, new_content)]) \<and>
    reports_write r as_wrote w d \<and> (\<forall>x y. r = Inl (Conflict x y) \<longrightarrow> w = []) \<and>
    (w = [] \<or> checked_write env p v new_content d d')"
proof -
  obtain x d1 where x: "read_to_string p d = (x, d1)" by (cases "read_to_string p d")
  note rd = read_to_string_reads [OF x]
  show ?thesis
  proof (cases x)
    case (Inl e)
    with assms x have "r = Inl (Io e)" "d' = d1" by (simp_all add: apply_full_content_mutation_def)
    with reads_only_writes [OF rd] show ?thesis by (intro exI [of _ "[]"]) (simp_all add: reports_write_def)
  next
    case (Inr content)
    show ?thesis
    proof (cases "v = ee_version env content \<and> content \<noteq> new_content")
      case False
      with assms x Inr have "d' = d1" "case_sum (\<lambda>_. True) (\<lambda>a. \<not> as_wrote a) r"
        by (auto simp: apply_full_content_mutation_def check_conflict_def Let_def split: if_splits)
      with reads_only_writes [OF rd] show ?thesis
        by (intro exI [of _ "[]"]) (auto simp: reports_write_def split: sum.splits)
    next
      case True
      obtain q d2 where q: "atomic_overwrite p new_content d1 = (q, d2)"
        by (cases "atomic_overwrite p new_content d1")
      from atomic_overwrite_writes [OF q] obtain w where w: "dk_writes d2 = dk_writes d1 @ w"
          "w = [] \<or> w = [(p, new_content)]" "reports_write q (\<lambda>_. True) w d1"
        by blast
      have "d' = d2 \<and> (case q of Inl e \<Rightarrow> r = Inl (Io e) | Inr u \<Rightarrow> case_sum (\<lambda>_. False) as_wrote r)"
        using assms True by (cases q) (auto simp: apply_full_content_mutation_def check_conflict_def x Inr q Let_def)
      moreover have "checked_write env p v new_content d d2"
        unfolding checked_write_def using x Inr True q by (intro exI [of _ d] exI [of _ content] exI [of _ d1]) simp
      ultimately show ?thesis using w reads_only_writes [OF rd] late_fault_later [OF rd]
        by (intro exI [of _ w]) (auto simp: reports_write_def split: sum.splits)
    qed
  qed
qed

lemma plan_edit:
  assumes "plan_search_replace_edit env p expected op d = (Inr plan, d')"
    and "\<not> pl_conflict plan" and "pl_would_change plan"
    and "checked_write env p (pl_expected_version plan) (pl_new_content plan) d' e"
  shows "edit_of env p expected op (pl_new_content plan) d e"
proof -
  from assms(1) obtain v content where v: "expected = Some v" "read_to_string p d = (Inr content, d')"
      "plan_search_replace_from_content env content v op = Inr plan"
    by (auto simp: plan_search_replace_edit_def split: option.splits prod.splits sum.splits)
  from v(3) assms(2) have version: "ee_version env content = v"
    by (auto simp: plan_search_replace_from_content_def Let_def split: if_splits)
  obtain e' where "compute_edit_result env content op = Inl e' \<or> (\<exists>c n. compute_edit_result env content op = Inr (c, n))"
    by (cases "compute_edit_result env content op") auto
  with v(3) version assms(3) obtain n where n: "compute_edit_result env content op = Inr (pl_new_content plan, n)"
      and "pl_new_content plan \<noteq> content \<and> pl_expected_version plan = v"
    by (auto simp: plan_search_replace_from_content_def Let_def)
  then have "checked_write env p v (pl_new_content plan) d' e" "pl_new_content plan \<noteq> content"
    using assms(4) by simp_all
  with v(1,2) version n show ?thesis
    unfolding edit_of_def
    by (intro exI [of _ v] exI [of _ d] exI [of _ content] exI [of _ d'] exI [of _ n]) simp
qed

lemma apply_edit_writes:
  assumes "apply_search_replace_edit env p expected op d = (r, d')"
  shows "\<exists>w. dk_writes d' = dk_writes d @ w \<and>
    (w = [] \<or> (\<exists>new_content. w = [(p, new_content)] \<and> edit_of env p expected op new_content d d')) \<and>
    reports_write r su_wrote w d \<and> (\<forall>x y. r = Inl (Conflict x y) \<longrightarrow> w = []) \<and>
    (\<forall>s. r = Inr s \<longrightarrow> su_conflict s \<longrightarrow> w = [])"
proof -
  obtain x d1 where x: "plan_search_replace_edit env p expected op d = (x, d1)"
    by (cases "plan_search_replace_edit env p expected op d")
  note rd = plan_search_replace_reads [OF x]
  show ?thesis
  proof (cases "\<exists>plan. x = Inr plan \<and> \<not> pl_conflict plan \<and> pl_would_change plan")
    case False
    with assms have "d' = d1 \<and> case_sum (\<lambda>_. True) (\<lambda>s. \<not> su_wrote s) r"
      by (cases x) (auto simp: apply_search_replace_edit_def plan_summary_def x split: if_splits)
    with reads_only_writes [OF rd] show ?thesis by (intro exI [of _ "[]"]) (auto simp: reports_write_def split: sum.splits)
  next
    case True
    then obtain plan where plan: "x = Inr plan" "\<not> pl_conflict plan" "pl_would_change plan" by blast
    obtain q d2 where q: "apply_full_content_mutation env p (Some (pl_expected_version plan)) (pl_new_content plan) d1 = (q, d2)"
      by (cases "apply_full_content_mutation env p (Some (pl_expected_version plan)) (pl_new_content plan) d1")
    from apply_full_writes [OF q] obtain w where w: "dk_writes d2 = dk_writes d1 @ w"
        "w = [] \<or> w = [(p, pl_new_content plan)]"
        "reports_write q as_wrote w d1" "\<forall>x y. q = Inl (Conflict x y) \<longrightarrow> w = []"
        "w = [] \<or> checked_write env p (pl_expected_version plan) (pl_new_content plan) d1 d2"
      by blast
    have edit: "w = [] \<or> edit_of env p expected op (pl_new_content plan) d d2"
      using plan_edit [OF x [unfolded plan(1)] plan(2,3)] w(5) by blast
    have "d' = d2 \<and> (case q of Inl e \<Rightarrow> r = Inl e
        | Inr a \<Rightarrow> case_sum (\<lambda>_. False) (\<lambda>s. su_wrote s = as_wrote a \<and> \<not> su_conflict s) r)"
      using assms plan by (cases q) (auto simp: apply_search_replace_edit_def x q)
    with w edit reads_only_writes [OF rd] late_fault_later [OF rd] show ?thesis
      by (intro exI [of _ w]) (auto simp: reports_write_def split: sum.splits)
  qed
qed

lemma apply_create_writes:
  assumes "apply_create_file env p content d = (r, d')"
  shows "\<exists>w. dk_writes d' = dk_writes d @ w \<and> (w = [] \<or> (w = [(p, content)] \<and> created p content d d')) \<and>
    reports_write r su_wrote w d \<and> (\<forall>s. r = Inr s \<longrightarrow> su_conflict s \<longrightarrow> w = [])"
proof -
  obtain b d1 where b: "path_exists p d = (b, d1)" by (cases "path_exists p d")
  note rd = path_exists_reads [OF b]
  show ?thesis
  proof (cases b)
    case True
    obtain x d2 where x: "read_to_string p d1 = (x, d2)" by (cases "read_to_string p d1")
    have "d' = d2 \<and> case_sum (\<lambda>_. True) (\<lambda>s. \<not> su_wrote s) r"
      using assms True by (cases x) (auto simp: apply_create_file_def b x)
    with reads_only_writes [OF reads_only_trans [OF rd read_to_string_reads [OF x]]] show ?thesis
      by (intro exI [of _ "[]"]) (auto simp: reports_write_def split: sum.splits)
  next
    case False
    obtain q d2 where q: "atomic_overwrite p content d1 = (q, d2)" by (cases "atomic_overwrite p content d1")
    from atomic_overwrite_writes [OF q] obtain w where w: "dk_writes d2 = dk_writes d1 @ w"
        "w = [] \<or> w = [(p, content)]" "reports_write q (\<lambda>_. True) w d1"
      by blast
    have "created p content d d2"
      unfolding created_def using b False q by (intro exI [of _ d] exI [of _ d1]) simp
    moreover have "d' = d2 \<and> (case q of Inl e \<Rightarrow> r = Inl (Io e)
        | Inr u \<Rightarrow> case_sum (\<lambda>_. False) (\<lambda>s. su_wrote s \<and> \<not> su_conflict s) r)"
      using assms False by (cases q) (auto simp: apply_create_file_def b q)
    ultimately show ?thesis using w reads_only_writes [OF rd] late_fault_later [OF rd]
      by (intro exI [of _ w]) (auto simp: reports_write_def split: sum.splits)
  qed
qed

section \<open>The answer\<close>

definition answer_ok :: "(handler_error + edit_response) \<Rightarrow> (str \<times> str) list \<Rightarrow> disk \<Rightarrow> bool" where
  "answer_ok r w d \<longleftrightarrow>
     (case r of
        Inl e \<Rightarrow> w = []
      | Inr resp \<Rightarrow>
          (case er_outcome resp of Some u \<Rightarrow> eu_wrote u \<longleftrightarrow> w \<noteq> [] | None \<Rightarrow> w \<noteq> [] \<longrightarrow> late_fault d))"

lemma answer_ok_later: "reads_only d d' \<Longrightarrow> answer_ok r w d' \<Longrightarrow> answer_ok r w d"
  by (auto simp: answer_ok_def dest: late_fault_later split: sum.splits option.splits)

lemma answer_ok_simps [simp]:
  "answer_ok (Inl refusal) [] d"
  "answer_ok (Inr (mutate_error_response p mode e)) [] d"
  "answer_ok (Inr (build_edit_contract_error_response p mode class message)) [] d"
  "answer_ok (Inr (build_edit_contract_response env p mode plan False None)) [] d"
  by (simp_all add: answer_ok_def mutate_error_response_def build_edit_contract_error_response_def
      build_edit_contract_response_def Let_def)

lemma answer_ok_applied:
  "answer_ok (Inr (embed_display_payload (build_edit_contract_response env p mode plan True (Some s)) display)) w d
     \<longleftrightarrow> (su_wrote s \<longleftrightarrow> w \<noteq> [])"
  "answer_ok (Inr (embed_display_payload (mutate_error_response p mode e) display)) w d
     \<longleftrightarrow> (w \<noteq> [] \<longrightarrow> late_fault d)"
  by (simp_all add: answer_ok_def mutate_error_response_def build_edit_contract_error_response_def
      build_edit_contract_response_def embed_display_payload_def Let_def)

lemma answer_refreshed_ok:
  assumes "answer_refreshed env p mode display refuse (refreshed, d) = (r, d')"
  shows "d' = d \<and> answer_ok r [] d0"
  using assms by (cases refreshed) (auto simp: answer_refreshed_def answer_ok_applied)

text \<open>What follows an attempt to apply, whose only write is \<open>w\<close>.\<close>

lemma search_replace_writes:
  assumes run: "execute_search_replace env decode args cwd ea mode op d = (r, d')"
  shows "\<exists>w. dk_writes d' = dk_writes d @ w \<and> answer_ok r w d \<and>
    (w = [] \<or> mode = Apply \<and> (\<exists>new_content. w = [(resolve_fs_path_for_cwd (ea_path ea) cwd, new_content)] \<and>
       edit_of env (resolve_fs_path_for_cwd (ea_path ea) cwd) (ea_expected_version ea) op new_content d d'))"
proof -
  let ?p = "resolve_fs_path_for_cwd (ea_path ea) cwd"
  let ?v = "ea_expected_version ea"
  obtain x d1 where x: "plan_search_replace_edit env ?p ?v op d = (x, d1)"
    by (cases "plan_search_replace_edit env ?p ?v op d")
  note rd1 = plan_search_replace_reads [OF x]
  show ?thesis
  proof (cases "mode = Apply \<and> (\<exists>plan. x = Inr plan \<and> \<not> (pl_conflict plan \<or> \<not> pl_would_change plan))")
    case False
    with run have "d' = d1 \<and> answer_ok r [] d"
      by (cases x; cases mode) (auto simp: execute_search_replace_def Let_def x split: if_splits)
    with reads_only_writes [OF rd1] show ?thesis by (intro exI [of _ "[]"]) simp
  next
    case True
    then obtain plan where plan: "x = Inr plan" "\<not> (pl_conflict plan \<or> \<not> pl_would_change plan)"
        and mode: "mode = Apply" by blast
    obtain display d2 where disp: "display_for_apply env decode args cwd (ea_path ea) plan d1 = (display, d2)"
      by (cases "display_for_apply env decode args cwd (ea_path ea) plan d1")
    note rd2 = reads_only_trans [OF rd1 display_reads [OF disp]]
    obtain q d3 where q: "apply_search_replace_edit env ?p ?v op d2 = (q, d3)"
      by (cases "apply_search_replace_edit env ?p ?v op d2")
    from apply_edit_writes [OF q] obtain w where w: "dk_writes d3 = dk_writes d2 @ w"
        "w = [] \<or> (\<exists>new_content. w = [(?p, new_content)] \<and> edit_of env ?p ?v op new_content d2 d3)"
        "reports_write q su_wrote w d2" "\<forall>x y. q = Inl (Conflict x y) \<longrightarrow> w = []"
        "\<forall>s. q = Inr s \<longrightarrow> su_conflict s \<longrightarrow> w = []"
      by blast
    obtain y d4 where y: "plan_search_replace_edit env ?p ?v op d3 = (y, d4)"
      by (cases "plan_search_replace_edit env ?p ?v op d3")
    note rest = run [unfolded execute_search_replace_def Let_def x plan(1) mode]
    have "reads_only d3 d' \<and> answer_ok r w d2 \<and> (w \<noteq> [] \<longrightarrow> d' = d3)"
    proof (cases "(\<exists>a b. q = Inl (Conflict a b)) \<or> (\<exists>s. q = Inr s \<and> su_conflict s)")
      case True
      with rest plan(2) have
        "answer_refreshed env (ea_path ea) Apply display (noop_or_conflict_error env (ea_path ea) Apply) (y, d4) = (r, d')"
        by (auto simp: disp q y)
      from answer_refreshed_ok [OF this] have "d' = d4" "answer_ok r [] d2" by auto
      moreover have "w = []" using w(4,5) True by blast
      ultimately show ?thesis using plan_search_replace_reads [OF y] by auto
    next
      case False
      with rest plan(2) w(3) show ?thesis
        by (cases q) (auto simp: disp q answer_ok_applied reports_write_def split: mutate_error.splits)
    qed
    with w(1,2) reads_only_writes [OF rd2] answer_ok_later [OF rd2] edit_of_later [OF rd2] mode
      reads_only_writes [of d3 d'] show ?thesis
      by (intro exI [of _ w]) auto
  qed
qed

lemma create_writes:
  assumes run: "execute_create env decode args cwd ea mode content d = (r, d')"
  shows "\<exists>w. dk_writes d' = dk_writes d @ w \<and> answer_ok r w d \<and>
    (w = [] \<or> mode = Apply \<and> w = [(resolve_fs_path_for_cwd (ea_path ea) cwd, content)] \<and>
       created (resolve_fs_path_for_cwd (ea_path ea) cwd) content d d')"
proof -
  let ?p = "resolve_fs_path_for_cwd (ea_path ea) cwd"
  obtain ok d1 where ok: "(case path_parent ?p of None \<Rightarrow> (True, d) | Some parent \<Rightarrow> path_exists parent d) = (ok, d1)"
    by (cases "case path_parent ?p of None \<Rightarrow> (True, d) | Some parent \<Rightarrow> path_exists parent d")
  then have rd1: "reads_only d d1"
    by (auto dest: path_exists_reads split: option.splits)
  obtain x d2 where x: "plan_create_file env ?p content d1 = (x, d2)"
    by (cases "plan_create_file env ?p content d1")
  note rd2 = reads_only_trans [OF rd1 plan_create_reads [OF x]]
  note rest = run [unfolded execute_create_def Let_def ok case_prod_conv x]
  show ?thesis
  proof (cases "ok \<and> mode = Apply \<and> (\<exists>plan. x = Inr plan \<and> \<not> pl_conflict plan)")
    case False
    with rest have "(d' = d1 \<or> d' = d2) \<and> answer_ok r [] d"
      by (cases x; cases mode) (auto split: if_splits)
    with reads_only_writes [OF rd1] reads_only_writes [OF rd2] show ?thesis
      by (intro exI [of _ "[]"]) auto
  next
    case True
    then obtain plan where plan: "ok" "x = Inr plan" "\<not> pl_conflict plan" "mode = Apply" by blast
    obtain display d3 where disp: "display_for_apply env decode args cwd (ea_path ea) plan d2 = (display, d3)"
      by (cases "display_for_apply env decode args cwd (ea_path ea) plan d2")
    note rd3 = reads_only_trans [OF rd2 display_reads [OF disp]]
    obtain q d4 where q: "apply_create_file env ?p content d3 = (q, d4)"
      by (cases "apply_create_file env ?p content d3")
    from apply_create_writes [OF q] obtain w where w: "dk_writes d4 = dk_writes d3 @ w"
        "w = [] \<or> (w = [(?p, content)] \<and> created ?p content d3 d4)"
        "reports_write q su_wrote w d3" "\<forall>s. q = Inr s \<longrightarrow> su_conflict s \<longrightarrow> w = []"
      by blast
    obtain y d5 where y: "plan_create_file env ?p content d4 = (y, d5)"
      by (cases "plan_create_file env ?p content d4")
    have "reads_only d4 d' \<and> answer_ok r w d3 \<and> (w \<noteq> [] \<longrightarrow> d' = d4)"
    proof (cases "\<exists>s. q = Inr s \<and> su_conflict s")
      case True
      with rest plan have
        "answer_refreshed env (ea_path ea) Apply display (create_conflict_error env (ea_path ea) Apply) (y, d5) = (r, d')"
        by (auto simp: disp q y)
      from answer_refreshed_ok [OF this] have "d' = d5" "answer_ok r [] d3" by auto
      moreover have "w = []" using w(4) True by blast
      ultimately show ?thesis using plan_create_reads [OF y] by auto
    next
      case False
      with rest plan w(3) show ?thesis
        by (cases q) (auto simp: disp q answer_ok_applied reports_write_def)
    qed
    with w(1,2) reads_only_writes [OF rd3] answer_ok_later [OF rd3] created_later [OF rd3] plan(4)
      reads_only_writes [of d4 d'] show ?thesis
      by (intro exI [of _ w]) auto
  qed
qed

text \<open>
  C24. An edit writes at most once, and only what was asked of it.  A call that writes is in apply mode.
  It either creates a file, and then its last access before the write found no file, or it replaces the
  file by the edit of a content it read earlier in the run, at the version the caller expected, and then
  its last access before the write read the file again, and its content still had that version.  The
  write is its last access.  A refusal never writes.  The answer's \<open>wrote\<close> says
  exactly whether the file was written; an answer that reports a failed access has no such field, and
  then the file was written only if the access failed after the new file was in place.  All this holds
  whatever other processes do in between and whichever accesses fail.
\<close>

theorem edit_writes_once:
  assumes "execute env decode args cwd d = (r, d')"
  shows "\<exists>w. dk_writes d' = dk_writes d @ w \<and>
    (w = [] \<or> (\<exists>ea new_content. decode args = Inr ea \<and> parse_edit_mode (ea_mode ea) = Inr Apply \<and>
       w = [(resolve_fs_path_for_cwd (ea_path ea) cwd, new_content)] \<and>
       (resolve_edit_operation ea = Inr (Create new_content) \<and>
          created (resolve_fs_path_for_cwd (ea_path ea) cwd) new_content d d' \<or>
        (\<exists>op. resolve_edit_operation ea = Inr (SearchReplace op) \<and>
          edit_of env (resolve_fs_path_for_cwd (ea_path ea) cwd) (ea_expected_version ea) op new_content d d')))) \<and>
    (case r of
       Inl e \<Rightarrow> w = []
     | Inr resp \<Rightarrow>
         (case er_outcome resp of Some u \<Rightarrow> eu_wrote u \<longleftrightarrow> w \<noteq> [] | None \<Rightarrow> w \<noteq> [] \<longrightarrow> late_fault d))"
proof -
  consider "d' = d" "answer_ok r [] d"
    | ea mode op where "decode args = Inr ea" "parse_edit_mode (ea_mode ea) = Inr mode"
        "resolve_edit_operation ea = Inr (SearchReplace op)"
        "execute_search_replace env decode args cwd ea mode op d = (r, d')"
    | ea mode content where "decode args = Inr ea" "parse_edit_mode (ea_mode ea) = Inr mode"
        "resolve_edit_operation ea = Inr (Create content)"
        "execute_create env decode args cwd ea mode content d = (r, d')"
    using assms by (auto simp: execute_def split: sum.splits resolved_edit_operation.splits)
  then show ?thesis
  proof cases
    case 1
    then show ?thesis unfolding answer_ok_def by (intro exI [of _ "[]"]) simp
  next
    case 2
    from search_replace_writes [OF 2(4)] 2(1-3) show ?thesis unfolding answer_ok_def by blast
  next
    case 3
    from create_writes [OF 3(4)] 3(1-3) show ?thesis unfolding answer_ok_def by blast
  qed
qed

definition sample_env :: edit_env where
  "sample_env = \<lparr>ee_version = (\<lambda>c. c), ee_regex = (\<lambda>p. Inl p), ee_diff = (\<lambda>a b c d. (c @ d, 1, 1))\<rparr>"

definition sample_path :: str where "sample_path = ''/w/a''"

definition sample_op :: edit_operation_args where
  "sample_op = \<lparr>ea_operation_type = None, ea_search = Some ''a'', ea_replacement = Some ''x'',
     ea_match_mode = None, ea_occurrence = None, ea_content = None\<rparr>"

definition sample_edit :: edit_args where
  "sample_edit = \<lparr>ea_path = sample_path, ea_expected_version = Some ''ab'', ea_mode = None,
     ea_operation = sample_op\<rparr>"

definition sample_disk :: disk where
  "sample_disk = \<lparr>dk_files = [sample_path \<mapsto> ''ab''], dk_dirs = {''/w''}, dk_schedule = [], dk_writes = []\<rparr>"

theorem edit_writes_once_witness:
  "length (dk_writes (snd (execute sample_env (\<lambda>j. Inr sample_edit) JNull ''/'' sample_disk))) \<le> 1"
proof -
  have "dk_writes sample_disk = []" by (simp add: sample_disk_def)
  with edit_writes_once [of sample_env "\<lambda>j. Inr sample_edit" JNull "''/''" sample_disk, OF prod.collapse [symmetric]]
  show ?thesis by auto
qed

section \<open>An edit nobody interferes with\<close>

text \<open>Without interference an access answers what is there.\<close>

lemma quiet_access: "dk_schedule d = [] \<Longrightarrow> next_access d = (None, d)"
  by (simp add: next_access_def)

lemma quiet_read:
  "dk_schedule d = [] \<Longrightarrow> dk_files d p = Some content \<Longrightarrow> read_to_string p d = (Inr content, d)"
  by (simp add: read_to_string_def quiet_access)

lemma quiet_reads_only: "reads_only d d' \<Longrightarrow> dk_schedule d = [] \<Longrightarrow> dk_schedule d' = []"
  using reads_only_frame(3) by fastforce

lemma quiet_exists: "dk_schedule d = [] \<Longrightarrow> snd (path_exists p d) = d"
  by (simp add: path_exists_def quiet_access)

lemma quiet_read_state: "dk_schedule d = [] \<Longrightarrow> snd (read_to_string p d) = d"
  by (simp add: read_to_string_def quiet_access split: option.split)

lemma quiet_plan: "dk_schedule d = [] \<Longrightarrow> snd (plan_search_replace_edit env p v op d) = d"
  using quiet_read_state [of d p]
  by (auto simp: plan_search_replace_edit_def split: option.split prod.split sum.split)

lemma quiet_plan_create: "dk_schedule d = [] \<Longrightarrow> snd (plan_create_file env p c d) = d"
  using quiet_read_state [of d p] quiet_exists [of d p]
  by (auto simp: plan_create_file_def split: bool.split prod.split sum.split)

lemma quiet_preview:
  assumes "dk_schedule d = []"
  shows "snd (preview env decode args cwd d) = d"
proof -
  have v: "snd (preview_version env ea p d) = d" for ea p
    using quiet_read_state [OF assms, of p]
    by (auto simp: preview_version_def split: option.split prod.split sum.split)
  have "snd (preview_plan env ea op p d) = d" for ea op p
  proof (cases op)
    case (SearchReplace sr)
    then show ?thesis
      using v [of ea p] quiet_plan [OF assms, of env p "fst (preview_version env ea p d)" sr]
      by (auto simp: preview_plan_def split: prod.split sum.split)
  next
    case (Create content)
    then show ?thesis
      using quiet_exists [OF assms] quiet_plan_create [OF assms, of env p content]
      by (auto simp: preview_plan_def split: option.split bool.split prod.split sum.split) (metis snd_conv)+
  qed
  then show ?thesis
    unfolding preview_def by (auto split: sum.split option.split prod.split) (metis snd_conv)+
qed

lemma quiet_display: "dk_schedule d = [] \<Longrightarrow> snd (display_for_apply env decode args cwd p plan d) = d"
  using quiet_preview [of d env decode args cwd]
  by (auto simp: display_for_apply_def split: json.split prod.split)

lemma quiet_overwrite:
  assumes "dk_schedule d = []" and "path_parent p = Some parent" and "parent \<in> dk_dirs d" and "p \<notin> dk_dirs d"
  shows "atomic_overwrite p content d = (Inr (), put_file p content d)"
  using assms by (simp add: atomic_overwrite_def quiet_access)

text \<open>
  C25. An edit alone on the file system does exactly what its plan says, and the version it answers is
  good for the next call: a version other than the file's, or an edit that changes nothing, is refused
  as a validation error and leaves everything as it was; otherwise the file holds the edited content,
  the answer reports the replacements and both versions, and reading the file afterwards answers the
  new content with that new version.
\<close>

theorem edit_then_read:
  assumes "dk_schedule d = []" and "decode args = Inr ea" and "parse_edit_mode (ea_mode ea) = Inr Apply"
    and "resolve_edit_operation ea = Inr (SearchReplace op)"
    and "p = resolve_fs_path_for_cwd (ea_path ea) cwd" and "dk_files d p = Some content"
    and "path_parent p = Some parent" and "parent \<in> dk_dirs d" and "p \<notin> dk_dirs d"
    and "ea_expected_version ea = Some v" and "compute_edit_result env content op = Inr (new_content, n)"
    and "read_decode read_args = Inr \<lparr>ra_path = ea_path ea, ra_offset = None, ra_limit = None\<rparr>"
  shows "(v \<noteq> ee_version env content \<or> new_content = content \<longrightarrow>
      (\<exists>e. execute env decode args cwd d = (Inl e, d) \<and> he_kind e = KValidation)) \<and>
    (v = ee_version env content \<and> new_content \<noteq> content \<longrightarrow>
      (\<exists>resp u. execute env decode args cwd d = (Inr resp, put_file p new_content d) \<and>
         er_applied resp \<and> er_outcome resp = Some u \<and> eu_wrote u \<and> eu_replacements u = n \<and>
         eu_previous_version u = v \<and>
         fst (read_execute env read_decode read_args cwd (put_file p new_content d)) =
           Inr \<lparr>rs_path = ea_path ea, rs_content = new_content, rs_total_lines = line_count new_content,
                rs_offset = None, rs_limit = None, rs_version = eu_new_version u\<rparr>))"
proof -
  note quiet = assms(1)
  have run: "execute env decode args cwd d = execute_search_replace env decode args cwd ea Apply op d"
    using assms(2-4) by (simp add: execute_def)
  have plan: "plan_search_replace_edit env p (Some v) op d = (plan_search_replace_from_content env content v op, d)"
    using quiet_read [OF quiet assms(6)] by (simp add: plan_search_replace_edit_def)
  show ?thesis
  proof (cases "v \<noteq> ee_version env content \<or> new_content = content")
    case True
    then have "case_sum (\<lambda>_. False) (\<lambda>pl. pl_conflict pl \<or> \<not> pl_would_change pl)
        (plan_search_replace_from_content env content v op)"
      using assms(11) by (simp add: plan_search_replace_from_content_def Let_def)
    then obtain pl where pl: "plan_search_replace_from_content env content v op = Inr pl"
        "pl_conflict pl \<or> \<not> pl_would_change pl"
      by (auto split: sum.splits)
    have "execute env decode args cwd d = (Inl (noop_or_conflict_error env (ea_path ea) Apply pl), d)"
      unfolding run execute_search_replace_def Let_def assms(10) assms(5) [symmetric] plan pl(1)
      using pl(2) by simp
    with True show ?thesis by (simp add: noop_or_conflict_error_def)
  next
    case False
    define pl where "pl = \<lparr>pl_replacements = n, pl_would_change = True,
             pl_noop = False, pl_conflict = False,
             pl_expected_version = v, pl_previous_version = v,
             pl_new_version = ee_version env new_content,
             pl_previous_bytes = length content, pl_new_bytes = length new_content,
             pl_previous_lines = line_count content, pl_new_lines = line_count new_content,
             pl_previous_content = content, pl_new_content = new_content\<rparr>"
    have pl: "plan_search_replace_from_content env content v op = Inr pl"
      using False assms(11) by (simp add: plan_search_replace_from_content_def Let_def pl_def)
    obtain display where disp: "display_for_apply env decode args cwd (ea_path ea) pl d = (display, d)"
      using quiet_display [OF quiet] by (metis prod.collapse)
    have "apply_full_content_mutation env p (Some v) new_content d =
        (Inr \<lparr>as_wrote = True, as_changed = True, as_previous_version = v,
              as_new_version = ee_version env new_content, as_previous_bytes = length content,
              as_new_bytes = length new_content, as_previous_lines = line_count content,
              as_new_lines = line_count new_content\<rparr>, put_file p new_content d)"
      using False quiet_read [OF quiet assms(6)] quiet_overwrite [OF quiet assms(7-9)]
      by (auto simp: apply_full_content_mutation_def check_conflict_def Let_def)
    then have app: "apply_search_replace_edit env p (Some v) op d =
        (Inr \<lparr>su_replacements = n, su_wrote = True, su_changed = True, su_noop = False, su_conflict = False,
              su_expected_version = v, su_previous_version = v, su_new_version = ee_version env new_content\<rparr>,
         put_file p new_content d)"
      by (simp add: apply_search_replace_edit_def plan pl) (simp add: pl_def)
    have again: "read_to_string p (put_file p new_content d) = (Inr new_content, put_file p new_content d)"
      by (rule quiet_read) (simp_all add: put_file_def quiet)
    have "read_execute env read_decode read_args cwd (put_file p new_content d) =
        (Inr \<lparr>rs_path = ea_path ea, rs_content = new_content, rs_total_lines = line_count new_content,
              rs_offset = None, rs_limit = None, rs_version = ee_version env new_content\<rparr>, put_file p new_content d)"
      using assms(12) by (simp add: read_execute_def read_file_def assms(5) [symmetric] again read_window_def)
    moreover have "\<not> pl_conflict pl" "pl_would_change pl" by (simp_all add: pl_def)
    then obtain summary where "execute env decode args cwd d = (Inr (embed_display_payload
          (build_edit_contract_response env (ea_path ea) Apply pl True (Some summary)) display), put_file p new_content d)"
        "su_wrote summary" "su_previous_version summary = v" "su_new_version summary = ee_version env new_content"
      unfolding run execute_search_replace_def Let_def assms(10) assms(5) [symmetric] plan pl
      by (simp add: disp app)
    ultimately show ?thesis using False
      by (auto simp: pl_def build_edit_contract_response_def embed_display_payload_def Let_def)
  qed
qed

lemma sample_parse:
  "parse_edit_mode (ea_mode sample_edit) = Inr Apply"
  "resolve_edit_operation sample_edit =
     Inr (SearchReplace \<lparr>eo_search = ''a'', eo_replacement = ''x'', eo_match_mode = Literal,
       eo_occurrence = FirstOccurrence\<rparr>)"
  by (simp_all add: sample_edit_def sample_op_def parse_edit_mode_def resolve_edit_operation_def
      parse_edit_match_mode_def parse_edit_occurrence_def Let_def)

lemma sample_resolved: "sample_path = resolve_fs_path_for_cwd (ea_path sample_edit) ''/''"
  by (simp add: sample_edit_def sample_path_def resolve_fs_path_for_cwd_def is_absolute_def)

lemma sample_parent: "path_parent sample_path = Some ''/w''"
  by (simp add: sample_path_def path_parent_def path_components_def Let_def is_absolute_def)

theorem edit_then_read_witness:
  "\<exists>resp u. execute sample_env (\<lambda>j. Inr sample_edit) JNull ''/'' sample_disk
      = (Inr resp, put_file sample_path ''xb'' sample_disk) \<and>
    er_applied resp \<and> er_outcome resp = Some u \<and> eu_wrote u \<and> eu_replacements u = 1"
proof -
  have result: "compute_edit_result sample_env ''ab'' \<lparr>eo_search = ''a'', eo_replacement = ''x'',
      eo_match_mode = Literal, eo_occurrence = FirstOccurrence\<rparr> = Inr (''xb'', 1)"
    by (simp add: compute_edit_result_def replace_first_def)
  have disk: "dk_schedule sample_disk = []" "dk_files sample_disk sample_path = Some ''ab''"
      "''/w'' \<in> dk_dirs sample_disk" "sample_path \<notin> dk_dirs sample_disk"
      "ea_expected_version sample_edit = Some ''ab''"
    by (simp_all add: sample_disk_def sample_path_def sample_edit_def)
  have "''ab'' = ee_version sample_env ''ab'' \<and> ''xb'' \<noteq> ''ab''" by (simp add: sample_env_def)
  with edit_then_read [where decode = "\<lambda>j. Inr sample_edit" and args = JNull and read_args = JNull and
      read_decode = "\<lambda>j. Inr \<lparr>ra_path = ea_path sample_edit, ra_offset = None, ra_limit = None\<rparr>",
      OF disk(1) refl sample_parse sample_resolved disk(2) sample_parent disk(3-5) result refl]
  show ?thesis by blast
qed

section \<open>What a writer in between loses\<close>

text \<open>
  The check of the version and the overwrite are two accesses: what another process writes between them
  is overwritten, and the answer reports a success on the expected version.  Here the other process acts
  before the fourth access, the overwrite.
\<close>

definition raced_disk :: disk where
  "raced_disk = sample_disk\<lparr>dk_schedule :=
     replicate 3 \<lparr>ac_others = [], ac_fault = None\<rparr>
     @ [\<lparr>ac_others = [(sample_path, Some ''theirs'')], ac_fault = None\<rparr>]\<rparr>"

lemma edit_overwrites_newer_content:
  "\<exists>resp u. execute sample_env (\<lambda>j. Inr sample_edit) JNull ''/'' raced_disk
      = (Inr resp, (put_file sample_path ''xb'' raced_disk)\<lparr>dk_schedule := []\<rparr>) \<and>
    er_outcome resp = Some u \<and> eu_wrote u \<and> eu_previous_version u = ''ab''"
proof -
  let ?ok = "\<lparr>ac_others = [], ac_fault = None\<rparr>"
  define late where "late = \<lparr>ac_others = [(sample_path, Some ''theirs'')], ac_fault = None\<rparr>"
  define d where "d k = raced_disk\<lparr>dk_schedule := replicate k ?ok @ [late]\<rparr>" for k
  define op where "op = \<lparr>eo_search = ''a'', eo_replacement = ''x'', eo_match_mode = Literal,
      eo_occurrence = FirstOccurrence\<rparr>"
  have start: "raced_disk = d 3" by (simp add: d_def raced_disk_def late_def)
  have read: "read_to_string sample_path (d (Suc k)) = (Inr ''ab'', d k)" for k
    by (simp add: read_to_string_def next_access_def d_def raced_disk_def sample_disk_def)
  have result: "compute_edit_result sample_env ''ab'' op = Inr (''xb'', 1)"
    by (simp add: compute_edit_result_def replace_first_def op_def)
  define pl where "pl = \<lparr>pl_replacements = 1, pl_would_change = True, pl_noop = False, pl_conflict = False,
       pl_expected_version = ''ab'', pl_previous_version = ''ab'', pl_new_version = ''xb'',
       pl_previous_bytes = 2, pl_new_bytes = 2, pl_previous_lines = 1, pl_new_lines = 1,
       pl_previous_content = ''ab'', pl_new_content = ''xb''\<rparr>"
  have plan: "plan_search_replace_edit sample_env sample_path (Some ''ab'') op (d (Suc k)) = (Inr pl, d k)" for k
    using result by (simp add: plan_search_replace_edit_def read plan_search_replace_from_content_def
        sample_env_def pl_def line_count_def split_lines_def Let_def)
  have distinct_path: "sample_path \<noteq> ''/w''" by (simp add: sample_path_def)
  have over: "atomic_overwrite sample_path ''xb'' (d 0) =
      (Inr (), (put_file sample_path ''xb'' raced_disk)\<lparr>dk_schedule := []\<rparr>)"
    using distinct_path by (simp add: atomic_overwrite_def sample_parent next_access_def d_def late_def
        put_file_def raced_disk_def sample_disk_def)
  have app: "apply_search_replace_edit sample_env sample_path (Some ''ab'') op (d 2) =
      (Inr \<lparr>su_replacements = 1, su_wrote = True, su_changed = True, su_noop = False, su_conflict = False,
            su_expected_version = ''ab'', su_previous_version = ''ab'', su_new_version = ''xb''\<rparr>,
       (put_file sample_path ''xb'' raced_disk)\<lparr>dk_schedule := []\<rparr>)"
    using over by (simp add: apply_search_replace_edit_def plan numeral_2_eq_2)
      (simp add: pl_def apply_full_content_mutation_def read check_conflict_def sample_env_def Let_def)
  have disp: "display_for_apply sample_env (\<lambda>j. Inr sample_edit) JNull ''/'' (ea_path sample_edit) pl (d 2)
      = (edit_preview_display sample_env (ea_path sample_edit) pl, d 2)"
    by (simp add: display_for_apply_def)
  have v: "ea_expected_version sample_edit = Some ''ab''" by (simp add: sample_edit_def)
  have plan3: "plan_search_replace_edit sample_env sample_path (Some ''ab'') op raced_disk = (Inr pl, d 2)"
    using plan [of 2] by (simp add: start numeral_3_eq_3 numeral_2_eq_2)
  have flags: "\<not> pl_conflict pl" "pl_would_change pl" by (simp_all add: pl_def)
  have "execute sample_env (\<lambda>j. Inr sample_edit) JNull ''/'' raced_disk =
      execute_search_replace sample_env (\<lambda>j. Inr sample_edit) JNull ''/'' sample_edit Apply op raced_disk"
    by (simp add: execute_def sample_parse op_def)
  also have "\<dots> = (Inr (embed_display_payload (build_edit_contract_response sample_env
        (ea_path sample_edit) Apply pl True
        (Some \<lparr>su_replacements = 1, su_wrote = True, su_changed = True, su_noop = False, su_conflict = False,
            su_expected_version = ''ab'', su_previous_version = ''ab'', su_new_version = ''xb''\<rparr>))
        (edit_preview_display sample_env (ea_path sample_edit) pl)),
      (put_file sample_path ''xb'' raced_disk)\<lparr>dk_schedule := []\<rparr>)"
    unfolding execute_search_replace_def Let_def sample_resolved [symmetric] v plan3
    by (simp add: flags disp app)
  finally show ?thesis
    by (simp add: embed_display_payload_def build_edit_contract_response_def Let_def)
qed

end
