(* ===== verification/Orchestrator.thy ===== *)
theory Orchestrator
  imports Task_Store
begin

text \<open>
  The orchestrator of an interactive session
  (\<open>crates/agnt-core/src/orchestrator\<close>): the loop of \<open>loop_impl.rs\<close> over its source channels, the
  handlers of \<open>handlers.rs\<close> and the stages for slash commands, permission decisions, UI requests and
  turn outcomes.  One input is one message of one channel; what the loop sends to the worker and to the
  buses is a list in the order sent.  The worker is the environment.  The lists shown in the user
  interface are values the loop only passes on, of a type \<open>'v\<close>.
\<close>

section \<open>Slash commands\<close>

datatype slash_command =
    SlCompact | SlMcp | SlHelp | SlStatus | SlModels | SlAgent | SlNew | SlSession | SlTheme | SlSkills

datatype slash_parse = Command slash_command | NotSlash | UnknownCommand str

definition to_ascii_lowercase :: "str \<Rightarrow> str" where
  "to_ascii_lowercase s =
     map (\<lambda>c. let n = (of_char c :: nat) in if 65 \<le> n \<and> n \<le> 90 then char_of (n + 32) else c) s"

definition slash_labels :: "(str \<times> slash_command) list" where
  "slash_labels =
     [(''/compact'', SlCompact), (''/mcp'', SlMcp), (''/help'', SlHelp), (''/status'', SlStatus),
      (''/models'', SlModels), (''/agent'', SlAgent), (''/new'', SlNew), (''/session'', SlSession),
      (''/theme'', SlTheme), (''/skills'', SlSkills)]"

definition parse_slash_command :: "str \<Rightarrow> slash_parse" where
  "parse_slash_command text_in =
     (let trimmed = trim text_in in
      if \<not> prefix ''/'' trimmed then NotSlash
      else
        (let command = to_ascii_lowercase trimmed in
         case map_of slash_labels command of
           Some c \<Rightarrow> Command c
         | None \<Rightarrow> if prefix ''/session '' command then Command SlSession else UnknownCommand trimmed))"

section \<open>Messages\<close>

datatype mcp_usability = McpEnabled | McpDisabled | McpFailed

datatype shared_ui_action =
    ActHelp | ActStatus | ActMcps | ActModels | ActAgents | ActSessions | ActThemes | ActSkills

datatype ui_request =
    SwitchModel str
  | SwitchAgent str
  | SwitchSession str
  | ToggleMcp str bool
  | RefreshSessionPicker
  | RefreshAgentPicker

datatype 'v ui_response =
    ModelSwitch "str + str \<times> nat option"
  | AgentSwitch "str + str \<times> str \<times> nat option \<times> str option"
  | SessionSwitch str "str + 'v"
  | McpToggle str "str + mcp_usability" nat nat "(str \<times> str list) list"
  | SessionRefresh "str + 'v"
  | AgentRefresh "str + 'v"

datatype 'v ui_state_event =
    SetActiveModelIdentity str
  | SetActiveAgentIdentity str
  | SetActivePersonaIcon "str option"
  | SetContextWindowMaxTokens "nat option"
  | ClearTranscript
  | HydrateTranscript 'v "nat option"
  | SetMcpServerState str mcp_usability "str option" nat
  | SetMcpVisibleToolCount str nat
  | SetMcpVisibleToolNames str "str list"
  | SetSessionPickerOptions 'v
  | SetAgentPickerOptions 'v
  | EnqueueExternalPrompt str
  | ExecuteSharedUiAction shared_ui_action
  | PushStartupLogo

text \<open>A UI request carries the channel of its answer: the blocking one, or the concurrent one.\<close>

datatype worker_command =
    ExecuteTurn str "str option"
  | HandleUiRequest ui_request bool
  | RunCompaction str
  | AttachA2aContext str str
  | ClearSession
  | NewSession
  | Shutdown

text \<open>Of the value of a turn, what is read is a string, or a record's column.\<close>

datatype turn_value = ValString str | ValRecord "(str \<times> turn_value) list" | ValOther

definition extract_response_text :: "turn_value \<Rightarrow> str" where
  "extract_response_text v =
     (case v of
        ValString val \<Rightarrow> val
      | ValRecord cols \<Rightarrow>
          (case map_of cols ''response'' of Some (ValString val) \<Rightarrow> val | _ \<Rightarrow> ''Task completed'')
      | ValOther \<Rightarrow> ''Task completed'')"

datatype turn_outcome = TurnSuccess turn_value | TurnCancelled | TurnError str

datatype 'v orch_output =
    ToWorker worker_command
  | UiState "'v ui_state_event"
  | UiWarning str
  | UiTurnError str
  | CancelSent
  | CompactionAsked str
  | CompactionRefused str
  | SessionSwitched str
  | TaskCompletedEvent str str
  | TaskFailedEvent str str
  | TaskRejectedInStore str str
  | DecisionDelivered str
  | DecisionIgnored str

record deferred_prompt =
  dp_text :: str
  dp_task_id :: "str option"

record incoming_task =
  it_task_id :: str
  it_texts :: "str list"
  it_sender_url :: str
  it_context_id :: "str option"

record completion_event =
  cv_task_id :: str
  cv_agent_name :: str
  cv_status :: task_state
  cv_context_id :: "str option"

definition incoming_to_prompt :: "incoming_task \<Rightarrow> str" where
  "incoming_to_prompt t =
     ''[A2A] '' @ join '' '' (it_texts t) @ newline @ newline
     @ ''Process this request and respond with your answer. Your response will be automatically delivered as the task result.''
     @ newline @ newline @ ''---'' @ newline @ ''Task ID: '' @ it_task_id t
     @ (if it_sender_url t = [] then [] else newline @ ''From: '' @ it_sender_url t)
     @ (case it_context_id t of None \<Rightarrow> [] | Some c \<Rightarrow> newline @ ''Context: '' @ c)"

definition short_id :: "str \<Rightarrow> str" where
  "short_id i = (let k = min (length i) 8 in if is_char_boundary i k then take k i else i)"

definition state_label :: "task_state \<Rightarrow> str" where
  "state_label s =
     (case s of Unspecified \<Rightarrow> ''UNSPECIFIED'' | Submitted \<Rightarrow> ''SUBMITTED'' | Working \<Rightarrow> ''WORKING''
      | InputRequired \<Rightarrow> ''INPUT_REQUIRED'' | Completed \<Rightarrow> ''COMPLETED'' | Failed \<Rightarrow> ''FAILED''
      | Canceled \<Rightarrow> ''CANCELED'' | Rejected \<Rightarrow> ''REJECTED'' | AuthRequired \<Rightarrow> ''AUTH_REQUIRED'')"

definition completion_to_prompt :: "completion_event \<Rightarrow> str" where
  "completion_to_prompt e =
     ''[A2A] Task '' @ short_id (cv_task_id e) @ '' by '' @ cv_agent_name e @ '': ''
     @ state_label (cv_status e) @ ''. Call tasks_get for details.''
     @ (case cv_context_id e of None \<Rightarrow> []
        | Some c \<Rightarrow> newline @ newline @ ''Context: '' @ short_id c
            @ '' (reuse in tasks_send to continue session, omit for new session)'')"

section \<open>The state\<close>

text \<open>
  The context shared by the stages, the stage of the UI requests and the loop's own variables.
  \<open>oc_worker_open\<close> says whether the worker's command channel has a receiver, \<open>oc_pending\<close> the
  permission requests that wait for a decision.
\<close>

record 'v orch =
  oc_worker_open :: bool
  oc_pending :: "str set option"
  oc_has_store :: bool
  oc_warn_logged :: bool
  oc_worker_active :: bool
  oc_active_prompt :: "str option"
  oc_active_task :: "str option"
  oc_pending_cancel :: "str option"
  oc_pending_task :: "str option"
  oc_visible_count :: nat
  oc_blocking :: "ui_request option"
  oc_concurrent :: "ui_request list"
  oc_queued :: "ui_request list"
  oc_pending_compaction :: "str option"
  oc_compaction_active :: bool
  oc_quit_pending :: bool
  oc_completions :: "completion_event list"
  oc_deferred :: "deferred_prompt option"
  oc_out :: "'v orch_output list"

definition out :: "'v orch_output \<Rightarrow> 'v orch \<Rightarrow> 'v orch" where
  "out e s = s\<lparr>oc_out := oc_out s @ [e]\<rparr>"

definition outs :: "'v orch_output list \<Rightarrow> 'v orch \<Rightarrow> 'v orch" where
  "outs es s = s\<lparr>oc_out := oc_out s @ es\<rparr>"

text \<open>A command reaches the worker while its channel is open.\<close>

definition send_worker :: "worker_command \<Rightarrow> 'v orch \<Rightarrow> bool \<times> 'v orch" where
  "send_worker c s = (if oc_worker_open s then (True, out (ToWorker c) s) else (False, s))"

section \<open>The slash stage\<close>

definition shared_action :: "slash_command \<Rightarrow> shared_ui_action" where
  "shared_action c =
     (case c of SlHelp \<Rightarrow> ActHelp | SlStatus \<Rightarrow> ActStatus | SlMcp \<Rightarrow> ActMcps | SlModels \<Rightarrow> ActModels
      | SlAgent \<Rightarrow> ActAgents | SlSession \<Rightarrow> ActSessions | SlTheme \<Rightarrow> ActThemes | _ \<Rightarrow> ActSkills)"

definition start_turn :: "str \<Rightarrow> str option \<Rightarrow> 'v orch \<Rightarrow> 'v orch" where
  "start_turn prompt tid s =
     (let s1 = (case tid of
            None \<Rightarrow> s
          | Some t \<Rightarrow>
              (let s0 = s\<lparr>oc_active_prompt := Some prompt, oc_active_task := Some t\<rparr>
               in if oc_pending_cancel s0 = Some t
                  then out CancelSent (s0\<lparr>oc_pending_cancel := None\<rparr>) else s0));
          (sent, s2) = send_worker (ExecuteTurn prompt tid) s1
      in if sent then s2\<lparr>oc_worker_active := True\<rparr> else s2)"

definition slash_handle :: "str \<Rightarrow> str option \<Rightarrow> 'v orch \<Rightarrow> 'v orch" where
  "slash_handle prompt tid s =
     (if trim prompt = [] then s
      else case parse_slash_command prompt of
        Command SlCompact \<Rightarrow> out (CompactionAsked ''slash'') s
      | Command SlNew \<Rightarrow> outs [UiState ClearTranscript, UiState PushStartupLogo] (snd (send_worker NewSession s))
      | Command c \<Rightarrow> out (UiState (ExecuteSharedUiAction (shared_action c))) s
      | UnknownCommand c \<Rightarrow> out (UiWarning (''Unknown slash command: '' @ c)) s
      | NotSlash \<Rightarrow> start_turn prompt tid s)"

section \<open>The permission stage\<close>

definition permission_handle :: "str \<Rightarrow> 'v orch \<Rightarrow> 'v orch" where
  "permission_handle request_id s =
     (case oc_pending s of
        None \<Rightarrow> s
      | Some waiting \<Rightarrow>
          (if request_id \<in> waiting
           then out (DecisionDelivered request_id) (s\<lparr>oc_pending := Some (waiting - {request_id})\<rparr>)
           else out (DecisionIgnored request_id) s))"

section \<open>The UI request stage\<close>

definition dispatch_blocking :: "ui_request \<Rightarrow> 'v orch \<Rightarrow> 'v orch" where
  "dispatch_blocking request s =
     (let (sent, s1) = send_worker (HandleUiRequest request True) s
      in if sent then s1\<lparr>oc_blocking := Some request\<rparr>
         else out (UiWarning (case request of
                SwitchModel spec \<Rightarrow> ''Model switch worker channel closed''
              | SwitchAgent name \<Rightarrow> ''Agent switch worker channel closed''
              | SwitchSession i \<Rightarrow> ''Session switch worker channel closed''
              | _ \<Rightarrow> ''Worker channel closed'')) s1)"

definition dispatch_concurrent :: "ui_request \<Rightarrow> 'v orch \<Rightarrow> 'v orch" where
  "dispatch_concurrent request s =
     (let (sent, s1) = send_worker (HandleUiRequest request False) s
      in if sent then s1\<lparr>oc_concurrent := oc_concurrent s1 @ [request]\<rparr>
         else out (case request of
                ToggleMcp server enable \<Rightarrow>
                  UiState (SetMcpServerState server McpFailed (Some ''worker channel closed'') (oc_visible_count s1))
              | _ \<Rightarrow> UiWarning ''Worker channel closed'') s1)"

definition is_model_switch :: "ui_request \<Rightarrow> bool" where
  "is_model_switch r \<longleftrightarrow> (case r of SwitchModel spec \<Rightarrow> True | _ \<Rightarrow> False)"

definition is_agent_switch :: "ui_request \<Rightarrow> bool" where
  "is_agent_switch r \<longleftrightarrow> (case r of SwitchAgent name \<Rightarrow> True | _ \<Rightarrow> False)"

text \<open>The latest switch of its kind waits; an earlier one is dropped.\<close>

definition enqueue_latest :: "(ui_request \<Rightarrow> bool) \<Rightarrow> ui_request \<Rightarrow> 'v orch \<Rightarrow> 'v orch" where
  "enqueue_latest same request s =
     s\<lparr>oc_queued := filter (\<lambda>r. \<not> same r) (oc_queued s) @ [request]\<rparr>"

definition handle_incoming :: "ui_request \<Rightarrow> 'v orch \<Rightarrow> 'v orch" where
  "handle_incoming request s =
     (let busy = (oc_worker_active s \<or> oc_blocking s \<noteq> None)
      in case request of
           SwitchModel spec \<Rightarrow>
             (if busy then enqueue_latest is_model_switch request s else dispatch_blocking request s)
         | SwitchAgent name \<Rightarrow>
             (if busy then enqueue_latest is_agent_switch request s else dispatch_blocking request s)
         | SwitchSession i \<Rightarrow>
             (if oc_worker_active s then out (UiWarning ''Cannot switch session while worker is active'') s
              else if oc_blocking s = None then dispatch_blocking request s
              else s)
         | ToggleMcp server enable \<Rightarrow> dispatch_concurrent request s
         | RefreshSessionPicker \<Rightarrow>
             (if RefreshSessionPicker \<in> set (oc_concurrent s) then s else dispatch_concurrent request s)
         | RefreshAgentPicker \<Rightarrow>
             (if RefreshAgentPicker \<in> set (oc_concurrent s) then s else dispatch_concurrent request s))"

definition handle_blocking_response :: "'v ui_response \<Rightarrow> 'v orch \<Rightarrow> 'v orch" where
  "handle_blocking_response response s =
     (outs (case response of
          ModelSwitch (Inr (identity, max_tokens)) \<Rightarrow>
            [UiState (SetActiveModelIdentity identity), UiState (SetContextWindowMaxTokens max_tokens)]
        | ModelSwitch (Inl msg) \<Rightarrow> [UiWarning msg]
        | AgentSwitch (Inr (agent_identity, model_identity, max_tokens, icon)) \<Rightarrow>
            [UiState (SetActiveAgentIdentity agent_identity), UiState (SetActivePersonaIcon icon),
             UiState (SetActiveModelIdentity model_identity), UiState (SetContextWindowMaxTokens max_tokens)]
        | AgentSwitch (Inl msg) \<Rightarrow> [UiWarning msg]
        | SessionSwitch i (Inr snapshots) \<Rightarrow>
            [UiState ClearTranscript, UiState PushStartupLogo, UiState (HydrateTranscript snapshots None),
             SessionSwitched i]
        | SessionSwitch i (Inl msg) \<Rightarrow> [UiWarning msg]
        | _ \<Rightarrow> []) s)\<lparr>oc_blocking := None\<rparr>"

text \<open>Which requests in flight a response settles.\<close>

definition settles :: "'v ui_response \<Rightarrow> ui_request \<Rightarrow> bool" where
  "settles response r \<longleftrightarrow>
     (case response of
        McpToggle server result n k names \<Rightarrow> (case r of ToggleMcp t enable \<Rightarrow> t = server | _ \<Rightarrow> False)
      | SessionRefresh result \<Rightarrow> r = RefreshSessionPicker
      | AgentRefresh result \<Rightarrow> r = RefreshAgentPicker
      | _ \<Rightarrow> False)"

definition handle_concurrent_response :: "'v ui_response \<Rightarrow> 'v orch \<Rightarrow> 'v orch" where
  "handle_concurrent_response response s =
     (let s1 = (case response of
            McpToggle server result total_count server_count names_by_server \<Rightarrow>
              outs ([UiState (SetMcpVisibleToolCount server server_count)]
                    @ map (\<lambda>(srv, names). UiState (SetMcpVisibleToolNames srv names)) names_by_server
                    @ [UiState (case result of
                          Inr state \<Rightarrow> SetMcpServerState server state None total_count
                        | Inl err \<Rightarrow> SetMcpServerState server McpFailed (Some err) total_count)])
                (s\<lparr>oc_visible_count := total_count\<rparr>)
          | SessionRefresh (Inr sessions) \<Rightarrow> out (UiState (SetSessionPickerOptions sessions)) s
          | SessionRefresh (Inl msg) \<Rightarrow> out (UiWarning msg) s
          | AgentRefresh (Inr summaries) \<Rightarrow> out (UiState (SetAgentPickerOptions summaries)) s
          | AgentRefresh (Inl msg) \<Rightarrow> out (UiWarning msg) s
          | _ \<Rightarrow> s)
      in s1\<lparr>oc_concurrent := filter (\<lambda>r. \<not> settles response r) (oc_concurrent s1)\<rparr>)"

definition drain_queued :: "'v orch \<Rightarrow> 'v orch" where
  "drain_queued s =
     (if oc_worker_active s \<or> oc_blocking s \<noteq> None then s
      else case oc_queued s of
        [] \<Rightarrow> s
      | request # rest \<Rightarrow> dispatch_blocking request (s\<lparr>oc_queued := rest\<rparr>))"

definition has_blocking_pending :: "'v orch \<Rightarrow> bool" where
  "has_blocking_pending s \<longleftrightarrow> oc_blocking s \<noteq> None"

definition has_pending :: "'v orch \<Rightarrow> bool" where
  "has_pending s \<longleftrightarrow> oc_blocking s \<noteq> None \<or> oc_concurrent s \<noteq> []"

section \<open>The session stage\<close>

definition task_cancelled_notice :: str where
  "task_cancelled_notice = ''Task cancelled before completion''"

definition publish_task_failed :: "str \<Rightarrow> 'v orch \<Rightarrow> 'v orch" where
  "publish_task_failed err s =
     (case oc_active_prompt s of
        None \<Rightarrow> s
      | Some p \<Rightarrow>
          (let s1 = s\<lparr>oc_active_prompt := None\<rparr> in
           case oc_active_task s1 of
             None \<Rightarrow> s1
           | Some t \<Rightarrow> out (TaskFailedEvent t err) (s1\<lparr>oc_active_task := None\<rparr>)))"

text \<open>
  The log line of a failed turn shows a prefix of its message, cut at a byte.  Its arguments are evaluated
  when warnings are logged, and the cut panics inside a character.
\<close>

definition log_slice_panics :: "bool \<Rightarrow> str \<Rightarrow> bool" where
  "log_slice_panics logged msg \<longleftrightarrow> logged \<and> \<not> is_char_boundary msg (min (length msg) 200)"

definition handle_outcome :: "turn_outcome \<Rightarrow> 'v orch \<Rightarrow> 'v orch option" where
  "handle_outcome outcome s0 =
     (let s = s0\<lparr>oc_worker_active := False\<rparr> in
      case outcome of
        TurnSuccess val \<Rightarrow>
          (case oc_active_prompt s of
             None \<Rightarrow> Some s
           | Some p \<Rightarrow>
               (let s1 = s\<lparr>oc_active_prompt := None, oc_active_task := None\<rparr> in
                case oc_active_task s of
                  None \<Rightarrow> Some s1
                | Some t \<Rightarrow> Some (out (TaskCompletedEvent (extract_response_text val) t) s1)))
      | TurnCancelled \<Rightarrow> Some (publish_task_failed task_cancelled_notice s)
      | TurnError msg \<Rightarrow>
          (if log_slice_panics (oc_warn_logged s) msg then None
           else Some (out (UiTurnError msg) (publish_task_failed msg s))))"

section \<open>The handlers\<close>

definition worker_busy_reason :: str where
  "worker_busy_reason = ''Worker busy: another turn is already running''"

definition deferred_prompt_superseded_reason :: str where
  "deferred_prompt_superseded_reason = ''Superseded: a newer prompt replaced the deferred prompt''"

definition run_compaction_command :: "str \<Rightarrow> 'v orch \<Rightarrow> 'v orch" where
  "run_compaction_command source s =
     (let (sent, s1) = send_worker (RunCompaction source) s
      in if sent then s1 else out (CompactionRefused ''Worker channel closed'') s1)"

definition dispatch_compaction :: "str \<Rightarrow> 'v orch \<Rightarrow> 'v orch" where
  "dispatch_compaction source s =
     (if oc_compaction_active s \<or> oc_worker_active s
      then s\<lparr>oc_pending_compaction := Some source\<rparr>
      else run_compaction_command source (s\<lparr>oc_compaction_active := True\<rparr>))"

definition handle_worker_result :: "turn_outcome \<Rightarrow> 'v orch \<Rightarrow> (bool \<times> 'v orch) option" where
  "handle_worker_result outcome s =
     (case handle_outcome outcome s of
        None \<Rightarrow> None
      | Some s0 \<Rightarrow>
          (let s1 = drain_queued s0;
               s2 = (case oc_pending_compaction s1 of
                       None \<Rightarrow> s1
                     | Some source \<Rightarrow> run_compaction_command source (s1\<lparr>oc_pending_compaction := None\<rparr>))
           in Some (oc_quit_pending s2 \<and> \<not> oc_worker_active s2, s2)))"

definition submit_deferred_prompt :: "'v orch \<Rightarrow> 'v orch" where
  "submit_deferred_prompt s =
     (if oc_quit_pending s \<or> oc_worker_active s \<or> has_blocking_pending s then s
      else case oc_deferred s of
        None \<Rightarrow> s
      | Some entry \<Rightarrow> slash_handle (dp_text entry) (dp_task_id entry) (s\<lparr>oc_deferred := None\<rparr>))"

definition handle_external_cancel :: "str \<Rightarrow> 'v orch \<Rightarrow> 'v orch" where
  "handle_external_cancel tid s =
     (if oc_active_task s = Some tid then out CancelSent s
      else s\<lparr>oc_pending_cancel := Some tid\<rparr>)"

definition reject_busy_task :: "str \<Rightarrow> 'v orch \<Rightarrow> 'v orch" where
  "reject_busy_task tid s =
     (if oc_has_store s then out (TaskRejectedInStore tid worker_busy_reason) s else s)"

definition reject_superseded_task :: "str \<Rightarrow> 'v orch \<Rightarrow> 'v orch" where
  "reject_superseded_task tid s =
     (if oc_has_store s then out (TaskRejectedInStore tid deferred_prompt_superseded_reason) s else s)"

section \<open>The loop\<close>

text \<open>
  What one poll of the select delivers.  \<open>Lagged\<close> is a broadcast receiver that lost messages, and a
  \<open>Closed\<close> channel ends the loop.  An incoming task comes with a fresh identifier, used when it names no
  context, and with what \<open>try_send\<close> finds: the worker's channel full or not.  \<open>WorkerGone\<close> is no
  message: it is the worker dropping its receiver, after which every send fails.
\<close>

datatype 'v orch_input =
    PromptReceived str str "str option"
  | PromptSubmitted str
  | PermissionDecided str
  | UiRequested ui_request
  | CancelRequested
  | QuitRequested
  | FatalError str
  | Outcome turn_outcome
  | BlockingResponse "'v ui_response"
  | ConcurrentResponse "'v ui_response"
  | CompactionRequest str
  | CompactionEnded
  | OtherCompactionEvent
  | Lagged
  | TaskCancelRequested str
  | TaskArrived incoming_task str bool
  | CompletionArrived completion_event
  | ChannelClosed
  | WorkerGone

datatype loop_result = Continues | Breaks | Fails str | Panics

definition prompt_received :: "str \<Rightarrow> str \<Rightarrow> str option \<Rightarrow> 'v orch \<Rightarrow> 'v orch" where
  "prompt_received prompt tid ctx_id s =
     (let s1 = s\<lparr>oc_pending_task := Some tid\<rparr> in
      case ctx_id of
        Some c \<Rightarrow> snd (send_worker (AttachA2aContext c prompt) s1)
      | None \<Rightarrow> out (UiState (EnqueueExternalPrompt prompt)) s1)"

definition prompt_submitted :: "str \<Rightarrow> 'v orch \<Rightarrow> 'v orch" where
  "prompt_submitted prompt s =
     (let tid = oc_pending_task s;
          s1 = s\<lparr>oc_pending_task := None\<rparr>
      in if has_blocking_pending s
         then
           (let s2 = s1\<lparr>oc_deferred := Some \<lparr>dp_text = prompt, dp_task_id = tid\<rparr>\<rparr> in
            case oc_deferred s of
              Some victim \<Rightarrow>
                (case dp_task_id victim of Some t \<Rightarrow> reject_superseded_task t s2 | None \<Rightarrow> s2)
            | None \<Rightarrow> s2)
         else slash_handle prompt tid s1)"

definition quit_requested :: "'v orch \<Rightarrow> loop_result \<times> 'v orch" where
  "quit_requested s =
     (if oc_worker_active s then (Continues, out CancelSent (s\<lparr>oc_quit_pending := True\<rparr>))
      else if has_pending s \<or> oc_pending_compaction s \<noteq> None \<or> oc_compaction_active s
      then (Continues, s\<lparr>oc_quit_pending := True\<rparr>)
      else (Breaks, s))"

definition outcome_received :: "turn_outcome \<Rightarrow> 'v orch \<Rightarrow> loop_result \<times> 'v orch" where
  "outcome_received outcome s =
     (case handle_worker_result outcome s of
        None \<Rightarrow> (Panics, s\<lparr>oc_worker_active := False\<rparr>)
      | Some (stop, s1) \<Rightarrow>
      if stop then (Breaks, s1)
      else
        (let s2 = submit_deferred_prompt s1 in
         if \<not> oc_worker_active s2
         then (case oc_completions s2 of
                 [] \<Rightarrow> (Continues, s2)
               | e # rest \<Rightarrow>
                   (Continues, out (UiState (EnqueueExternalPrompt (completion_to_prompt e)))
                      (s2\<lparr>oc_completions := rest\<rparr>)))
         else (Continues, s2)))"

definition blocking_response :: "'v ui_response \<Rightarrow> 'v orch \<Rightarrow> loop_result \<times> 'v orch" where
  "blocking_response response s =
     (let s1 = submit_deferred_prompt (handle_blocking_response response s)
      in (if oc_quit_pending s1 \<and> \<not> has_pending s1 then Breaks else Continues, s1))"

definition concurrent_response :: "'v ui_response \<Rightarrow> 'v orch \<Rightarrow> loop_result \<times> 'v orch" where
  "concurrent_response response s =
     (let s1 = handle_concurrent_response response s
      in (if oc_quit_pending s1 \<and> \<not> has_pending s1 then Breaks else Continues, s1))"

definition compaction_ended :: "'v orch \<Rightarrow> loop_result \<times> 'v orch" where
  "compaction_ended s =
     (let s1 = s\<lparr>oc_compaction_active := False\<rparr>;
          s2 = (case oc_pending_compaction s1 of
                  None \<Rightarrow> s1
                | Some source \<Rightarrow> dispatch_compaction source (s1\<lparr>oc_pending_compaction := None\<rparr>))
      in (if oc_quit_pending s2 \<and> \<not> oc_compaction_active s2 then Breaks else Continues, s2))"

definition task_arrived :: "incoming_task \<Rightarrow> str \<Rightarrow> bool \<Rightarrow> 'v orch \<Rightarrow> 'v orch" where
  "task_arrived incoming fresh full s =
     (if oc_worker_active s then reject_busy_task (it_task_id incoming) s
      else
        (let ctx_id = (case it_context_id incoming of None \<Rightarrow> fresh | Some c \<Rightarrow> c);
             prompt = incoming_to_prompt (incoming\<lparr>it_context_id := Some ctx_id\<rparr>)
         in if \<not> oc_worker_open s then s
            else if full then reject_busy_task (it_task_id incoming) s
            else (snd (send_worker (AttachA2aContext ctx_id prompt) s))
                   \<lparr>oc_pending_task := Some (it_task_id incoming)\<rparr>))"

definition completion_arrived :: "completion_event \<Rightarrow> 'v orch \<Rightarrow> 'v orch" where
  "completion_arrived e s =
     (if oc_worker_active s then s\<lparr>oc_completions := oc_completions s @ [e]\<rparr>
      else out (UiState (EnqueueExternalPrompt (completion_to_prompt e))) s)"

definition orch_step :: "'v orch_input \<Rightarrow> 'v orch \<Rightarrow> loop_result \<times> 'v orch" where
  "orch_step i s =
     (case i of
        PromptReceived prompt tid ctx_id \<Rightarrow> (Continues, prompt_received prompt tid ctx_id s)
      | PromptSubmitted prompt \<Rightarrow> (Continues, prompt_submitted prompt s)
      | PermissionDecided request_id \<Rightarrow> (Continues, permission_handle request_id s)
      | UiRequested request \<Rightarrow> (Continues, handle_incoming request s)
      | CancelRequested \<Rightarrow> (Continues, out CancelSent s)
      | QuitRequested \<Rightarrow> quit_requested s
      | FatalError e \<Rightarrow> (Fails e, s)
      | Outcome outcome \<Rightarrow> outcome_received outcome s
      | BlockingResponse response \<Rightarrow> blocking_response response s
      | ConcurrentResponse response \<Rightarrow> concurrent_response response s
      | CompactionRequest source \<Rightarrow> (Continues, dispatch_compaction source s)
      | CompactionEnded \<Rightarrow> compaction_ended s
      | OtherCompactionEvent \<Rightarrow> (Continues, s)
      | Lagged \<Rightarrow> (Continues, s)
      | TaskCancelRequested tid \<Rightarrow> (Continues, handle_external_cancel tid s)
      | TaskArrived incoming fresh full \<Rightarrow> (Continues, task_arrived incoming fresh full s)
      | CompletionArrived e \<Rightarrow> (Continues, completion_arrived e s)
      | ChannelClosed \<Rightarrow> (Breaks, s)
      | WorkerGone \<Rightarrow> (Continues, s\<lparr>oc_worker_open := False\<rparr>))"

fun orch_loop :: "'v orch_input list \<Rightarrow> 'v orch \<Rightarrow> loop_result \<times> 'v orch" where
  "orch_loop [] s = (Continues, s)"
| "orch_loop (i # is) s =
     (case orch_step i s of
        (Continues, s1) \<Rightarrow> orch_loop is s1
      | (r, s1) \<Rightarrow> (r, s1))"

definition orch_start :: "bool \<Rightarrow> bool \<Rightarrow> str set option \<Rightarrow> nat \<Rightarrow> 'v orch" where
  "orch_start has_store warn_logged waiting visible_count =
     \<lparr>oc_worker_open = True, oc_pending = waiting, oc_has_store = has_store, oc_warn_logged = warn_logged, oc_worker_active = False,
      oc_active_prompt = None, oc_active_task = None, oc_pending_cancel = None, oc_pending_task = None,
      oc_visible_count = visible_count, oc_blocking = None, oc_concurrent = [], oc_queued = [],
      oc_pending_compaction = None, oc_compaction_active = False, oc_quit_pending = False,
      oc_completions = [], oc_deferred = None, oc_out = []\<rparr>"

end
