(* ===== verification/Orchestrator_Facts.thy ===== *)
theory Orchestrator_Facts
  imports Orchestrator
begin

text \<open>
  What the orchestrator keeps true: a quit that waits always has something in flight to wait for, so the
  completions of what is in flight end the loop; and while the user interface holds prompts back during a
  turn, the tasks announced as finished are the tasks of the turns, in order.  The last lemmas show what
  the loop does not guarantee.
\<close>

section \<open>Frames of the operations\<close>

lemma out_frame [simp]:
  "oc_worker_active (out e s) = oc_worker_active s" "oc_blocking (out e s) = oc_blocking s"
  "oc_concurrent (out e s) = oc_concurrent s" "oc_pending_compaction (out e s) = oc_pending_compaction s"
  "oc_compaction_active (out e s) = oc_compaction_active s" "oc_quit_pending (out e s) = oc_quit_pending s"
  "oc_worker_open (out e s) = oc_worker_open s" "oc_active_task (out e s) = oc_active_task s"
  "oc_active_prompt (out e s) = oc_active_prompt s" "oc_warn_logged (out e s) = oc_warn_logged s"
  "oc_completions (out e s) = oc_completions s" "oc_deferred (out e s) = oc_deferred s"
  "oc_queued (out e s) = oc_queued s" "oc_pending_task (out e s) = oc_pending_task s"
  "oc_has_store (out e s) = oc_has_store s" "oc_out (out e s) = oc_out s @ [e]"
  by (simp_all add: out_def)

lemma outs_frame [simp]:
  "oc_worker_active (outs es s) = oc_worker_active s" "oc_blocking (outs es s) = oc_blocking s"
  "oc_concurrent (outs es s) = oc_concurrent s" "oc_pending_compaction (outs es s) = oc_pending_compaction s"
  "oc_compaction_active (outs es s) = oc_compaction_active s" "oc_quit_pending (outs es s) = oc_quit_pending s"
  "oc_worker_open (outs es s) = oc_worker_open s" "oc_active_task (outs es s) = oc_active_task s"
  "oc_active_prompt (outs es s) = oc_active_prompt s" "oc_warn_logged (outs es s) = oc_warn_logged s"
  "oc_completions (outs es s) = oc_completions s" "oc_deferred (outs es s) = oc_deferred s"
  "oc_queued (outs es s) = oc_queued s" "oc_pending_task (outs es s) = oc_pending_task s"
  "oc_out (outs es s) = oc_out s @ es"
  by (simp_all add: outs_def)

lemmas slash_defs = slash_handle_def start_turn_def send_worker_def Let_def

lemma slash_handle_frame [simp]:
  "oc_blocking (slash_handle p t s) = oc_blocking s"
  "oc_concurrent (slash_handle p t s) = oc_concurrent s"
  "oc_pending_compaction (slash_handle p t s) = oc_pending_compaction s"
  "oc_compaction_active (slash_handle p t s) = oc_compaction_active s"
  "oc_quit_pending (slash_handle p t s) = oc_quit_pending s"
  "oc_worker_open (slash_handle p t s) = oc_worker_open s"
  by (auto simp: slash_defs split: slash_parse.split slash_command.split option.split)

lemma slash_handle_busy: "oc_worker_active s \<Longrightarrow> oc_worker_active (slash_handle p t s)"
  by (auto simp: slash_defs split: slash_parse.split slash_command.split option.split)

lemma publish_task_failed_frame [simp]:
  "oc_blocking (publish_task_failed e s) = oc_blocking s"
  "oc_concurrent (publish_task_failed e s) = oc_concurrent s"
  "oc_pending_compaction (publish_task_failed e s) = oc_pending_compaction s"
  "oc_compaction_active (publish_task_failed e s) = oc_compaction_active s"
  "oc_quit_pending (publish_task_failed e s) = oc_quit_pending s"
  "oc_worker_open (publish_task_failed e s) = oc_worker_open s"
  "oc_worker_active (publish_task_failed e s) = oc_worker_active s"
  by (auto simp: publish_task_failed_def Let_def split: option.split)

lemma run_compaction_frame [simp]:
  "oc_worker_active (run_compaction_command c s) = oc_worker_active s"
  "oc_blocking (run_compaction_command c s) = oc_blocking s"
  "oc_concurrent (run_compaction_command c s) = oc_concurrent s"
  "oc_pending_compaction (run_compaction_command c s) = oc_pending_compaction s"
  "oc_compaction_active (run_compaction_command c s) = oc_compaction_active s"
  "oc_quit_pending (run_compaction_command c s) = oc_quit_pending s"
  "oc_worker_open (run_compaction_command c s) = oc_worker_open s"
  "oc_active_task (run_compaction_command c s) = oc_active_task s"
  "oc_active_prompt (run_compaction_command c s) = oc_active_prompt s"
  by (auto simp: run_compaction_command_def send_worker_def)

lemma dispatch_blocking_frame [simp]:
  "oc_worker_active (dispatch_blocking r s) = oc_worker_active s"
  "oc_concurrent (dispatch_blocking r s) = oc_concurrent s"
  "oc_pending_compaction (dispatch_blocking r s) = oc_pending_compaction s"
  "oc_compaction_active (dispatch_blocking r s) = oc_compaction_active s"
  "oc_quit_pending (dispatch_blocking r s) = oc_quit_pending s"
  "oc_worker_open (dispatch_blocking r s) = oc_worker_open s"
  "oc_active_task (dispatch_blocking r s) = oc_active_task s"
  "oc_active_prompt (dispatch_blocking r s) = oc_active_prompt s"
  by (auto simp: dispatch_blocking_def send_worker_def)

lemma dispatch_concurrent_frame [simp]:
  "oc_worker_active (dispatch_concurrent r s) = oc_worker_active s"
  "oc_blocking (dispatch_concurrent r s) = oc_blocking s"
  "oc_pending_compaction (dispatch_concurrent r s) = oc_pending_compaction s"
  "oc_compaction_active (dispatch_concurrent r s) = oc_compaction_active s"
  "oc_quit_pending (dispatch_concurrent r s) = oc_quit_pending s"
  "oc_worker_open (dispatch_concurrent r s) = oc_worker_open s"
  "oc_active_task (dispatch_concurrent r s) = oc_active_task s"
  "oc_active_prompt (dispatch_concurrent r s) = oc_active_prompt s"
  by (auto simp: dispatch_concurrent_def send_worker_def)

lemma drain_queued_frame [simp]:
  "oc_worker_active (drain_queued s) = oc_worker_active s"
  "oc_concurrent (drain_queued s) = oc_concurrent s"
  "oc_pending_compaction (drain_queued s) = oc_pending_compaction s"
  "oc_compaction_active (drain_queued s) = oc_compaction_active s"
  "oc_quit_pending (drain_queued s) = oc_quit_pending s"
  "oc_worker_open (drain_queued s) = oc_worker_open s"
  "oc_active_task (drain_queued s) = oc_active_task s"
  "oc_active_prompt (drain_queued s) = oc_active_prompt s"
  by (auto simp: drain_queued_def split: list.split)

lemma handle_incoming_frame [simp]:
  "oc_worker_active (handle_incoming r s) = oc_worker_active s"
  "oc_pending_compaction (handle_incoming r s) = oc_pending_compaction s"
  "oc_compaction_active (handle_incoming r s) = oc_compaction_active s"
  "oc_quit_pending (handle_incoming r s) = oc_quit_pending s"
  "oc_worker_open (handle_incoming r s) = oc_worker_open s"
  "oc_active_task (handle_incoming r s) = oc_active_task s"
  "oc_active_prompt (handle_incoming r s) = oc_active_prompt s"
  by (auto simp: handle_incoming_def enqueue_latest_def Let_def split: ui_request.split)

lemma submit_deferred_frame [simp]:
  "oc_blocking (submit_deferred_prompt s) = oc_blocking s"
  "oc_concurrent (submit_deferred_prompt s) = oc_concurrent s"
  "oc_pending_compaction (submit_deferred_prompt s) = oc_pending_compaction s"
  "oc_compaction_active (submit_deferred_prompt s) = oc_compaction_active s"
  "oc_quit_pending (submit_deferred_prompt s) = oc_quit_pending s"
  "oc_worker_open (submit_deferred_prompt s) = oc_worker_open s"
  by (auto simp: submit_deferred_prompt_def split: option.split)

lemma blocking_response_frame [simp]:
  "oc_blocking (handle_blocking_response r s) = None"
  "oc_worker_active (handle_blocking_response r s) = oc_worker_active s"
  "oc_concurrent (handle_blocking_response r s) = oc_concurrent s"
  "oc_pending_compaction (handle_blocking_response r s) = oc_pending_compaction s"
  "oc_compaction_active (handle_blocking_response r s) = oc_compaction_active s"
  "oc_quit_pending (handle_blocking_response r s) = oc_quit_pending s"
  "oc_worker_open (handle_blocking_response r s) = oc_worker_open s"
  "oc_active_task (handle_blocking_response r s) = oc_active_task s"
  "oc_active_prompt (handle_blocking_response r s) = oc_active_prompt s"
  by (simp_all add: handle_blocking_response_def)

lemma concurrent_response_frame [simp]:
  "oc_worker_active (handle_concurrent_response r s) = oc_worker_active s"
  "oc_blocking (handle_concurrent_response r s) = oc_blocking s"
  "oc_concurrent (handle_concurrent_response r s) = filter (\<lambda>q. \<not> settles r q) (oc_concurrent s)"
  "oc_pending_compaction (handle_concurrent_response r s) = oc_pending_compaction s"
  "oc_compaction_active (handle_concurrent_response r s) = oc_compaction_active s"
  "oc_quit_pending (handle_concurrent_response r s) = oc_quit_pending s"
  "oc_worker_open (handle_concurrent_response r s) = oc_worker_open s"
  "oc_active_task (handle_concurrent_response r s) = oc_active_task s"
  "oc_active_prompt (handle_concurrent_response r s) = oc_active_prompt s"
  by (auto simp: handle_concurrent_response_def Let_def split: ui_response.split sum.split)

lemma handle_worker_result_idle:
  "handle_worker_result oc s = Some (stop, s1) \<Longrightarrow>
     \<not> oc_worker_active s1 \<and> stop = oc_quit_pending s1 \<and> oc_quit_pending s1 = oc_quit_pending s \<and>
     oc_pending_compaction s1 = None \<and> oc_compaction_active s1 = oc_compaction_active s"
  by (auto simp: handle_worker_result_def handle_outcome_def Let_def
      split: option.splits turn_outcome.splits if_splits)

text \<open>The inputs that touch neither the flags nor what is in flight.\<close>

lemma prompt_received_frame [simp]:
  "oc_worker_active (prompt_received p t c s) = oc_worker_active s"
  "oc_blocking (prompt_received p t c s) = oc_blocking s"
  "oc_concurrent (prompt_received p t c s) = oc_concurrent s"
  "oc_pending_compaction (prompt_received p t c s) = oc_pending_compaction s"
  "oc_compaction_active (prompt_received p t c s) = oc_compaction_active s"
  "oc_quit_pending (prompt_received p t c s) = oc_quit_pending s"
  "oc_worker_open (prompt_received p t c s) = oc_worker_open s"
  "oc_active_task (prompt_received p t c s) = oc_active_task s"
  "oc_active_prompt (prompt_received p t c s) = oc_active_prompt s"
  by (auto simp: prompt_received_def send_worker_def Let_def split: option.split)

lemma permission_handle_frame [simp]:
  "oc_worker_active (permission_handle q s) = oc_worker_active s"
  "oc_blocking (permission_handle q s) = oc_blocking s"
  "oc_concurrent (permission_handle q s) = oc_concurrent s"
  "oc_pending_compaction (permission_handle q s) = oc_pending_compaction s"
  "oc_compaction_active (permission_handle q s) = oc_compaction_active s"
  "oc_quit_pending (permission_handle q s) = oc_quit_pending s"
  "oc_worker_open (permission_handle q s) = oc_worker_open s"
  "oc_active_task (permission_handle q s) = oc_active_task s"
  "oc_active_prompt (permission_handle q s) = oc_active_prompt s"
  by (auto simp: permission_handle_def split: option.split)

lemma external_cancel_frame [simp]:
  "oc_worker_active (handle_external_cancel t s) = oc_worker_active s"
  "oc_blocking (handle_external_cancel t s) = oc_blocking s"
  "oc_concurrent (handle_external_cancel t s) = oc_concurrent s"
  "oc_pending_compaction (handle_external_cancel t s) = oc_pending_compaction s"
  "oc_compaction_active (handle_external_cancel t s) = oc_compaction_active s"
  "oc_quit_pending (handle_external_cancel t s) = oc_quit_pending s"
  "oc_worker_open (handle_external_cancel t s) = oc_worker_open s"
  "oc_active_task (handle_external_cancel t s) = oc_active_task s"
  "oc_active_prompt (handle_external_cancel t s) = oc_active_prompt s"
  by (auto simp: handle_external_cancel_def)

lemma task_arrived_frame [simp]:
  "oc_worker_active (task_arrived t f full s) = oc_worker_active s"
  "oc_blocking (task_arrived t f full s) = oc_blocking s"
  "oc_concurrent (task_arrived t f full s) = oc_concurrent s"
  "oc_pending_compaction (task_arrived t f full s) = oc_pending_compaction s"
  "oc_compaction_active (task_arrived t f full s) = oc_compaction_active s"
  "oc_quit_pending (task_arrived t f full s) = oc_quit_pending s"
  "oc_worker_open (task_arrived t f full s) = oc_worker_open s"
  "oc_active_task (task_arrived t f full s) = oc_active_task s"
  "oc_active_prompt (task_arrived t f full s) = oc_active_prompt s"
  by (auto simp: task_arrived_def reject_busy_task_def send_worker_def Let_def)

lemma completion_arrived_frame [simp]:
  "oc_worker_active (completion_arrived e s) = oc_worker_active s"
  "oc_blocking (completion_arrived e s) = oc_blocking s"
  "oc_concurrent (completion_arrived e s) = oc_concurrent s"
  "oc_pending_compaction (completion_arrived e s) = oc_pending_compaction s"
  "oc_compaction_active (completion_arrived e s) = oc_compaction_active s"
  "oc_quit_pending (completion_arrived e s) = oc_quit_pending s"
  "oc_worker_open (completion_arrived e s) = oc_worker_open s"
  "oc_active_task (completion_arrived e s) = oc_active_task s"
  "oc_active_prompt (completion_arrived e s) = oc_active_prompt s"
  by (auto simp: completion_arrived_def)

lemma reject_superseded_frame [simp]:
  "oc_worker_active (reject_superseded_task t s) = oc_worker_active s"
  "oc_blocking (reject_superseded_task t s) = oc_blocking s"
  "oc_concurrent (reject_superseded_task t s) = oc_concurrent s"
  "oc_pending_compaction (reject_superseded_task t s) = oc_pending_compaction s"
  "oc_compaction_active (reject_superseded_task t s) = oc_compaction_active s"
  "oc_quit_pending (reject_superseded_task t s) = oc_quit_pending s"
  "oc_worker_open (reject_superseded_task t s) = oc_worker_open s"
  "oc_active_task (reject_superseded_task t s) = oc_active_task s"
  "oc_active_prompt (reject_superseded_task t s) = oc_active_prompt s"
  by (auto simp: reject_superseded_task_def)

lemma prompt_submitted_frame [simp]:
  "oc_blocking (prompt_submitted p s) = oc_blocking s"
  "oc_concurrent (prompt_submitted p s) = oc_concurrent s"
  "oc_pending_compaction (prompt_submitted p s) = oc_pending_compaction s"
  "oc_compaction_active (prompt_submitted p s) = oc_compaction_active s"
  "oc_quit_pending (prompt_submitted p s) = oc_quit_pending s"
  "oc_worker_open (prompt_submitted p s) = oc_worker_open s"
  by (auto simp: prompt_submitted_def Let_def split: option.split)

lemma prompt_submitted_busy: "oc_worker_active s \<Longrightarrow> oc_worker_active (prompt_submitted p s)"
  by (auto simp: prompt_submitted_def slash_handle_busy Let_def split: option.split)

lemma submit_deferred_busy: "oc_worker_active s \<Longrightarrow> oc_worker_active (submit_deferred_prompt s)"
  by (simp add: submit_deferred_prompt_def)

lemma handle_incoming_pending: "has_pending s \<Longrightarrow> has_pending (handle_incoming r s)"
  by (auto simp: has_pending_def handle_incoming_def enqueue_latest_def dispatch_concurrent_def
      send_worker_def Let_def split: ui_request.split)

section \<open>A quit that waits has something to wait for\<close>

text \<open>
  While a quit is pending, a turn, a request or a compaction is in flight; and a compaction is only queued
  behind a turn or another compaction.
\<close>

definition quit_inv :: "'v orch \<Rightarrow> bool" where
  "quit_inv s \<longleftrightarrow>
     (oc_quit_pending s \<longrightarrow> oc_worker_active s \<or> has_pending s \<or> oc_compaction_active s) \<and>
     (oc_pending_compaction s \<noteq> None \<longrightarrow> oc_worker_active s \<or> oc_compaction_active s)"

lemma quit_inv_start: "quit_inv (orch_start st lg w n)"
  by (simp add: quit_inv_def orch_start_def)

lemma quit_inv_request: "quit_inv s \<Longrightarrow> quit_inv (handle_incoming r s)"
  using handle_incoming_pending [of s r] by (auto simp: quit_inv_def)

lemma quit_inv_submit: "quit_inv s \<Longrightarrow> quit_inv (prompt_submitted p s)"
  using prompt_submitted_busy [of s p] by (auto simp: quit_inv_def has_pending_def)

lemma quit_inv_quit: "quit_requested s = (Continues, s1) \<Longrightarrow> quit_inv s \<Longrightarrow> quit_inv s1"
  by (auto simp: quit_requested_def quit_inv_def has_pending_def split: if_splits)

lemma quit_inv_blocking: "blocking_response r s = (Continues, s1) \<Longrightarrow> quit_inv s \<Longrightarrow> quit_inv s1"
  using submit_deferred_busy [of "handle_blocking_response r s"]
  by (auto simp: blocking_response_def quit_inv_def has_pending_def Let_def split: if_splits)

lemma quit_inv_concurrent: "concurrent_response r s = (Continues, s1) \<Longrightarrow> quit_inv s \<Longrightarrow> quit_inv s1"
  by (auto simp: concurrent_response_def quit_inv_def has_pending_def Let_def split: if_splits)

lemma quit_inv_compaction: "quit_inv s \<Longrightarrow> quit_inv (dispatch_compaction c s)"
  by (auto simp: dispatch_compaction_def quit_inv_def has_pending_def)

lemma dispatch_compaction_frame [simp]:
  "oc_worker_active (dispatch_compaction c s) = oc_worker_active s"
  "oc_blocking (dispatch_compaction c s) = oc_blocking s"
  "oc_concurrent (dispatch_compaction c s) = oc_concurrent s"
  "oc_quit_pending (dispatch_compaction c s) = oc_quit_pending s"
  "oc_worker_open (dispatch_compaction c s) = oc_worker_open s"
  "oc_active_task (dispatch_compaction c s) = oc_active_task s"
  "oc_active_prompt (dispatch_compaction c s) = oc_active_prompt s"
  by (auto simp: dispatch_compaction_def)

lemma quit_inv_compaction_ended: "compaction_ended s = (Continues, s1) \<Longrightarrow> quit_inv s \<Longrightarrow> quit_inv s1"
  by (auto simp: compaction_ended_def quit_inv_def dispatch_compaction_def Let_def
      split: if_splits option.splits)

lemma quit_inv_outcome:
  assumes "outcome_received oc s = (Continues, s1)"
  shows "quit_inv s1"
proof -
  obtain s2 where w: "handle_worker_result oc s = Some (False, s2)"
    and s1: "oc_quit_pending s1 = oc_quit_pending s2" "oc_pending_compaction s1 = oc_pending_compaction s2"
    using assms by (auto simp: outcome_received_def Let_def split: if_splits option.splits list.splits)
  from handle_worker_result_idle [OF w] s1 show ?thesis
    by (simp add: quit_inv_def)
qed

lemma quit_inv_step:
  assumes "orch_step i s = (Continues, s1)" "quit_inv s"
  shows "quit_inv s1"
proof (cases i)
    case (Outcome oc)
    with assms(1) show ?thesis by (simp add: orch_step_def quit_inv_outcome)
  next
    case (PromptSubmitted p)
    with assms show ?thesis by (auto simp: orch_step_def quit_inv_submit)
  next
    case (UiRequested r)
    with assms show ?thesis by (auto simp: orch_step_def quit_inv_request)
  next
    case QuitRequested
    with assms show ?thesis by (simp add: orch_step_def quit_inv_quit)
  next
    case (BlockingResponse r)
    with assms show ?thesis by (simp add: orch_step_def quit_inv_blocking)
  next
    case (ConcurrentResponse r)
    with assms show ?thesis by (simp add: orch_step_def quit_inv_concurrent)
  next
    case (CompactionRequest c)
    with assms show ?thesis by (auto simp: orch_step_def quit_inv_compaction)
  next
    case CompactionEnded
    with assms show ?thesis by (simp add: orch_step_def quit_inv_compaction_ended)
  qed (insert assms, auto simp: orch_step_def quit_inv_def has_pending_def)

lemma loop_invariant:
  assumes step: "\<And>i s s1. orch_step i s = (Continues, s1) \<Longrightarrow> P s \<Longrightarrow> P s1"
    and "orch_loop is s = (Continues, s1)" "P s"
  shows "P s1"
  using assms(2,3)
proof (induction "is" arbitrary: s)
  case (Cons i "is")
  then obtain s2 where "orch_step i s = (Continues, s2)" "orch_loop is s2 = (Continues, s1)"
    by (auto split: prod.splits loop_result.splits)
  with Cons.IH [of s2] Cons.prems step show ?case by blast
qed simp

text \<open>The completions of what a state has in flight: the turn, or the requests, or the compactions.\<close>

definition in_flight ::
  "turn_outcome \<Rightarrow> 'v ui_response \<Rightarrow> (ui_request \<Rightarrow> 'v ui_response) \<Rightarrow> 'v orch \<Rightarrow> 'v orch_input list" where
  "in_flight oc b ans s =
     (if oc_worker_active s then [Outcome oc]
      else if has_pending s
      then (if oc_blocking s = None then [] else [BlockingResponse b])
           @ map (\<lambda>r. ConcurrentResponse (ans r)) (oc_concurrent s)
      else [CompactionEnded, CompactionEnded])"

lemma concurrent_responses_end:
  assumes "oc_quit_pending s" "oc_blocking s = None" "oc_concurrent s \<noteq> []"
    and "set (oc_concurrent s) \<subseteq> set rs" "\<forall>r\<in>set rs. settles (ans r) r"
  shows "fst (orch_loop (map (\<lambda>r. ConcurrentResponse (ans r)) rs) s) = Breaks"
  using assms
proof (induction rs arbitrary: s)
  case (Cons r rs)
  let ?s = "handle_concurrent_response (ans r) s"
  have left: "set (oc_concurrent ?s) \<subseteq> set rs" using Cons.prems(4,5) by auto
  show ?case
  proof (cases "oc_concurrent ?s = []")
    case True
    then have "\<not> has_pending ?s" using Cons.prems(2) by (simp add: has_pending_def)
    then show ?thesis using Cons.prems(1) by (simp add: orch_step_def concurrent_response_def Let_def)
  next
    case False
    then have "has_pending ?s" by (simp add: has_pending_def)
    moreover have "fst (orch_loop (map (\<lambda>r. ConcurrentResponse (ans r)) rs) ?s) = Breaks"
      using Cons.IH [of ?s] Cons.prems left False by simp
    ultimately show ?thesis by (simp add: orch_step_def concurrent_response_def Let_def)
  qed
qed simp

lemma outcome_ends:
  assumes "oc_quit_pending s" "case oc of TurnError msg \<Rightarrow> \<not> log_slice_panics (oc_warn_logged s) msg | _ \<Rightarrow> True"
  shows "fst (outcome_received oc s) = Breaks"
proof -
  have "handle_outcome oc s \<noteq> None"
    using assms(2) by (auto simp: handle_outcome_def Let_def split: turn_outcome.splits option.splits)
  then obtain s1 where "handle_outcome oc s = Some s1" by blast
  then obtain stop s2 where w: "handle_worker_result oc s = Some (stop, s2)"
    by (auto simp: handle_worker_result_def Let_def)
  with handle_worker_result_idle [OF w] assms(1) show ?thesis by (simp add: outcome_received_def)
qed

lemma compactions_end:
  assumes "oc_quit_pending s" "\<not> oc_worker_active s"
  shows "fst (orch_loop [CompactionEnded, CompactionEnded] s) = Breaks"
  using assms
  by (auto simp: orch_step_def compaction_ended_def dispatch_compaction_def Let_def split: option.split)

lemma in_flight_ends:
  assumes quit: "oc_quit_pending s"
    and ans: "\<forall>r\<in>set (oc_concurrent s). settles (ans r) r"
    and oc: "case oc of TurnError msg \<Rightarrow> \<not> log_slice_panics (oc_warn_logged s) msg | _ \<Rightarrow> True"
  shows "fst (orch_loop (in_flight oc b ans s) s) = Breaks"
proof (cases "oc_worker_active s")
  case True
  with outcome_ends [OF quit oc] show ?thesis
    by (auto simp: in_flight_def orch_step_def split: prod.splits)
next
  case idle: False
  let ?s = "submit_deferred_prompt (handle_blocking_response b s)"
  show ?thesis
  proof (cases "has_pending s")
    case False
    with compactions_end [OF quit idle] idle show ?thesis by (simp add: in_flight_def)
  next
    case True
    show ?thesis
    proof (cases "oc_blocking s = None")
      case None: True
      with True concurrent_responses_end [of s "oc_concurrent s" ans] quit ans idle
      show ?thesis by (simp add: in_flight_def has_pending_def)
    next
      case False
      then show ?thesis
        using True idle quit ans concurrent_responses_end [of ?s "oc_concurrent s" ans]
        by (auto simp: in_flight_def orch_step_def blocking_response_def has_pending_def Let_def)
    qed
  qed
qed

section \<open>Tasks are announced in the order of their turns\<close>

definition turn_task :: "'v orch_output \<Rightarrow> str option" where
  "turn_task e = (case e of ToWorker (ExecuteTurn p t) \<Rightarrow> t | _ \<Rightarrow> None)"

definition settled_task :: "'v orch_output \<Rightarrow> str option" where
  "settled_task e = (case e of TaskCompletedEvent r t \<Rightarrow> Some t | TaskFailedEvent t r \<Rightarrow> Some t | _ \<Rightarrow> None)"

definition turn_tasks :: "'v orch_output list \<Rightarrow> str list" where
  "turn_tasks es = List.map_filter turn_task es"

definition settled_tasks :: "'v orch_output list \<Rightarrow> str list" where
  "settled_tasks es = List.map_filter settled_task es"

definition running_task :: "'v orch \<Rightarrow> str list" where
  "running_task s = (case oc_active_task s of None \<Rightarrow> [] | Some t \<Rightarrow> [t])"

text \<open>
  The environment the loop relies on: the user interface holds a prompt back while a turn runs, and the
  worker keeps its channel open.
\<close>

definition polite_input :: "'v orch_input \<Rightarrow> 'v orch \<Rightarrow> bool" where
  "polite_input i s \<longleftrightarrow>
     (case i of PromptSubmitted p \<Rightarrow> \<not> oc_worker_active s | WorkerGone \<Rightarrow> False | _ \<Rightarrow> True)"

fun polite :: "'v orch_input list \<Rightarrow> 'v orch \<Rightarrow> bool" where
  "polite [] s = True"
| "polite (i # is) s \<longleftrightarrow>
     polite_input i s \<and>
     (case orch_step i s of (Continues, s1) \<Rightarrow> polite is s1 | _ \<Rightarrow> True)"

definition task_inv :: "'v orch \<Rightarrow> bool" where
  "task_inv s \<longleftrightarrow>
     oc_worker_open s \<and> (oc_worker_active s \<longrightarrow> oc_blocking s = None) \<and>
     (\<not> oc_worker_active s \<longrightarrow> oc_active_task s = None) \<and>
     (oc_active_prompt s = None \<longleftrightarrow> oc_active_task s = None) \<and>
     turn_tasks (oc_out s) = settled_tasks (oc_out s) @ running_task s"

lemma tasks_append [simp]:
  "turn_tasks [] = []" "turn_tasks (es @ fs) = turn_tasks es @ turn_tasks fs"
  "turn_tasks (e # es) = (case turn_task e of None \<Rightarrow> [] | Some t \<Rightarrow> [t]) @ turn_tasks es"
  "settled_tasks [] = []" "settled_tasks (es @ fs) = settled_tasks es @ settled_tasks fs"
  "settled_tasks (e # es) = (case settled_task e of None \<Rightarrow> [] | Some t \<Rightarrow> [t]) @ settled_tasks es"
  by (simp_all add: turn_tasks_def settled_tasks_def List.map_filter_def split: option.split)

lemma task_of_output [simp]:
  "turn_task (ToWorker (ExecuteTurn p t)) = t" "turn_task (ToWorker (HandleUiRequest q b)) = None"
  "turn_task (ToWorker (RunCompaction c)) = None" "turn_task (ToWorker (AttachA2aContext c p)) = None"
  "turn_task (ToWorker NewSession) = None" "turn_task (UiState u) = None" "turn_task (UiWarning w) = None"
  "turn_task (UiTurnError w) = None" "turn_task CancelSent = None" "turn_task (CompactionAsked w) = None"
  "turn_task (CompactionRefused w) = None" "turn_task (SessionSwitched w) = None"
  "turn_task (TaskCompletedEvent w x) = None" "turn_task (TaskFailedEvent x w) = None"
  "turn_task (TaskRejectedInStore x w) = None" "turn_task (DecisionDelivered w) = None"
  "turn_task (DecisionIgnored w) = None"
  by (simp_all add: turn_task_def)

lemma settled_of_output [simp]:
  "settled_task (ToWorker c) = None" "settled_task (UiState u) = None" "settled_task (UiWarning w) = None"
  "settled_task (UiTurnError w) = None" "settled_task CancelSent = None" "settled_task (CompactionAsked w) = None"
  "settled_task (CompactionRefused w) = None" "settled_task (SessionSwitched w) = None"
  "settled_task (TaskCompletedEvent w x) = Some x" "settled_task (TaskFailedEvent x w) = Some x"
  "settled_task (TaskRejectedInStore x w) = None" "settled_task (DecisionDelivered w) = None"
  "settled_task (DecisionIgnored w) = None"
  by (simp_all add: settled_task_def)

lemma tasks_of_names [simp]:
  "turn_tasks (map (\<lambda>(srv, names). UiState (SetMcpVisibleToolNames srv names)) xs) = []"
  "settled_tasks (map (\<lambda>(srv, names). UiState (SetMcpVisibleToolNames srv names)) xs) = []"
  by (induction xs) auto

text \<open>An operation that neither starts a turn nor settles a task.\<close>

definition quiet :: "'v orch \<Rightarrow> 'v orch \<Rightarrow> bool" where
  "quiet s s1 \<longleftrightarrow>
     turn_tasks (oc_out s1) = turn_tasks (oc_out s) \<and> settled_tasks (oc_out s1) = settled_tasks (oc_out s)"

lemma quiet_blocking: "quiet s (dispatch_blocking r s)"
  by (auto simp: quiet_def dispatch_blocking_def send_worker_def)

lemma quiet_concurrent: "quiet s (dispatch_concurrent r s)"
  by (auto simp: quiet_def dispatch_concurrent_def send_worker_def split: ui_request.split)

lemma quiet_incoming: "quiet s (handle_incoming r s)"
  using quiet_blocking [of s r] quiet_concurrent [of s r]
  by (auto simp: handle_incoming_def enqueue_latest_def Let_def quiet_def split: ui_request.split)

lemma quiet_drain: "quiet s (drain_queued s)"
  by (auto simp: quiet_def drain_queued_def dispatch_blocking_def send_worker_def split: list.split)

lemma quiet_compaction_command: "quiet s (run_compaction_command c s)"
  by (auto simp: quiet_def run_compaction_command_def send_worker_def)

lemma quiet_compaction: "quiet s (dispatch_compaction c s)"
  using quiet_compaction_command [of "s\<lparr>oc_compaction_active := True\<rparr>" c]
  by (auto simp: dispatch_compaction_def quiet_def)

lemma quiet_received: "quiet s (prompt_received p t c s)"
  by (auto simp: quiet_def prompt_received_def send_worker_def Let_def split: option.split)

lemma quiet_permission: "quiet s (permission_handle q s)"
  by (auto simp: quiet_def permission_handle_def split: option.split)

lemma quiet_cancel: "quiet s (handle_external_cancel t s)"
  by (auto simp: quiet_def handle_external_cancel_def)

lemma quiet_task: "quiet s (task_arrived t f full s)"
  by (auto simp: quiet_def task_arrived_def reject_busy_task_def send_worker_def Let_def)

lemma quiet_completion: "quiet s (completion_arrived e s)"
  by (auto simp: quiet_def completion_arrived_def)

lemma quiet_blocking_response: "quiet s (handle_blocking_response r s)"
  by (auto simp: quiet_def handle_blocking_response_def split: ui_response.split sum.split)

lemma quiet_concurrent_response: "quiet s (handle_concurrent_response r s)"
  by (auto simp: quiet_def handle_concurrent_response_def Let_def split: ui_response.split sum.split)

lemmas quiet_ops = quiet_incoming quiet_drain quiet_compaction quiet_received quiet_permission
  quiet_cancel quiet_task quiet_completion quiet_blocking_response quiet_concurrent_response

lemma task_inv_quiet:
  assumes "task_inv s" "quiet s s1"
    and "oc_worker_active s1 = oc_worker_active s" "oc_worker_open s1 = oc_worker_open s"
    and "oc_active_task s1 = oc_active_task s" "oc_active_prompt s1 = oc_active_prompt s"
    and "oc_worker_active s \<Longrightarrow> oc_blocking s = None \<Longrightarrow> oc_blocking s1 = None"
  shows "task_inv s1"
  using assms by (auto simp: task_inv_def quiet_def running_task_def)

lemma task_inv_slash:
  assumes "task_inv s" "\<not> oc_worker_active s" "oc_blocking s = None"
  shows "task_inv (slash_handle p t s)"
  using assms
  by (auto simp: task_inv_def slash_defs running_task_def
      split: slash_parse.split slash_command.split option.split)

lemma task_inv_submitted:
  assumes "task_inv s" "\<not> oc_worker_active s"
  shows "task_inv (prompt_submitted p s)"
proof (cases "has_blocking_pending s")
  case True
  with assms show ?thesis
    by (auto simp: prompt_submitted_def reject_superseded_task_def task_inv_def running_task_def Let_def
        split: option.split)
next
  case False
  have "task_inv (s\<lparr>oc_pending_task := None\<rparr>)" using assms by (simp add: task_inv_def running_task_def)
  from task_inv_slash [OF this] assms False show ?thesis
    by (simp add: prompt_submitted_def has_blocking_pending_def)
qed

lemma task_inv_deferred:
  assumes "task_inv s"
  shows "task_inv (submit_deferred_prompt s)"
proof -
  have "task_inv (s\<lparr>oc_deferred := None\<rparr>)" using assms by (simp add: task_inv_def running_task_def)
  from task_inv_slash [OF this] assms show ?thesis
    by (auto simp: submit_deferred_prompt_def has_blocking_pending_def split: option.split)
qed

lemma task_inv_outcome:
  "handle_outcome oc s = Some s1 \<Longrightarrow> task_inv s \<Longrightarrow> task_inv s1 \<and> \<not> oc_worker_active s1"
  by (auto simp: handle_outcome_def publish_task_failed_def task_inv_def running_task_def Let_def
      split: turn_outcome.splits option.splits if_splits)

lemma drain_queued_busy: "oc_worker_active s \<Longrightarrow> drain_queued s = s"
  by (simp add: drain_queued_def)

lemma task_inv_drain: "task_inv s \<Longrightarrow> task_inv (drain_queued s)"
  by (erule task_inv_quiet [OF _ quiet_drain]) (auto simp: drain_queued_busy)

lemma task_inv_worker_result:
  assumes "handle_worker_result oc s = Some (stop, s1)" "task_inv s"
  shows "task_inv s1"
proof -
  obtain s0 where "handle_outcome oc s = Some s0"
    using assms(1) by (auto simp: handle_worker_result_def split: option.splits)
  then have inv: "task_inv (drain_queued s0)" and s1: "s1 = drain_queued s0 \<or>
      (\<exists>c. s1 = run_compaction_command c (drain_queued s0\<lparr>oc_pending_compaction := None\<rparr>))"
    using assms task_inv_outcome task_inv_drain
    by (auto simp: handle_worker_result_def Let_def split: option.splits)
  have "task_inv (run_compaction_command c (drain_queued s0\<lparr>oc_pending_compaction := None\<rparr>))" for c
    by (rule task_inv_quiet [OF inv])
      (use quiet_compaction_command [of "drain_queued s0\<lparr>oc_pending_compaction := None\<rparr>" c]
        in \<open>auto simp: quiet_def\<close>)
  with s1 inv show ?thesis by blast
qed

lemma task_inv_out: "turn_task e = None \<Longrightarrow> settled_task e = None \<Longrightarrow> task_inv s \<Longrightarrow> task_inv (out e s)"
  by (simp add: task_inv_def running_task_def)

lemma task_inv_irrelevant [simp]:
  "task_inv (s\<lparr>oc_completions := es\<rparr>) = task_inv s"
  "task_inv (s\<lparr>oc_quit_pending := b\<rparr>) = task_inv s"
  "task_inv (s\<lparr>oc_pending_compaction := c\<rparr>) = task_inv s"
  "task_inv (s\<lparr>oc_compaction_active := b\<rparr>) = task_inv s"
  by (simp_all add: task_inv_def running_task_def)

lemma task_inv_outcome_received:
  assumes "outcome_received oc s = (r, s1)" "r \<noteq> Panics" "task_inv s"
  shows "task_inv s1"
proof -
  obtain stop s2 where w: "handle_worker_result oc s = Some (stop, s2)"
    using assms(1,2) by (auto simp: outcome_received_def split: option.splits)
  have "task_inv s2" "task_inv (submit_deferred_prompt s2)"
    using task_inv_worker_result [OF w assms(3)] task_inv_deferred by auto
  with assms(1) w show ?thesis
    by (auto simp: outcome_received_def Let_def task_inv_out split: if_splits list.splits)
qed

lemma task_inv_dispatch_compaction: "task_inv s \<Longrightarrow> task_inv (dispatch_compaction c s)"
  by (erule task_inv_quiet [OF _ quiet_compaction]) auto

lemma task_inv_step:
  assumes "orch_step i s = (r, s1)" "r \<noteq> Panics" "polite_input i s" "task_inv s"
  shows "task_inv s1"
proof (cases i)
  case (Outcome oc)
  with assms task_inv_outcome_received show ?thesis by (auto simp: orch_step_def)
next
  case (PromptSubmitted p)
  with assms show ?thesis by (auto simp: orch_step_def polite_input_def task_inv_submitted)
next
  case (UiRequested q)
  have "task_inv (handle_incoming q s)"
    by (rule task_inv_quiet [OF assms(4) quiet_incoming])
      (auto simp: handle_incoming_def enqueue_latest_def Let_def split: ui_request.split)
  with UiRequested assms show ?thesis by (auto simp: orch_step_def)
next
  case QuitRequested
  with assms show ?thesis
    by (auto simp: orch_step_def quit_requested_def task_inv_out split: if_splits)
next
  case (BlockingResponse q)
  have "task_inv (handle_blocking_response q s)"
    by (rule task_inv_quiet [OF assms(4) quiet_blocking_response]) auto
  with BlockingResponse assms show ?thesis
    by (auto simp: orch_step_def blocking_response_def Let_def task_inv_deferred)
next
  case (ConcurrentResponse q)
  have "task_inv (handle_concurrent_response q s)"
    by (rule task_inv_quiet [OF assms(4) quiet_concurrent_response]) auto
  with ConcurrentResponse assms show ?thesis
    by (auto simp: orch_step_def concurrent_response_def Let_def)
next
  case (CompactionRequest c)
  with assms show ?thesis by (auto simp: orch_step_def task_inv_dispatch_compaction)
next
  case CompactionEnded
  with assms show ?thesis
    by (auto simp: orch_step_def compaction_ended_def task_inv_dispatch_compaction Let_def
        split: option.splits if_splits)
next
  case WorkerGone
  with assms show ?thesis by (simp add: polite_input_def)
qed (use assms in \<open>auto simp: orch_step_def quiet_ops task_inv_out intro: task_inv_quiet\<close>)

lemma task_inv_loop:
  "orch_loop is s = (r, s1) \<Longrightarrow> r \<noteq> Panics \<Longrightarrow> polite is s \<Longrightarrow> task_inv s \<Longrightarrow> task_inv s1"
proof (induction "is" arbitrary: s)
  case (Cons i "is")
  obtain r2 s2 where st: "orch_step i s = (r2, s2)" by fastforce
  show ?case
  proof (cases "r2 = Panics")
    case False
    then have "task_inv s2" using st Cons.prems task_inv_step by auto
    with Cons st show ?thesis by (cases r2) auto
  qed (use Cons.prems st in auto)
qed simp

lemma task_inv_start: "task_inv (orch_start st lg w n)"
  by (simp add: task_inv_def orch_start_def running_task_def)

section \<open>The properties\<close>

text \<open>
  C26. Liveness of a quit: whenever the loop is still running with a quit pending, something is in flight,
  and the completions of what is in flight make the loop exit.  An answer of the worker is one to its
  request, and the outcome of the turn is any but an error whose line in the log panics (lemma
  \<open>long_error_panics\<close>).
\<close>

theorem quit_exits:
  assumes "orch_loop is (orch_start st lg w n) = (Continues, s)" and "oc_quit_pending s"
    and "\<forall>r\<in>set (oc_concurrent s). settles (ans r) r"
    and "case oc of TurnError msg \<Rightarrow> \<not> log_slice_panics (oc_warn_logged s) msg | _ \<Rightarrow> True"
  shows "(oc_worker_active s \<or> has_pending s \<or> oc_compaction_active s) \<and>
         fst (orch_loop (in_flight oc b ans s) s) = Breaks"
proof -
  have "quit_inv s" using loop_invariant [where P = quit_inv, OF quit_inv_step assms(1) quit_inv_start] .
  with assms(2) in_flight_ends [OF assms(2-4)] show ?thesis by (simp add: quit_inv_def)
qed

definition quit_run :: "nat orch_input list" where
  "quit_run = [UiRequested RefreshSessionPicker, UiRequested (SwitchModel ''m''), QuitRequested]"

definition quit_answer :: "ui_request \<Rightarrow> nat ui_response" where
  "quit_answer r = SessionRefresh (Inr 0)"

lemma quit_exits_witness:
  "fst (orch_loop (in_flight TurnCancelled (ModelSwitch (Inl ''no'')) quit_answer
          (snd (orch_loop quit_run (orch_start True True None 0))))
        (snd (orch_loop quit_run (orch_start True True None 0)))) = Breaks"
proof -
  let ?s = "snd (orch_loop quit_run (orch_start True True None 0))"
  have "orch_loop quit_run (orch_start True True None 0) = (Continues, ?s)" by code_simp
  moreover have "oc_quit_pending ?s" by code_simp
  moreover have "\<forall>r\<in>set (oc_concurrent ?s). settles (quit_answer r) r" by code_simp
  moreover have "case TurnCancelled of TurnError msg \<Rightarrow> \<not> log_slice_panics (oc_warn_logged ?s) msg | _ \<Rightarrow> True"
    by simp
  ultimately show ?thesis using quit_exits [of quit_run True True None 0 ?s quit_answer TurnCancelled] by blast
qed

text \<open>
  C27. While the user interface submits prompts only between turns and the worker keeps its channel open,
  the tasks announced as completed or failed are, in order, the tasks of the turns sent to the worker,
  the running turn's task being the only one not announced; without a running turn none is left over; and
  a blocking switch of model, agent or session never runs beside a turn.
\<close>

theorem tasks_settled_in_turn_order:
  assumes "orch_loop is (orch_start st lg w n) = (r, s)" and "r \<noteq> Panics"
    and "polite is (orch_start st lg w n)"
  shows "turn_tasks (oc_out s) = settled_tasks (oc_out s) @ running_task s \<and>
         (\<not> oc_worker_active s \<longrightarrow> running_task s = []) \<and>
         (oc_worker_active s \<longrightarrow> oc_blocking s = None)"
  using task_inv_loop [OF assms task_inv_start] by (simp add: task_inv_def running_task_def)

definition task_run :: "nat orch_input list" where
  "task_run =
     [PromptReceived ''hi'' ''t1'' None, PromptSubmitted ''hi'', Outcome (TurnSuccess (ValString ''done'')),
      UiRequested (SwitchAgent ''a''), PromptReceived ''go'' ''t2'' None, PromptSubmitted ''go'',
      BlockingResponse (AgentSwitch (Inl ''no''))]"

lemma tasks_settled_in_turn_order_witness:
  "turn_tasks (oc_out (snd (orch_loop task_run (orch_start True True None 0)))) = [''t1'', ''t2''] \<and>
   settled_tasks (oc_out (snd (orch_loop task_run (orch_start True True None 0)))) = [''t1'']"
proof -
  let ?s = "snd (orch_loop task_run (orch_start True True None 0))"
  have "orch_loop task_run (orch_start True True None 0) = (Continues, ?s)" by code_simp
  moreover have "polite task_run (orch_start True True None 0)" by code_simp
  ultimately have "turn_tasks (oc_out ?s) = settled_tasks (oc_out ?s) @ running_task ?s"
    using tasks_settled_in_turn_order [of task_run True True None 0 Continues ?s] by simp
  moreover have "settled_tasks (oc_out ?s) = [''t1'']" by code_simp
  moreover have "running_task ?s = [''t2'']" by code_simp
  ultimately show ?thesis by simp
qed

section \<open>What the loop does not guarantee\<close>

text \<open>The blocking requests sent to the worker, in order.\<close>

definition blocking_sent :: "nat orch_output list \<Rightarrow> ui_request list" where
  "blocking_sent es =
     List.map_filter (\<lambda>e. case e of ToWorker (HandleUiRequest q True) \<Rightarrow> Some q | _ \<Rightarrow> None) es"

text \<open>
  A switch queued behind another one is not sent when that one is answered: it waits for the end of a
  later turn, and then undoes a newer switch that was sent at once.
\<close>

lemma stale_switch_replayed:
  "blocking_sent (oc_out (snd (orch_loop
       [UiRequested (SwitchModel ''a''), UiRequested (SwitchModel ''b''), BlockingResponse (ModelSwitch (Inl [])),
        UiRequested (SwitchModel ''c''), BlockingResponse (ModelSwitch (Inl [])), PromptSubmitted ''hi'',
        Outcome (TurnSuccess ValOther)] (orch_start True True None 0))))
   = [SwitchModel ''a'', SwitchModel ''c'', SwitchModel ''b'']"
  by code_simp

text \<open>
  A quit that waits for a turn does not wait when a request beside it is answered: the loop ends with the
  turn running and its task never settled.
\<close>

lemma quit_leaves_turn_running:
  "(let (r, s) = orch_loop
       [UiRequested RefreshSessionPicker, PromptReceived ''hi'' ''t'' None, PromptSubmitted ''hi'', QuitRequested,
        ConcurrentResponse (SessionRefresh (Inr (0 :: nat)))] (orch_start True True None 0)
    in r = Breaks \<and> oc_worker_active s \<and> running_task s = [''t''] \<and> settled_tasks (oc_out s) = [])"
  by code_simp

text \<open>
  The slot of the task waiting for its prompt holds one task.  With two tasks received before the first
  prompt is submitted, the first prompt runs as the second task and the first task is never settled.
\<close>

lemma second_task_takes_first_prompt:
  "turn_tasks (oc_out (snd (orch_loop
       [PromptReceived ''one'' ''t1'' None, PromptReceived ''two'' ''t2'' None, PromptSubmitted ''one'',
        Outcome (TurnSuccess ValOther), PromptSubmitted ''two'', Outcome (TurnSuccess ValOther)]
       (orch_start True True None 0 :: nat orch)))) = [''t2'']"
  by code_simp

text \<open>
  A compaction queued behind a turn is sent at the turn's end without being marked as running, so that the
  next request sends another beside it and a quit does not wait for either.
\<close>

lemma queued_compaction_not_tracked:
  "(let (r, s) = orch_loop
       [PromptSubmitted ''hi'', CompactionRequest ''auto'', Outcome (TurnSuccess ValOther), CompactionRequest ''slash'']
       (orch_start True True None 0 :: nat orch)
    in r = Continues \<and>
       filter (\<lambda>e. e = ToWorker (RunCompaction ''auto'') \<or> e = ToWorker (RunCompaction ''slash'')) (oc_out s)
         = [ToWorker (RunCompaction ''auto''), ToWorker (RunCompaction ''slash'')])"
  "fst (orch_loop
       [PromptSubmitted ''hi'', CompactionRequest ''auto'', Outcome (TurnSuccess ValOther), QuitRequested]
       (orch_start True True None 0 :: nat orch)) = Breaks"
  by code_simp+

text \<open>
  A turn that fails with a message of which byte 200 lies inside a character takes the loop down when
  warnings are logged.
\<close>

lemma long_error_panics:
  assumes "200 < length msg" "\<not> is_char_boundary msg 200" "oc_warn_logged s"
  shows "fst (outcome_received (TurnError msg) s) = Panics"
proof -
  have "log_slice_panics True msg" using assms by (simp add: log_slice_panics_def min_def)
  with assms(3) show ?thesis
    by (simp add: outcome_received_def handle_worker_result_def handle_outcome_def)
qed

end
