(* ===== verification/Storage.thy ===== *)
theory Storage
  imports Recovery "HOL-Library.Product_Lexorder"
begin

text \<open>
  The database of \<open>crates/agnt-storage\<close>: its tables, the work units that run on it (\<open>rig_adapter/work.rs\<close>,
  \<open>services\<close>), the migration of \<open>migrations.rs\<close> and the log and file contracts of \<open>rig_adapter\<close>.  A table
  is a list sorted by its primary key.  SQLite is the environment: it may refuse any statement, and a
  transaction that is not committed leaves the tables as they were.  Instants and ordinals are \<open>i64\<close>,
  modelled as integers.
\<close>

section \<open>The tables\<close>

record call_row =
  cr_turn_seq :: int
  cr_status :: str
  cr_settled_millis :: int

record db =
  db_version :: int
  db_tables :: "str list"
  db_logs :: "((str \<times> str) \<times> str) list"
  db_files :: "((str \<times> str) \<times> str) list"
  db_sessions :: "(str \<times> int) list"
  db_turns :: "((str \<times> int) \<times> turn_facts) list"
  db_entry_turns :: "((str \<times> message_key) \<times> int) list"
  db_tool_calls :: "((str \<times> str) \<times> call_row) list"

datatype sql_error = Refused | ForeignKey | CheckFailed | TableExists str

datatype storage_error =
    StorageCustom str
  | SchemaTooNew int int
  | LegacyStore int int str
  | EngineClosed
  | Sqlite sql_error

text \<open>Which statements of a unit SQLite refuses, by their position in it.\<close>

type_synonym faults = "nat \<Rightarrow> bool"

definition sql_bind :: "'e + 'a \<Rightarrow> ('a \<Rightarrow> 'e + 'b) \<Rightarrow> 'e + 'b" where
  "sql_bind m f = (case m of Inl e \<Rightarrow> Inl e | Inr a \<Rightarrow> f a)"

definition stmt :: "faults \<Rightarrow> nat \<Rightarrow> sql_error + 'a \<Rightarrow> sql_error + 'a" where
  "stmt flt k r = (if flt k then Inl Refused else r)"

text \<open>A unit answers its caller and leaves the tables it committed, or those it found.\<close>

definition finish_unit :: "db \<Rightarrow> sql_error + ('a \<times> db) \<Rightarrow> (sql_error + 'a) \<times> db" where
  "finish_unit d r = (case r of Inl e \<Rightarrow> (Inl e, d) | Inr (a, d1) \<Rightarrow> (Inr a, d1))"

section \<open>The units of rig's contracts\<close>

definition record_session :: "int \<Rightarrow> str \<Rightarrow> db \<Rightarrow> db" where
  "record_session now session d =
     (case map_of (db_sessions d) session of
        Some t \<Rightarrow> d
      | None \<Rightarrow> d\<lparr>db_sessions := bt_put session now (db_sessions d)\<rparr>)"

definition write_file_unit :: "faults \<Rightarrow> int \<Rightarrow> str \<Rightarrow> str \<Rightarrow> str \<Rightarrow> db \<Rightarrow> (sql_error + unit) \<times> db" where
  "write_file_unit flt now session name bytes d = finish_unit d
     (sql_bind (stmt flt 0 (Inr d)) (\<lambda>d0.
      sql_bind (stmt flt 1 (Inr (d0\<lparr>db_files := bt_put (session, name) bytes (db_files d0)\<rparr>))) (\<lambda>d1.
      sql_bind (stmt flt 2 (Inr (record_session now session d1))) (\<lambda>d2.
      stmt flt 3 (Inr ((), d2))))))"

definition append_file_unit :: "faults \<Rightarrow> int \<Rightarrow> str \<Rightarrow> str \<Rightarrow> str \<Rightarrow> db \<Rightarrow> (sql_error + unit) \<times> db" where
  "append_file_unit flt now session name bytes d = finish_unit d
     (sql_bind (stmt flt 0 (Inr d)) (\<lambda>d0.
      sql_bind (stmt flt 1 (Inr (d0\<lparr>db_files :=
          bt_put (session, name)
            (case map_of (db_files d0) (session, name) of None \<Rightarrow> bytes | Some old \<Rightarrow> old @ bytes)
            (db_files d0)\<rparr>))) (\<lambda>d1.
      sql_bind (stmt flt 2 (Inr (record_session now session d1))) (\<lambda>d2.
      stmt flt 3 (Inr ((), d2))))))"

definition read_file_unit :: "faults \<Rightarrow> str \<Rightarrow> str \<Rightarrow> db \<Rightarrow> sql_error + str option" where
  "read_file_unit flt session name d = stmt flt 0 (Inr (map_of (db_files d) (session, name)))"

definition remove_file_unit :: "faults \<Rightarrow> str \<Rightarrow> str \<Rightarrow> db \<Rightarrow> (sql_error + unit) \<times> db" where
  "remove_file_unit flt session name d = finish_unit d
     (stmt flt 0 (Inr ((), d\<lparr>db_files := filter (\<lambda>(k, b). k \<noteq> (session, name)) (db_files d)\<rparr>)))"

definition names_of :: "str \<Rightarrow> ((str \<times> str) \<times> 'a) list \<Rightarrow> str list" where
  "names_of session rows = sort (map (snd \<circ> fst) (filter (\<lambda>(k, b). fst k = session) rows))"

definition file_names_unit :: "faults \<Rightarrow> str \<Rightarrow> db \<Rightarrow> sql_error + str list" where
  "file_names_unit flt session d = stmt flt 0 (Inr (names_of session (db_files d)))"

definition log_names_unit :: "faults \<Rightarrow> str \<Rightarrow> db \<Rightarrow> sql_error + str list" where
  "log_names_unit flt session d = stmt flt 0 (Inr (names_of session (db_logs d)))"

definition read_log_unit :: "faults \<Rightarrow> str \<Rightarrow> str \<Rightarrow> db \<Rightarrow> sql_error + str option" where
  "read_log_unit flt session name d = stmt flt 0 (Inr (map_of (db_logs d) (session, name)))"

text \<open>Starting a log inserts its row when the caller read no byte and there is none.\<close>

definition insert_log :: "str \<Rightarrow> str \<Rightarrow> int \<Rightarrow> str \<Rightarrow> db \<Rightarrow> nat \<times> db" where
  "insert_log session name len bytes d =
     (if len = 0 \<and> map_of (db_logs d) (session, name) = None
      then (1, d\<lparr>db_logs := bt_put (session, name) bytes (db_logs d)\<rparr>) else (0, d))"

text \<open>Updating a log writes the new bytes when it is as long as the caller read it.\<close>

definition update_log :: "str \<Rightarrow> str \<Rightarrow> int \<Rightarrow> (str \<Rightarrow> str) \<Rightarrow> db \<Rightarrow> nat \<times> db" where
  "update_log session name len new d =
     (case map_of (db_logs d) (session, name) of
        Some old \<Rightarrow>
          (if int (length old) = len
           then (1, d\<lparr>db_logs := bt_put (session, name) (new old) (db_logs d)\<rparr>) else (0, d))
      | None \<Rightarrow> (0, d))"

definition change_log ::
  "faults \<Rightarrow> int \<Rightarrow> str \<Rightarrow> str \<Rightarrow> int \<Rightarrow> str \<Rightarrow> (str \<Rightarrow> str) \<Rightarrow> db \<Rightarrow> (sql_error + bool) \<times> db" where
  "change_log flt now session name len bytes new d = finish_unit d
     (sql_bind (stmt flt 0 (Inr d)) (\<lambda>d0.
      sql_bind (if len = 0 then stmt flt 1 (Inr (insert_log session name len bytes d0)) else Inr (0, d0))
        (\<lambda>(started, d1).
      if 0 < started
      then sql_bind (stmt flt 2 (Inr (record_session now session d1))) (\<lambda>d2. stmt flt 3 (Inr (True, d2)))
      else sql_bind (stmt flt 2 (Inr (update_log session name len new d1))) (\<lambda>(changed, d2).
           if changed = 0 then Inr (False, d)
           else sql_bind (stmt flt 3 (Inr (record_session now session d2))) (\<lambda>d3. stmt flt 4 (Inr (True, d3)))))))"

definition append_log_unit ::
  "faults \<Rightarrow> int \<Rightarrow> str \<Rightarrow> str \<Rightarrow> int \<Rightarrow> str \<Rightarrow> db \<Rightarrow> (sql_error + bool) \<times> db" where
  "append_log_unit flt now session name len bytes d =
     change_log flt now session name len bytes (\<lambda>old. old @ bytes) d"

definition replace_log_unit ::
  "faults \<Rightarrow> int \<Rightarrow> str \<Rightarrow> str \<Rightarrow> int \<Rightarrow> str \<Rightarrow> db \<Rightarrow> (sql_error + bool) \<times> db" where
  "replace_log_unit flt now session name len bytes d =
     change_log flt now session name len bytes (\<lambda>old. bytes) d"

definition destroy_unit :: "faults \<Rightarrow> str \<Rightarrow> db \<Rightarrow> (sql_error + unit) \<times> db" where
  "destroy_unit flt session d = finish_unit d
     (sql_bind (stmt flt 0 (Inr d)) (\<lambda>d0.
      sql_bind (stmt flt 1 (Inr (d0\<lparr>db_logs := filter (\<lambda>(k, b). fst k \<noteq> session) (db_logs d0)\<rparr>))) (\<lambda>d1.
      sql_bind (stmt flt 2 (Inr (d1\<lparr>db_files := filter (\<lambda>(k, b). fst k \<noteq> session) (db_files d1)\<rparr>))) (\<lambda>d2.
      sql_bind (stmt flt 3 (Inr (d2\<lparr>db_sessions := filter (\<lambda>(k, t). k \<noteq> session) (db_sessions d2)\<rparr>))) (\<lambda>d3.
      stmt flt 4 (Inr ((), d3)))))))"

definition session_ids_unit :: "faults \<Rightarrow> db \<Rightarrow> sql_error + str list" where
  "session_ids_unit flt d = stmt flt 0 (Inr (sort (map fst (db_sessions d))))"

section \<open>The fact tables\<close>

definition status_text :: "tool_status \<Rightarrow> str" where
  "status_text s =
     (case s of StatusSuccess \<Rightarrow> ''success'' | StatusFailed \<Rightarrow> ''failed'' | StatusCancelled \<Rightarrow> ''cancelled'')"

definition parse_status :: "str \<Rightarrow> tool_status option" where
  "parse_status stored =
     (if stored = ''success'' then Some StatusSuccess
      else if stored = ''failed'' then Some StatusFailed
      else if stored = ''cancelled'' then Some StatusCancelled
      else None)"

text \<open>The three upserts.  An edge to a turn that is not recorded is refused, and so is an unknown status.\<close>

definition upsert_turn :: "turn_facts \<Rightarrow> db \<Rightarrow> sql_error + db" where
  "upsert_turn t d = Inr (d\<lparr>db_turns := bt_put (tf_session_id t, tf_turn_seq t) t (db_turns d)\<rparr>)"

definition upsert_entry :: "str \<Rightarrow> int \<Rightarrow> message_key \<Rightarrow> db \<Rightarrow> sql_error + db" where
  "upsert_entry session seq key d =
     (if map_of (db_turns d) (session, seq) = None then Inl ForeignKey
      else Inr (d\<lparr>db_entry_turns := bt_put (session, key) seq (db_entry_turns d)\<rparr>))"

definition upsert_call :: "call_fact \<Rightarrow> db \<Rightarrow> sql_error + db" where
  "upsert_call c d =
     (if status_text (cf_status c) \<notin> {''success'', ''failed'', ''cancelled''} then Inl CheckFailed
      else if map_of (db_turns d) (cf_session_id c, cf_turn_seq c) = None then Inl ForeignKey
      else Inr (d\<lparr>db_tool_calls :=
          bt_put (cf_session_id c, cf_call c)
            \<lparr>cr_turn_seq = cf_turn_seq c, cr_status = status_text (cf_status c),
             cr_settled_millis = cf_settled_millis c\<rparr> (db_tool_calls d)\<rparr>))"

text \<open>A transaction of upserts, one statement each, after its begin and before its commit.\<close>

fun run_upserts :: "faults \<Rightarrow> nat \<Rightarrow> (db \<Rightarrow> sql_error + db) list \<Rightarrow> db \<Rightarrow> sql_error + (unit \<times> db)" where
  "run_upserts flt k [] d = stmt flt k (Inr ((), d))"
| "run_upserts flt k (u # us) d = sql_bind (stmt flt k (u d)) (\<lambda>d1. run_upserts flt (Suc k) us d1)"

definition upsert_unit :: "faults \<Rightarrow> (db \<Rightarrow> sql_error + db) list \<Rightarrow> db \<Rightarrow> (sql_error + unit) \<times> db" where
  "upsert_unit flt us d = finish_unit d (sql_bind (stmt flt 0 (Inr d)) (\<lambda>d0. run_upserts flt 1 us d0))"

definition turns_record :: "faults \<Rightarrow> turn_facts \<Rightarrow> db \<Rightarrow> (sql_error + unit) \<times> db" where
  "turns_record flt t d = upsert_unit flt [upsert_turn t] d"

definition entries_record :: "faults \<Rightarrow> str \<Rightarrow> int \<Rightarrow> message_key list \<Rightarrow> db \<Rightarrow> (sql_error + unit) \<times> db" where
  "entries_record flt session seq keys d = upsert_unit flt (map (upsert_entry session seq) keys) d"

definition calls_record :: "faults \<Rightarrow> call_fact \<Rightarrow> db \<Rightarrow> (sql_error + unit) \<times> db" where
  "calls_record flt c d = upsert_unit flt [upsert_call c] d"

definition settle_unit :: "faults \<Rightarrow> settle_record \<Rightarrow> db \<Rightarrow> (sql_error + unit) \<times> db" where
  "settle_unit flt r d =
     upsert_unit flt
       ([upsert_turn (sr_turn r)]
        @ map (upsert_entry (tf_session_id (sr_turn r)) (tf_turn_seq (sr_turn r))) (sr_keys r)
        @ map upsert_call (sr_calls r)) d"

record entry_turn =
  et_key :: message_key
  et_turn_seq :: int

definition turns_read :: "faults \<Rightarrow> str \<Rightarrow> db \<Rightarrow> sql_error + turn_facts list" where
  "turns_read flt session d =
     stmt flt 0 (Inr (map snd (sort_key (snd \<circ> fst) (filter (\<lambda>(k, t). fst k = session) (db_turns d)))))"

definition entries_read :: "faults \<Rightarrow> str \<Rightarrow> db \<Rightarrow> sql_error + entry_turn list" where
  "entries_read flt session d =
     stmt flt 0 (Inr (map (\<lambda>(k, seq). \<lparr>et_key = snd k, et_turn_seq = seq\<rparr>)
       (sort_key (\<lambda>(k, seq). (seq, snd k)) (filter (\<lambda>(k, seq). fst k = session) (db_entry_turns d)))))"

fun parse_calls :: "str \<Rightarrow> ((str \<times> str) \<times> call_row) list \<Rightarrow> storage_error + call_fact list" where
  "parse_calls session [] = Inr []"
| "parse_calls session ((k, row) # rows) =
     (case parse_status (cr_status row) of
        None \<Rightarrow> Inl (StorageCustom (''the tool call '' @ [CHR 0x27] @ snd k @ [CHR 0x27]
                  @ '' stores the unknown status '' @ [CHR 0x27] @ cr_status row @ [CHR 0x27]))
      | Some st \<Rightarrow>
          sql_bind (parse_calls session rows) (\<lambda>facts.
            Inr (\<lparr>cf_session_id = fst k, cf_call = snd k, cf_turn_seq = cr_turn_seq row, cf_status = st,
                  cf_settled_millis = cr_settled_millis row\<rparr> # facts)))"

definition calls_read :: "faults \<Rightarrow> str \<Rightarrow> db \<Rightarrow> storage_error + call_fact list" where
  "calls_read flt session d =
     (if flt 0 then Inl (Sqlite Refused)
      else parse_calls session
             (sort_key (snd \<circ> fst) (filter (\<lambda>(k, row). fst k = session) (db_tool_calls d))))"

section \<open>Migration\<close>

definition migrations :: "str list list" where
  "migrations = [[''logs'', ''files'', ''sessions''], [''turns'', ''entry_turns'', ''tool_calls'']]"

definition target_version :: int where
  "target_version = int (length migrations)"

definition sqlite_internal :: "str \<Rightarrow> bool" where
  "sqlite_internal name \<longleftrightarrow>
     7 \<le> length name \<and>
     map (\<lambda>c. let n = (of_char c :: nat) in if 65 \<le> n \<and> n \<le> 90 then char_of (n + 32) else c) (take 6 name)
       = ''sqlite''"

definition foreign_table :: "db \<Rightarrow> str option" where
  "foreign_table d = (case filter (\<lambda>n. \<not> sqlite_internal n) (db_tables d) of [] \<Rightarrow> None | n # ns \<Rightarrow> Some n)"

fun create_tables :: "faults \<Rightarrow> nat \<Rightarrow> str list \<Rightarrow> db \<Rightarrow> sql_error + nat \<times> db" where
  "create_tables flt k [] d = Inr (k, d)"
| "create_tables flt k (t # ts) d =
     sql_bind (stmt flt k (if t \<in> set (db_tables d) then Inl (TableExists t)
                           else Inr (d\<lparr>db_tables := db_tables d @ [t]\<rparr>)))
       (\<lambda>d1. create_tables flt (Suc k) ts d1)"

fun run_migrations :: "faults \<Rightarrow> nat \<Rightarrow> int \<Rightarrow> str list list \<Rightarrow> db \<Rightarrow> sql_error + (unit \<times> db)" where
  "run_migrations flt k version [] d = stmt flt k (Inr ((), d))"
| "run_migrations flt k version (m # ms) d =
     sql_bind (create_tables flt k m d) (\<lambda>(k1, d1).
     sql_bind (stmt flt k1 (Inr (d1\<lparr>db_version := version + 1\<rparr>))) (\<lambda>d2.
     run_migrations flt (Suc k1) (version + 1) ms d2))"

definition show_int :: "int \<Rightarrow> str" where
  "show_int n = (if n < 0 then ''-'' @ show_nat (nat (- n)) else show_nat (nat n))"

definition migrate :: "faults \<Rightarrow> str \<Rightarrow> db \<Rightarrow> (storage_error + unit) \<times> db" where
  "migrate flt path d =
     (if flt 0 then (Inl (Sqlite Refused), d)
      else if db_version d < 0 \<or> 2 ^ 32 \<le> db_version d
      then (Inl (StorageCustom (''the database stores an unreadable schema version: '' @ show_int (db_version d))), d)
      else if target_version < db_version d then (Inl (SchemaTooNew (db_version d) target_version), d)
      else if db_version d = target_version then (Inr (), d)
      else if db_version d = 0 \<and> flt 1 then (Inl (Sqlite Refused), d)
      else if db_version d = 0 \<and> foreign_table d \<noteq> None
      then (Inl (LegacyStore (db_version d) target_version path), d)
      else
        (case finish_unit d (sql_bind (stmt flt 2 (Inr d)) (\<lambda>d0.
                run_migrations flt 3 (db_version d) (drop (nat (db_version d)) migrations) d0)) of
           (Inl e, d1) \<Rightarrow> (Inl (Sqlite e), d1)
         | (Inr u, d1) \<Rightarrow> (Inr u, d1)))"

section \<open>The adapter of rig's contracts\<close>

text \<open>
  What a call finds: whether the engine's inbox is open, which statements SQLite refuses, and the
  instant.  Which names rig accepts is rig's own check.
\<close>

record call_env =
  ce_open :: bool
  ce_faults :: faults
  ce_now :: int

datatype adapter_error = BadName | NoLogName str | NotFound | Other storage_error

datatype log_write_error = Changed | LogIo adapter_error

definition answer_of :: "sql_error + 'a \<Rightarrow> adapter_error + 'a" where
  "answer_of r = (case r of Inl e \<Rightarrow> Inl (Other (Sqlite e)) | Inr a \<Rightarrow> Inr a)"

definition call_unit :: "call_env \<Rightarrow> (db \<Rightarrow> (sql_error + 'a) \<times> db) \<Rightarrow> db \<Rightarrow> (adapter_error + 'a) \<times> db" where
  "call_unit env work d =
     (if \<not> ce_open env then (Inl (Other EngineClosed), d)
      else (case work d of (r, d1) \<Rightarrow> (answer_of r, d1)))"

definition call_read :: "call_env \<Rightarrow> (db \<Rightarrow> sql_error + 'a) \<Rightarrow> db \<Rightarrow> adapter_error + 'a" where
  "call_read env work d = (if \<not> ce_open env then Inl (Other EngineClosed) else answer_of (work d))"

definition write_file :: "(str \<Rightarrow> bool) \<Rightarrow> call_env \<Rightarrow> str \<Rightarrow> str \<Rightarrow> str \<Rightarrow> db \<Rightarrow> (adapter_error + unit) \<times> db" where
  "write_file check_name env session name bytes d =
     (if \<not> check_name name then (Inl BadName, d)
      else call_unit env (write_file_unit (ce_faults env) (ce_now env) session name bytes) d)"

definition append_file :: "(str \<Rightarrow> bool) \<Rightarrow> call_env \<Rightarrow> str \<Rightarrow> str \<Rightarrow> str \<Rightarrow> db \<Rightarrow> (adapter_error + unit) \<times> db" where
  "append_file check_name env session name bytes d =
     (if \<not> check_name name then (Inl BadName, d)
      else call_unit env (append_file_unit (ce_faults env) (ce_now env) session name bytes) d)"

text \<open>A row that is not there is the error of a missing file.\<close>

definition found_row :: "adapter_error + 'a option \<Rightarrow> adapter_error + 'a" where
  "found_row r = (case r of Inl e \<Rightarrow> Inl e | Inr None \<Rightarrow> Inl NotFound | Inr (Some a) \<Rightarrow> Inr a)"

definition read_stored_file :: "(str \<Rightarrow> bool) \<Rightarrow> call_env \<Rightarrow> str \<Rightarrow> str \<Rightarrow> db \<Rightarrow> adapter_error + str" where
  "read_stored_file check_name env session name d =
     (if \<not> check_name name then Inl BadName
      else found_row (call_read env (read_file_unit (ce_faults env) session name) d))"

definition remove_file :: "(str \<Rightarrow> bool) \<Rightarrow> call_env \<Rightarrow> str \<Rightarrow> str \<Rightarrow> db \<Rightarrow> (adapter_error + unit) \<times> db" where
  "remove_file check_name env session name d =
     (if \<not> check_name name then (Inl BadName, d)
      else call_unit env (remove_file_unit (ce_faults env) session name) d)"

definition adapter_files :: "call_env \<Rightarrow> str \<Rightarrow> db \<Rightarrow> adapter_error + str list" where
  "adapter_files env session d = call_read env (file_names_unit (ce_faults env) session) d"

definition adapter_logs :: "call_env \<Rightarrow> str \<Rightarrow> db \<Rightarrow> adapter_error + str list" where
  "adapter_logs env session d = call_read env (log_names_unit (ce_faults env) session) d"

text \<open>A log's name is one part, never a path.\<close>

definition check_leaf :: "(str \<Rightarrow> bool) \<Rightarrow> str \<Rightarrow> adapter_error + unit" where
  "check_leaf check_name name =
     (if \<not> check_name name then Inl BadName
      else if CHR 0x2F \<in> set name then Inl (NoLogName name) else Inr ())"

definition read_log :: "(str \<Rightarrow> bool) \<Rightarrow> call_env \<Rightarrow> str \<Rightarrow> str \<Rightarrow> db \<Rightarrow> adapter_error + str" where
  "read_log check_name env session name d =
     (case check_leaf check_name name of
        Inl e \<Rightarrow> Inl e
      | Inr u \<Rightarrow> found_row (call_read env (read_log_unit (ce_faults env) session name) d))"

definition log_write ::
  "(str \<Rightarrow> bool) \<Rightarrow> call_env \<Rightarrow> str \<Rightarrow> nat \<Rightarrow> (db \<Rightarrow> (sql_error + bool) \<times> db) \<Rightarrow> db \<Rightarrow>
   (log_write_error + unit) \<times> db" where
  "log_write check_name env name len work d =
     (case check_leaf check_name name of
        Inl e \<Rightarrow> (Inl (LogIo e), d)
      | Inr u \<Rightarrow>
          (if 2 ^ 63 \<le> len then (Inl Changed, d)
           else
             (case call_unit env work d of
                (Inl e, d1) \<Rightarrow> (Inl (LogIo e), d1)
              | (Inr landed, d1) \<Rightarrow> (if landed then Inr () else Inl Changed, d1))))"

definition append_log ::
  "(str \<Rightarrow> bool) \<Rightarrow> call_env \<Rightarrow> str \<Rightarrow> str \<Rightarrow> nat \<Rightarrow> str \<Rightarrow> db \<Rightarrow> (log_write_error + unit) \<times> db" where
  "append_log check_name env session name len bytes d =
     log_write check_name env name len
       (append_log_unit (ce_faults env) (ce_now env) session name (int len) bytes) d"

definition replace_log ::
  "(str \<Rightarrow> bool) \<Rightarrow> call_env \<Rightarrow> str \<Rightarrow> str \<Rightarrow> nat \<Rightarrow> str \<Rightarrow> db \<Rightarrow> (log_write_error + unit) \<times> db" where
  "replace_log check_name env session name len bytes d =
     log_write check_name env name len
       (replace_log_unit (ce_faults env) (ce_now env) session name (int len) bytes) d"

definition destroy :: "call_env \<Rightarrow> str \<Rightarrow> db \<Rightarrow> (adapter_error + unit) \<times> db" where
  "destroy env session d = call_unit env (destroy_unit (ce_faults env) session) d"

definition session_ids :: "call_env \<Rightarrow> db \<Rightarrow> storage_error + str list" where
  "session_ids env d =
     (if \<not> ce_open env then Inl EngineClosed
      else (case session_ids_unit (ce_faults env) d of Inl e \<Rightarrow> Inl (Sqlite e) | Inr ids \<Rightarrow> Inr ids))"

end
