(* ===== verification/Storage_Facts.thy ===== *)
theory Storage_Facts
  imports Storage
begin

text \<open>
  What the database promises of a log that is written by compare-and-set: the contract is a locale,
  interpreted on the adapter's append, and an append is characterised on every outcome.
\<close>

section \<open>Outcomes of the units\<close>

lemma sql_bind_Inr [simp]: "sql_bind (Inr a) f = f a" and sql_bind_Inl [simp]: "sql_bind (Inl e) f = Inl e"
  by (simp_all add: sql_bind_def)

lemma stmt_Inr: "stmt flt k r = Inr a \<longleftrightarrow> \<not> flt k \<and> r = Inr a"
  by (simp add: stmt_def)

lemma sql_bind_eq_Inr: "sql_bind m f = Inr b \<longleftrightarrow> (\<exists>a. m = Inr a \<and> f a = Inr b)"
  by (cases m) auto

lemma finish_unit_Inr: "finish_unit d r = (Inr a, d1) \<longleftrightarrow> r = Inr (a, d1)"
  by (auto simp: finish_unit_def split: sum.split)

lemma finish_unit_state: "snd (finish_unit d r) = (case r of Inl e \<Rightarrow> d | Inr (a, d1) \<Rightarrow> d1)"
  by (auto simp: finish_unit_def split: sum.split)

lemmas unit_defs = stmt_def sql_bind_def finish_unit_def

section \<open>Logs written by compare-and-set\<close>

text \<open>Of a list of attempts and whether each landed, the lengths and bytes of those that landed on a log.\<close>

fun landed_on :: "'k \<Rightarrow> ('e \<times> 'k \<times> nat \<times> str) list \<Rightarrow> bool list \<Rightarrow> (nat \<times> str) list" where
  "landed_on k ((e, k1, n, b) # ws) (r # rs) =
     (if r \<and> k1 = k then [(n, b)] else []) @ landed_on k ws rs"
| "landed_on k ws rs = []"

text \<open>Writes laid end to end from a length on: each was made at the length the log then had.\<close>

fun end_to_end :: "nat \<Rightarrow> (nat \<times> str) list \<Rightarrow> bool" where
  "end_to_end len [] \<longleftrightarrow> True"
| "end_to_end len ((n, b) # l) \<longleftrightarrow> n = len \<and> end_to_end (len + length b) l"

lemma end_to_end_start: "end_to_end len l \<Longrightarrow> (n, b) \<in> set l \<Longrightarrow> len \<le> n"
  by (induction len l rule: end_to_end.induct) force+

lemma end_to_end_sorted: "end_to_end len l \<Longrightarrow> sorted_wrt (\<lambda>(n, b) (m, c). n + length b \<le> m) l"
  by (induction len l rule: end_to_end.induct) (auto dest: end_to_end_start)

text \<open>
  What rig relies on: a write lands only against the length its writer read, then extends exactly that
  log, and a write that does not land leaves every log as it was.
\<close>

locale cas_log =
  fixes content :: "'s \<Rightarrow> 'k \<Rightarrow> str option"
    and put_at :: "'e \<Rightarrow> 'k \<Rightarrow> nat \<Rightarrow> str \<Rightarrow> 's \<Rightarrow> bool \<times> 's"
  assumes landed: "put_at e k n b s = (True, s1) \<Longrightarrow>
      (case content s k of None \<Rightarrow> n = 0 | Some old \<Rightarrow> length old = n) \<and>
      content s1 = (content s)(k \<mapsto> (case content s k of None \<Rightarrow> b | Some old \<Rightarrow> old @ b))"
    and lost: "put_at e k n b s = (False, s1) \<Longrightarrow> content s1 = content s"
begin

fun run :: "('e \<times> 'k \<times> nat \<times> str) list \<Rightarrow> 's \<Rightarrow> bool list \<times> 's" where
  "run [] s = ([], s)"
| "run ((e, k, n, b) # ws) s =
     (case put_at e k n b s of (r, s1) \<Rightarrow> (case run ws s1 of (rs, s2) \<Rightarrow> (r # rs, s2)))"

definition text_of :: "'s \<Rightarrow> 'k \<Rightarrow> str" where
  "text_of s k = (case content s k of None \<Rightarrow> [] | Some t \<Rightarrow> t)"

lemma text_of_landed:
  "put_at e k n b s = (True, s1) \<Longrightarrow> length (text_of s k) = n \<and>
     (\<forall>j. text_of s1 j = text_of s j @ (if j = k then b else []))"
  using landed [of e k n b s s1] by (auto simp: text_of_def split: option.splits)

lemma text_of_lost: "put_at e k n b s = (False, s1) \<Longrightarrow> text_of s1 = text_of s"
  using lost [of e k n b s s1] by (simp add: text_of_def fun_eq_iff)

lemma run_text: "run ws s = (rs, s1) \<Longrightarrow> text_of s1 k = text_of s k @ concat (map snd (landed_on k ws rs))"
proof (induction ws arbitrary: s rs)
  case (Cons w ws)
  obtain e k1 n b where w: "w = (e, k1, n, b)" by (cases w) auto
  obtain r s2 rs2 where r: "put_at e k1 n b s = (r, s2)" "run ws s2 = (rs2, s1)" "rs = r # rs2"
    using Cons.prems w by (auto split: prod.splits)
  show ?case
    using Cons.IH [OF r(2)] r(1,3) w text_of_landed [of e k1 n b s s2] text_of_lost [of e k1 n b s s2]
    by (cases r) auto
qed simp

lemma run_end_to_end: "run ws s = (rs, s1) \<Longrightarrow> end_to_end (length (text_of s k)) (landed_on k ws rs)"
proof (induction ws arbitrary: s rs)
  case (Cons w ws)
  obtain e k1 n b where w: "w = (e, k1, n, b)" by (cases w) auto
  obtain r s2 rs2 where r: "put_at e k1 n b s = (r, s2)" "run ws s2 = (rs2, s1)" "rs = r # rs2"
    using Cons.prems w by (auto split: prod.splits)
  show ?case
    using Cons.IH [OF r(2)] r(1,3) w text_of_landed [of e k1 n b s s2] text_of_lost [of e k1 n b s s2]
    by (cases r) auto
qed simp

end

definition log_content :: "db \<Rightarrow> str \<times> str \<Rightarrow> str option" where
  "log_content d k = map_of (db_logs d) k"

definition append_attempt ::
  "(str \<Rightarrow> bool) \<times> call_env \<Rightarrow> str \<times> str \<Rightarrow> nat \<Rightarrow> str \<Rightarrow> db \<Rightarrow> bool \<times> db" where
  "append_attempt e k n b d =
     (case append_log (fst e) (snd e) (fst k) (snd k) n b d of (r, d1) \<Rightarrow> (r = Inr (), d1))"

lemma log_content_session [simp]: "log_content (record_session now s d) = log_content d"
  by (simp add: fun_eq_iff log_content_def record_session_def split: option.split)

lemma change_log_content:
  "change_log flt now session name len bytes new d = (Inr landed, d1) \<Longrightarrow>
     (if landed then
        (case log_content d (session, name) of None \<Rightarrow> len = 0 | Some old \<Rightarrow> int (length old) = len) \<and>
        log_content d1 = (log_content d)((session, name) \<mapsto>
          (case log_content d (session, name) of None \<Rightarrow> bytes | Some old \<Rightarrow> new old))
      else d1 = d)"
  by (auto simp: change_log_def insert_log_def update_log_def unit_defs log_content_def fun_eq_iff
      record_session_def split: if_splits option.splits sum.splits prod.splits)

lemma append_log_landed:
  "append_log check env session name n b d = (Inr (), d1) \<longleftrightarrow>
     check_leaf check name = Inr () \<and> n < 2 ^ 63 \<and> ce_open env \<and>
     append_log_unit (ce_faults env) (ce_now env) session name (int n) b d = (Inr True, d1)"
  by (auto simp: append_log_def log_write_def call_unit_def answer_of_def
      split: sum.splits if_splits prod.splits)

lemma append_log_lost:
  "append_log check env session name n b d = (Inl e, d1) \<Longrightarrow> d1 = d"
  by (auto simp: append_log_def log_write_def call_unit_def answer_of_def append_log_unit_def change_log_def
      unit_defs split: sum.splits if_splits prod.splits)

interpretation rig: cas_log log_content append_attempt
proof unfold_locales
  fix e k n b s s1
  assume "append_attempt e k n b s = (True, s1)"
  then have "append_log (fst e) (snd e) (fst k) (snd k) n b s = (Inr (), s1)"
    by (auto simp: append_attempt_def split: prod.splits)
  then have "change_log (ce_faults (snd e)) (ce_now (snd e)) (fst k) (snd k) (int n) b (\<lambda>old. old @ b) s
      = (Inr True, s1)"
    by (simp add: append_log_landed append_log_unit_def)
  from change_log_content [OF this]
  show "(case log_content s k of None \<Rightarrow> n = 0 | Some old \<Rightarrow> length old = n) \<and>
      log_content s1 = (log_content s)(k \<mapsto> (case log_content s k of None \<Rightarrow> b | Some old \<Rightarrow> old @ b))"
    by (auto split: option.splits)
next
  fix e k n b s s1
  assume "append_attempt e k n b s = (False, s1)"
  then obtain r where "append_log (fst e) (snd e) (fst k) (snd k) n b s = (r, s1)" "r \<noteq> Inr ()"
    by (auto simp: append_attempt_def split: prod.splits)
  then show "log_content s1 = log_content s"
    by (cases r) (auto dest: append_log_lost)
qed

text \<open>The attempts of any writers, run in the order the engine takes them.\<close>

type_synonym attempt = "((str \<Rightarrow> bool) \<times> call_env) \<times> (str \<times> str) \<times> nat \<times> str"

fun append_run :: "attempt list \<Rightarrow> db \<Rightarrow> bool list \<times> db" where
  "append_run [] d = ([], d)"
| "append_run ((e, k, n, b) # ws) d =
     (case append_attempt e k n b d of (r, d1) \<Rightarrow> (case append_run ws d1 of (rs, d2) \<Rightarrow> (r # rs, d2)))"

definition log_text :: "db \<Rightarrow> str \<times> str \<Rightarrow> str" where
  "log_text d k = (case log_content d k of None \<Rightarrow> [] | Some t \<Rightarrow> t)"

lemma append_run_eq: "rig.run ws d = append_run ws d"
  by (induction ws d rule: append_run.induct) (auto split: prod.split)

lemma log_text_eq: "rig.text_of d k = log_text d k"
  by (simp add: rig.text_of_def log_text_def)

text \<open>
  C28. Whatever appends any number of writers attempt on the logs of a database, and whatever SQLite refuses
  meanwhile: a log holds what it held and then the bytes of the appends that landed on it, in order, and
  each of them landed at the length its writer had read: the first at the length the log had at the start,
  and each later one at the end of the one before it, so that no two share their bytes.
\<close>

theorem log_appends_serialize:
  fixes ws :: "attempt list"
  shows "(case append_run ws d of (rs, d1) \<Rightarrow>
            log_text d1 k = log_text d k @ concat (map snd (landed_on k ws rs)) \<and>
            end_to_end (length (log_text d k)) (landed_on k ws rs) \<and>
            sorted_wrt (\<lambda>(n, b) (m, c). n + length b \<le> m) (landed_on k ws rs))"
  using rig.run_text [of ws d] rig.run_end_to_end [of ws d _ _ k]
  by (auto simp: append_run_eq log_text_eq end_to_end_sorted split: prod.split)

text \<open>
  C29. An append that is not refused lands exactly when the writer read the log's present length, an absent
  log counting as empty; otherwise, and after any refusal of the engine or of SQLite, no table has changed.
\<close>

theorem append_log_exact:
  "(case append_log check env session name n b d of
      (Inr u, d1) \<Rightarrow>
        log_text d1 (session, name) = log_text d (session, name) @ b \<and>
        length (log_text d (session, name)) = n \<and>
        (\<forall>k. k \<noteq> (session, name) \<longrightarrow> log_content d1 k = log_content d k) \<and>
        db_files d1 = db_files d \<and> db_turns d1 = db_turns d \<and> map_of (db_sessions d1) session \<noteq> None
    | (Inl e, d1) \<Rightarrow>
        d1 = d \<and>
        (check_leaf check name = Inr () \<and> n < 2 ^ 63 \<and> ce_open env \<and> (\<forall>i < 5. \<not> ce_faults env i) \<longrightarrow>
           e = Changed \<and> length (log_text d (session, name)) \<noteq> n))"
proof (cases "append_log check env session name n b d")
  case (Pair r d1)
  show ?thesis
  proof (cases r)
    case (Inr u)
    with Pair have st: "append_log check env session name n b d = (Inr (), d1)" by simp
    then have un: "append_log_unit (ce_faults env) (ce_now env) session name (int n) b d = (Inr True, d1)"
      by (simp add: append_log_landed)
    have att: "append_attempt (check, env) (session, name) n b d = (True, d1)"
      using st by (simp add: append_attempt_def)
    have "db_files d1 = db_files d \<and> db_turns d1 = db_turns d \<and> map_of (db_sessions d1) session \<noteq> None"
      using un by (auto simp: append_log_unit_def change_log_def insert_log_def update_log_def unit_defs
          record_session_def split: if_splits option.splits sum.splits prod.splits)
    with rig.text_of_landed [OF att] rig.landed [OF att] show ?thesis
      by (simp add: Pair Inr log_text_eq)
  next
    case (Inl e)
    have "e = Changed \<and> length (log_text d (session, name)) \<noteq> n"
      if "check_leaf check name = Inr ()" "n < 2 ^ 63" "ce_open env" "\<forall>i < 5. \<not> ce_faults env i"
    proof -
      have f: "\<not> ce_faults env 0" "\<not> ce_faults env 1" "\<not> ce_faults env 2" "\<not> ce_faults env 3"
        "\<not> ce_faults env 4" "\<not> ce_faults env (Suc 0)"
        using that(4) by simp_all
      show ?thesis
        using Pair Inl that(1-3) f
        by (auto simp: append_log_def log_write_def call_unit_def answer_of_def append_log_unit_def
            change_log_def insert_log_def update_log_def unit_defs log_text_def log_content_def
            split: if_splits option.splits sum.splits prod.splits)
    qed
    with Pair Inl append_log_lost [of check env session name n b d e d1] show ?thesis by simp
  qed
qed

definition empty_db :: db where
  "empty_db = \<lparr>db_version = 2, db_tables = concat migrations, db_logs = [], db_files = [], db_sessions = [],
     db_turns = [], db_entry_turns = [], db_tool_calls = []\<rparr>"

definition calm_env :: call_env where
  "calm_env = \<lparr>ce_open = True, ce_faults = (\<lambda>i. False), ce_now = 7\<rparr>"

lemma append_log_exact_witness:
  "fst (append_log (\<lambda>n. True) calm_env ''s'' ''log'' 3 ''x'' empty_db) = Inl Changed"
proof -
  obtain e d1 where a: "append_log (\<lambda>n. True) calm_env ''s'' ''log'' 3 ''x'' empty_db = (Inl e, d1)"
  proof (cases "append_log (\<lambda>n. True) calm_env ''s'' ''log'' 3 ''x'' empty_db")
    case (Pair r d1)
    then show ?thesis
      using append_log_exact [where check = "\<lambda>n. True" and env = calm_env and session = "''s''" and name = "''log''"
          and n = 3 and b = "''x''" and d = empty_db] that
      by (cases r) (auto simp: log_text_def log_content_def empty_db_def)
  qed
  have "check_leaf (\<lambda>n. True) ''log'' = Inr ()" by (simp add: check_leaf_def)
  with append_log_exact [where check = "\<lambda>n. True" and env = calm_env and session = "''s''" and name = "''log''"
          and n = 3 and b = "''x''" and d = empty_db] a
  show ?thesis by (simp add: calm_env_def)
qed

end
