(* ===== verification/Storage_Tables.thy ===== *)
theory Storage_Tables
  imports Storage_Facts
begin

text \<open>
  The invariant of the tables under every unit, every refusal and every interleaving of processes; the
  settle unit as a refinement of the facts it records; and the migration.
\<close>

section \<open>The invariant of the tables\<close>

text \<open>
  The primary keys are kept; bytes belong to a recorded session; an attribution and a call name a recorded
  turn; a turn is stored under its own key; a stored status reads back.
\<close>

definition keyed :: "('k::linorder \<times> 'v) list \<Rightarrow> bool" where
  "keyed m \<longleftrightarrow> sorted_wrt (<) (map fst m)"

definition covered :: "((str \<times> str) \<times> str) list \<Rightarrow> (str \<times> int) list \<Rightarrow> bool" where
  "covered rows sessions \<longleftrightarrow> (\<forall>s n. map_of sessions s = None \<longrightarrow> map_of rows (s, n) = None)"

definition db_ok :: "db \<Rightarrow> bool" where
  "db_ok d \<longleftrightarrow>
     keyed (db_logs d) \<and> keyed (db_files d) \<and> keyed (db_sessions d) \<and> keyed (db_turns d) \<and>
     keyed (db_entry_turns d) \<and> keyed (db_tool_calls d) \<and>
     covered (db_logs d) (db_sessions d) \<and> covered (db_files d) (db_sessions d) \<and>
     (\<forall>k seq. map_of (db_entry_turns d) k = Some seq \<longrightarrow> map_of (db_turns d) (fst k, seq) \<noteq> None) \<and>
     (\<forall>k row. map_of (db_tool_calls d) k = Some row \<longrightarrow>
        map_of (db_turns d) (fst k, cr_turn_seq row) \<noteq> None \<and> parse_status (cr_status row) \<noteq> None) \<and>
     (\<forall>k t. map_of (db_turns d) k = Some t \<longrightarrow> k = (tf_session_id t, tf_turn_seq t))"

lemma keyed_put: "keyed m \<Longrightarrow> keyed (bt_put k v m)"
  unfolding keyed_def by (rule sorted_bt_put)

lemma keyed_filter: "keyed m \<Longrightarrow> keyed (filter p m)"
  by (induction m) (auto simp: keyed_def)

lemma map_of_filter_key: "map_of (filter (\<lambda>(k, v). P k) m) k = (if P k then map_of m k else None)"
  by (induction m) auto

lemma parse_status_text [simp]: "parse_status (status_text st) = Some st"
  by (cases st) (simp_all add: status_text_def parse_status_def)

lemma record_session_tables [simp]:
  "db_logs (record_session now s d) = db_logs d" "db_files (record_session now s d) = db_files d"
  "db_turns (record_session now s d) = db_turns d" "db_entry_turns (record_session now s d) = db_entry_turns d"
  "db_tool_calls (record_session now s d) = db_tool_calls d"
  "map_of (db_sessions (record_session now s d)) k = None \<longleftrightarrow> k \<noteq> s \<and> map_of (db_sessions d) k = None"
  by (auto simp: record_session_def split: option.split)

lemma keyed_record_session: "keyed (db_sessions d) \<Longrightarrow> keyed (db_sessions (record_session now s d))"
  by (auto simp: record_session_def keyed_put split: option.split)

lemma covered_put:
  "covered rows (db_sessions d) \<Longrightarrow> covered (bt_put (s, n) b rows) (db_sessions (record_session now s d))"
  by (auto simp: covered_def)

lemma covered_record:
  "covered rows (db_sessions d) \<Longrightarrow> covered rows (db_sessions (record_session now s d))"
  by (auto simp: covered_def)

lemma covered_filter: "covered rows sessions \<Longrightarrow> covered (filter (\<lambda>(k, b). P k) rows) sessions"
  by (auto simp: covered_def map_of_filter_key)

lemma covered_destroyed:
  "covered rows sessions \<Longrightarrow>
     covered (filter (\<lambda>(k, b). fst k \<noteq> s) rows) (filter (\<lambda>(k, t). k \<noteq> s) sessions)"
  by (auto simp: covered_def map_of_filter_key [where P = "\<lambda>k. k \<noteq> s"]
      map_of_filter_key [where P = "\<lambda>k. fst k \<noteq> s"])

lemma record_session_cong:
  "db_sessions (record_session now s (d\<lparr>db_logs := x\<rparr>)) = db_sessions (record_session now s d)"
  "db_sessions (record_session now s (d\<lparr>db_files := y\<rparr>)) = db_sessions (record_session now s d)"
  by (simp_all add: record_session_def split: option.split)

lemma db_ok_bytes:
  assumes "db_ok d"
  shows "db_ok (record_session now s (d\<lparr>db_logs := bt_put (s, n) b (db_logs d)\<rparr>))"
    and "db_ok (record_session now s (d\<lparr>db_files := bt_put (s, n) b (db_files d)\<rparr>))"
  using assms
  by (auto simp: db_ok_def keyed_put keyed_record_session covered_put covered_record record_session_cong)

lemma db_ok_change_log: "db_ok d \<Longrightarrow> db_ok (snd (change_log flt now s n len b new d))"
  by (auto simp: change_log_def unit_defs insert_log_def update_log_def db_ok_bytes split: option.split)

lemma upsert_turn_Inr:
  "upsert_turn t d = Inr d1 \<longleftrightarrow> d1 = d\<lparr>db_turns := bt_put (tf_session_id t, tf_turn_seq t) t (db_turns d)\<rparr>"
  by (auto simp: upsert_turn_def)

lemma upsert_entry_Inr:
  "upsert_entry s q key d = Inr d1 \<longleftrightarrow>
     map_of (db_turns d) (s, q) \<noteq> None \<and>
     d1 = d\<lparr>db_entry_turns := bt_put (s, key) q (db_entry_turns d)\<rparr>"
  by (auto simp: upsert_entry_def)

lemma status_text_known: "status_text st \<in> {''success'', ''failed'', ''cancelled''}"
  by (cases st) (simp_all add: status_text_def)

lemma upsert_call_Inr:
  "upsert_call c d = Inr d1 \<longleftrightarrow>
     map_of (db_turns d) (cf_session_id c, cf_turn_seq c) \<noteq> None \<and>
     d1 = d\<lparr>db_tool_calls := bt_put (cf_session_id c, cf_call c)
       \<lparr>cr_turn_seq = cf_turn_seq c, cr_status = status_text (cf_status c),
        cr_settled_millis = cf_settled_millis c\<rparr> (db_tool_calls d)\<rparr>"
proof -
  have "\<not> status_text (cf_status c) \<notin> {''success'', ''failed'', ''cancelled''}"
    using status_text_known [of "cf_status c"] by blast
  then show ?thesis by (auto simp: upsert_call_def simp del: insert_iff)
qed

definition edge_ok :: "((str \<times> int) \<times> turn_facts) list \<Rightarrow> str \<Rightarrow> int \<Rightarrow> bool" where
  "edge_ok turns s q \<longleftrightarrow> map_of turns (s, q) \<noteq> None"

lemma edge_ok_put: "edge_ok turns s q \<Longrightarrow> edge_ok (bt_put k t turns) s q"
  by (simp add: edge_ok_def)

lemma db_ok_edges:
  "db_ok d \<longleftrightarrow>
     keyed (db_logs d) \<and> keyed (db_files d) \<and> keyed (db_sessions d) \<and> keyed (db_turns d) \<and>
     keyed (db_entry_turns d) \<and> keyed (db_tool_calls d) \<and>
     covered (db_logs d) (db_sessions d) \<and> covered (db_files d) (db_sessions d) \<and>
     (\<forall>k seq. map_of (db_entry_turns d) k = Some seq \<longrightarrow> edge_ok (db_turns d) (fst k) seq) \<and>
     (\<forall>k row. map_of (db_tool_calls d) k = Some row \<longrightarrow>
        edge_ok (db_turns d) (fst k) (cr_turn_seq row) \<and> parse_status (cr_status row) \<noteq> None) \<and>
     (\<forall>k t. map_of (db_turns d) k = Some t \<longrightarrow> k = (tf_session_id t, tf_turn_seq t))"
  by (simp only: db_ok_def edge_ok_def)

lemma db_ok_upserts:
  "db_ok d \<Longrightarrow> upsert_turn t d = Inr d1 \<Longrightarrow> db_ok d1"
  "db_ok d \<Longrightarrow> upsert_entry s q key d = Inr d1 \<Longrightarrow> db_ok d1"
  "db_ok d \<Longrightarrow> upsert_call c d = Inr d1 \<Longrightarrow> db_ok d1"
proof -
  show "db_ok d \<Longrightarrow> upsert_turn t d = Inr d1 \<Longrightarrow> db_ok d1"
    by (simp add: db_ok_edges upsert_turn_Inr keyed_put edge_ok_put)
  show "db_ok d \<Longrightarrow> upsert_entry s q key d = Inr d1 \<Longrightarrow> db_ok d1"
    by (simp add: db_ok_edges upsert_entry_Inr keyed_put edge_ok_def [of "db_turns d" s q])
  show "db_ok d \<Longrightarrow> upsert_call c d = Inr d1 \<Longrightarrow> db_ok d1"
    by (simp add: db_ok_edges upsert_call_Inr keyed_put
        edge_ok_def [of "db_turns d" "cf_session_id c" "cf_turn_seq c"])
qed

lemma run_upserts_inv:
  assumes "\<And>u d d1. u \<in> set us \<Longrightarrow> P d \<Longrightarrow> u d = Inr d1 \<Longrightarrow> P d1"
    and "run_upserts flt k us d = Inr ((), d1)" "P d"
  shows "P d1"
  using assms
proof (induction us arbitrary: k d)
  case (Cons u us)
  then obtain d2 where "u d = Inr d2" and us: "run_upserts flt (Suc k) us d2 = Inr ((), d1)"
    by (auto simp: stmt_def sql_bind_eq_Inr split: if_splits)
  with Cons.prems(1) [of u d d2] Cons.prems(3) have "P d2" by simp
  with us Cons.prems(1) show ?case by (intro Cons.IH) auto
qed (simp add: stmt_def split: if_splits)

lemma upsert_unit_cases:
  assumes "upsert_unit flt us d = (r, d1)"
  shows "(\<exists>e. r = Inl e) \<and> d1 = d \<or> r = Inr () \<and> run_upserts flt 1 us d = Inr ((), d1)"
  using assms by (auto simp: upsert_unit_def finish_unit_def stmt_def split: if_splits sum.splits prod.splits)

lemma db_ok_upsert_unit:
  assumes "db_ok d" "\<And>u d d1. u \<in> set us \<Longrightarrow> db_ok d \<Longrightarrow> u d = Inr d1 \<Longrightarrow> db_ok d1"
  shows "db_ok (snd (upsert_unit flt us d))"
proof (cases "upsert_unit flt us d")
  case (Pair r d1)
  from upsert_unit_cases [OF this] show ?thesis
    using assms run_upserts_inv [of us db_ok flt 1 d d1] by (auto simp: Pair)
qed

lemma db_ok_settle: "db_ok d \<Longrightarrow> db_ok (snd (settle_unit flt r d))"
  unfolding settle_unit_def by (rule db_ok_upsert_unit) (auto intro: db_ok_upserts)

text \<open>The operations of the crate on one database, by any process.\<close>

datatype db_op =
    OpWriteFile str str str
  | OpAppendFile str str str
  | OpRemoveFile str str
  | OpAppendLog str str nat str
  | OpReplaceLog str str nat str
  | OpDestroy str
  | OpTurn turn_facts
  | OpEntries str int "message_key list"
  | OpCall call_fact
  | OpSettle settle_record

definition run_op :: "(str \<Rightarrow> bool) \<Rightarrow> call_env \<Rightarrow> db_op \<Rightarrow> db \<Rightarrow> db" where
  "run_op check env op d =
     (case op of
        OpWriteFile s n b \<Rightarrow> snd (write_file check env s n b d)
      | OpAppendFile s n b \<Rightarrow> snd (append_file check env s n b d)
      | OpRemoveFile s n \<Rightarrow> snd (remove_file check env s n d)
      | OpAppendLog s n len b \<Rightarrow> snd (append_log check env s n len b d)
      | OpReplaceLog s n len b \<Rightarrow> snd (replace_log check env s n len b d)
      | OpDestroy s \<Rightarrow> snd (destroy env s d)
      | OpTurn t \<Rightarrow> if ce_open env then snd (turns_record (ce_faults env) t d) else d
      | OpEntries s q ks \<Rightarrow> if ce_open env then snd (entries_record (ce_faults env) s q ks d) else d
      | OpCall c \<Rightarrow> if ce_open env then snd (calls_record (ce_faults env) c d) else d
      | OpSettle r \<Rightarrow> if ce_open env then snd (settle_unit (ce_faults env) r d) else d)"

inductive db_reach :: "(str \<Rightarrow> bool) \<Rightarrow> db \<Rightarrow> db \<Rightarrow> bool" for check where
  start: "db_reach check d d"
| step: "db_reach check d d1 \<Longrightarrow> db_reach check d (run_op check env op d1)"

lemma log_write_state:
  "snd (log_write check env n len work d) = d \<or> snd (log_write check env n len work d) = snd (work d)"
  by (auto simp: log_write_def call_unit_def split: sum.split prod.split)

lemma call_unit_state: "snd (call_unit env work d) = (if ce_open env then snd (work d) else d)"
  by (auto simp: call_unit_def split: prod.split)

lemma db_ok_files:
  assumes "db_ok d"
  shows "db_ok (snd (write_file_unit flt now s n b d))" "db_ok (snd (append_file_unit flt now s n b d))"
    "db_ok (snd (remove_file_unit flt s n d))"
proof -
  show "db_ok (snd (write_file_unit flt now s n b d))" "db_ok (snd (append_file_unit flt now s n b d))"
    using assms by (auto simp: write_file_unit_def append_file_unit_def unit_defs db_ok_bytes)
  show "db_ok (snd (remove_file_unit flt s n d))"
    using assms covered_filter [of "db_files d" "db_sessions d" "\<lambda>k. k \<noteq> (s, n)"]
    by (simp add: remove_file_unit_def unit_defs db_ok_def keyed_filter)
qed

lemma db_ok_destroy: "db_ok d \<Longrightarrow> db_ok (snd (destroy_unit flt s d))"
  by (simp add: destroy_unit_def unit_defs db_ok_def keyed_filter covered_destroyed)

lemma db_ok_run_op:
  assumes "db_ok d"
  shows "db_ok (run_op check env op d)"
proof -
  have log: "db_ok (snd (log_write check env n len work d))" if "db_ok (snd (work d))" for n len work
    using log_write_state [of check env n len work d] assms that by auto
  show ?thesis
    using assms
    by (cases op) (auto simp: run_op_def write_file_def append_file_def remove_file_def append_log_def
        replace_log_def append_log_unit_def replace_log_unit_def destroy_def call_unit_state turns_record_def
        entries_record_def calls_record_def db_ok_settle db_ok_destroy db_ok_files db_ok_change_log
        intro!: log db_ok_upsert_unit intro: db_ok_upserts)
qed

lemma db_ok_reach: "db_reach check d d1 \<Longrightarrow> db_ok d \<Longrightarrow> db_ok d1"
  by (induction rule: db_reach.induct) (auto simp: db_ok_run_op)

text \<open>
  C30. Whatever processes do to a database that starts empty, whichever names they use and whichever statements
  SQLite refuses: the primary keys hold, no bytes are stored for a session that is not recorded, and every
  attribution and every call names a recorded turn.
\<close>

theorem tables_consistent:
  assumes "db_reach check empty_db d"
  shows "db_ok d"
proof -
  have "db_ok empty_db" by (simp add: db_ok_def empty_db_def keyed_def covered_def)
  with db_ok_reach [OF assms] show ?thesis .
qed

definition seed_turn :: turn_facts where
  "seed_turn = \<lparr>tf_session_id = ''s'', tf_turn_seq = 1, tf_submitted_millis = 5, tf_settled_millis = 7,
     tf_model = ''v/m'', tf_agent = []\<rparr>"

definition seed_settle :: settle_record where
  "seed_settle = \<lparr>sr_turn = seed_turn, sr_keys = [(5, 1), (6, 2)],
     sr_calls = [\<lparr>cf_session_id = ''s'', cf_call = ''c'', cf_turn_seq = 1, cf_status = StatusFailed,
                  cf_settled_millis = 7\<rparr>]\<rparr>"

definition seed_db :: db where
  "seed_db = run_op (\<lambda>n. True) calm_env (OpSettle seed_settle)
     (run_op (\<lambda>n. True) calm_env (OpWriteFile ''s'' ''meta'' ''x'') empty_db)"

lemma seed_db_reached: "db_reach (\<lambda>n. True) empty_db seed_db"
  unfolding seed_db_def by (intro db_reach.intros)

lemma tables_consistent_witness: "db_ok seed_db"
  by (rule tables_consistent [OF seed_db_reached])

definition call_of_row :: "str \<times> str \<Rightarrow> call_row \<Rightarrow> call_fact" where
  "call_of_row k row =
     \<lparr>cf_session_id = fst k, cf_call = snd k, cf_turn_seq = cr_turn_seq row,
      cf_status = (case parse_status (cr_status row) of Some st \<Rightarrow> st | None \<Rightarrow> StatusFailed),
      cf_settled_millis = cr_settled_millis row\<rparr>"

lemma parse_calls_rows:
  "\<forall>(k, row) \<in> set rows. fst k = s \<and> parse_status (cr_status row) \<noteq> None \<Longrightarrow>
     parse_calls s rows = Inr (map (\<lambda>(k, row). call_of_row k row) rows)"
  by (induction s rows rule: parse_calls.induct) (auto simp: call_of_row_def split: option.split)

lemma keyed_distinct: "keyed m \<Longrightarrow> distinct (map fst m)"
  by (simp add: keyed_def strict_sorted_iff)

lemma keyed_mem: "keyed m \<Longrightarrow> (k, v) \<in> set m \<longleftrightarrow> map_of m k = Some v"
  using keyed_distinct [of m] by (auto dest: map_of_SomeD)

text \<open>What a read of the calls answers on tables that keep the invariant.\<close>

lemma calls_read_ok:
  assumes "db_ok d" "\<not> flt 0"
  shows "\<exists>facts. calls_read flt s d = Inr facts \<and>
    (\<forall>c. c \<in> set facts \<longleftrightarrow>
       (\<exists>i row. map_of (db_tool_calls d) (s, i) = Some row \<and> c = call_of_row (s, i) row))"
proof -
  let ?rows = "sort_key (snd \<circ> fst) (filter (\<lambda>(k, row). fst k = s) (db_tool_calls d))"
  have keyed: "keyed (db_tool_calls d)" using assms(1) by (simp add: db_ok_def)
  have "\<forall>(k, row) \<in> set ?rows. fst k = s \<and> parse_status (cr_status row) \<noteq> None"
    using assms(1) keyed_mem [OF keyed] by (fastforce simp: db_ok_def)
  from parse_calls_rows [OF this] assms(2)
  have "calls_read flt s d = Inr (map (\<lambda>(k, row). call_of_row k row) ?rows)"
    by (simp add: calls_read_def)
  moreover have "c \<in> set (map (\<lambda>(k, row). call_of_row k row) ?rows) \<longleftrightarrow>
      (\<exists>i row. map_of (db_tool_calls d) (s, i) = Some row \<and> c = call_of_row (s, i) row)" for c
    using keyed_mem [OF keyed] by force
  ultimately show ?thesis by blast
qed

text \<open>
  C31. Every status the database stores is one of the three the code knows: a read of a session's calls
  never meets an unknown status, and answers exactly the rows of that session.
\<close>

theorem stored_statuses_read_back:
  assumes "db_reach check empty_db d" and "\<not> flt 0"
  shows "\<exists>facts. calls_read flt s d = Inr facts \<and>
    (\<forall>c. c \<in> set facts \<longleftrightarrow>
       (\<exists>i row. map_of (db_tool_calls d) (s, i) = Some row \<and> c = call_of_row (s, i) row))"
proof -
  have "db_ok empty_db" by (simp add: db_ok_def empty_db_def keyed_def covered_def)
  with db_ok_reach [OF assms(1)] calls_read_ok assms(2) show ?thesis by blast
qed

lemma stored_statuses_read_back_witness:
  "\<exists>facts. calls_read (\<lambda>i. False) ''s'' seed_db = Inr facts \<and>
    (\<forall>c. c \<in> set facts \<longleftrightarrow>
       (\<exists>i row. map_of (db_tool_calls seed_db) (''s'', i) = Some row \<and> c = call_of_row (''s'', i) row))"
  by (rule stored_statuses_read_back [OF seed_db_reached]) simp

section \<open>Settling a turn\<close>

text \<open>The tables as the facts of \<open>Recovery\<close>.\<close>

definition facts_rel :: "db \<Rightarrow> fact_tables \<Rightarrow> bool" where
  "facts_rel d ft \<longleftrightarrow>
     distinct (map (\<lambda>t. (tf_session_id t, tf_turn_seq t)) (ft_turns ft)) \<and>
     (\<forall>t. t \<in> set (ft_turns ft) \<longleftrightarrow> map_of (db_turns d) (tf_session_id t, tf_turn_seq t) = Some t) \<and>
     ft_entries ft = map_of (db_entry_turns d) \<and>
     ft_calls ft = (\<lambda>k. map_option (call_of_row k) (map_of (db_tool_calls d) k))"

abbreviation turn_key :: "turn_facts \<Rightarrow> str \<times> int" where
  "turn_key t \<equiv> (tf_session_id t, tf_turn_seq t)"

lemma put_turn_Nil: "put_turn t [] = [t]"
  by (simp add: put_turn_def)

lemma put_turn_Cons: "put_turn t (u # us) = (if turn_key u = turn_key t then t # us else u # put_turn t us)"
  by (simp add: put_turn_def Let_def)

lemma put_turn_keys: "turn_key ` set (put_turn t ts) = insert (turn_key t) (turn_key ` set ts)"
  by (induction ts) (auto simp: put_turn_Nil put_turn_Cons)

lemma put_turn_distinct: "distinct (map turn_key ts) \<Longrightarrow> distinct (map turn_key (put_turn t ts))"
proof (induction ts)
  case (Cons u us)
  have "turn_key u \<notin> turn_key ` set (put_turn t us)" if "turn_key u \<noteq> turn_key t"
    using Cons.prems that put_turn_keys [of t us] by auto
  with Cons show ?case by (auto simp: put_turn_Cons)
qed (simp add: put_turn_Nil)

lemma put_turn_mem:
  "distinct (map turn_key ts) \<Longrightarrow>
     x \<in> set (put_turn t ts) \<longleftrightarrow> x = t \<or> x \<in> set ts \<and> turn_key x \<noteq> turn_key t"
proof (induction ts)
  case (Cons u us)
  then show ?case by (cases "turn_key u = turn_key t") (auto simp: put_turn_Cons image_iff)
qed (simp add: put_turn_Nil)

lemma facts_rel_turn:
  assumes "facts_rel d ft" "upsert_turn t d = Inr d1"
  shows "facts_rel d1 (ft\<lparr>ft_turns := put_turn t (ft_turns ft)\<rparr>)"
proof -
  have d1: "d1 = d\<lparr>db_turns := bt_put (turn_key t) t (db_turns d)\<rparr>" using assms(2) by (simp add: upsert_turn_Inr)
  have dist: "distinct (map turn_key (ft_turns ft))"
    and mem: "u \<in> set (ft_turns ft) \<longleftrightarrow> map_of (db_turns d) (turn_key u) = Some u" for u
    using assms(1) by (simp_all add: facts_rel_def)
  have "u \<in> set (put_turn t (ft_turns ft)) \<longleftrightarrow> map_of (db_turns d1) (turn_key u) = Some u" for u
    using put_turn_mem [OF dist, of u t] mem [of u] d1 by (cases "turn_key u = turn_key t") auto
  with put_turn_distinct [OF dist] assms(1) d1 show ?thesis by (simp add: facts_rel_def)
qed

lemma facts_rel_entry:
  assumes "facts_rel d ft" "upsert_entry s q key d = Inr d1"
  shows "facts_rel d1 (ft\<lparr>ft_entries := (ft_entries ft)((s, key) \<mapsto> q)\<rparr>)"
  using assms by (simp add: facts_rel_def upsert_entry_Inr)

lemma facts_rel_call:
  assumes "facts_rel d ft" "upsert_call c d = Inr d1"
  shows "facts_rel d1 (ft\<lparr>ft_calls := (ft_calls ft)((cf_session_id c, cf_call c) \<mapsto> c)\<rparr>)"
proof -
  have "call_of_row (cf_session_id c, cf_call c)
      \<lparr>cr_turn_seq = cf_turn_seq c, cr_status = status_text (cf_status c), cr_settled_millis = cf_settled_millis c\<rparr>
      = c"
    by (simp add: call_of_row_def)
  with assms show ?thesis by (simp add: facts_rel_def upsert_call_Inr fun_eq_iff)
qed

lemma run_upserts_append:
  "run_upserts flt k (us @ vs) d = Inr ((), d2) \<Longrightarrow>
     \<exists>d1 j. fold (\<lambda>u m. sql_bind m u) us (Inr d) = Inr d1 \<and> run_upserts flt j vs d1 = Inr ((), d2)"
proof (induction us arbitrary: k d)
  case (Cons u us)
  then obtain d1 where "u d = Inr d1" "run_upserts flt (Suc k) (us @ vs) d1 = Inr ((), d2)"
    by (auto simp: stmt_def sql_bind_eq_Inr split: if_splits)
  with Cons.IH [of "Suc k" d1] show ?case by simp
qed auto

lemma fold_bind_Inl: "fold (\<lambda>u m. sql_bind m u) us (Inl e) = Inl e"
  by (induction us) auto

lemma facts_rel_entries:
  "facts_rel d ft \<Longrightarrow> fold (\<lambda>u m. sql_bind m u) (map (upsert_entry s q) ks) (Inr d) = Inr d1 \<Longrightarrow>
     facts_rel d1 (ft\<lparr>ft_entries := fold (\<lambda>k m. m((s, k) \<mapsto> q)) ks (ft_entries ft)\<rparr>)"
proof (induction ks arbitrary: d ft)
  case (Cons k ks)
  then obtain d2 where d2: "upsert_entry s q k d = Inr d2"
    by (cases "upsert_entry s q k d") (auto simp: fold_bind_Inl)
  with Cons.IH [OF facts_rel_entry [OF Cons.prems(1) d2]] Cons.prems(2) show ?case by simp
qed simp

lemma facts_rel_calls:
  "facts_rel d ft \<Longrightarrow> fold (\<lambda>u m. sql_bind m u) (map upsert_call cs) (Inr d) = Inr d1 \<Longrightarrow>
     facts_rel d1 (ft\<lparr>ft_calls := fold (\<lambda>c m. m((cf_session_id c, cf_call c) \<mapsto> c)) cs (ft_calls ft)\<rparr>)"
proof (induction cs arbitrary: d ft)
  case (Cons c cs)
  then obtain d2 where d2: "upsert_call c d = Inr d2"
    by (cases "upsert_call c d") (auto simp: fold_bind_Inl)
  with Cons.IH [OF facts_rel_call [OF Cons.prems(1) d2]] Cons.prems(2) show ?case by simp
qed simp

lemma settle_unit_refines:
  assumes "settle_unit flt r d = (Inr u, d1)" "facts_rel d ft"
  shows "facts_rel d1 (record_settle r ft)"
proof -
  let ?t = "sr_turn r"
  let ?es = "map (upsert_entry (tf_session_id ?t) (tf_turn_seq ?t)) (sr_keys r)"
  let ?cs = "map upsert_call (sr_calls r)"
  have run: "run_upserts flt 1 ([upsert_turn ?t] @ ?es @ ?cs) d = Inr ((), d1)"
    using upsert_unit_cases [OF assms(1) [unfolded settle_unit_def]] by auto
  obtain d2 j where t: "upsert_turn ?t d = Inr d2" and r1: "run_upserts flt j (?es @ ?cs) d2 = Inr ((), d1)"
    using run_upserts_append [OF run] by (auto simp: upsert_turn_def)
  obtain d3 i where e: "fold (\<lambda>u m. sql_bind m u) ?es (Inr d2) = Inr d3"
    and r2: "run_upserts flt i (?cs @ []) d3 = Inr ((), d1)"
    using run_upserts_append [OF r1] by auto
  obtain d4 l where c: "fold (\<lambda>u m. sql_bind m u) ?cs (Inr d3) = Inr d4" and "run_upserts flt l [] d4 = Inr ((), d1)"
    using run_upserts_append [OF r2] by auto
  then have "d4 = d1" by (simp add: stmt_def split: if_splits)
  with facts_rel_calls [OF facts_rel_entries [OF facts_rel_turn [OF assms(2) t] e] c]
  show ?thesis by (simp add: record_settle_def Let_def)
qed

section \<open>Migration\<close>

lemma create_tables_Inr:
  "create_tables flt k ts d = Inr (k1, d1) \<Longrightarrow>
     k1 = k + length ts \<and> d1 = d\<lparr>db_tables := db_tables d @ ts\<rparr>"
proof (induction ts arbitrary: k d)
  case (Cons t ts)
  then obtain "create_tables flt (Suc k) ts (d\<lparr>db_tables := db_tables d @ [t]\<rparr>) = Inr (k1, d1)"
    by (auto simp: stmt_def sql_bind_eq_Inr split: if_splits)
  from Cons.IH [OF this] show ?case by simp
qed simp

lemma create_tables_calm:
  "distinct ts \<Longrightarrow> set ts \<inter> set (db_tables d) = {} \<Longrightarrow>
     create_tables (\<lambda>i. False) k ts d = Inr (k + length ts, d\<lparr>db_tables := db_tables d @ ts\<rparr>)"
  by (induction ts arbitrary: k d) (auto simp: stmt_def)

lemma run_migrations_Inr:
  "run_migrations flt k v ms d = Inr ((), d1) \<Longrightarrow> db_version d = v \<Longrightarrow>
     d1 = d\<lparr>db_version := v + int (length ms), db_tables := db_tables d @ concat ms\<rparr>"
proof (induction ms arbitrary: k v d)
  case (Cons m ms)
  then obtain k1 d2 where "create_tables flt k m d = Inr (k1, d2)"
    and "run_migrations flt (Suc k1) (v + 1) ms (d2\<lparr>db_version := v + 1\<rparr>) = Inr ((), d1)"
    by (auto simp: stmt_def sql_bind_eq_Inr split: if_splits)
  with Cons.IH [of "Suc k1" "v + 1" "d2\<lparr>db_version := v + 1\<rparr>"] create_tables_Inr [of flt k m d k1 d2]
  show ?case by (simp add: algebra_simps)
qed (simp add: stmt_def split: if_splits)

lemma run_migrations_calm:
  "distinct (concat ms) \<Longrightarrow> set (concat ms) \<inter> set (db_tables d) = {} \<Longrightarrow>
     \<exists>d1. run_migrations (\<lambda>i. False) k v ms d = Inr ((), d1)"
proof (induction ms arbitrary: k v d)
  case (Cons m ms)
  let ?d = "d\<lparr>db_tables := db_tables d @ m, db_version := v + 1\<rparr>"
  have "\<exists>d1. run_migrations (\<lambda>i. False) (Suc (k + length m)) (v + 1) ms ?d = Inr ((), d1)"
    using Cons.prems by (intro Cons.IH) auto
  moreover have "set m \<inter> set (db_tables d) = {}" "distinct m" using Cons.prems by auto
  ultimately show ?case using create_tables_calm [of m d k] by (simp add: stmt_def)
qed (simp add: stmt_def)

lemma target_two: "target_version = 2" "length migrations = 2"
  by (simp_all add: target_version_def migrations_def)

text \<open>
  C34. A migration brings a database of version 0, 1 or 2 to version 2 by creating exactly the tables its version
  lacks, touches no stored row, and has nothing left to do; a migration that fails for any reason leaves the
  database as it was, and without a refusal it fails only on an unknown version or on tables of another program.
\<close>

theorem migrate_exact:
  "(case migrate flt path d of
      (Inr u, d1) \<Rightarrow>
        0 \<le> db_version d \<and> db_version d \<le> 2 \<and>
        d1 = d\<lparr>db_version := 2, db_tables := db_tables d @ concat (drop (nat (db_version d)) migrations)\<rparr> \<and>
        (\<forall>flt2. \<not> flt2 0 \<longrightarrow> migrate flt2 path d1 = (Inr (), d1))
    | (Inl e, d1) \<Rightarrow>
        d1 = d \<and>
        ((\<forall>i. \<not> flt i) \<longrightarrow>
           db_version d < 0 \<or> 2 < db_version d \<or> (db_version d = 0 \<and> foreign_table d \<noteq> None) \<or>
           set (concat (drop (nat (db_version d)) migrations)) \<inter> set (db_tables d) \<noteq> {}))"
proof (cases "migrate flt path d")
  case (Pair r d1)
  let ?ms = "drop (nat (db_version d)) migrations"
  show ?thesis
  proof (cases r)
    case (Inr u)
    have v: "0 \<le> db_version d" "db_version d \<le> 2"
      using Pair Inr by (auto simp: migrate_def target_two split: if_splits)
    have "d1 = d\<lparr>db_version := 2, db_tables := db_tables d @ concat ?ms\<rparr>"
    proof (cases "db_version d = 2")
      case True
      with Pair Inr show ?thesis by (auto simp: migrate_def target_two split: if_splits)
    next
      case False
      with Pair Inr have "run_migrations flt 3 (db_version d) ?ms d = Inr ((), d1)"
        by (auto simp: migrate_def target_two stmt_def finish_unit_def split: if_splits sum.splits prod.splits)
      from run_migrations_Inr [OF this] v show ?thesis by (simp add: target_two)
    qed
    moreover have "migrate flt2 path d2 = (Inr (), d2)" if "\<not> flt2 0" "db_version d2 = 2" for flt2 d2
      using that by (simp add: migrate_def target_two)
    ultimately show ?thesis using v by (simp add: Pair Inr)
  next
    case (Inl e)
    have "d1 = d"
      using Pair Inl by (auto simp: migrate_def finish_unit_def split: if_splits sum.splits prod.splits)
    have contra: False if "\<forall>i. \<not> flt i" "\<not> db_version d < 0" "\<not> 2 < db_version d"
      "\<not> (db_version d = 0 \<and> foreign_table d \<noteq> None)" "\<not> set (concat ?ms) \<inter> set (db_tables d) \<noteq> {}"
    proof -
      have "distinct (concat ?ms)"
      proof -
        have "distinct (concat migrations)" by (simp add: migrations_def)
        then show ?thesis
          using distinct_drop [of "concat migrations"]
          by (metis append_take_drop_id concat_append distinct_append)
      qed
      from run_migrations_calm [OF this, of d 3 "db_version d"] that(5)
      obtain d2 where m: "run_migrations (\<lambda>i. False) 3 (db_version d) ?ms d = Inr ((), d2)" by blast
      have flt: "flt = (\<lambda>i. False)" using that(1) by auto
      have "migrate flt path d = (Inr (), if db_version d = 2 then d else d2)"
        using that(2-4) m by (auto simp: flt migrate_def target_two stmt_def finish_unit_def)
      with Pair Inl show False by simp
    qed
    have "(\<forall>i. \<not> flt i) \<longrightarrow>
        db_version d < 0 \<or> 2 < db_version d \<or> (db_version d = 0 \<and> foreign_table d \<noteq> None) \<or>
        set (concat ?ms) \<inter> set (db_tables d) \<noteq> {}"
      by (rule impI, rule ccontr, rule contra) simp_all
    with \<open>d1 = d\<close> show ?thesis by (simp add: Pair Inl)
  qed
qed

definition old_db :: db where
  "old_db = empty_db\<lparr>db_version := 1, db_tables := [''logs'', ''files'', ''sessions'']\<rparr>"

lemma migrate_exact_witness:
  "migrate (\<lambda>i. False) ''a.db'' (old_db\<lparr>db_version := 2, db_tables := concat migrations\<rparr>)
     = (Inr (), old_db\<lparr>db_version := 2, db_tables := concat migrations\<rparr>)"
proof -
  have "\<exists>u d1. migrate (\<lambda>i. False) ''a.db'' old_db = (Inr u, d1)"
    by (simp add: migrate_def target_two old_db_def migrations_def stmt_def finish_unit_def empty_db_def)
  with migrate_exact [where flt = "\<lambda>i. False" and path = "''a.db''" and d = old_db]
  show ?thesis by (auto simp: old_db_def migrations_def)
qed

end
