(* ===== verification/Session_Facts.thy ===== *)
theory Session_Facts
  imports Storage_Tables Recovery_Facts
begin

text \<open>
  The facts of a session (\<open>agnt-core/src/session/settle.rs\<close>): what a settled turn records through the fact
  tables of \<open>Storage\<close>, and what a reload reads of them.  \<open>Recovery\<close> describes a settle as one change of
  abstract tables; here it is the read of the ordinals and the settle unit, each of which may fail.
\<close>

section \<open>The store of facts\<close>

record session_facts =
  sf_entries :: "entry_turn list"
  sf_calls :: "call_fact list"
  sf_turns :: "turn_facts list"

text \<open>A hash map collected from a list: the last pair of a key stays.\<close>

definition status_map :: "session_facts \<Rightarrow> str \<rightharpoonup> tool_status" where
  "status_map f = map_of (rev (map (\<lambda>c. (cf_call c, cf_status c)) (sf_calls f)))"

definition entry_turns :: "session_facts \<Rightarrow> message_key \<rightharpoonup> int" where
  "entry_turns f = map_of (rev (map (\<lambda>e. (et_key e, et_turn_seq e)) (sf_entries f)))"

text \<open>
  The two units of a settle: the read of the session's turns, whose largest ordinal gives the next, and
  the settle itself.
\<close>

definition settled_record :: "int \<Rightarrow> settle_input \<Rightarrow> message_key list \<Rightarrow> turn_facts list \<Rightarrow> settle_record" where
  "settled_record now input keys turns =
     (let turn_seq = next_turn_seq (map tf_turn_seq turns) in
      \<lparr>sr_turn = \<lparr>tf_session_id = si_session_id input, tf_turn_seq = turn_seq,
         tf_submitted_millis = si_submitted_millis input, tf_settled_millis = now,
         tf_model = si_model input, tf_agent = si_agent input\<rparr>,
       sr_keys = keys,
       sr_calls = map (\<lambda>r. \<lparr>cf_session_id = si_session_id input, cf_call = ttr_call_id r,
                           cf_turn_seq = turn_seq,
                           cf_status = (case ttr_status r of None \<Rightarrow> StatusCancelled | Some x \<Rightarrow> x),
                           cf_settled_millis = now\<rparr>) (si_records input)\<rparr>)"

definition fact_settle :: "faults \<Rightarrow> faults \<Rightarrow> int \<Rightarrow> settle_input \<Rightarrow> db \<Rightarrow> (storage_error + unit) \<times> db" where
  "fact_settle read_flt write_flt now input d =
     (case si_keys input of
        None \<Rightarrow> (Inr (), d)
      | Some keys \<Rightarrow>
          (case turns_read read_flt (si_session_id input) d of
             Inl e \<Rightarrow> (Inl (Sqlite e), d)
           | Inr turns \<Rightarrow>
               (case settle_unit write_flt (settled_record now input keys turns) d of
                  (Inl e, d1) \<Rightarrow> (Inl (Sqlite e), d1)
                | (Inr u, d1) \<Rightarrow> (Inr u, d1))))"

definition fact_read :: "faults \<Rightarrow> faults \<Rightarrow> faults \<Rightarrow> str \<Rightarrow> db \<Rightarrow> storage_error + session_facts" where
  "fact_read flt_e flt_c flt_t session d =
     (case entries_read flt_e session d of
        Inl e \<Rightarrow> Inl (Sqlite e)
      | Inr entries \<Rightarrow>
          (case calls_read flt_c session d of
             Inl e \<Rightarrow> Inl e
           | Inr calls \<Rightarrow>
               (case turns_read flt_t session d of
                  Inl e \<Rightarrow> Inl (Sqlite e)
                | Inr turns \<Rightarrow> Inr \<lparr>sf_entries = entries, sf_calls = calls, sf_turns = turns\<rparr>)))"

text \<open>The turn of the largest ordinal; a persona-less turn names no agent.\<close>

definition last_turn :: "turn_facts list \<Rightarrow> turn_facts option" where
  "last_turn turns =
     fold (\<lambda>t best. case best of None \<Rightarrow> Some t
                     | Some b \<Rightarrow> if tf_turn_seq b \<le> tf_turn_seq t then Some t else Some b) turns None"

definition last_turn_agent :: "faults \<Rightarrow> str \<Rightarrow> db \<Rightarrow> storage_error + str option" where
  "last_turn_agent flt session d =
     (case turns_read flt session d of
        Inl e \<Rightarrow> Inl (Sqlite e)
      | Inr turns \<Rightarrow>
          Inr (case last_turn turns of
                 None \<Rightarrow> None
               | Some t \<Rightarrow> if trim (tf_agent t) = [] then None else Some (tf_agent t)))"

section \<open>What a read answers\<close>

lemma distinct_map_sort: "distinct (map f xs) \<Longrightarrow> distinct (map f (sort_key g xs))"
  by (simp add: distinct_map)

lemma db_ok_turn_key: "db_ok d \<Longrightarrow> map_of (db_turns d) k = Some t \<Longrightarrow> k = turn_key t"
  unfolding db_ok_def by blast

lemma turns_read_ok:
  assumes "db_ok d" "\<not> flt 0"
  shows "\<exists>turns. turns_read flt s d = Inr turns \<and> sorted_wrt (<) (map tf_turn_seq turns) \<and>
    (\<forall>t. t \<in> set turns \<longleftrightarrow> tf_session_id t = s \<and> map_of (db_turns d) (s, tf_turn_seq t) = Some t)"
proof -
  let ?rows = "filter (\<lambda>(k, t). fst k = s) (db_turns d)"
  let ?turns = "map snd (sort_key (snd \<circ> fst) ?rows)"
  have keyed: "keyed (db_turns d)" using assms(1) by (simp add: db_ok_def)
  have own: "k = (tf_session_id t, tf_turn_seq t)" if "(k, t) \<in> set (db_turns d)" for k t
    using db_ok_turn_key [OF assms(1)] that keyed_mem [OF keyed] by blast
  have mem: "t \<in> set ?turns \<longleftrightarrow> tf_session_id t = s \<and> map_of (db_turns d) (s, tf_turn_seq t) = Some t" for t
    using keyed_mem [OF keyed] own by (auto simp: image_iff)
  have seqs: "map tf_turn_seq ?turns = map (snd \<circ> fst) (sort_key (snd \<circ> fst) ?rows)"
    using own by (auto simp: comp_def)
  have "sorted (map (snd \<circ> fst) (sort_key (snd \<circ> fst) ?rows))" by simp
  moreover have "distinct (map (snd \<circ> fst) (sort_key (snd \<circ> fst) ?rows))"
  proof -
    have "distinct (map fst ?rows)" using keyed_distinct [OF keyed_filter [OF keyed]] .
    then have "distinct (map (snd \<circ> fst) ?rows)"
      unfolding distinct_map by (auto simp: inj_on_def)
    then show ?thesis by (rule distinct_map_sort)
  qed
  ultimately have "sorted_wrt (<) (map tf_turn_seq ?turns)"
    unfolding seqs strict_sorted_iff by blast
  with mem assms(2) show ?thesis by (auto simp: turns_read_def stmt_def)
qed

lemma map_of_rev_keyed:
  assumes "distinct (map f xs)"
  shows "map_of (rev (map (\<lambda>x. (f x, g x)) xs)) k = Some v \<longleftrightarrow> (\<exists>x \<in> set xs. f x = k \<and> g x = v)"
proof -
  have "distinct (map fst (rev (map (\<lambda>x. (f x, g x)) xs)))"
    using assms by (simp add: comp_def rev_map [symmetric])
  from map_of_eq_Some_iff [OF this] show ?thesis by auto
qed

lemma entries_read_ok:
  assumes "db_ok d" "\<not> flt 0"
  shows "\<exists>es. entries_read flt s d = Inr es \<and> distinct (map et_key es) \<and>
    (\<forall>k q. (\<exists>e \<in> set es. et_key e = k \<and> et_turn_seq e = q) \<longleftrightarrow> map_of (db_entry_turns d) (s, k) = Some q)"
proof -
  let ?rows = "filter (\<lambda>(k, q). fst k = s) (db_entry_turns d)"
  let ?sorted = "sort_key (\<lambda>(k, q). (q, snd k)) ?rows"
  let ?es = "map (\<lambda>(k, q). \<lparr>et_key = snd k, et_turn_seq = q\<rparr>) ?sorted"
  have keyed: "keyed (db_entry_turns d)" using assms(1) by (simp add: db_ok_def)
  have "distinct (map fst ?rows)" using keyed_distinct [OF keyed_filter [OF keyed]] .
  then have "distinct (map (snd \<circ> fst) ?rows)"
    unfolding distinct_map by (auto simp: inj_on_def)
  then have "distinct (map (snd \<circ> fst) ?sorted)"
    by (rule distinct_map_sort)
  moreover have keys: "map et_key ?es = map (snd \<circ> fst) ?sorted" by auto
  ultimately have "distinct (map et_key ?es)" unfolding keys by blast
  moreover have "(\<exists>e \<in> set ?es. et_key e = k \<and> et_turn_seq e = q) \<longleftrightarrow> map_of (db_entry_turns d) (s, k) = Some q"
    for k q
  proof -
    have mem: "e \<in> set ?es \<longleftrightarrow> ((s, et_key e), et_turn_seq e) \<in> set (db_entry_turns d)" for e
      by (cases e) (auto simp: image_iff)
    have "(\<exists>e \<in> set ?es. et_key e = k \<and> et_turn_seq e = q) \<longleftrightarrow> ((s, k), q) \<in> set (db_entry_turns d)"
    proof
      assume "((s, k), q) \<in> set (db_entry_turns d)"
      then have "\<lparr>et_key = k, et_turn_seq = q\<rparr> \<in> set ?es" using mem by simp
      then show "\<exists>e \<in> set ?es. et_key e = k \<and> et_turn_seq e = q" by (rule rev_bexI) simp
    qed (use mem in blast)
    then show ?thesis using keyed_mem [OF keyed] by simp
  qed
  ultimately show ?thesis using assms(2) by (auto simp: entries_read_def stmt_def)
qed

lemma calls_read_distinct:
  assumes "db_ok d" "calls_read flt s d = Inr facts"
  shows "distinct (map cf_call facts)"
proof -
  let ?rows = "filter (\<lambda>(k, row). fst k = s) (db_tool_calls d)"
  let ?sorted = "sort_key (snd \<circ> fst) ?rows"
  have keyed: "keyed (db_tool_calls d)" using assms(1) by (simp add: db_ok_def)
  have "\<forall>(k, row) \<in> set ?sorted. fst k = s \<and> parse_status (cr_status row) \<noteq> None"
    using assms(1) keyed_mem [OF keyed] by (fastforce simp: db_ok_def)
  from parse_calls_rows [OF this] assms(2)
  have facts: "facts = map (\<lambda>(k, row). call_of_row k row) ?sorted"
    by (simp add: calls_read_def split: if_splits)
  have "distinct (map fst ?rows)" using keyed_distinct [OF keyed_filter [OF keyed]] .
  then have "distinct (map (snd \<circ> fst) ?rows)"
    unfolding distinct_map by (auto simp: inj_on_def)
  then have "distinct (map (snd \<circ> fst) ?sorted)"
    by (rule distinct_map_sort)
  moreover have "map cf_call facts = map (snd \<circ> fst) ?sorted"
    by (auto simp: facts call_of_row_def)
  ultimately show ?thesis by simp
qed

text \<open>On tables that keep the invariant, an undisturbed read is the session's part of each table.\<close>

lemma fact_read_exact:
  assumes "db_ok d" "\<not> flt_e 0" "\<not> flt_c 0" "\<not> flt_t 0"
  shows "\<exists>f. fact_read flt_e flt_c flt_t s d = Inr f \<and>
    (\<forall>k. entry_turns f k = map_of (db_entry_turns d) (s, k)) \<and>
    (\<forall>i. status_map f i = map_option (cf_status \<circ> call_of_row (s, i)) (map_of (db_tool_calls d) (s, i))) \<and>
    sorted_wrt (<) (map tf_turn_seq (sf_turns f)) \<and>
    (\<forall>t. t \<in> set (sf_turns f) \<longleftrightarrow> tf_session_id t = s \<and> map_of (db_turns d) (s, tf_turn_seq t) = Some t)"
proof -
  obtain es where es: "entries_read flt_e s d = Inr es" "distinct (map et_key es)"
    "\<forall>k q. (\<exists>e \<in> set es. et_key e = k \<and> et_turn_seq e = q) \<longleftrightarrow> map_of (db_entry_turns d) (s, k) = Some q"
    using entries_read_ok [where s = s and flt = flt_e and d = d, OF assms(1,2)] by blast
  obtain cs where cs: "calls_read flt_c s d = Inr cs" "\<forall>c. c \<in> set cs \<longleftrightarrow>
      (\<exists>i row. map_of (db_tool_calls d) (s, i) = Some row \<and> c = call_of_row (s, i) row)"
    using calls_read_ok [where s = s and flt = flt_c and d = d, OF assms(1,3)] by blast
  obtain ts where ts: "turns_read flt_t s d = Inr ts" "sorted_wrt (<) (map tf_turn_seq ts)"
    "\<forall>t. t \<in> set ts \<longleftrightarrow> tf_session_id t = s \<and> map_of (db_turns d) (s, tf_turn_seq t) = Some t"
    using turns_read_ok [where s = s and flt = flt_t and d = d, OF assms(1,4)] by blast
  let ?f = "\<lparr>sf_entries = es, sf_calls = cs, sf_turns = ts\<rparr>"
  have "entry_turns ?f k = map_of (db_entry_turns d) (s, k)" for k
  proof (cases "map_of (db_entry_turns d) (s, k)")
    case None
    have "et_key e \<noteq> k" if "e \<in> set es" for e
      using es(3) [rule_format, of k "et_turn_seq e"] that None by auto
    then have "entry_turns ?f k \<noteq> Some v" for v
      using map_of_rev_keyed [OF es(2), of et_turn_seq k v] by (auto simp: entry_turns_def)
    then show ?thesis using None by (cases "entry_turns ?f k") auto
  next
    case (Some q)
    then have "\<exists>e \<in> set es. et_key e = k \<and> et_turn_seq e = q" using es(3) by blast
    then show ?thesis
      using Some map_of_rev_keyed [OF es(2), of et_turn_seq k q] by (simp add: entry_turns_def)
  qed
  moreover have "status_map ?f i = map_option (cf_status \<circ> call_of_row (s, i)) (map_of (db_tool_calls d) (s, i))"
    for i
  proof -
    note m = map_of_rev_keyed [OF calls_read_distinct [OF assms(1) cs(1)], of cf_status i]
    show ?thesis
    proof (cases "map_of (db_tool_calls d) (s, i)")
      case None
      then have "\<not> (\<exists>c \<in> set cs. cf_call c = i)" using cs(2) by (auto simp: call_of_row_def)
      then have "status_map ?f i \<noteq> Some v" for v using m by (auto simp: status_map_def)
      then show ?thesis using None by (cases "status_map ?f i") auto
    next
      case (Some row)
      then have "call_of_row (s, i) row \<in> set cs" using cs(2) by blast
      moreover have "cf_call (call_of_row (s, i) row) = i" by (simp add: call_of_row_def)
      ultimately have "\<exists>c \<in> set cs. cf_call c = i \<and> cf_status c = cf_status (call_of_row (s, i) row)"
        by blast
      then have "status_map ?f i = Some (cf_status (call_of_row (s, i) row))"
        using m by (simp add: status_map_def)
      then show ?thesis using Some by simp
    qed
  qed
  ultimately show ?thesis using es(1) cs(1) ts by (simp add: fact_read_def)
qed

section \<open>Settling refines the abstract settle\<close>

lemma turns_read_session:
  assumes "db_ok d" "facts_rel d ft" "turns_read flt s d = Inr turns"
  shows "set turns = set (session_turns s ft)"
proof -
  have "\<not> flt 0" using assms(3) by (simp add: turns_read_def stmt_def split: if_splits)
  from turns_read_ok [where s = s and flt = flt and d = d, OF assms(1) this] assms(3)
  have "t \<in> set turns \<longleftrightarrow> tf_session_id t = s \<and> map_of (db_turns d) (s, tf_turn_seq t) = Some t" for t
    by auto
  moreover have "t \<in> set (ft_turns ft) \<longleftrightarrow> map_of (db_turns d) (turn_key t) = Some t" for t
    using assms(2) by (simp add: facts_rel_def)
  ultimately show ?thesis by (auto simp: session_turns_def)
qed

lemma next_turn_seq_cong: "set xs = set ys \<Longrightarrow> next_turn_seq xs = next_turn_seq ys"
  by (auto simp: next_turn_seq_def)

text \<open>
  C32. On tables that stand for the abstract facts, a settle that succeeds leaves tables that stand for the
  abstract settle, and one that fails, at its read or at any statement of its write, leaves the tables as
  they were.
\<close>

theorem settle_refines:
  assumes "db_ok d" and "facts_rel d ft"
  shows "(case fact_settle read_flt write_flt now input d of
            (Inr u, d1) \<Rightarrow> facts_rel d1 (settle now input ft)
          | (Inl e, d1) \<Rightarrow> d1 = d)"
proof (cases "si_keys input")
  case None
  then show ?thesis using assms(2) by (simp add: fact_settle_def settle_def)
next
  case keys: (Some keys)
  show ?thesis
  proof (cases "turns_read read_flt (si_session_id input) d")
    case (Inl e)
    then show ?thesis by (simp add: fact_settle_def keys)
  next
    case (Inr turns)
    let ?r = "settled_record now input keys turns"
    have "set (map tf_turn_seq turns) = set (map tf_turn_seq (session_turns (si_session_id input) ft))"
      using turns_read_session [OF assms Inr] by simp
    note seq = next_turn_seq_cong [OF this]
    have rec: "record_settle ?r ft = settle now input ft"
      by (simp add: settled_record_def settle_def Let_def keys seq)
    show ?thesis
    proof (cases "settle_unit write_flt ?r d")
      case (Pair res d1)
      show ?thesis
      proof (cases res)
        case (Inl e)
        with Pair upsert_unit_cases [of write_flt _ d res d1] show ?thesis
          by (auto simp: fact_settle_def keys Inr settle_unit_def)
      next
        case (Inr u)
        with Pair settle_unit_refines [of write_flt ?r d u d1, OF _ assms(2)] rec
          \<open>turns_read read_flt (si_session_id input) d = Inr turns\<close>
        show ?thesis by (simp add: fact_settle_def keys)
      qed
    qed
  qed
qed

section \<open>What a reload reads after a settle\<close>

definition facts_of :: "db \<Rightarrow> fact_tables" where
  "facts_of d =
     \<lparr>ft_turns = map snd (db_turns d), ft_entries = map_of (db_entry_turns d),
      ft_calls = (\<lambda>k. map_option (call_of_row k) (map_of (db_tool_calls d) k))\<rparr>"

lemma facts_rel_facts_of:
  assumes "db_ok d"
  shows "facts_rel d (facts_of d)"
proof -
  have keyed: "keyed (db_turns d)" using assms by (simp add: db_ok_def)
  have own: "k = turn_key t" if "(k, t) \<in> set (db_turns d)" for k t
    using db_ok_turn_key [OF assms] that keyed_mem [OF keyed] by blast
  have "map turn_key (map snd (db_turns d)) = map fst (db_turns d)"
    using own by (auto simp: comp_def)
  then have "distinct (map turn_key (map snd (db_turns d)))" using keyed_distinct [OF keyed] by metis
  moreover have "t \<in> set (map snd (db_turns d)) \<longleftrightarrow> map_of (db_turns d) (turn_key t) = Some t" for t
  proof
    assume "t \<in> set (map snd (db_turns d))"
    then obtain k where "(k, t) \<in> set (db_turns d)" by auto
    with own [OF this] keyed_mem [OF keyed, of k t] show "map_of (db_turns d) (turn_key t) = Some t" by simp
  next
    assume "map_of (db_turns d) (turn_key t) = Some t"
    from map_of_SomeD [OF this] show "t \<in> set (map snd (db_turns d))" by force
  qed
  ultimately show ?thesis by (simp add: facts_rel_def facts_of_def)
qed

lemma fold_call_rows:
  "fold (\<lambda>c m. m((cf_session_id c, cf_call c) \<mapsto> c)) cs m k =
     (case map_of (rev (map (\<lambda>c. ((cf_session_id c, cf_call c), c)) cs)) k of None \<Rightarrow> m k | Some c \<Rightarrow> Some c)"
  by (induction cs arbitrary: m) (auto split: option.splits)

lemma strict_key_unique:
  fixes f :: "'a \<Rightarrow> 'b::linorder"
  assumes "sorted_wrt (<) (map f xs)" "sorted_wrt (<) (map f ys)" "set xs = set ys"
  shows "xs = ys"
proof -
  have "map f xs = map f ys"
    using assms by (intro strict_sorted_equal) auto
  moreover have "inj_on f (set xs \<union> set ys)"
    using assms by (simp add: strict_sorted_iff distinct_map)
  ultimately show ?thesis by (simp add: inj_on_map_eq_map)
qed

lemma sorted_snoc:
  "sorted_wrt (<) (map f xs) \<Longrightarrow> (\<forall>x \<in> set xs. f x < f y) \<Longrightarrow> sorted_wrt (<) (map f (xs @ [y]))"
  by (simp add: sorted_wrt_append)

lemma next_turn_seq_greater: "q \<in> set qs \<Longrightarrow> q < next_turn_seq qs"
  using Max_ge [of "set qs" q] by (auto simp: next_turn_seq_def)

lemma fact_read_calm:
  assumes "db_ok d" "facts_rel d ft" "\<not> flt 0"
  shows "\<exists>f. fact_read flt flt flt s d = Inr f \<and>
    (\<forall>k. entry_turns f k = ft_entries ft (s, k)) \<and>
    (\<forall>i. status_map f i = map_option cf_status (ft_calls ft (s, i))) \<and>
    sorted_wrt (<) (map tf_turn_seq (sf_turns f)) \<and>
    (\<forall>t. t \<in> set (sf_turns f) \<longleftrightarrow> tf_session_id t = s \<and> t \<in> set (ft_turns ft))"
proof -
  obtain f where f: "fact_read flt flt flt s d = Inr f"
    "\<forall>k. entry_turns f k = map_of (db_entry_turns d) (s, k)"
    "\<forall>i. status_map f i = map_option (cf_status \<circ> call_of_row (s, i)) (map_of (db_tool_calls d) (s, i))"
    "sorted_wrt (<) (map tf_turn_seq (sf_turns f))"
    "\<forall>t. t \<in> set (sf_turns f) \<longleftrightarrow> tf_session_id t = s \<and> map_of (db_turns d) (s, tf_turn_seq t) = Some t"
    using fact_read_exact [where d = d and s = s and flt_e = flt and flt_c = flt and flt_t = flt] assms(1,3) by blast
  have turns: "t \<in> set (ft_turns ft) \<longleftrightarrow> map_of (db_turns d) (turn_key t) = Some t" for t
    using assms(2) by (simp add: facts_rel_def)
  have "\<forall>k. entry_turns f k = ft_entries ft (s, k)"
    "\<forall>i. status_map f i = map_option cf_status (ft_calls ft (s, i))"
    using f(2,3) assms(2) by (simp_all add: facts_rel_def option.map_comp)
  moreover have "\<forall>t. t \<in> set (sf_turns f) \<longleftrightarrow> tf_session_id t = s \<and> t \<in> set (ft_turns ft)"
    using f(5) turns by auto
  ultimately show ?thesis using f(1,4) by blast
qed

text \<open>
  What the read after a settle answers, against the read before it.  The ordinal of the settled turn is above
  every ordinal the session's entries carried.
\<close>

lemma settle_read_back:
  assumes "db_reach check empty_db d" and "\<not> flt 0"
    and "si_keys input = Some keys" and "s = si_session_id input"
    and "fact_settle read_flt write_flt now input d = (Inr (), d1)"
  shows "\<exists>f f1 t. fact_read flt flt flt s d = Inr f \<and> fact_read flt flt flt s d1 = Inr f1 \<and>
    sf_turns f1 = sf_turns f @ [t] \<and>
    (\<forall>k q. entry_turns f k = Some q \<longrightarrow> q < tf_turn_seq t) \<and>
    tf_model t = si_model input \<and> tf_agent t = si_agent input \<and> tf_settled_millis t = now \<and>
    tf_submitted_millis t = si_submitted_millis input \<and>
    (\<forall>k. entry_turns f1 k = (if k \<in> set keys then Some (tf_turn_seq t) else entry_turns f k)) \<and>
    (\<forall>i. status_map f1 i =
       (case map_of (rev (map (\<lambda>r. (ttr_call_id r, case ttr_status r of None \<Rightarrow> StatusCancelled | Some x \<Rightarrow> x))
                            (si_records input))) i of
          None \<Rightarrow> status_map f i | Some st \<Rightarrow> Some st))"
proof -
  have "db_ok empty_db" by (simp add: db_ok_def empty_db_def keyed_def covered_def)
  then have ok: "db_ok d" using db_ok_reach [OF assms(1)] by blast
  let ?ft = "facts_of d" and ?ft1 = "settle now input (facts_of d)"
  note rel = facts_rel_facts_of [OF ok]
  obtain turns where rd: "turns_read read_flt s d = Inr turns"
    and un: "settle_unit write_flt (settled_record now input keys turns) d = (Inr (), d1)"
    using assms(3-5) by (auto simp: fact_settle_def split: sum.splits prod.splits)
  have ok1: "db_ok d1" using db_ok_settle [OF ok, of write_flt] un by (metis snd_conv)
  have rel1: "facts_rel d1 ?ft1"
    using settle_refines [where read_flt = read_flt and write_flt = write_flt and now = now and input = input, OF ok rel]
      assms(5) by simp
  obtain f where f: "fact_read flt flt flt s d = Inr f"
    "\<forall>k. entry_turns f k = ft_entries ?ft (s, k)" "\<forall>i. status_map f i = map_option cf_status (ft_calls ?ft (s, i))"
    "sorted_wrt (<) (map tf_turn_seq (sf_turns f))"
    "\<forall>t. t \<in> set (sf_turns f) \<longleftrightarrow> tf_session_id t = s \<and> t \<in> set (ft_turns ?ft)"
    using fact_read_calm [where d = d and s = s and flt = flt, OF ok rel assms(2)] by blast
  obtain f1 where f1: "fact_read flt flt flt s d1 = Inr f1"
    "\<forall>k. entry_turns f1 k = ft_entries ?ft1 (s, k)"
    "\<forall>i. status_map f1 i = map_option cf_status (ft_calls ?ft1 (s, i))"
    "sorted_wrt (<) (map tf_turn_seq (sf_turns f1))"
    "\<forall>t. t \<in> set (sf_turns f1) \<longleftrightarrow> tf_session_id t = s \<and> t \<in> set (ft_turns ?ft1)"
    using fact_read_calm [where d = d1 and s = s and flt = flt, OF ok1 rel1 assms(2)] by blast
  let ?q = "next_turn_seq (map tf_turn_seq (session_turns s ?ft))"
  let ?t = "\<lparr>tf_session_id = s, tf_turn_seq = ?q, tf_submitted_millis = si_submitted_millis input,
             tf_settled_millis = now, tf_model = si_model input, tf_agent = si_agent input\<rparr>"
  have less: "\<forall>t \<in> set (sf_turns f). tf_turn_seq t < ?q"
    using f(5) next_turn_seq_greater by (auto simp: session_turns_def)
  have put: "set (put_turn ?t (ft_turns ?ft)) = {u. u = ?t \<or> u \<in> set (ft_turns ?ft) \<and> turn_key u \<noteq> turn_key ?t}"
    using rel put_turn_mem [of "ft_turns ?ft" _ ?t] by (auto simp: facts_rel_def)
  have turns1: "ft_turns ?ft1 = put_turn ?t (ft_turns ?ft)"
    using assms(3,4) by (simp add: settle_def record_settle_def Let_def)
  have "set (sf_turns f1) = set (sf_turns f @ [?t])"
    using f(5) f1(5) less put by (auto simp: turns1)
  then have last: "sf_turns f1 = sf_turns f @ [?t]"
    using strict_key_unique [OF f1(4) sorted_snoc [OF f(4), of ?t]] less by simp
  have below: "q < ?q" if "entry_turns f k = Some q" for k q
  proof -
    from that have "map_of (db_entry_turns d) (s, k) = Some q"
      by (simp add: f(2) facts_of_def)
    with ok obtain u where u: "map_of (db_turns d) (s, q) = Some u"
      unfolding db_ok_def by (metis fst_conv not_Some_eq)
    then have "turn_key u = (s, q)" using db_ok_turn_key [OF ok u] by simp
    with u have "u \<in> set (sf_turns f) \<and> tf_turn_seq u = q"
      using rel f(5) by (simp add: facts_rel_def)
    with less show ?thesis by blast
  qed
  have entries: "entry_turns f1 k = (if k \<in> set keys then Some ?q else entry_turns f k)" for k
    using f(2) [rule_format, of k] f1(2) [rule_format, of k] assms(3,4)
    by (simp add: settle_def record_settle_def Let_def fold_entries)
  have calls: "map_of (rev (map (\<lambda>c. ((cf_session_id c, cf_call c), c))
        (map (\<lambda>r. \<lparr>cf_session_id = s, cf_call = ttr_call_id r, cf_turn_seq = ?q, cf_status = st r,
                   cf_settled_millis = now\<rparr>) rs))) (s, i)
      = map_option (\<lambda>x. \<lparr>cf_session_id = s, cf_call = i, cf_turn_seq = ?q, cf_status = x,
                   cf_settled_millis = now\<rparr>) (map_of (rev (map (\<lambda>r. (ttr_call_id r, st r)) rs)) i)"
    for rs st i
    by (induction rs rule: rev_induct) auto
  have calls1: "ft_calls ?ft1 = fold (\<lambda>c m. m((cf_session_id c, cf_call c) \<mapsto> c))
      (map (\<lambda>r. \<lparr>cf_session_id = s, cf_call = ttr_call_id r, cf_turn_seq = ?q,
                 cf_status = (case ttr_status r of None \<Rightarrow> StatusCancelled | Some x \<Rightarrow> x),
                 cf_settled_millis = now\<rparr>) (si_records input)) (ft_calls ?ft)"
    using assms(3,4) by (simp add: settle_def record_settle_def Let_def)
  have "status_map f1 i =
       (case map_of (rev (map (\<lambda>r. (ttr_call_id r, case ttr_status r of None \<Rightarrow> StatusCancelled | Some x \<Rightarrow> x))
                            (si_records input))) i of
          None \<Rightarrow> status_map f i | Some st \<Rightarrow> Some st)" for i
    unfolding f1(3) [rule_format] calls1 fold_call_rows calls
    by (simp add: f(3) split: option.split)
  with f(1) f1(1) last entries below show ?thesis
    by (intro exI [of _ f] exI [of _ f1] exI [of _ ?t] conjI allI impI) simp_all
qed

text \<open>
  C33. What a settle records is what a reload reads: the turn is the session's last, with the model, the agent
  and the instants given; exactly the keys given are attributed to it and every other entry keeps its turn;
  each of its calls reads the status it settled with, a call without one reads as cancelled, and every other
  call keeps its status.
\<close>

theorem settle_then_read:
  assumes "db_reach check empty_db d" and "\<not> flt 0"
    and "si_keys input = Some keys" and "s = si_session_id input"
    and "fact_settle read_flt write_flt now input d = (Inr (), d1)"
  shows "\<exists>f f1 t. fact_read flt flt flt s d = Inr f \<and> fact_read flt flt flt s d1 = Inr f1 \<and>
    sf_turns f1 = sf_turns f @ [t] \<and>
    tf_model t = si_model input \<and> tf_agent t = si_agent input \<and> tf_settled_millis t = now \<and>
    tf_submitted_millis t = si_submitted_millis input \<and>
    (\<forall>k. entry_turns f1 k = (if k \<in> set keys then Some (tf_turn_seq t) else entry_turns f k)) \<and>
    (\<forall>i. status_map f1 i =
       (case map_of (rev (map (\<lambda>r. (ttr_call_id r, case ttr_status r of None \<Rightarrow> StatusCancelled | Some x \<Rightarrow> x))
                            (si_records input))) i of
          None \<Rightarrow> status_map f i | Some st \<Rightarrow> Some st))"
  using settle_read_back [where flt = flt and d = d, OF assms] by force

definition seed_input :: settle_input where
  "seed_input = \<lparr>si_session_id = ''s'', si_model = ''v/m'', si_agent = ''coder'', si_submitted_millis = 8,
     si_keys = Some [(8, 3)],
     si_records = [\<lparr>ttr_call_id = ''d'', ttr_name = ''edit'', ttr_arguments = [], ttr_result = None,
       ttr_success = None, ttr_error_kind = None, ttr_status = None\<rparr>]\<rparr>"

lemma seed_db_ok: "db_ok seed_db"
proof -
  have "db_ok empty_db" by (simp add: db_ok_def empty_db_def keyed_def covered_def)
  with db_ok_reach [OF seed_db_reached] show ?thesis .
qed

lemma settle_refines_witness:
  "(case fact_settle (\<lambda>i. False) (\<lambda>i. False) 9 seed_input seed_db of
      (Inr u, d1) \<Rightarrow> facts_rel d1 (settle 9 seed_input (facts_of seed_db))
    | (Inl e, d1) \<Rightarrow> d1 = seed_db)"
  by (rule settle_refines [OF seed_db_ok facts_rel_facts_of [OF seed_db_ok]])

lemma settle_then_read_witness:
  "\<exists>f1. fact_read (\<lambda>i. False) (\<lambda>i. False) (\<lambda>i. False) ''s''
      (snd (fact_settle (\<lambda>i. False) (\<lambda>i. False) 9 seed_input seed_db)) = Inr f1 \<and>
    status_map f1 ''d'' = Some StatusCancelled"
proof -
  let ?r = "fact_settle (\<lambda>i. False) (\<lambda>i. False) 9 seed_input seed_db"
  have "fst ?r = Inr ()" by code_simp
  then have r: "?r = (Inr (), snd ?r)" by (metis prod.collapse)
  have k: "si_keys seed_input = Some [(8, 3)]" "''s'' = si_session_id seed_input"
    by (simp_all add: seed_input_def)
  have "\<not> (\<lambda>i. False) (0 :: nat)" by simp
  from settle_then_read [OF seed_db_reached this k r]
  obtain f f1 where f1: "fact_read (\<lambda>i. False) (\<lambda>i. False) (\<lambda>i. False) ''s'' (snd ?r) = Inr f1"
    and st: "\<forall>i. status_map f1 i =
       (case map_of (rev (map (\<lambda>r. (ttr_call_id r, case ttr_status r of None \<Rightarrow> StatusCancelled | Some x \<Rightarrow> x))
                            (si_records seed_input))) i of
          None \<Rightarrow> status_map f i | Some st \<Rightarrow> Some st)"
    by blast
  from st [rule_format, of "''d''"] have "status_map f1 ''d'' = Some StatusCancelled"
    by (simp add: seed_input_def)
  with f1 show ?thesis by blast
qed

section \<open>What the fact tables do not guarantee\<close>

text \<open>
  Two settles of one session that both read the turns before either writes take the same ordinal.  The second
  replaces the row of the first, whose entries then read as the second's.
\<close>

lemma racing_settles_share_a_turn:
  "(let r1 = settled_record 9 seed_input [(8, 3)] [];
        r2 = settled_record 9 (seed_input\<lparr>si_agent := ''other''\<rparr>) [(8, 4)] [];
        d1 = snd (settle_unit (\<lambda>i. False) r1 empty_db);
        d2 = snd (settle_unit (\<lambda>i. False) r2 d1)
    in map (\<lambda>(k, t). tf_agent t) (db_turns d2) = [''other''] \<and>
       map_of (db_entry_turns d2) (''s'', (8, 3)) = Some 1)"
  by code_simp

text \<open>A destroyed session keeps its facts: a session made again under its name takes them over.\<close>

lemma destroyed_session_keeps_facts:
  "last_turn_agent (\<lambda>i. False) ''s''
     (snd (destroy calm_env ''s'' (snd (fact_settle (\<lambda>i. False) (\<lambda>i. False) 9 seed_input empty_db))))
   = Inr (Some ''coder'')"
  by code_simp

end
