(* ===== verification/Hydration.thy ===== *)
theory Hydration
  imports Session_Facts
begin

text \<open>
  The transcript of a stored session (\<open>agnt-core/src/session/resolver.rs\<close>): which session a start names, and
  the rows a reload shows of its entries, its calls' statuses and its turns.  A call id is its text.  The
  display of a tool's result or arguments, serde's parser and printer, and the author rig gives its
  summaries are parameters.
\<close>

section \<open>The argument summary of a call line\<close>

function replace_str :: "str \<Rightarrow> str \<Rightarrow> str \<Rightarrow> str" where
  "replace_str pat rep s =
     (if pat = [] then s
      else case str_find pat s of
        None \<Rightarrow> s
      | Some i \<Rightarrow> take i s @ rep @ replace_str pat rep (drop (i + length pat) s))"
  by pat_completeness auto
termination
proof (relation "measure (\<lambda>(p, r, s). length s)")
  fix pat rep s :: str and i
  assume "pat \<noteq> []" "str_find pat s = Some i"
  then show "((pat, rep, drop (i + length pat) s), (pat, rep, s)) \<in> measure (\<lambda>(p, r, s). length s)"
    using str_find_bound [of pat s i] by (cases pat) auto
qed simp

declare replace_str.simps [simp del]

definition summarize_tool_arguments :: "str \<Rightarrow> str" where
  "summarize_tool_arguments arguments =
     (let spaced = replace_str '','' '', '' (replace_str '', '' '','' (squeeze arguments)) in
      if length (chars spaced) \<le> 120 then spaced
      else concat (take 120 (chars spaced)) @ ellipsis)"

section \<open>Rows\<close>

record stored_entry =
  se_message :: rig_message
  se_author :: "str option"
  se_turn_seq :: "int option"

record usage_snapshot =
  us_input_tokens :: "nat option"
  us_output_tokens :: "nat option"
  us_total_tokens :: "nat option"

record 'd snapshot =
  sn_role :: str
  sn_content :: str
  sn_tool_name :: "str option"
  sn_tool_arguments :: "str option"
  sn_tool_result :: "str option"
  sn_tool_success :: "bool option"
  sn_tool_status :: "tool_status option"
  sn_tool_display :: "'d option"
  sn_stamp_millis :: "int option"
  sn_stamp_model :: "str option"
  sn_stamp_agent :: "str option"
  sn_usage :: "usage_snapshot option"

definition snapshot_new :: "str \<Rightarrow> str \<Rightarrow> 'd snapshot" where
  "snapshot_new role content =
     \<lparr>sn_role = role, sn_content = content, sn_tool_name = None, sn_tool_arguments = None,
      sn_tool_result = None, sn_tool_success = None, sn_tool_status = None, sn_tool_display = None,
      sn_stamp_millis = None, sn_stamp_model = None, sn_stamp_agent = None,
      sn_usage = None\<rparr>"

definition with_stamp :: "int option \<times> str option \<times> str option \<Rightarrow> 'd snapshot \<Rightarrow> 'd snapshot" where
  "with_stamp stamp r =
     (case stamp of (millis, model, agent) \<Rightarrow>
        r\<lparr>sn_stamp_millis := millis, sn_stamp_model := model, sn_stamp_agent := agent\<rparr>)"

definition with_tool_details :: "str option \<Rightarrow> str option \<Rightarrow> bool option \<Rightarrow> 'd snapshot \<Rightarrow> 'd snapshot" where
  "with_tool_details arguments result success r =
     r\<lparr>sn_tool_arguments := arguments, sn_tool_result := result, sn_tool_success := success,
       sn_tool_status := map_option (\<lambda>b. if b then StatusSuccess else StatusFailed) success\<rparr>"

text \<open>What the rows depend on beyond the stored entries.\<close>

record 'd hydration_env =
  he_summary_author :: str
  he_print :: "json \<Rightarrow> str option"
  he_parse :: "str \<Rightarrow> json option"
  he_result_display :: "str \<Rightarrow> json \<Rightarrow> 'd option"
  he_argument_display :: "str \<Rightarrow> str \<Rightarrow> 'd option"

definition print_arguments :: "'d hydration_env \<Rightarrow> json \<Rightarrow> str" where
  "print_arguments env args = (case he_print env args of None \<Rightarrow> ''{}'' | Some s \<Rightarrow> s)"

section \<open>The summary a compaction left\<close>

definition summary_headline :: str where
  "summary_headline = ''The conversation before this point was compacted into this summary:''"

fun split_char :: "char \<Rightarrow> str \<Rightarrow> str list" where
  "split_char c [] = [[]]"
| "split_char c (x # s) =
     (if x = c then [] # split_char c s
      else (case split_char c s of [] \<Rightarrow> [[x]] | l # ls \<Rightarrow> (x # l) # ls))"

fun position :: "('a \<Rightarrow> bool) \<Rightarrow> 'a list \<Rightarrow> nat option" where
  "position p [] = None"
| "position p (x # xs) = (if p x then Some 0 else map_option Suc (position p xs))"

definition line_feed :: char where
  "line_feed = CHR 0x0A"

definition summary_body :: "str \<Rightarrow> str option" where
  "summary_body txt =
     (case split_char line_feed txt of
        [] \<Rightarrow> None
      | first # rest \<Rightarrow>
          (if first \<noteq> summary_headline then None
           else
             (case (position (\<lambda>l. l = ''<summary>'') rest, position (\<lambda>l. l = ''</summary>'') rest) of
                (Some open_at, Some close_at) \<Rightarrow>
                  (if close_at \<le> open_at then None
                   else Some (join newline (take (close_at - (open_at + 1)) (drop (open_at + 1) rest))))
              | _ \<Rightarrow> None)))"

definition compaction_summary :: "str \<Rightarrow> str \<Rightarrow> str option \<Rightarrow> str option" where
  "compaction_summary summary_author txt author =
     (if author = Some summary_author
      then Some (case summary_body txt of None \<Rightarrow> txt | Some b \<Rightarrow> b)
      else summary_body txt)"

section \<open>The footer of a user row\<close>

definition identity_of :: "str \<Rightarrow> str option" where
  "identity_of v = (if trim v = [] then None else Some v)"

definition entry_stamp :: "stored_entry \<Rightarrow> (int \<rightharpoonup> turn_facts) \<Rightarrow> int option \<times> str option \<times> str option" where
  "entry_stamp entry turns =
     (case Option.bind (se_turn_seq entry) turns of
        None \<Rightarrow> (None, None, None)
      | Some t \<Rightarrow>
          (if tf_submitted_millis t \<le> 0 then (None, None, None)
           else (Some (tf_submitted_millis t), identity_of (tf_model t), identity_of (tf_agent t))))"

section \<open>Hydration\<close>

text \<open>The maps of the first passes; a later insertion of a call replaces an earlier one.\<close>

definition all_calls :: "stored_entry list \<Rightarrow> tool_call list" where
  "all_calls es = concat (map (\<lambda>e. message_calls (se_message e)) es)"

definition all_results :: "stored_entry list \<Rightarrow> tool_result list" where
  "all_results es = concat (map (\<lambda>e. message_results (se_message e)) es)"

definition tool_names :: "stored_entry list \<Rightarrow> str \<rightharpoonup> str" where
  "tool_names es = map_of (rev (map (\<lambda>c. (tca_id c, tca_name c)) (all_calls es)))"

definition tool_arguments :: "'d hydration_env \<Rightarrow> stored_entry list \<Rightarrow> str \<rightharpoonup> str" where
  "tool_arguments env es = map_of (rev (map (\<lambda>c. (tca_id c, print_arguments env (tca_arguments c))) (all_calls es)))"

definition tool_success_map :: "stored_entry list \<Rightarrow> str \<rightharpoonup> bool" where
  "tool_success_map es = map_of (rev (map (\<lambda>r. (tre_call r, \<not> tre_is_error r)) (all_results es)))"

definition status_of_stored :: "(str \<rightharpoonup> tool_status) \<Rightarrow> tool_result \<Rightarrow> tool_status" where
  "status_of_stored statuses r =
     (case statuses (tre_call r) of
        Some st \<Rightarrow> st
      | None \<Rightarrow> if tre_is_error r then StatusFailed else StatusSuccess)"

definition result_text :: "tool_result \<Rightarrow> str" where
  "result_text r =
     join newline (List.map_filter (\<lambda>c. case c of RText t \<Rightarrow> Some t | ROther \<Rightarrow> None) (tre_content r))"

definition display_of_result ::
  "'d hydration_env \<Rightarrow> stored_entry list \<Rightarrow> (str \<rightharpoonup> tool_status) \<Rightarrow> str \<Rightarrow> tool_result \<Rightarrow> 'd option" where
  "display_of_result env es statuses tool_name r =
     (let from_arguments = Option.bind (tool_arguments env es (tre_call r)) (he_argument_display env tool_name) in
      case status_of_stored statuses r of
        StatusCancelled \<Rightarrow> from_arguments
      | _ \<Rightarrow>
          (case he_parse env (result_text r) of
             None \<Rightarrow> None
           | Some j \<Rightarrow> (case he_result_display env tool_name j of None \<Rightarrow> from_arguments | Some d \<Rightarrow> Some d)))"

definition known_results :: "stored_entry list \<Rightarrow> tool_result list" where
  "known_results es = filter (\<lambda>r. tool_names es (tre_call r) \<noteq> None) (all_results es)"

definition call_statuses :: "stored_entry list \<Rightarrow> (str \<rightharpoonup> tool_status) \<Rightarrow> str \<rightharpoonup> tool_status" where
  "call_statuses es statuses =
     map_of (rev (map (\<lambda>r. (tre_call r, status_of_stored statuses r)) (known_results es)))"

definition tool_displays ::
  "'d hydration_env \<Rightarrow> stored_entry list \<Rightarrow> (str \<rightharpoonup> tool_status) \<Rightarrow> str \<rightharpoonup> 'd" where
  "tool_displays env es statuses =
     map_of (rev (List.map_filter
       (\<lambda>r. map_option (Pair (tre_call r))
              (display_of_result env es statuses (the (tool_names es (tre_call r))) r))
       (known_results es)))"

definition hydrate_user_item :: "'d hydration_env \<Rightarrow> stored_entry \<Rightarrow> (int \<rightharpoonup> turn_facts) \<Rightarrow> user_content \<Rightarrow> 'd snapshot list" where
  "hydrate_user_item env entry turns item =
     (case item of
        UText txt \<Rightarrow>
          (case compaction_summary (he_summary_author env) txt (se_author entry) of
             Some summary \<Rightarrow> [snapshot_new ''compaction'' summary]
           | None \<Rightarrow> [with_stamp (entry_stamp entry turns) (snapshot_new ''user'' txt)])
      | _ \<Rightarrow> [])"

definition hydrate_call ::
  "'d hydration_env \<Rightarrow> (str \<rightharpoonup> bool) \<Rightarrow> (str \<rightharpoonup> 'd) \<Rightarrow> (str \<rightharpoonup> tool_status) \<Rightarrow> tool_call \<Rightarrow> 'd snapshot list" where
  "hydrate_call env success displays statuses c =
     (let args_json = print_arguments env (tca_arguments c);
          row = (with_tool_details (Some args_json) None (success (tca_id c))
                   ((snapshot_new ''tool'' ([CHR 0xE2, CHR 0x86, CHR 0x92, CHR 0x20] @ summarize_tool_arguments args_json))
                      \<lparr>sn_tool_name := Some (tca_name c)\<rparr>))
                \<lparr>sn_tool_status := Some (case statuses (tca_id c) of None \<Rightarrow> StatusFailed | Some st \<Rightarrow> st)\<rparr>
      in row # (case displays (tca_id c) of
                  None \<Rightarrow> []
                | Some d \<Rightarrow> [(snapshot_new ''tool_display'' [])\<lparr>sn_tool_display := Some d\<rparr>]))"

definition hydrate_assistant_item ::
  "'d hydration_env \<Rightarrow> (str \<rightharpoonup> bool) \<Rightarrow> (str \<rightharpoonup> 'd) \<Rightarrow> (str \<rightharpoonup> tool_status) \<Rightarrow> assistant_content \<Rightarrow> 'd snapshot list" where
  "hydrate_assistant_item env success displays statuses item =
     (case item of
        AText txt \<Rightarrow> if txt = [] then [] else [snapshot_new ''assistant'' txt]
      | AToolCall c \<Rightarrow> hydrate_call env success displays statuses c
      | AOther \<Rightarrow> [])"

definition hydrate_single_message ::
  "'d hydration_env \<Rightarrow> (str \<rightharpoonup> bool) \<Rightarrow> (str \<rightharpoonup> 'd) \<Rightarrow> (str \<rightharpoonup> tool_status) \<Rightarrow> (int \<rightharpoonup> turn_facts) \<Rightarrow>
   stored_entry \<Rightarrow> 'd snapshot list" where
  "hydrate_single_message env success displays statuses turns entry =
     (case se_message entry of
        User content \<Rightarrow> concat (map (hydrate_user_item env entry turns) content)
      | Assistant content \<Rightarrow> concat (map (hydrate_assistant_item env success displays statuses) content)
      | System content \<Rightarrow> [snapshot_new ''system'' content])"

definition turns_by_seq :: "turn_facts list \<Rightarrow> int \<rightharpoonup> turn_facts" where
  "turns_by_seq turns = map_of (rev (map (\<lambda>t. (tf_turn_seq t, t)) turns))"

definition hydrate_transcript_messages ::
  "'d hydration_env \<Rightarrow> stored_entry list \<Rightarrow> (str \<rightharpoonup> tool_status) \<Rightarrow> turn_facts list \<Rightarrow> 'd snapshot list" where
  "hydrate_transcript_messages env es statuses turns =
     concat (map (hydrate_single_message env (tool_success_map es) (tool_displays env es statuses)
       (call_statuses es statuses) (turns_by_seq turns)) es)"

section \<open>The session a start names\<close>

datatype session_request = RequestNone | RequestAttach str | RequestCreate str

definition resolve_session_request :: "bool \<Rightarrow> str option \<Rightarrow> str \<Rightarrow> session_request" where
  "resolve_session_request use_tui session_id fresh =
     (case (use_tui, session_id) of
        (True, Some i) \<Rightarrow> RequestAttach i
      | (False, Some i) \<Rightarrow> RequestCreate i
      | (True, None) \<Rightarrow> RequestCreate fresh
      | (False, None) \<Rightarrow> RequestNone)"

text \<open>The prefix of a directory: the first sixteen hexadecimal digits of the hash of its path.\<close>

definition hex_digit :: "nat \<Rightarrow> char" where
  "hex_digit n = (if n < 10 then char_of (48 + n) else char_of (87 + n))"

definition hash_hex :: "(str \<Rightarrow> nat list) \<Rightarrow> str \<Rightarrow> str" where
  "hash_hex sha path = concat (map (\<lambda>b. [hex_digit (b div 16), hex_digit (b mod 16)]) (sha path))"

definition dir_prefix :: "(str \<Rightarrow> nat list) \<Rightarrow> str \<Rightarrow> str" where
  "dir_prefix sha path = take 16 (hash_hex sha path)"

text \<open>The sessions of a directory, as the command line and the picker list them.\<close>

definition filter_sessions_by_cwd :: "(str \<Rightarrow> nat list) \<Rightarrow> str \<Rightarrow> str list \<Rightarrow> str list" where
  "filter_sessions_by_cwd sha cwd ids = filter (\<lambda>i. take (length (dir_prefix sha cwd)) i = dir_prefix sha cwd) ids"

text \<open>
  What a resolution meets: whether the database of a session opens, the call's environment, rig's reading of
  a log, whether the fact tables open, and the refusals of the three fact reads.
\<close>

datatype resolution_error = OpenFailed str | ListFailed str | LoadFailed str

type_synonym loaded_entry = "message_key \<times> rig_message \<times> str option"

record resolve_env =
  rv_opens :: "str \<Rightarrow> bool"
  rv_call :: call_env
  rv_load :: "db \<Rightarrow> str \<Rightarrow> loaded_entry list option"
  rv_facts_open :: bool
  rv_facts_faults :: "faults \<times> faults \<times> faults"

definition no_facts :: session_facts where
  "no_facts = \<lparr>sf_entries = [], sf_calls = [], sf_turns = []\<rparr>"

text \<open>Facts that cannot be read hydrate as none.\<close>

definition read_facts :: "resolve_env \<Rightarrow> str \<Rightarrow> db \<Rightarrow> session_facts" where
  "read_facts env session_id d =
     (if \<not> rv_facts_open env then no_facts
      else case rv_facts_faults env of (flt_e, flt_c, flt_t) \<Rightarrow>
        (case fact_read flt_e flt_c flt_t session_id d of Inl e \<Rightarrow> no_facts | Inr f \<Rightarrow> f))"

definition joined_entry :: "session_facts \<Rightarrow> loaded_entry \<Rightarrow> stored_entry" where
  "joined_entry f e =
     (case e of (key, message, author) \<Rightarrow>
        \<lparr>se_message = message, se_author = author, se_turn_seq = entry_turns f key\<rparr>)"

definition holds_log :: "resolve_env \<Rightarrow> str \<Rightarrow> db \<Rightarrow> resolution_error + bool" where
  "holds_log env session_id d =
     (case adapter_logs (rv_call env) session_id d of
        Inl e \<Rightarrow> Inl (ListFailed session_id)
      | Inr names \<Rightarrow> Inr (session_id \<in> set names))"

definition hydrate_transcript ::
  "'d hydration_env \<Rightarrow> resolve_env \<Rightarrow> str \<Rightarrow> db \<Rightarrow> resolution_error + 'd snapshot list" where
  "hydrate_transcript henv env session_id d =
     (case rv_load env d session_id of
        None \<Rightarrow> Inl (LoadFailed session_id)
      | Some loaded \<Rightarrow>
          (let f = read_facts env session_id d in
           Inr (hydrate_transcript_messages henv (map (joined_entry f) loaded) (status_map f) (sf_turns f))))"

record 'd session_resolution =
  rs_final_session_id :: "str option"
  rs_session :: "str option"
  rs_should_hydrate_transcript :: bool
  rs_initial_messages :: "'d snapshot list"
  rs_last_total_tokens :: "nat option"

definition resolve_session ::
  "'d hydration_env \<Rightarrow> resolve_env \<Rightarrow> str \<Rightarrow> bool \<Rightarrow> str option \<Rightarrow> str \<Rightarrow> db \<Rightarrow>
   resolution_error + 'd session_resolution" where
  "resolve_session henv env pre use_tui session_id fresh d =
     (let fresh_for = (\<lambda>i. \<lparr>rs_final_session_id = Some i, rs_session = Some i,
            rs_should_hydrate_transcript = False, rs_initial_messages = [], rs_last_total_tokens = None\<rparr>)
      in case resolve_session_request use_tui session_id fresh of
        RequestNone \<Rightarrow>
          Inr \<lparr>rs_final_session_id = None, rs_session = None, rs_should_hydrate_transcript = False,
            rs_initial_messages = [], rs_last_total_tokens = None\<rparr>
      | RequestCreate i \<Rightarrow> Inr (fresh_for (pre @ ''-'' @ i))
      | RequestAttach i \<Rightarrow>
          (let key = pre @ ''-'' @ i in
           if \<not> rv_opens env key then Inl (OpenFailed key)
           else case holds_log env key d of
             Inl e \<Rightarrow> Inl e
           | Inr False \<Rightarrow> Inr (fresh_for key)
           | Inr True \<Rightarrow>
               (case hydrate_transcript henv env key d of
                  Inl e \<Rightarrow> Inl e
                | Inr rows \<Rightarrow>
                    Inr \<lparr>rs_final_session_id = Some key, rs_session = Some key,
                      rs_should_hydrate_transcript = (rows \<noteq> []), rs_initial_messages = rows,
                      rs_last_total_tokens = None\<rparr>)))"

end
