(* ===== verification/Hydration_Facts.thy ===== *)
theory Hydration_Facts
  imports Hydration
begin

text \<open>
  What a reload shows: a row for every call with the status recorded for it, the texts of the entries in
  their order, the summary a compaction wrote, and, put together with \<open>Session_Facts\<close>, the status a turn
  settled for a call as the status its row carries.
\<close>

section \<open>The rows of the calls\<close>

lemma snapshot_role [simp]:
  "sn_role (snapshot_new r c) = r" "sn_content (snapshot_new r c) = c"
  "sn_role (with_stamp st x) = sn_role x" "sn_content (with_stamp st x) = sn_content x"
  "sn_role (with_tool_details a b s x) = sn_role x" "sn_content (with_tool_details a b s x) = sn_content x"
  "sn_tool_name (with_tool_details a b s x) = sn_tool_name x"
  by (simp_all add: snapshot_new_def with_stamp_def with_tool_details_def split: prod.split)

text \<open>The rows a user sees of an entry are told apart by their roles.\<close>

abbreviation rows_of :: "str \<Rightarrow> 'd snapshot list \<Rightarrow> 'd snapshot list" where
  "rows_of role rows \<equiv> filter (\<lambda>r. sn_role r = role) rows"

definition row_of_call :: "(str \<rightharpoonup> tool_status) \<Rightarrow> tool_call \<Rightarrow> str option \<times> tool_status option" where
  "row_of_call statuses c =
     (Some (tca_name c), Some (case statuses (tca_id c) of None \<Rightarrow> StatusFailed | Some st \<Rightarrow> st))"

lemma hydrate_call_rows:
  "map (\<lambda>r. (sn_tool_name r, sn_tool_status r)) (rows_of ''tool'' (hydrate_call env s ds st c)) = [row_of_call st c]"
  "rows_of ''assistant'' (hydrate_call env s ds st c) = []" "rows_of ''user'' (hydrate_call env s ds st c) = []"
  by (simp_all add: hydrate_call_def row_of_call_def Let_def split: option.split)

lemma rows_concat: "rows_of r (concat xss) = concat (map (rows_of r) xss)"
  by (induction xss) auto

lemma assistant_tool_rows:
  "map (\<lambda>r. (sn_tool_name r, sn_tool_status r))
     (rows_of ''tool'' (concat (map (hydrate_assistant_item env s ds st) content)))
   = map (row_of_call st) (calls_in content)"
  by (induction content rule: calls_in.induct)
    (auto simp: hydrate_assistant_item_def hydrate_call_rows)

lemma user_tool_rows: "rows_of ''tool'' (concat (map (hydrate_user_item env e turns) content)) = []"
proof (induction content)
  case (Cons x xs)
  then show ?case by (cases x) (auto simp: hydrate_user_item_def split: option.split)
qed simp

lemma message_tool_rows:
  "map (\<lambda>r. (sn_tool_name r, sn_tool_status r)) (rows_of ''tool'' (hydrate_single_message env s ds st turns e))
   = map (row_of_call st) (message_calls (se_message e))"
  by (cases "se_message e")
    (simp_all add: hydrate_single_message_def message_calls_def assistant_tool_rows user_tool_rows)

lemma tool_rows:
  "map (\<lambda>r. (sn_tool_name r, sn_tool_status r))
     (rows_of ''tool'' (concat (map (hydrate_single_message env s ds st turns) es)))
   = map (row_of_call st) (all_calls es)"
  by (induction es) (simp_all add: message_tool_rows all_calls_def)

text \<open>
  The status a call's row carries: the one of the last result the log holds for the call, a failure when it
  holds none.
\<close>

definition shown_status :: "(str \<rightharpoonup> tool_status) \<Rightarrow> stored_entry list \<Rightarrow> str \<Rightarrow> tool_status" where
  "shown_status statuses es i =
     (case find (\<lambda>r. tre_call r = i) (rev (all_results es)) of
        None \<Rightarrow> StatusFailed
      | Some r \<Rightarrow> status_of_stored statuses r)"

lemma map_of_keyed_find: "map_of (map (\<lambda>x. (k x, f x)) xs) i = map_option f (find (\<lambda>x. k x = i) xs)"
  by (induction xs) auto

lemma find_holds: "find P xs = Some x \<Longrightarrow> P x"
  by (induction xs) (auto split: if_splits)

lemma find_filter: "(\<forall>x. P x \<longrightarrow> Q x) \<Longrightarrow> find P (filter Q xs) = find P xs"
  by (induction xs) auto

lemma call_known: "c \<in> set (all_calls es) \<Longrightarrow> tool_names es (tca_id c) \<noteq> None"
  by (auto simp: tool_names_def rev_map map_of_keyed_find find_None_iff simp del: not_None_eq)

lemma call_statuses_shown:
  assumes "c \<in> set (all_calls es)"
  shows "(case call_statuses es statuses (tca_id c) of None \<Rightarrow> StatusFailed | Some st \<Rightarrow> st)
     = shown_status statuses es (tca_id c)"
proof -
  have "find (\<lambda>r. tre_call r = tca_id c) (rev (known_results es)) = find (\<lambda>r. tre_call r = tca_id c) (rev (all_results es))"
    unfolding known_results_def rev_filter
    by (rule find_filter) (use call_known [OF assms] in auto)
  then show ?thesis
    by (simp add: call_statuses_def rev_map map_of_keyed_find shown_status_def split: option.split)
qed

lemma hydrated_tool_rows:
  "map (\<lambda>r. (sn_tool_name r, sn_tool_status r)) (rows_of ''tool'' (hydrate_transcript_messages env es statuses turns))
   = map (\<lambda>c. (Some (tca_name c), Some (shown_status statuses es (tca_id c)))) (all_calls es)"
  by (auto simp: hydrate_transcript_messages_def tool_rows row_of_call_def call_statuses_shown cong: map_cong)

section \<open>The rows of the user\<close>

text \<open>The texts of an entry that are the user's own, and the footer a settled turn gives them.\<close>

definition own_texts :: "'d hydration_env \<Rightarrow> rig_message \<Rightarrow> str option \<Rightarrow> str list" where
  "own_texts env m author =
     (case m of
        User content \<Rightarrow>
          concat (map (\<lambda>i. case i of
            UText t \<Rightarrow> if compaction_summary (he_summary_author env) t author = None then [t] else []
          | _ \<Rightarrow> []) content)
      | _ \<Rightarrow> [])"

definition row_stamp :: "'d snapshot \<Rightarrow> int option \<times> str option \<times> str option" where
  "row_stamp r = (sn_stamp_millis r, sn_stamp_model r, sn_stamp_agent r)"

definition turn_stamp :: "int \<Rightarrow> str \<Rightarrow> str \<Rightarrow> int option \<times> str option \<times> str option" where
  "turn_stamp millis model agent =
     (if millis \<le> 0 then (None, None, None) else (Some millis, identity_of model, identity_of agent))"

lemma stamped [simp]: "row_stamp (with_stamp st x) = st"
  by (simp add: row_stamp_def with_stamp_def split: prod.split)

lemma user_item_rows:
  "map (\<lambda>r. (sn_content r, row_stamp r)) (rows_of ''user'' (concat (map (hydrate_user_item env e turns) content)))
   = map (\<lambda>t. (t, entry_stamp e turns)) (own_texts env (User content) (se_author e))"
proof (induction content)
  case (Cons x xs)
  then show ?case
    by (cases x) (simp_all add: own_texts_def hydrate_user_item_def rows_concat split: option.split)
qed (simp add: own_texts_def)

lemma assistant_user_rows: "rows_of ''user'' (concat (map (hydrate_assistant_item env s ds st) content)) = []"
proof (induction content)
  case (Cons x xs)
  then show ?case by (cases x) (simp_all add: hydrate_assistant_item_def hydrate_call_rows)
qed simp

lemma user_rows:
  "map (\<lambda>r. (sn_content r, row_stamp r))
     (rows_of ''user'' (concat (map (hydrate_single_message env s ds st turns) es)))
   = concat (map (\<lambda>e. map (\<lambda>t. (t, entry_stamp e turns)) (own_texts env (se_message e) (se_author e))) es)"
proof (induction es)
  case (Cons e es)
  then show ?case
    by (cases "se_message e")
      (simp_all add: hydrate_single_message_def user_item_rows assistant_user_rows, simp_all add: own_texts_def)
qed simp

section \<open>What no fact changes\<close>

text \<open>A row without the status of its call and without its footer; the rows but the displays of the calls.\<close>

definition bare :: "'d snapshot \<Rightarrow> 'd snapshot" where
  "bare r = with_stamp (None, None, None) (r\<lparr>sn_tool_status := None\<rparr>)"

definition bare_rows :: "'d snapshot list \<Rightarrow> 'd snapshot list" where
  "bare_rows rows = map bare (filter (\<lambda>r. sn_role r \<noteq> ''tool_display'') rows)"

lemma bare_rows_simps [simp]:
  "bare_rows [] = []" "bare_rows (xs @ ys) = bare_rows xs @ bare_rows ys"
  by (simp_all add: bare_rows_def)

lemma bare_rows_concat: "bare_rows (concat xss) = concat (map bare_rows xss)"
  by (induction xss) simp_all

lemma bare_stamped [simp]: "bare (with_stamp st r) = bare r"
  by (simp add: bare_def with_stamp_def split: prod.split)

lemma bare_call: "bare_rows (hydrate_call env s ds st c) = bare_rows (hydrate_call env s ds' st' c)"
  by (simp add: bare_rows_def hydrate_call_def Let_def bare_def split: option.split)

lemma bare_item: "bare_rows (hydrate_assistant_item env s ds st x) = bare_rows (hydrate_assistant_item env s ds' st' x)"
  using bare_call by (cases x) (simp_all add: hydrate_assistant_item_def)

lemma bare_user_item:
  "se_author e = se_author e' \<Longrightarrow>
   bare_rows (hydrate_user_item env e turns x) = bare_rows (hydrate_user_item env e' turns' x)"
  by (cases x) (simp_all add: hydrate_user_item_def bare_rows_def split: option.split)

lemma bare_message:
  assumes "se_message e = se_message e'" and "se_author e = se_author e'"
  shows "bare_rows (hydrate_single_message env s ds st turns e) =
     bare_rows (hydrate_single_message env s ds' st' turns' e')"
  using assms(1) bare_user_item [OF assms(2)] bare_item [of env s ds st _ ds' st']
  by (cases "se_message e'")
    (auto simp: hydrate_single_message_def bare_rows_concat comp_def intro!: arg_cong [of _ _ concat] map_cong)

lemma bare_hydration:
  "bare_rows (hydrate_transcript_messages env (map (joined_entry f) loaded) st turns) =
   bare_rows (hydrate_transcript_messages env (map (joined_entry f') loaded) st' turns')"
proof -
  have s: "tool_success_map (map (joined_entry g) loaded) =
      map_of (rev (map (\<lambda>r. (tre_call r, \<not> tre_is_error r)) (concat (map (\<lambda>(k, m, a). message_results m) loaded))))" for g
  proof -
    have "all_results (map (joined_entry g) loaded) = concat (map (\<lambda>(k, m, a). message_results m) loaded)"
      by (induction loaded) (auto simp: all_results_def joined_entry_def)
    then show ?thesis by (simp add: tool_success_map_def)
  qed
  show ?thesis
    unfolding hydrate_transcript_messages_def s bare_rows_concat
    by (auto simp: joined_entry_def intro!: arg_cong [of _ _ concat] map_cong bare_message split: prod.split)
qed

section \<open>A settle, then a reload\<close>

definition settled_statuses :: "settle_input \<Rightarrow> str \<rightharpoonup> tool_status" where
  "settled_statuses input =
     map_of (rev (map (\<lambda>r. (ttr_call_id r, case ttr_status r of None \<Rightarrow> StatusCancelled | Some x \<Rightarrow> x))
                      (si_records input)))"

lemma turns_by_seq_snoc: "turns_by_seq (ts @ [t]) = (turns_by_seq ts)(tf_turn_seq t \<mapsto> t)"
  by (simp add: turns_by_seq_def fun_eq_iff)

lemma loaded_calls:
  "all_calls (map (joined_entry f) loaded) = concat (map (\<lambda>(k, m, a). message_calls m) loaded)"
  "all_results (map (joined_entry f) loaded) = concat (map (\<lambda>(k, m, a). message_results m) loaded)"
  by (induction loaded) (auto simp: all_calls_def all_results_def joined_entry_def)

text \<open>
  C35. A reload after a settle shows every call of the log once and in order.  A call the log has no result of
  is shown as failed, whatever the settle recorded; any other call with the status the settle recorded, and, if
  it recorded none, with the status the earlier facts and the result give.  The user's texts of the settled
  entries carry the instant and the identities of the settled turn; every other text of the user carries what
  it carried before.  Nothing else of a row changes: without the statuses and the footers, the rows other than
  the displays of the calls are those the same log gives with the facts from before the settle.
\<close>

theorem reload_shows_settled:
  assumes "db_reach check empty_db d" and "\<not> flt 0"
    and "si_keys input = Some keys" and "s = si_session_id input"
    and "fact_settle read_flt write_flt now input d = (Inr (), d1)"
    and "rv_facts_open env" and "rv_facts_faults env = (flt, flt, flt)" and "rv_load env d1 s = Some loaded"
  shows "\<exists>f rows. fact_read flt flt flt s d = Inr f \<and> hydrate_transcript henv env s d1 = Inr rows \<and>
    map (\<lambda>r. (sn_tool_name r, sn_tool_status r)) (rows_of ''tool'' rows) =
      map (\<lambda>c. (Some (tca_name c),
          Some (case find (\<lambda>r. tre_call r = tca_id c) (rev (concat (map (\<lambda>(k, m, a). message_results m) loaded))) of
                  None \<Rightarrow> StatusFailed
                | Some r \<Rightarrow>
                    (case settled_statuses input (tca_id c) of
                       Some st \<Rightarrow> st
                     | None \<Rightarrow> status_of_stored (status_map f) r))))
        (concat (map (\<lambda>(k, m, a). message_calls m) loaded)) \<and>
    map (\<lambda>r. (sn_content r, row_stamp r)) (rows_of ''user'' rows) =
      concat (map (\<lambda>(k, m, a). map (\<lambda>t. (t,
            if k \<in> set keys then turn_stamp (si_submitted_millis input) (si_model input) (si_agent input)
            else entry_stamp (joined_entry f (k, m, a)) (turns_by_seq (sf_turns f))))
          (own_texts henv m a)) loaded) \<and>
    bare_rows rows =
      bare_rows (hydrate_transcript_messages henv (map (joined_entry f) loaded) (status_map f) (sf_turns f))"
proof -
  obtain f f1 t where f: "fact_read flt flt flt s d = Inr f" and f1: "fact_read flt flt flt s d1 = Inr f1"
    and turns: "sf_turns f1 = sf_turns f @ [t]"
    and new: "\<forall>k q. entry_turns f k = Some q \<longrightarrow> q < tf_turn_seq t"
    and t: "tf_model t = si_model input" "tf_agent t = si_agent input"
      "tf_submitted_millis t = si_submitted_millis input"
    and entries: "\<forall>k. entry_turns f1 k = (if k \<in> set keys then Some (tf_turn_seq t) else entry_turns f k)"
    and calls: "\<forall>i. status_map f1 i = (case settled_statuses input i of None \<Rightarrow> status_map f i | Some st \<Rightarrow> Some st)"
    using settle_read_back [where flt = flt and d = d, OF assms(1-5), folded settled_statuses_def]
    by (elim exE conjE) (rule that; assumption)
  let ?es = "map (joined_entry f1) loaded"
  let ?rows = "hydrate_transcript_messages henv ?es (status_map f1) (sf_turns f1)"
  have "read_facts env s d1 = f1" using f1 assms(6,7) by (simp add: read_facts_def)
  then have rows: "hydrate_transcript henv env s d1 = Inr ?rows"
    using assms(8) by (simp add: hydrate_transcript_def Let_def)
  have status_read: "status_of_stored (status_map f1) r =
      (case settled_statuses input (tre_call r) of Some st \<Rightarrow> st | None \<Rightarrow> status_of_stored (status_map f) r)" for r
    by (simp add: status_of_stored_def calls split: option.split)
  have "shown_status (status_map f1) ?es i =
      (case find (\<lambda>r. tre_call r = i) (rev (concat (map (\<lambda>(k, m, a). message_results m) loaded))) of
         None \<Rightarrow> StatusFailed
       | Some r \<Rightarrow> (case settled_statuses input i of Some st \<Rightarrow> st
                   | None \<Rightarrow> status_of_stored (status_map f) r))" for i
    unfolding shown_status_def loaded_calls by (auto simp: status_read split: option.split dest!: find_holds)
  note tools = hydrated_tool_rows [of henv ?es "status_map f1" "sf_turns f1", unfolded this loaded_calls]
  have fresh: "entry_turns f k \<noteq> Some (tf_turn_seq t)" for k
    using new [rule_format, of k "tf_turn_seq t"] by auto
  have stamp: "entry_stamp (joined_entry f1 (k, m, a)) (turns_by_seq (sf_turns f1)) =
      (if k \<in> set keys then turn_stamp (si_submitted_millis input) (si_model input) (si_agent input)
       else entry_stamp (joined_entry f (k, m, a)) (turns_by_seq (sf_turns f)))" for k m a
    using fresh by (auto simp: entry_stamp_def joined_entry_def turns turns_by_seq_snoc entries t turn_stamp_def
        split: option.split bind_splits)
  have "map (\<lambda>r. (sn_content r, row_stamp r)) (rows_of ''user'' ?rows) =
      concat (map (\<lambda>e. map (\<lambda>t. (t, entry_stamp e (turns_by_seq (sf_turns f1)))) (own_texts henv (se_message e) (se_author e))) ?es)"
    unfolding hydrate_transcript_messages_def by (rule user_rows)
  also have "\<dots> = concat (map (\<lambda>(k, m, a). map (\<lambda>t. (t,
            if k \<in> set keys then turn_stamp (si_submitted_millis input) (si_model input) (si_agent input)
            else entry_stamp (joined_entry f (k, m, a)) (turns_by_seq (sf_turns f))))
          (own_texts henv m a)) loaded)"
    unfolding stamp [symmetric] by (simp add: joined_entry_def comp_def case_prod_unfold)
  finally show ?thesis using f rows tools bare_hydration by blast
qed

definition reload_env :: resolve_env where
  "reload_env =
     \<lparr>rv_opens = (\<lambda>k. True), rv_call = calm_env,
      rv_load = (\<lambda>d s. Some [((8, 3), User [UText ''hi''], None),
         ((8, 4), Assistant [AToolCall \<lparr>tca_id = ''d'', tca_name = ''edit'', tca_arguments = JObject []\<rparr>], None),
         ((8, 5), User [UToolResult \<lparr>tre_call = ''d'', tre_name = ''edit'', tre_content = [], tre_is_error = True\<rparr>], None)]),
      rv_facts_open = True, rv_facts_faults = (\<lambda>i. False, \<lambda>i. False, \<lambda>i. False)\<rparr>"

definition plain_rows :: "unit hydration_env" where
  "plain_rows =
     \<lparr>he_summary_author = ''rig'', he_print = (\<lambda>j. Some ''{}''), he_parse = (\<lambda>s. None),
      he_result_display = (\<lambda>n j. None), he_argument_display = (\<lambda>n a. None)\<rparr>"

lemma reload_shows_settled_witness:
  "\<exists>rows. hydrate_transcript plain_rows reload_env ''s''
      (snd (fact_settle (\<lambda>i. False) (\<lambda>i. False) 9 seed_input seed_db)) = Inr rows \<and>
    map (\<lambda>r. (sn_tool_name r, sn_tool_status r)) (rows_of ''tool'' rows) = [(Some ''edit'', Some StatusCancelled)] \<and>
    map (\<lambda>r. (sn_content r, row_stamp r)) (rows_of ''user'' rows) = [(''hi'', Some 8, Some ''v/m'', Some ''coder'')]"
proof -
  let ?r = "fact_settle (\<lambda>i. False) (\<lambda>i. False) 9 seed_input seed_db"
  let ?loaded = "the (rv_load reload_env (snd ?r) ''s'')"
  have "fst ?r = Inr ()" by code_simp
  then have r: "?r = (Inr (), snd ?r)" by (metis prod.collapse)
  have k: "si_keys seed_input = Some [(8, 3)]" "''s'' = si_session_id seed_input"
    by (simp_all add: seed_input_def)
  have e: "rv_facts_open reload_env" "rv_facts_faults reload_env = (\<lambda>i. False, \<lambda>i. False, \<lambda>i. False)"
    "rv_load reload_env (snd ?r) ''s'' = Some ?loaded"
    by (simp_all add: reload_env_def)
  have "\<not> (\<lambda>i. False) (0 :: nat)" by simp
  note reload = reload_shows_settled [OF seed_db_reached this k r e, of plain_rows]
  have "turn_stamp (si_submitted_millis seed_input) (si_model seed_input) (si_agent seed_input)
      = (Some 8, Some ''v/m'', Some ''coder'')"
    "own_texts plain_rows (User [UText ''hi'']) None = [''hi'']"
    "settled_statuses seed_input ''d'' = Some StatusCancelled"
    by code_simp+
  with reload show ?thesis
    by - ((erule exE)+, elim conjE, rule exI, intro conjI, assumption,
      simp_all add: reload_env_def message_results_def message_calls_def own_texts_def)
qed

section \<open>The summary of a compaction\<close>

lemma split_char_ne: "split_char c s \<noteq> []"
  by (cases s) (auto split: list.split)

lemma join_newline_Cons: "ls \<noteq> [] \<Longrightarrow> join newline (l # ls) = l @ line_feed # join newline ls"
  by (cases ls) (simp_all add: newline_def line_feed_def)

lemma join_split: "join newline (split_char line_feed s) = s"
proof (induction s)
  case (Cons x s)
  then show ?case
    using split_char_ne [of line_feed s]
    by (cases "split_char line_feed s"; cases "tl (split_char line_feed s)") (auto simp: newline_def line_feed_def)
qed simp

lemma split_append: "c \<notin> set l \<Longrightarrow> split_char c (l @ c # s) = l # split_char c s"
  by (induction l) auto

lemma split_line: "c \<notin> set l \<Longrightarrow> split_char c l = [l]"
  by (induction l) auto

lemma split_join: "\<forall>l \<in> set ls. line_feed \<notin> set l \<Longrightarrow> ls \<noteq> [] \<Longrightarrow> split_char line_feed (join newline ls) = ls"
proof (induction ls)
  case (Cons l ls)
  then show ?case by (cases "ls = []") (simp_all add: join_newline_Cons split_append split_line)
qed simp

lemma split_lines: "l \<in> set (split_char c s) \<Longrightarrow> c \<notin> set l"
  by (induction s arbitrary: l) (auto split: if_splits list.splits)

lemma position_append:
  assumes "\<forall>y \<in> set xs. \<not> p y" "p x"
  shows "position p (xs @ x # ys) = Some (length xs)"
  using assms by (induction xs) auto

lemma position_split: "position p xs = Some i \<Longrightarrow> \<exists>x. xs = take i xs @ x # drop (Suc i) xs \<and> p x \<and> (\<forall>y \<in> set (take i xs). \<not> p y)"
proof (induction xs arbitrary: i)
  case (Cons x xs)
  then show ?case by (cases i) (auto split: if_splits)
qed simp

lemma take_position:
  assumes "xs = take i xs @ x # drop (Suc i) xs" "i < j"
  shows "take j xs = take i xs @ x # take (j - (i + 1)) (drop (i + 1) xs)"
proof -
  have "take i xs @ drop i xs = take i xs @ x # drop (Suc i) xs" using assms(1) by simp
  then have "drop i xs = x # drop (Suc i) xs" by (rule same_append_eq [THEN iffD1])
  moreover obtain n where "j = i + Suc n" using assms(2) less_iff_Suc_add by auto
  ultimately show ?thesis by (simp only: take_add) simp
qed

text \<open>
  C36. The summary of a wrapper is the lines between its tags, and only a text of that shape has a summary: the
  headline first, then lines without a tag, the opening tag, the summary, and the first closing tag.
\<close>

theorem summary_body_exact:
  "summary_body s = Some b \<longleftrightarrow>
     (\<exists>pre_lines body post_lines.
        s = join newline (summary_headline # pre_lines @ ''<summary>'' # body @ ''</summary>'' # post_lines) \<and>
        b = join newline body \<and> ''<summary>'' \<notin> set pre_lines \<and> ''</summary>'' \<notin> set pre_lines \<union> set body \<and>
        line_feed \<notin> \<Union> (set ` set (pre_lines @ body @ post_lines)))"
  (is "?lhs \<longleftrightarrow> ?rhs")
proof
  assume ?rhs
  then obtain pre_lines body post_lines where
    shape: "s = join newline (summary_headline # pre_lines @ ''<summary>'' # body @ ''</summary>'' # post_lines)"
    and b: "b = join newline body" and tags: "''<summary>'' \<notin> set pre_lines" "''</summary>'' \<notin> set pre_lines \<union> set body"
    and lf: "line_feed \<notin> \<Union> (set ` set (pre_lines @ body @ post_lines))" by blast
  have "split_char line_feed s = summary_headline # pre_lines @ ''<summary>'' # body @ ''</summary>'' # post_lines"
    unfolding shape by (rule split_join) (use lf in \<open>auto simp: line_feed_def summary_headline_def\<close>)
  moreover have "position (\<lambda>l. l = ''<summary>'') (pre_lines @ ''<summary>'' # body @ ''</summary>'' # post_lines) = Some (length pre_lines)"
    by (rule position_append) (use tags in auto)
  moreover have "position (\<lambda>l. l = ''</summary>'') ((pre_lines @ ''<summary>'' # body) @ ''</summary>'' # post_lines)
      = Some (length (pre_lines @ ''<summary>'' # body))"
    by (rule position_append) (use tags in auto)
  ultimately show ?lhs by (simp add: summary_body_def b)
next
  assume lhs: ?lhs
  obtain rest i j where first: "split_char line_feed s = summary_headline # rest"
    and i: "position (\<lambda>l. l = ''<summary>'') rest = Some i" and j: "position (\<lambda>l. l = ''</summary>'') rest = Some j"
    and ij: "i < j" and b: "b = join newline (take (j - (i + 1)) (drop (i + 1) rest))"
    using lhs by (auto simp: summary_body_def split: list.splits if_splits option.splits)
  obtain body where pre: "take j rest = take i rest @ ''<summary>'' # body"
    and body: "body = take (j - (i + 1)) (drop (i + 1) rest)"
    using position_split [OF i] ij by (metis take_position)
  have rest: "rest = take j rest @ ''</summary>'' # drop (Suc j) rest" and clean: "''</summary>'' \<notin> set (take j rest)"
    and clean_i: "''<summary>'' \<notin> set (take i rest)"
    using position_split [OF i] position_split [OF j] by auto
  then have lines: "split_char line_feed s
      = summary_headline # take i rest @ ''<summary>'' # body @ ''</summary>'' # drop (Suc j) rest"
    using first pre by simp
  have "line_feed \<notin> set l" if "l \<in> set (split_char line_feed s)" for l
    using split_lines [OF that] .
  then have "line_feed \<notin> \<Union> (set ` set (take i rest @ body @ drop (Suc j) rest))"
    unfolding lines by auto
  then show ?rhs
    using join_split [of s, unfolded lines] b body clean clean_i pre
    by (intro exI [of _ "take i rest"] exI [of _ body] exI [of _ "drop (Suc j) rest"]) auto
qed

end
