(* ===== verification/Tui_Store.thy ===== *)
theory Tui_Store
  imports Resolver Recovery Orchestrator
begin

text \<open>
  The transcript of the terminal interface (\<open>crates/agnt-tui/src/state/transcript_store.rs\<close>): its
  entries (\<open>agnt-core/src/transcript/entry.rs\<close>), the streaming cursors, the cap on the entries, and the
  height index that answers which entries a viewport shows, beside the layout planner of
  \<open>agnt-render/src/planner.rs\<close> it must agree with.  The rows an entry's own content takes at a width are
  the backend's measure, a parameter \<open>ms\<close>.  The display of the protocol and the one of the renderer have
  the same fields and are one type here.
\<close>

section \<open>Entries\<close>

datatype item_status = ItemInProgress | ItemDone | ItemFailed | ItemQueued | ItemCancelled | ItemUnknown

datatype tool_kind = KindEdit | KindNu | KindGeneric

definition kind_from_name :: "str \<Rightarrow> tool_kind" where
  "kind_from_name name =
     (case builtin_from_str name of
        Some Edit \<Rightarrow> KindEdit
      | Some Nu \<Rightarrow> KindNu
      | _ \<Rightarrow> KindGeneric)"

text \<open>A call of the interface's events; its identity is derived from its name and its raw arguments.\<close>

record ui_call =
  uc_id :: str
  uc_name :: str
  uc_source :: str
  uc_arguments :: str
  uc_call_line :: str

definition new_ui_call :: "str \<Rightarrow> str \<Rightarrow> str \<Rightarrow> str \<Rightarrow> ui_call" where
  "new_ui_call name src arguments call_line =
     \<lparr>uc_id = call_key name arguments, uc_name = name, uc_source = src, uc_arguments = arguments,
      uc_call_line = call_line\<rparr>"

record tool_row =
  tr_kind :: tool_kind
  tr_call :: ui_call
  tr_preview :: "tool_display option"
  tr_result :: "tool_display option"
  tr_status :: item_status

datatype message_role = ByUser | ByAssistant

record message_row =
  mr_role :: message_role
  mr_markdown :: str
  mr_millis :: "int option"
  mr_model :: "str option"
  mr_agent :: "str option"

record task_row =
  tk_name :: str
  tk_summary :: str
  tk_status :: item_status

datatype transcript_entry =
    MessageRow message_row
  | ToolRow tool_row
  | TaskRow task_row
  | NoticeRow str
  | BannerRow str

definition has_code_or_diff :: "tool_display \<Rightarrow> bool" where
  "has_code_or_diff d \<longleftrightarrow> list_ex (\<lambda>s. sec_kind s \<noteq> Plain) (td_sections d)"

definition has_diff :: "tool_display \<Rightarrow> bool" where
  "has_diff d \<longleftrightarrow> list_ex (\<lambda>s. case sec_kind s of Diff l p \<Rightarrow> True | _ \<Rightarrow> False) (td_sections d)"

definition tool_padding :: "tool_row \<Rightarrow> nat \<times> nat" where
  "tool_padding t =
     (0, case (tr_result t, tr_preview t) of
           (None, Some preview) \<Rightarrow> if has_code_or_diff preview then 1 else 0
         | (Some result, _) \<Rightarrow> if has_diff result then 1 else 0
         | (None, None) \<Rightarrow> 0)"

definition entry_padding :: "transcript_entry \<Rightarrow> nat \<times> nat" where
  "entry_padding e = (case e of ToolRow t \<Rightarrow> tool_padding t | _ \<Rightarrow> (0, 0))"

section \<open>The layout planner\<close>

datatype entry_family = FamUser | FamAssistant | FamTool | FamTask | FamNotice | FamBanner

definition family_of :: "transcript_entry \<Rightarrow> entry_family" where
  "family_of e =
     (case e of
        MessageRow m \<Rightarrow> (case mr_role m of ByUser \<Rightarrow> FamUser | ByAssistant \<Rightarrow> FamAssistant)
      | ToolRow t \<Rightarrow> FamTool
      | TaskRow t \<Rightarrow> FamTask
      | NoticeRow t \<Rightarrow> FamNotice
      | BannerRow t \<Rightarrow> FamBanner)"

definition base_gap :: "entry_family \<Rightarrow> entry_family \<Rightarrow> nat" where
  "base_gap prev incoming =
     (if prev = FamTool \<and> incoming = FamTool then 0
      else if prev = FamTool \<and> incoming = FamAssistant then 1
      else if prev = FamAssistant \<and> incoming = FamTool then 1
      else 2)"

definition gap_between :: "entry_family \<Rightarrow> entry_family \<Rightarrow> nat \<Rightarrow> nat \<Rightarrow> nat" where
  "gap_between prev incoming prev_bottom next_top = base_gap prev incoming - sat_add prev_bottom next_top"

definition trailing_gap :: "entry_family \<Rightarrow> nat" where
  "trailing_gap last_family = (if last_family = FamUser then 1 else 0)"

record row_rect =
  rr_row :: nat
  rr_width :: nat
  rr_rows :: nat
  rr_offset :: nat

record planned_entry =
  pe_index :: nat
  pe_family :: entry_family
  pe_gap :: nat
  pe_rect :: row_rect

record frame_plan =
  fp_entries :: "planned_entry list"
  fp_trailing_gap :: nat
  fp_total_rows :: nat

definition gap_before :: "(entry_family \<times> nat) option \<Rightarrow> entry_family \<Rightarrow> nat \<Rightarrow> nat" where
  "gap_before prev family padding_top =
     (case prev of None \<Rightarrow> 0 | Some (f, bottom) \<Rightarrow> gap_between f family bottom padding_top)"

definition closing_gap :: "(entry_family \<times> nat) option \<Rightarrow> nat" where
  "closing_gap prev = (case prev of None \<Rightarrow> 0 | Some (f, bottom) \<Rightarrow> trailing_gap f)"

fun plan_from ::
  "(transcript_entry \<Rightarrow> nat \<Rightarrow> nat) \<Rightarrow> nat \<Rightarrow> nat \<Rightarrow> nat \<Rightarrow> nat \<Rightarrow> (entry_family \<times> nat) option \<Rightarrow>
   transcript_entry list \<Rightarrow> planned_entry list \<times> nat \<times> (entry_family \<times> nat) option" where
  "plan_from ms width last_index index row prev [] = ([], row, prev)"
| "plan_from ms width last_index index row prev (e # es) =
     (let family = family_of e;
          padding_top = (if prev = None then 0 else fst (entry_padding e));
          padding_bottom = (if index = last_index then 0 else snd (entry_padding e));
          gap = gap_before prev family padding_top;
          rows = ms e width + padding_top + padding_bottom;
          (planned, row', prev') =
            plan_from ms width last_index (Suc index) (row + gap + rows) (Some (family, padding_bottom)) es
      in (\<lparr>pe_index = index, pe_family = family, pe_gap = gap,
           pe_rect = \<lparr>rr_row = row + gap, rr_width = width, rr_rows = rows, rr_offset = padding_top\<rparr>\<rparr> # planned,
          row', prev'))"

definition plan :: "(transcript_entry \<Rightarrow> nat \<Rightarrow> nat) \<Rightarrow> transcript_entry list \<Rightarrow> nat \<Rightarrow> frame_plan" where
  "plan ms es width =
     (case plan_from ms (max width 1) (length es - 1) 0 0 None es of
        (planned, row, prev) \<Rightarrow>
          \<lparr>fp_entries = planned, fp_trailing_gap = closing_gap prev, fp_total_rows = row + closing_gap prev\<rparr>)"

section \<open>The height index\<close>

record height_entry =
  he_gap :: nat
  he_rows :: nat
  he_padding_top :: nat

record entry_metrics =
  em_content_rows :: nat
  em_family :: entry_family
  em_padding :: "nat \<times> nat"

record height_index =
  hi_starts :: "nat list"
  hi_entries :: "height_entry list"
  hi_total_rows :: nat
  hi_metrics :: "entry_metrics list"

definition empty_index :: height_index where
  "empty_index = \<lparr>hi_starts = [], hi_entries = [], hi_total_rows = 0, hi_metrics = []\<rparr>"

definition metrics_of :: "(transcript_entry \<Rightarrow> nat \<Rightarrow> nat) \<Rightarrow> nat \<Rightarrow> transcript_entry \<Rightarrow> entry_metrics" where
  "metrics_of ms width e =
     \<lparr>em_content_rows = ms e width, em_family = family_of e, em_padding = entry_padding e\<rparr>"

fun derive_from ::
  "nat \<Rightarrow> nat \<Rightarrow> nat \<Rightarrow> (entry_family \<times> nat) option \<Rightarrow> entry_metrics list \<Rightarrow>
   nat list \<times> height_entry list \<times> nat \<times> (entry_family \<times> nat) option" where
  "derive_from last_index index acc prev [] = ([], [], acc, prev)"
| "derive_from last_index index acc prev (m # ms) =
     (let padding_top = (if prev = None then 0 else fst (em_padding m));
          padding_bottom = (if index = last_index then 0 else snd (em_padding m));
          separators = gap_before prev (em_family m) padding_top;
          rows = separators + em_content_rows m + padding_top + padding_bottom;
          (starts, hs, acc', prev') =
            derive_from last_index (Suc index) (acc + rows) (Some (em_family m, padding_bottom)) ms
      in (acc # starts,
          \<lparr>he_gap = separators, he_rows = rows, he_padding_top = padding_top\<rparr> # hs, acc', prev'))"

definition derive :: "height_index \<Rightarrow> height_index" where
  "derive hi =
     (case derive_from (length (hi_metrics hi) - 1) 0 0 None (hi_metrics hi) of
        (starts, hs, acc, prev) \<Rightarrow>
          hi\<lparr>hi_starts := starts, hi_entries := hs, hi_total_rows := acc + closing_gap prev\<rparr>)"

definition rebuild :: "(transcript_entry \<Rightarrow> nat \<Rightarrow> nat) \<Rightarrow> transcript_entry list \<Rightarrow> nat \<Rightarrow> height_index" where
  "rebuild ms es width = derive (empty_index\<lparr>hi_metrics := map (metrics_of ms width) es\<rparr>)"

text \<open>\<open>partition_point\<close> on a list the predicate splits: the number of leading elements it holds of.\<close>

definition partition_point :: "(nat \<Rightarrow> bool) \<Rightarrow> nat list \<Rightarrow> nat" where
  "partition_point p xs = length (takeWhile p xs)"

definition visible_rows :: "height_index \<Rightarrow> nat \<Rightarrow> nat \<Rightarrow> nat \<times> nat" where
  "visible_rows hi offset viewport_height =
     (if hi_entries hi = [] \<or> viewport_height = 0 then (0, 0)
      else
        (let end_row = sat_add offset viewport_height in
         (partition_point (\<lambda>start. start \<le> offset) (hi_starts hi) - 1,
          partition_point (\<lambda>start. start < end_row) (hi_starts hi))))"

section \<open>The store\<close>

definition max_transcript_entries :: nat where
  "max_transcript_entries = 2000"

record tstore =
  ts_entries :: "transcript_entry list"
  ts_index :: height_index
  ts_index_width :: "nat option"
  ts_assistant_start :: "nat option"
  ts_summary_start :: "nat option"
  ts_evicted_total :: nat

definition new_store :: tstore where
  "new_store = \<lparr>ts_entries = [], ts_index = empty_index, ts_index_width = None, ts_assistant_start = None,
     ts_summary_start = None, ts_evicted_total = 0\<rparr>"

text \<open>An index into the entries after the oldest \<open>n\<close> of them were dropped.\<close>

definition shifted :: "nat \<Rightarrow> nat option \<Rightarrow> nat option" where
  "shifted n i = Option.bind i (\<lambda>k. if n \<le> k then Some (k - n) else None)"

definition shift_indices_after_eviction :: "nat \<Rightarrow> tstore \<Rightarrow> tstore" where
  "shift_indices_after_eviction n s =
     (if n = 0 then s
      else s\<lparr>ts_assistant_start := shifted n (ts_assistant_start s),
             ts_summary_start := shifted n (ts_summary_start s)\<rparr>)"

definition with_metrics :: "(entry_metrics list \<Rightarrow> entry_metrics list) \<Rightarrow> tstore \<Rightarrow> tstore" where
  "with_metrics f s = s\<lparr>ts_index := derive ((ts_index s)\<lparr>hi_metrics := f (hi_metrics (ts_index s))\<rparr>)\<rparr>"

definition cache_pushed_entry :: "(transcript_entry \<Rightarrow> nat \<Rightarrow> nat) \<Rightarrow> tstore \<Rightarrow> tstore" where
  "cache_pushed_entry ms s =
     (case ts_index_width s of
        None \<Rightarrow> s
      | Some width \<Rightarrow>
          (if ts_entries s = [] then s
           else with_metrics (\<lambda>m. m @ [metrics_of ms width (last (ts_entries s))]) s))"

definition enforce_transcript_cap :: "tstore \<Rightarrow> nat \<times> tstore" where
  "enforce_transcript_cap s =
     (let overflow = length (ts_entries s) - max_transcript_entries in
      if overflow = 0 then (0, s)
      else
        (let s1 = shift_indices_after_eviction overflow
               (s\<lparr>ts_entries := drop overflow (ts_entries s),
                  ts_evicted_total := sat_add (ts_evicted_total s) overflow\<rparr>)
         in (overflow,
             if ts_index_width s1 = None then s1
             else with_metrics (\<lambda>m. drop (min overflow (length m)) m) s1)))"

definition push_entry :: "(transcript_entry \<Rightarrow> nat \<Rightarrow> nat) \<Rightarrow> transcript_entry \<Rightarrow> tstore \<Rightarrow> nat \<times> tstore" where
  "push_entry ms e s = enforce_transcript_cap (cache_pushed_entry ms (s\<lparr>ts_entries := ts_entries s @ [e]\<rparr>))"

definition remeasure_entry_at :: "(transcript_entry \<Rightarrow> nat \<Rightarrow> nat) \<Rightarrow> nat \<Rightarrow> tstore \<Rightarrow> tstore" where
  "remeasure_entry_at ms i s =
     (case ts_index_width s of
        None \<Rightarrow> s
      | Some width \<Rightarrow>
          (if i < length (ts_entries s) \<and> i < length (hi_metrics (ts_index s))
           then with_metrics (\<lambda>m. m[i := metrics_of ms width (ts_entries s ! i)]) s
           else s))"

definition set_tool_preview_at :: "(transcript_entry \<Rightarrow> nat \<Rightarrow> nat) \<Rightarrow> nat \<Rightarrow> tool_display \<Rightarrow> tstore \<Rightarrow> bool \<times> tstore" where
  "set_tool_preview_at ms i preview s =
     (if i < length (ts_entries s) then
        (case ts_entries s ! i of
           ToolRow t \<Rightarrow>
             (True, remeasure_entry_at ms i
                (s\<lparr>ts_entries := (ts_entries s)[i := ToolRow (t\<lparr>tr_preview := Some preview\<rparr>)]\<rparr>))
         | _ \<Rightarrow> (False, s))
      else (False, s))"

definition set_tool_result_at :: "(transcript_entry \<Rightarrow> nat \<Rightarrow> nat) \<Rightarrow> nat \<Rightarrow> tool_display \<Rightarrow> tstore \<Rightarrow> bool \<times> tstore" where
  "set_tool_result_at ms i result s =
     (if i < length (ts_entries s) then
        (case ts_entries s ! i of
           ToolRow t \<Rightarrow>
             (True, remeasure_entry_at ms i
                (s\<lparr>ts_entries := (ts_entries s)[i := ToolRow (t\<lparr>tr_result := Some result\<rparr>)]\<rparr>))
         | _ \<Rightarrow> (False, s))
      else (False, s))"

definition rebuild_height_index :: "(transcript_entry \<Rightarrow> nat \<Rightarrow> nat) \<Rightarrow> nat \<Rightarrow> tstore \<Rightarrow> tstore" where
  "rebuild_height_index ms width s =
     s\<lparr>ts_index := rebuild ms (ts_entries s) width, ts_index_width := Some width\<rparr>"

definition invalidate_height_index :: "tstore \<Rightarrow> tstore" where
  "invalidate_height_index s = s\<lparr>ts_index_width := None\<rparr>"

definition height_index_valid_for :: "nat \<Rightarrow> tstore \<Rightarrow> bool" where
  "height_index_valid_for width s \<longleftrightarrow>
     ts_index_width s = Some width \<and> length (hi_entries (ts_index s)) = length (ts_entries s)"

definition start_row_of :: "nat \<Rightarrow> tstore \<Rightarrow> nat" where
  "start_row_of i s = (if i < length (hi_starts (ts_index s)) then hi_starts (ts_index s) ! i else 0)"

definition visible_window :: "nat \<Rightarrow> nat \<Rightarrow> tstore \<Rightarrow> nat \<times> nat" where
  "visible_window offset viewport s = visible_rows (ts_index s) offset viewport"

text \<open>The entries of a plan, up to the first index the height index does not hold.\<close>

fun planned_from :: "height_index \<Rightarrow> tstore \<Rightarrow> nat \<Rightarrow> nat list \<Rightarrow> planned_entry list" where
  "planned_from hi s width [] = []"
| "planned_from hi s width (i # is) =
     (if i < length (hi_entries hi) \<and> i < length (hi_metrics hi) then
        (let h = hi_entries hi ! i in
         \<lparr>pe_index = i, pe_family = em_family (hi_metrics hi ! i), pe_gap = he_gap h,
          pe_rect = \<lparr>rr_row = start_row_of i s + he_gap h, rr_width = width,
                     rr_rows = he_rows h - he_gap h, rr_offset = he_padding_top h\<rparr>\<rparr>)
          # planned_from hi s width is
      else [])"

definition store_frame_plan :: "nat \<Rightarrow> nat \<Rightarrow> nat \<Rightarrow> tstore \<Rightarrow> frame_plan" where
  "store_frame_plan first_index last_index width s =
     (let hi = ts_index s;
          end_index = min last_index (length (ts_entries s));
          start_index = min first_index end_index
      in \<lparr>fp_entries = planned_from hi s width [start_index..<end_index],
          fp_trailing_gap =
            (if end_index = length (ts_entries s) \<and> hi_metrics hi \<noteq> []
             then trailing_gap (em_family (last (hi_metrics hi))) else 0),
          fp_total_rows = hi_total_rows hi\<rparr>)"

definition clear_store :: "tstore \<Rightarrow> tstore" where
  "clear_store s = s\<lparr>ts_entries := [], ts_index := empty_index, ts_index_width := None\<rparr>"

definition truncate_store :: "nat \<Rightarrow> tstore \<Rightarrow> tstore" where
  "truncate_store n s =
     (let s1 = s\<lparr>ts_entries := take n (ts_entries s)\<rparr> in
      if ts_index_width s = None then s1 else with_metrics (take n) s1)"

end
