(* ===== verification/Tui_Picker.thy ===== *)
theory Tui_Picker
  imports Tui_Store
begin

text \<open>
  The pickers of the terminal interface (\<open>crates/agnt-tui/src/state/picker.rs\<close>): the query, the
  selection and the options of each, the one that is open, what it does with a key; and the MCP panel
  (\<open>state/mcp.rs\<close>).  A key's character is its text.  An instant of a session is a number.
\<close>

section \<open>Keys\<close>

datatype key =
    KChar str | KEnter | KAltEnter | KShiftEnter | KBackspace | KDelete | KLeft | KRight | KHome | KEnd
  | KUp | KDown | KPageUp | KPageDown | KCtrlU | KCtrlD | KCtrlP | KCtrlN | KCtrlJ | KCtrlK
  | KTab | KBackTab | KEsc | KCtrlC

section \<open>Matching\<close>

fun fuzzy_from :: "str list \<Rightarrow> str list \<Rightarrow> bool" where
  "fuzzy_from [] cs = True"
| "fuzzy_from (q # qs) [] = False"
| "fuzzy_from (q # qs) (c # cs) = (if c = q then fuzzy_from qs cs else fuzzy_from (q # qs) cs)"

definition fuzzy_matches :: "str \<Rightarrow> str \<Rightarrow> bool" where
  "fuzzy_matches query candidate = fuzzy_from (chars query) (chars candidate)"

definition pop_char :: "str \<Rightarrow> str" where
  "pop_char s = concat (butlast (chars s))"

section \<open>Options\<close>

text \<open>A part of a sort key; \<open>PartRecent\<close> orders the later instant first.\<close>

datatype sort_key_part = PartAsc str | PartFirst bool | PartRecent int | PartUnknown

fun str_less :: "str \<Rightarrow> str \<Rightarrow> bool" where
  "str_less [] [] = False"
| "str_less [] (b # bs) = True"
| "str_less (a # as) [] = False"
| "str_less (a # as) (b # bs) =
     ((of_char a :: nat) < of_char b \<or> a = b \<and> str_less as bs)"

definition part_rank :: "sort_key_part \<Rightarrow> nat" where
  "part_rank p = (case p of PartAsc s \<Rightarrow> 0 | PartFirst b \<Rightarrow> 1 | PartRecent t \<Rightarrow> 2 | PartUnknown \<Rightarrow> 3)"

fun part_less :: "sort_key_part \<Rightarrow> sort_key_part \<Rightarrow> bool" where
  "part_less (PartAsc a) (PartAsc b) = str_less a b"
| "part_less (PartFirst a) (PartFirst b) = (\<not> a \<and> b)"
| "part_less (PartRecent a) (PartRecent b) = (b < a)"
| "part_less p q = (part_rank p < part_rank q)"

fun parts_less :: "sort_key_part list \<Rightarrow> sort_key_part list \<Rightarrow> bool" where
  "parts_less [] [] = False"
| "parts_less [] (q # qs) = True"
| "parts_less (p # ps) [] = False"
| "parts_less (p # ps) (q # qs) = (part_less p q \<or> p = q \<and> parts_less ps qs)"

text \<open>A stable sort: an element goes before the first one its key is below.\<close>

fun insert_by :: "('a \<Rightarrow> sort_key_part list) \<Rightarrow> 'a \<Rightarrow> 'a list \<Rightarrow> 'a list" where
  "insert_by k x [] = [x]"
| "insert_by k x (y # ys) = (if parts_less (k x) (k y) then x # y # ys else y # insert_by k x ys)"

definition stable_sort_by :: "('a \<Rightarrow> sort_key_part list) \<Rightarrow> 'a list \<Rightarrow> 'a list" where
  "stable_sort_by k xs = fold (insert_by k) xs []"

datatype palette_action =
    PalCompact | PalHelp | PalStatus | PalMcps | PalModels | PalAgents | PalSessions | PalTheme | PalSkills

definition palette_actions :: "palette_action list" where
  "palette_actions = [PalHelp, PalStatus, PalMcps, PalSkills, PalModels, PalAgents, PalSessions, PalTheme]"

definition palette_label :: "palette_action \<Rightarrow> str" where
  "palette_label a =
     (case a of PalCompact \<Rightarrow> ''/compact'' | PalHelp \<Rightarrow> ''Help'' | PalStatus \<Rightarrow> ''Status'' | PalMcps \<Rightarrow> ''MCPs''
      | PalSkills \<Rightarrow> ''Skills'' | PalModels \<Rightarrow> ''Models'' | PalAgents \<Rightarrow> ''Agents'' | PalSessions \<Rightarrow> ''Sessions''
      | PalTheme \<Rightarrow> ''Theme'')"

datatype info_panel = PanelHelp | PanelStatus | PanelMcps | PanelSkills

definition panel_of :: "palette_action \<Rightarrow> info_panel option" where
  "panel_of a =
     (case a of PalHelp \<Rightarrow> Some PanelHelp | PalStatus \<Rightarrow> Some PanelStatus | PalMcps \<Rightarrow> Some PanelMcps
      | PalSkills \<Rightarrow> Some PanelSkills | _ \<Rightarrow> None)"

definition slash_label :: "slash_command \<Rightarrow> str" where
  "slash_label c =
     (case c of SlCompact \<Rightarrow> ''/compact'' | SlMcp \<Rightarrow> ''/mcp'' | SlHelp \<Rightarrow> ''/help'' | SlStatus \<Rightarrow> ''/status''
      | SlModels \<Rightarrow> ''/models'' | SlAgent \<Rightarrow> ''/agent'' | SlNew \<Rightarrow> ''/new'' | SlSession \<Rightarrow> ''/session''
      | SlTheme \<Rightarrow> ''/theme'' | SlSkills \<Rightarrow> ''/skills'')"

datatype picker_payload =
    PayModel (pm_identity: str) (pm_provider: str) (pm_provider_name: str) (pm_configured: bool)
      (pm_context_window: "nat option") (pm_cost: "str option")
  | PayAgent str "str option"
  | PaySession str "str option" "int option" nat "str option"
  | PayTheme
  | PayCommand palette_action
  | PaySlash slash_command

record picker_option =
  po_id :: str
  po_display :: str
  po_search_text :: str
  po_section :: "str option"
  po_payload :: picker_payload
  po_sort_key :: "sort_key_part list"

definition matches_query :: "str \<Rightarrow> picker_option \<Rightarrow> bool" where
  "matches_query query opt =
     (let q = to_ascii_lowercase query in
      fuzzy_matches q (to_ascii_lowercase (po_display opt)) \<or>
      fuzzy_matches q (to_ascii_lowercase (po_id opt)) \<or>
      fuzzy_matches q (to_ascii_lowercase (po_search_text opt)))"

datatype switch_request = ToModel str | ToAgent str | ToSession str | ToTheme str

datatype active_picker =
    PickPalette | PickModel | PickAgent | PickSession | PickTheme | PickInlineSlash | PickNone

datatype submit_action =
    DoSwitch switch_request
  | DoLaunch active_picker
  | DoCommand palette_action
  | DoSlashAccept

datatype picker_outcome = PickerConsumed bool | PickerSubmit submit_action | PickerQuit | PickerPass

section \<open>One picker\<close>

record picker_state =
  ps_open :: bool
  ps_query :: str
  ps_selection :: nat
  ps_options :: "picker_option list"

definition panel_page_lines :: nat where
  "panel_page_lines = 8"

definition fresh_picker :: picker_state where
  "fresh_picker = \<lparr>ps_open = False, ps_query = [], ps_selection = 0, ps_options = []\<rparr>"

definition close_state :: "picker_state \<Rightarrow> picker_state" where
  "close_state p = p\<lparr>ps_open := False, ps_query := [], ps_selection := 0\<rparr>"

definition filtered :: "picker_state \<Rightarrow> picker_option list" where
  "filtered p =
     (if ps_query p = [] then ps_options p
      else filter (matches_query (to_ascii_lowercase (ps_query p))) (ps_options p))"

definition selected :: "picker_state \<Rightarrow> picker_option option" where
  "selected p = (if ps_selection p < length (filtered p) then Some (filtered p ! ps_selection p) else None)"

text \<open>The moves of a selection over \<open>len\<close> rows.\<close>

definition row_up :: "nat \<Rightarrow> nat \<Rightarrow> nat" where
  "row_up len sel = (if len = 0 then 0 else if sel = 0 then len - 1 else sel - 1)"

definition row_down :: "nat \<Rightarrow> nat \<Rightarrow> nat" where
  "row_down len sel = (if len = 0 then 0 else (sel + 1) mod len)"

definition row_page_up :: "nat \<Rightarrow> nat \<Rightarrow> nat" where
  "row_page_up len sel = (if len = 0 then 0 else min (sel - panel_page_lines) (len - 1))"

definition row_page_down :: "nat \<Rightarrow> nat \<Rightarrow> nat" where
  "row_page_down len sel = (if len = 0 then 0 else min (sat_add sel panel_page_lines) (len - 1))"

definition row_clamp :: "nat \<Rightarrow> nat \<Rightarrow> nat" where
  "row_clamp len sel = (if len = 0 then 0 else if len \<le> sel then len - 1 else sel)"

definition move :: "(nat \<Rightarrow> nat \<Rightarrow> nat) \<Rightarrow> picker_state \<Rightarrow> picker_state" where
  "move f p = p\<lparr>ps_selection := f (length (filtered p)) (ps_selection p)\<rparr>"

definition append_query_char :: "str \<Rightarrow> picker_state \<Rightarrow> picker_state" where
  "append_query_char c p = p\<lparr>ps_query := ps_query p @ c, ps_selection := 0\<rparr>"

definition backspace_query_char :: "picker_state \<Rightarrow> picker_state" where
  "backspace_query_char p = p\<lparr>ps_query := pop_char (ps_query p), ps_selection := 0\<rparr>"

section \<open>The container\<close>

record picker_entry =
  pk_kind :: active_picker
  pk_state :: picker_state
  pk_edit_query :: bool
  pk_submit :: submit_action

type_synonym pickers = "picker_entry list"

definition new_pickers :: pickers where
  "new_pickers =
     [\<lparr>pk_kind = PickPalette, pk_state = fresh_picker, pk_edit_query = True, pk_submit = DoCommand PalHelp\<rparr>,
      \<lparr>pk_kind = PickModel, pk_state = fresh_picker, pk_edit_query = True, pk_submit = DoSwitch (ToModel [])\<rparr>,
      \<lparr>pk_kind = PickAgent, pk_state = fresh_picker, pk_edit_query = True, pk_submit = DoSwitch (ToAgent [])\<rparr>,
      \<lparr>pk_kind = PickSession, pk_state = fresh_picker, pk_edit_query = True, pk_submit = DoSwitch (ToSession [])\<rparr>,
      \<lparr>pk_kind = PickTheme, pk_state = fresh_picker, pk_edit_query = False, pk_submit = DoSwitch (ToTheme [])\<rparr>,
      \<lparr>pk_kind = PickInlineSlash, pk_state = fresh_picker, pk_edit_query = False, pk_submit = DoSlashAccept\<rparr>]"

definition index_of :: "active_picker \<Rightarrow> nat" where
  "index_of kind =
     (case kind of PickPalette \<Rightarrow> 0 | PickModel \<Rightarrow> 1 | PickAgent \<Rightarrow> 2 | PickSession \<Rightarrow> 3 | PickTheme \<Rightarrow> 4
      | PickInlineSlash \<Rightarrow> 5 | PickNone \<Rightarrow> 0)"

definition set_state :: "(picker_state \<Rightarrow> picker_state) \<Rightarrow> picker_entry \<Rightarrow> picker_entry" where
  "set_state f e = e\<lparr>pk_state := f (pk_state e)\<rparr>"

definition open_picker :: "active_picker \<Rightarrow> pickers \<Rightarrow> pickers" where
  "open_picker kind es =
     (let shut = map (set_state (\<lambda>p. p\<lparr>ps_open := False\<rparr>)) es; i = index_of kind in
      shut[i := set_state (\<lambda>p. p\<lparr>ps_open := True\<rparr>) (shut ! i)])"

definition close_pickers :: "pickers \<Rightarrow> pickers" where
  "close_pickers es = map (set_state close_state) es"

definition active_entry :: "pickers \<Rightarrow> picker_entry option" where
  "active_entry es = find (\<lambda>e. ps_open (pk_state e)) es"

definition active :: "pickers \<Rightarrow> active_picker option" where
  "active es = map_option pk_kind (active_entry es)"

text \<open>The open picker, changed in place.\<close>

fun map_active :: "(picker_state \<Rightarrow> picker_state) \<Rightarrow> pickers \<Rightarrow> pickers" where
  "map_active f [] = []"
| "map_active f (e # es) = (if ps_open (pk_state e) then set_state f e # es else e # map_active f es)"

fun find_index :: "('a \<Rightarrow> bool) \<Rightarrow> 'a list \<Rightarrow> nat option" where
  "find_index p [] = None"
| "find_index p (x # xs) = (if p x then Some 0 else map_option Suc (find_index p xs))"

definition position_selection_on :: "str \<Rightarrow> pickers \<Rightarrow> pickers" where
  "position_selection_on i es =
     map_active (\<lambda>p. case find_index (\<lambda>opt. po_id opt = i) (ps_options p) of
                       None \<Rightarrow> p | Some k \<Rightarrow> p\<lparr>ps_selection := k\<rparr>) es"

definition clamp_selections :: "pickers \<Rightarrow> pickers" where
  "clamp_selections es = map (set_state (move row_clamp)) es"

definition set_options :: "active_picker \<Rightarrow> picker_option list \<Rightarrow> pickers \<Rightarrow> pickers" where
  "set_options kind opts es =
     (let i = index_of kind in es[i := set_state (\<lambda>p. p\<lparr>ps_options := opts\<rparr>) (es ! i)])"

definition selected_slash_label :: "pickers \<Rightarrow> str option" where
  "selected_slash_label es =
     (case active_entry es of
        None \<Rightarrow> None
      | Some e \<Rightarrow>
          (case selected (pk_state e) of
             None \<Rightarrow> None
           | Some opt \<Rightarrow> (case po_payload opt of PaySlash c \<Rightarrow> Some (slash_label c) | _ \<Rightarrow> None)))"

definition resolve_submit :: "picker_entry \<Rightarrow> submit_action option" where
  "resolve_submit e =
     (case selected (pk_state e) of
        None \<Rightarrow> None
      | Some opt \<Rightarrow>
          Some (case pk_submit e of
              DoSwitch (ToModel m) \<Rightarrow>
                (case po_payload opt of PayModel i p n c w k \<Rightarrow> DoSwitch (ToModel i) | _ \<Rightarrow> pk_submit e)
            | DoSwitch (ToAgent a) \<Rightarrow>
                (case po_payload opt of PayAgent n d \<Rightarrow> DoSwitch (ToAgent n) | _ \<Rightarrow> pk_submit e)
            | DoSwitch (ToSession s) \<Rightarrow>
                (case po_payload opt of PaySession i t c n a \<Rightarrow> DoSwitch (ToSession i) | _ \<Rightarrow> pk_submit e)
            | DoSwitch (ToTheme t) \<Rightarrow> DoSwitch (ToTheme (po_id opt))
            | DoCommand a \<Rightarrow> (case po_payload opt of PayCommand b \<Rightarrow> DoCommand b | _ \<Rightarrow> pk_submit e)
            | other \<Rightarrow> other))"

definition query_picker :: "picker_entry \<Rightarrow> key \<Rightarrow> picker_outcome \<times> (picker_state \<Rightarrow> picker_state)" where
  "query_picker e k =
     (case k of
        KEsc \<Rightarrow> (PickerConsumed True, close_state)
      | KEnter \<Rightarrow>
          (case resolve_submit e of
             None \<Rightarrow> (PickerConsumed True, close_state)
           | Some a \<Rightarrow> (PickerSubmit a, id))
      | KUp \<Rightarrow> (PickerConsumed True, move row_up)
      | KCtrlP \<Rightarrow> (PickerConsumed True, move row_up)
      | KCtrlK \<Rightarrow> (PickerConsumed True, move row_up)
      | KDown \<Rightarrow> (PickerConsumed True, move row_down)
      | KCtrlN \<Rightarrow> (PickerConsumed True, move row_down)
      | KCtrlJ \<Rightarrow> (PickerConsumed True, move row_down)
      | KPageUp \<Rightarrow> (PickerConsumed True, move row_page_up)
      | KCtrlU \<Rightarrow> (PickerConsumed True, move row_page_up)
      | KPageDown \<Rightarrow> (PickerConsumed True, move row_page_down)
      | KCtrlD \<Rightarrow> (PickerConsumed True, move row_page_down)
      | KBackspace \<Rightarrow> (PickerConsumed True, backspace_query_char)
      | KChar c \<Rightarrow> (PickerConsumed True, append_query_char c)
      | _ \<Rightarrow> (PickerConsumed True, id))"

definition slash_picker :: "key \<Rightarrow> picker_outcome \<times> (picker_state \<Rightarrow> picker_state)" where
  "slash_picker k =
     (case k of
        KEnter \<Rightarrow> (PickerSubmit DoSlashAccept, id)
      | KTab \<Rightarrow> (PickerSubmit DoSlashAccept, id)
      | KEsc \<Rightarrow> (PickerConsumed True, close_state)
      | KUp \<Rightarrow> (PickerConsumed True, move row_up)
      | KCtrlP \<Rightarrow> (PickerConsumed True, move row_up)
      | KCtrlK \<Rightarrow> (PickerConsumed True, move row_up)
      | KDown \<Rightarrow> (PickerConsumed True, move row_down)
      | KCtrlN \<Rightarrow> (PickerConsumed True, move row_down)
      | KCtrlJ \<Rightarrow> (PickerConsumed True, move row_down)
      | KPageUp \<Rightarrow> (PickerConsumed True, move row_page_up)
      | KCtrlU \<Rightarrow> (PickerConsumed True, move row_page_up)
      | KPageDown \<Rightarrow> (PickerConsumed True, move row_page_down)
      | KCtrlD \<Rightarrow> (PickerConsumed True, move row_page_down)
      | _ \<Rightarrow> (PickerPass, id))"

definition handle_key :: "key \<Rightarrow> pickers \<Rightarrow> picker_outcome \<times> pickers" where
  "handle_key k es =
     (case active_entry es of
        None \<Rightarrow> (PickerPass, es)
      | Some e \<Rightarrow>
          (case (case pk_kind e of
                   PickPalette \<Rightarrow> if k = KCtrlC then (PickerQuit, id) else query_picker e k
                 | PickInlineSlash \<Rightarrow> slash_picker k
                 | PickNone \<Rightarrow> (PickerPass, id)
                 | _ \<Rightarrow> query_picker e k)
           of (outcome, f) \<Rightarrow> (outcome, map_active f es)))"

section \<open>The options of the pickers\<close>

definition model_option :: "str \<Rightarrow> str \<Rightarrow> str \<Rightarrow> str \<Rightarrow> bool \<Rightarrow> nat option \<Rightarrow> str option \<Rightarrow> picker_option" where
  "model_option identity display provider provider_name configured window cost =
     \<lparr>po_id = identity, po_display = display,
      po_search_text = identity @ '' '' @ provider @ '' '' @ provider_name,
      po_section = Some provider, po_payload = PayModel identity provider provider_name configured window cost,
      po_sort_key = [PartAsc (to_ascii_lowercase provider), PartFirst (\<not> configured),
                     PartAsc (to_ascii_lowercase identity)]\<rparr>"

definition agent_option :: "str \<Rightarrow> str \<Rightarrow> str option \<Rightarrow> picker_option" where
  "agent_option name display description =
     \<lparr>po_id = name, po_display = display,
      po_search_text = name @ '' '' @ (case description of None \<Rightarrow> [] | Some d \<Rightarrow> d),
      po_section = None, po_payload = PayAgent name description,
      po_sort_key = [PartAsc (to_ascii_lowercase name)]\<rparr>"

text \<open>\<open>day\<close> is the local calendar day of an instant, as text.\<close>

definition session_option ::
  "(int \<Rightarrow> str) \<Rightarrow> str \<Rightarrow> str option \<Rightarrow> int option \<Rightarrow> nat \<Rightarrow> str option \<Rightarrow> picker_option" where
  "session_option day i title last_active message_count agent =
     (let display = (case title of None \<Rightarrow> [] | Some t \<Rightarrow> t) in
      \<lparr>po_id = i, po_display = display, po_search_text = display, po_section = map_option day last_active,
       po_payload = PaySession i title last_active message_count agent,
       po_sort_key = [case last_active of None \<Rightarrow> PartUnknown | Some t \<Rightarrow> PartRecent t]\<rparr>)"

definition palette_options :: "picker_option list" where
  "palette_options =
     map (\<lambda>a. \<lparr>po_id = palette_label a, po_display = palette_label a, po_search_text = palette_label a,
               po_section = None, po_payload = PayCommand a, po_sort_key = []\<rparr>) palette_actions"

definition trim_slashes :: "str \<Rightarrow> str" where
  "trim_slashes s = dropWhile (\<lambda>c. c = CHR ''/'') s"

definition filter_inline_slash_suggestions :: "str \<Rightarrow> slash_command list" where
  "filter_inline_slash_suggestions inp =
     (if \<not> prefix ''/'' inp then []
      else
        (let query = to_ascii_lowercase (trim_slashes inp) in
         filter (\<lambda>c. prefix query (to_ascii_lowercase (trim_slashes (slash_label c)))) (map snd slash_labels)))"

definition slash_options :: "slash_command list \<Rightarrow> picker_option list" where
  "slash_options cs =
     map (\<lambda>c. \<lparr>po_id = slash_label c, po_display = slash_label c, po_search_text = slash_label c,
               po_section = None, po_payload = PaySlash c, po_sort_key = []\<rparr>) cs"

section \<open>The MCP panel\<close>

record mcp_server =
  ms_name :: str
  ms_state :: mcp_usability

record mcp_panel =
  mp_servers :: "mcp_server list"
  mp_selection :: nat
  mp_query :: str
  mp_visible_count :: nat
  mp_counts :: "str \<rightharpoonup> nat"
  mp_names :: "str \<rightharpoonup> str list"
  mp_reasons :: "str \<rightharpoonup> str"
  mp_toggles :: "(str \<times> bool) list"

definition filtered_indices :: "mcp_panel \<Rightarrow> nat list" where
  "filtered_indices p =
     (if mp_query p = [] then [0..<length (mp_servers p)]
      else filter (\<lambda>i. fuzzy_matches (to_ascii_lowercase (mp_query p))
                         (to_ascii_lowercase (ms_name (mp_servers p ! i)))) [0..<length (mp_servers p)])"

definition panel_move :: "(nat \<Rightarrow> nat \<Rightarrow> nat) \<Rightarrow> mcp_panel \<Rightarrow> mcp_panel" where
  "panel_move f p = p\<lparr>mp_selection := f (length (filtered_indices p)) (mp_selection p)\<rparr>"

definition set_mcp_servers :: "mcp_server list \<Rightarrow> mcp_panel \<Rightarrow> mcp_panel" where
  "set_mcp_servers servers p =
     (let known = ms_name ` set servers;
          failing = ms_name ` {s \<in> set servers. ms_state s = McpFailed} in
      panel_move row_clamp
        (p\<lparr>mp_servers := servers, mp_counts := mp_counts p |` known, mp_names := mp_names p |` known,
           mp_reasons := mp_reasons p |` failing, mp_query := []\<rparr>))"

definition append_panel_query_char :: "str \<Rightarrow> mcp_panel \<Rightarrow> mcp_panel" where
  "append_panel_query_char c p = panel_move row_clamp (p\<lparr>mp_query := mp_query p @ c, mp_selection := 0\<rparr>)"

definition backspace_panel_query_char :: "mcp_panel \<Rightarrow> bool \<times> mcp_panel" where
  "backspace_panel_query_char p =
     (if mp_query p = [] then (False, p)
      else (True, panel_move row_clamp (p\<lparr>mp_query := pop_char (mp_query p), mp_selection := 0\<rparr>)))"

definition clear_panel_query :: "mcp_panel \<Rightarrow> mcp_panel" where
  "clear_panel_query p = panel_move row_clamp (p\<lparr>mp_query := []\<rparr>)"

definition selected_server_index :: "mcp_panel \<Rightarrow> nat option" where
  "selected_server_index p =
     (if mp_selection p < length (filtered_indices p) then Some (filtered_indices p ! mp_selection p) else None)"

definition queue_selected_toggle :: "mcp_panel \<Rightarrow> bool \<times> mcp_panel" where
  "queue_selected_toggle p =
     (case selected_server_index p of
        None \<Rightarrow> (False, p)
      | Some i \<Rightarrow>
          (if i < length (mp_servers p) then
             (let s = mp_servers p ! i; off = s\<lparr>ms_state := McpDisabled\<rparr> in
              (True,
               case ms_state s of
                 McpDisabled \<Rightarrow> p\<lparr>mp_toggles := mp_toggles p @ [(ms_name s, True)]\<rparr>
               | _ \<Rightarrow> p\<lparr>mp_servers := (mp_servers p)[i := off], mp_toggles := mp_toggles p @ [(ms_name s, False)]\<rparr>))
           else (False, p)))"

definition set_server_state :: "str \<Rightarrow> mcp_usability \<Rightarrow> str option \<Rightarrow> mcp_panel \<Rightarrow> bool \<times> mcp_panel" where
  "set_server_state name state reason p =
     (case find_index (\<lambda>s. ms_name s = name) (mp_servers p) of
        None \<Rightarrow> (False, p)
      | Some i \<Rightarrow>
          (True,
           p\<lparr>mp_servers := (mp_servers p)[i := (mp_servers p ! i)\<lparr>ms_state := state\<rparr>],
             mp_reasons :=
               (case state of
                  McpFailed \<Rightarrow>
                    (case reason of
                       None \<Rightarrow> mp_reasons p
                     | Some r \<Rightarrow> if trim r = [] then mp_reasons p else (mp_reasons p)(name \<mapsto> trim r))
                | _ \<Rightarrow> (mp_reasons p)(name := None))\<rparr>))"

definition set_server_details :: "str \<Rightarrow> mcp_usability \<Rightarrow> str option \<Rightarrow> nat \<Rightarrow> mcp_panel \<Rightarrow> mcp_panel" where
  "set_server_details name state reason visible p =
     snd (set_server_state name state reason (p\<lparr>mp_visible_count := visible\<rparr>))"

fun dedup :: "'a list \<Rightarrow> 'a list" where
  "dedup (x # y # xs) = (if x = y then dedup (x # xs) else x # dedup (y # xs))"
| "dedup xs = xs"

definition set_visible_names :: "str \<Rightarrow> str list \<Rightarrow> mcp_panel \<Rightarrow> mcp_panel" where
  "set_visible_names name names p =
     p\<lparr>mp_names := (mp_names p)(name \<mapsto> dedup (stable_sort_by (\<lambda>n. [PartAsc n]) names))\<rparr>"

definition set_visible_count :: "str \<Rightarrow> nat \<Rightarrow> mcp_panel \<Rightarrow> mcp_panel" where
  "set_visible_count name n p = p\<lparr>mp_counts := (mp_counts p)(name \<mapsto> n)\<rparr>"

end
