(* ===== verification/Tui_State.thy ===== *)
theory Tui_State
  imports Tui_Picker
begin

text \<open>
  The state of the terminal interface (\<open>crates/agnt-tui/src/state\<close>): the prompt queue
  (\<open>prompt_queue.rs\<close>), the phase and its abort, scrolling, the input mode, the status line, the permission
  card, the tool calls and the compaction blocks, with the operations of each and the ones that keep them
  together (\<open>lifecycle.rs\<close>).  An instant is a number of milliseconds; the readings one event makes of the
  clock are one instant.  The cost the status line adds up is not part of the state.
\<close>

section \<open>The prompt queue\<close>

datatype prompt_status = PromptQueued | PromptInProgress | PromptDone | PromptCancelled

record prompt_facts =
  pf_millis :: "int option"
  pf_model :: "str option"
  pf_agent :: "str option"

definition no_prompt_facts :: prompt_facts where
  "no_prompt_facts = \<lparr>pf_millis = None, pf_model = None, pf_agent = None\<rparr>"

definition merge_first_some :: "prompt_facts \<Rightarrow> prompt_facts \<Rightarrow> prompt_facts" where
  "merge_first_some later f =
     \<lparr>pf_millis = (if pf_millis f = None then pf_millis later else pf_millis f),
      pf_model = (if pf_model f = None then pf_model later else pf_model f),
      pf_agent = (if pf_agent f = None then pf_agent later else pf_agent f)\<rparr>"

record queued_prompt =
  qp_id :: nat
  qp_text :: str
  qp_status :: prompt_status
  qp_facts :: prompt_facts

record prompt_queue =
  pq_items :: "queued_prompt list"
  pq_pending :: "nat list"
  pq_active :: "nat option"
  pq_next :: nat

definition new_queue :: prompt_queue where
  "new_queue = \<lparr>pq_items = [], pq_pending = [], pq_active = None, pq_next = 1\<rparr>"

definition find_prompt :: "nat \<Rightarrow> queued_prompt list \<Rightarrow> queued_prompt option" where
  "find_prompt i items = find (\<lambda>p. qp_id p = i) items"

fun set_status :: "nat \<Rightarrow> prompt_status \<Rightarrow> queued_prompt list \<Rightarrow> queued_prompt list" where
  "set_status i st [] = []"
| "set_status i st (p # ps) =
     (if qp_id p = i then p\<lparr>qp_status := st\<rparr> # ps else p # set_status i st ps)"

definition queue_enqueue :: "str \<Rightarrow> prompt_facts \<Rightarrow> prompt_queue \<Rightarrow> nat \<times> prompt_queue" where
  "queue_enqueue text_in facts q =
     (let i = pq_next q in
      (i, q\<lparr>pq_next := sat_add i 1,
            pq_items := pq_items q @ [\<lparr>qp_id = i, qp_text = text_in, qp_status = PromptQueued, qp_facts = facts\<rparr>],
            pq_pending := pq_pending q @ [i]\<rparr>))"

definition queue_activate_next :: "prompt_queue \<Rightarrow> nat option \<times> prompt_queue" where
  "queue_activate_next q =
     (if pq_active q \<noteq> None then (None, q)
      else case pq_pending q of
        [] \<Rightarrow> (None, q)
      | i # rest \<Rightarrow>
          (Some i, q\<lparr>pq_pending := rest, pq_items := set_status i PromptInProgress (pq_items q),
                     pq_active := Some i\<rparr>))"

definition queue_complete_active :: "prompt_queue \<Rightarrow> prompt_queue" where
  "queue_complete_active q =
     (case pq_active q of
        None \<Rightarrow> q
      | Some i \<Rightarrow> q\<lparr>pq_active := None, pq_items := set_status i PromptDone (pq_items q)\<rparr>)"

fun cancel_ids :: "nat list \<Rightarrow> queued_prompt list \<Rightarrow> str list \<times> queued_prompt list" where
  "cancel_ids [] items = ([], items)"
| "cancel_ids (i # is) items =
     (case find_prompt i items of
        None \<Rightarrow> cancel_ids is items
      | Some p \<Rightarrow>
          (case cancel_ids is (set_status i PromptCancelled items) of (texts, items') \<Rightarrow> (qp_text p # texts, items')))"

definition queue_cancel_and_drain :: "prompt_queue \<Rightarrow> str list \<times> prompt_queue" where
  "queue_cancel_and_drain q =
     (let q1 = queue_complete_active q in
      case cancel_ids (pq_pending q1) (pq_items q1) of
        (texts, items) \<Rightarrow> (texts, q1\<lparr>pq_pending := [], pq_items := items\<rparr>))"

fun deliver_ids ::
  "prompt_status \<Rightarrow> nat list \<Rightarrow> prompt_facts \<Rightarrow> queued_prompt list \<Rightarrow> str list \<times> prompt_facts \<times> queued_prompt list" where
  "deliver_ids st [] facts items = ([], facts, items)"
| "deliver_ids st (i # is) facts items =
     (case find_prompt i items of
        None \<Rightarrow> deliver_ids PromptDone is facts items
      | Some p \<Rightarrow>
          (case deliver_ids PromptDone is (merge_first_some (qp_facts p) facts) (set_status i st items) of
             (texts, facts', items') \<Rightarrow> (qp_text p # texts, facts', items')))"

definition queue_coalesce :: "prompt_queue \<Rightarrow> (str list \<times> prompt_facts) \<times> prompt_queue" where
  "queue_coalesce q =
     (if pq_pending q = [] \<or> pq_active q \<noteq> None then (([], no_prompt_facts), q)
      else case deliver_ids PromptInProgress (pq_pending q) no_prompt_facts (pq_items q) of
        (texts, facts, items) \<Rightarrow>
          ((texts, facts), q\<lparr>pq_active := Some (hd (pq_pending q)), pq_pending := [], pq_items := items\<rparr>))"

fun requeue_others :: "nat option \<Rightarrow> queued_prompt list \<Rightarrow> nat list \<Rightarrow> queued_prompt list \<times> nat list" where
  "requeue_others keep [] pending = ([], pending)"
| "requeue_others keep (p # ps) pending =
     (if qp_status p = PromptInProgress \<and> Some (qp_id p) \<noteq> keep then
        (case requeue_others keep ps (qp_id p # pending) of
           (ps', pending') \<Rightarrow> (p\<lparr>qp_status := PromptQueued\<rparr> # ps', pending'))
      else case requeue_others keep ps pending of (ps', pending') \<Rightarrow> (p # ps', pending'))"

definition queue_enforce_single_active :: "prompt_queue \<Rightarrow> prompt_queue" where
  "queue_enforce_single_active q =
     (let running = filter (\<lambda>p. qp_status p = PromptInProgress) (pq_items q);
          q1 = (if 1 < length running then
                  (let keep = Some (qp_id (hd running)) in
                   case requeue_others keep (pq_items q) (pq_pending q) of
                     (items, pending) \<Rightarrow> q\<lparr>pq_active := keep, pq_items := items, pq_pending := pending\<rparr>)
                else q)
      in case pq_active q1 of
           None \<Rightarrow> q1
         | Some i \<Rightarrow> q1\<lparr>pq_items := set_status i PromptInProgress (pq_items q1)\<rparr>)"

section \<open>The status line\<close>

datatype message_kind = MsgNeutral | MsgWarning | MsgNotice

record status_message =
  sm_line :: str
  sm_kind :: message_kind
  sm_written_at :: "nat option"

definition neutral_message_ttl :: nat where
  "neutral_message_ttl = 5000"

definition warning_message_ttl :: nat where
  "warning_message_ttl = 15000"

definition no_message :: status_message where
  "no_message = \<lparr>sm_line = [], sm_kind = MsgNeutral, sm_written_at = None\<rparr>"

definition message_of :: "message_kind \<Rightarrow> nat \<Rightarrow> str \<Rightarrow> status_message" where
  "message_of kind now line = \<lparr>sm_line = line, sm_kind = kind, sm_written_at = Some now\<rparr>"

definition message_expired :: "nat \<Rightarrow> status_message \<Rightarrow> bool" where
  "message_expired now m =
     (case sm_written_at m of
        None \<Rightarrow> False
      | Some t \<Rightarrow>
          (case sm_kind m of
             MsgNeutral \<Rightarrow> neutral_message_ttl \<le> now - t
           | MsgWarning \<Rightarrow> warning_message_ttl \<le> now - t
           | MsgNotice \<Rightarrow> False))"

record token_counts =
  tc_input :: "nat option"
  tc_output :: "nat option"
  tc_total :: "nat option"
  tc_session_total :: nat
  tc_window :: "nat option"

definition record_token_usage :: "nat \<Rightarrow> nat \<Rightarrow> nat option \<Rightarrow> token_counts \<Rightarrow> token_counts" where
  "record_token_usage input_tokens output_tokens total_tokens t =
     (let t1 = t\<lparr>tc_input := Some input_tokens, tc_output := Some output_tokens\<rparr> in
      case total_tokens of
        None \<Rightarrow> t1
      | Some n \<Rightarrow> t1\<lparr>tc_total := Some n, tc_session_total := sat_add (tc_session_total t1) n\<rparr>)"

definition hydrate_latest_total_tokens :: "nat \<Rightarrow> token_counts \<Rightarrow> token_counts" where
  "hydrate_latest_total_tokens n t =
     (let t1 = t\<lparr>tc_total := Some n\<rparr> in
      if tc_session_total t1 < n then t1\<lparr>tc_session_total := n\<rparr> else t1)"

record identity =
  id_agent :: "str option"
  id_model :: str
  id_persona_icon :: "str option"
  id_cycle_names :: "str list"

record status =
  st_message :: status_message
  st_tokens :: token_counts
  st_identity :: identity
  st_mcp :: mcp_panel

section \<open>Scrolling\<close>

datatype pane_focus = PaneTranscript | PaneInput

record rect =
  re_x :: nat
  re_y :: nat
  re_width :: nat
  re_height :: nat

record scroll =
  so_offset :: nat
  so_following :: bool
  so_cursor :: nat
  so_viewport :: nat
  so_max :: nat
  so_total :: nat
  so_selection :: "(nat \<times> nat) option"
  so_pane :: pane_focus
  so_area :: rect

datatype scroll_action =
    LineUp bool | LineDown bool | PageUp bool | PageDown bool | ToTop bool | ToBottom bool
  | WheelUp bool | WheelDown bool | FocusLeft | FocusRight

definition transcript_page_lines :: nat where
  "transcript_page_lines = 8"

definition wheel_lines :: nat where
  "wheel_lines = 3"

definition leave_tail :: "scroll \<Rightarrow> scroll" where
  "leave_tail s = (if so_following s then s\<lparr>so_offset := so_max s, so_following := False\<rparr> else s)"

definition select_cursor :: "bool \<Rightarrow> nat \<Rightarrow> scroll \<Rightarrow> scroll" where
  "select_cursor select row s =
     (if select then s\<lparr>so_selection := map_option (\<lambda>(anchor, c). (anchor, row)) (so_selection s)\<rparr> else s)"

definition scroll_margin :: "scroll \<Rightarrow> nat" where
  "scroll_margin s = max (so_viewport s div 3) 1"

text \<open>The moves of the cursor up and down by \<open>n\<close> rows, the viewport following it at its margin.\<close>

definition scroll_up_by :: "nat \<Rightarrow> bool \<Rightarrow> scroll \<Rightarrow> scroll" where
  "scroll_up_by n select s =
     (let s1 = leave_tail s;
          row = so_cursor s1 - n;
          s2 = select_cursor select row (s1\<lparr>so_cursor := row\<rparr>)
      in if row < so_offset s2 + scroll_margin s2 then s2\<lparr>so_offset := so_offset s2 - n\<rparr> else s2)"

definition scroll_down_by :: "nat \<Rightarrow> bool \<Rightarrow> scroll \<Rightarrow> scroll" where
  "scroll_down_by n select s =
     (let s1 = leave_tail s;
          row = min (sat_add (so_cursor s1) n) (so_total s1 - 1);
          s2 = select_cursor select row (s1\<lparr>so_cursor := row\<rparr>);
          bottom = sat_add (so_offset s2) (so_viewport s2) - scroll_margin s2
      in if bottom \<le> row then s2\<lparr>so_offset := sat_add (so_offset s2) n\<rparr> else s2)"

definition scroll_to_top :: "bool \<Rightarrow> scroll \<Rightarrow> scroll" where
  "scroll_to_top select s = select_cursor select 0 ((leave_tail s)\<lparr>so_cursor := 0, so_offset := 0\<rparr>)"

definition scroll_transcript_to_bottom :: "scroll \<Rightarrow> scroll" where
  "scroll_transcript_to_bottom s = s\<lparr>so_following := True\<rparr>"

definition scroll_to_bottom :: "bool \<Rightarrow> scroll \<Rightarrow> scroll" where
  "scroll_to_bottom select s =
     scroll_transcript_to_bottom
       (select_cursor select (so_total s - 1) (s\<lparr>so_cursor := so_total s - 1\<rparr>))"

definition scroll_snapshot :: "scroll \<Rightarrow> nat \<times> bool \<times> nat" where
  "scroll_snapshot s = (so_cursor s, so_following s, min (so_offset s) (so_max s))"

definition scroll_wheel_up :: "bool \<Rightarrow> scroll \<Rightarrow> bool \<times> scroll" where
  "scroll_wheel_up select s =
     (let s1 = (scroll_up_by 1 select ^^ wheel_lines) s in (scroll_snapshot s \<noteq> scroll_snapshot s1, s1))"

definition scroll_wheel_down :: "bool \<Rightarrow> scroll \<Rightarrow> bool \<times> scroll" where
  "scroll_wheel_down select s =
     (let s1 = (scroll_down_by 1 select ^^ wheel_lines) s;
          s2 = (if so_cursor s1 = so_total s1 - 1 then s1\<lparr>so_following := True\<rparr> else s1)
      in (scroll_snapshot s \<noteq> scroll_snapshot s2, s2))"

definition other_pane :: "pane_focus \<Rightarrow> pane_focus" where
  "other_pane p = (case p of PaneTranscript \<Rightarrow> PaneInput | PaneInput \<Rightarrow> PaneTranscript)"

definition reduce_scroll_action :: "scroll_action \<Rightarrow> scroll \<Rightarrow> bool \<times> scroll" where
  "reduce_scroll_action a s =
     (case a of
        LineUp sel \<Rightarrow> (True, scroll_up_by 1 sel s)
      | LineDown sel \<Rightarrow> (True, scroll_down_by 1 sel s)
      | PageUp sel \<Rightarrow> (True, scroll_up_by (max transcript_page_lines 1) sel s)
      | PageDown sel \<Rightarrow> (True, scroll_down_by (max transcript_page_lines 1) sel s)
      | ToTop sel \<Rightarrow> (True, scroll_to_top sel s)
      | ToBottom sel \<Rightarrow> (True, scroll_to_bottom sel s)
      | WheelUp sel \<Rightarrow> scroll_wheel_up sel s
      | WheelDown sel \<Rightarrow> scroll_wheel_down sel s
      | FocusLeft \<Rightarrow> (True, s\<lparr>so_pane := other_pane (so_pane s)\<rparr>)
      | FocusRight \<Rightarrow> (True, s\<lparr>so_pane := other_pane (so_pane s)\<rparr>))"

definition sync_after_render :: "nat \<Rightarrow> scroll \<Rightarrow> nat \<times> scroll" where
  "sync_after_render total_rows s =
     (let max_scroll = total_rows - so_viewport s;
          s1 = s\<lparr>so_total := total_rows, so_max := max_scroll\<rparr>
      in (max_scroll,
          if so_following s1 then select_cursor True (total_rows - 1) (s1\<lparr>so_cursor := total_rows - 1\<rparr>)
          else s1))"

definition contains_transcript_point :: "nat \<Rightarrow> nat \<Rightarrow> scroll \<Rightarrow> bool" where
  "contains_transcript_point column row s =
     (let a = so_area s in
      re_x a \<le> column \<and> column < min (re_x a + re_width a) 65535 \<and>
      re_y a \<le> row \<and> row < min (re_y a + re_height a) 65535)"

definition yank_range :: "scroll \<Rightarrow> (nat \<times> nat) option \<times> scroll" where
  "yank_range s =
     (map_option (\<lambda>(anchor, c). (min anchor c, max anchor c)) (so_selection s), s\<lparr>so_selection := None\<rparr>)"

section \<open>The input mode\<close>

datatype input_mode = ModeInsert | ModeNormal | ModeVisual

record input_state =
  in_mode :: input_mode
  in_history_index :: "nat option"
  in_history_saved :: str
  in_pending_j :: "nat option"
  in_exit_expiry :: nat
  in_pending_key :: "str option"
  in_submit_text :: "str option"
  in_restored :: "str option"
  in_clipboard :: "str option"

definition input_enter :: "input_mode \<Rightarrow> input_state \<Rightarrow> input_state" where
  "input_enter mode i = i\<lparr>in_mode := mode, in_pending_j := None, in_pending_key := None\<rparr>"

definition exit_pending_j :: "nat \<Rightarrow> input_state \<Rightarrow> bool" where
  "exit_pending_j now i = (case in_pending_j i of None \<Rightarrow> False | Some t \<Rightarrow> now - t < in_exit_expiry i)"

definition take_pending_key_if :: "str \<Rightarrow> input_state \<Rightarrow> bool \<times> input_state" where
  "take_pending_key_if k i = (in_pending_key i = Some k, i\<lparr>in_pending_key := None\<rparr>)"

text \<open>The history; an index past the history is the panic of the code's indexing.\<close>

definition history_up :: "str list \<Rightarrow> str \<Rightarrow> input_state \<Rightarrow> (str option \<times> input_state) option" where
  "history_up submitted buffer i =
     (if submitted = [] then Some (None, i)
      else
        (let i1 = (if in_history_index i = None then i\<lparr>in_history_saved := buffer\<rparr> else i);
             k = (case in_history_index i1 of None \<Rightarrow> length submitted - 1 | Some n \<Rightarrow> n - 1)
         in if k < length submitted then Some (Some (submitted ! k), i1\<lparr>in_history_index := Some k\<rparr>) else None))"

definition history_down :: "str list \<Rightarrow> input_state \<Rightarrow> str option \<times> input_state" where
  "history_down submitted i =
     (case in_history_index i of
        None \<Rightarrow> (None, i)
      | Some k \<Rightarrow>
          (if length submitted \<le> k + 1
           then (Some (in_history_saved i), i\<lparr>in_history_index := None, in_history_saved := []\<rparr>)
           else (Some (submitted ! (k + 1)), i\<lparr>in_history_index := Some (k + 1)\<rparr>)))"

section \<open>The permission card\<close>

record permission_prompt =
  pp_request_id :: str
  pp_matched_rule_identity :: str
  pp_tool :: str
  pp_source :: str
  pp_mode :: "str option"
  pp_scope :: str
  pp_pattern :: str
  pp_target_field :: "str option"
  pp_summary :: str

definition prompt_from_context :: "str \<Rightarrow> request_context \<Rightarrow> permission_prompt" where
  "prompt_from_context i c =
     \<lparr>pp_request_id = i, pp_matched_rule_identity = rc_matched_rule_identity c, pp_tool = rc_tool c,
      pp_source = rc_source c, pp_mode = rc_mode c, pp_scope = rc_scope c, pp_pattern = rc_pattern c,
      pp_target_field = rc_target_field c, pp_summary = rc_summary c\<rparr>"

type_synonym decision_submission = "str \<times> protocol_decision \<times> str"

record card =
  cd_prompt :: "permission_prompt option"
  cd_decisions :: "decision_submission list"

definition has_prompt :: "card \<Rightarrow> bool" where
  "has_prompt c \<longleftrightarrow> cd_prompt c \<noteq> None"

definition close_prompt_if :: "str \<Rightarrow> card \<Rightarrow> bool \<times> card" where
  "close_prompt_if i c =
     (case cd_prompt c of
        None \<Rightarrow> (False, c)
      | Some p \<Rightarrow> if pp_request_id p = i then (True, c\<lparr>cd_prompt := None\<rparr>) else (False, c))"

definition submit_decision :: "protocol_decision \<Rightarrow> card \<Rightarrow> bool \<times> card" where
  "submit_decision d c =
     (case cd_prompt c of
        None \<Rightarrow> (False, c)
      | Some p \<Rightarrow>
          (True, c\<lparr>cd_decisions := cd_decisions c @ [(pp_request_id p, d, pp_matched_rule_identity p)],
                   cd_prompt := None\<rparr>))"

section \<open>Tool calls\<close>

datatype call_status = CallInProgress | CallDone | CallFailed | CallUnknown

record call_line =
  cl_id :: nat
  cl_status :: call_status
  cl_key :: str
  cl_block :: "nat option"

record tool_state =
  tl_calls :: "call_line list"
  tl_active :: "str \<rightharpoonup> nat list"
  tl_next :: nat

definition new_tools :: tool_state where
  "new_tools = \<lparr>tl_calls = [], tl_active = Map.empty, tl_next = 1\<rparr>"

definition book_start :: "str \<Rightarrow> nat \<Rightarrow> tool_state \<Rightarrow> tool_state" where
  "book_start key block t =
     (let i = tl_next t in
      t\<lparr>tl_next := sat_add i 1,
        tl_calls := tl_calls t @ [\<lparr>cl_id = i, cl_status = CallInProgress, cl_key = key, cl_block = Some block\<rparr>],
        tl_active := (tl_active t)(key \<mapsto> (case tl_active t key of None \<Rightarrow> [] | Some ids \<Rightarrow> ids) @ [i])\<rparr>)"

definition start_tool_call :: "(transcript_entry \<Rightarrow> nat \<Rightarrow> nat) \<Rightarrow> ui_call \<Rightarrow> tool_state \<times> tstore \<Rightarrow> tool_state \<times> tstore" where
  "start_tool_call ms call ts =
     (case ts of (t, s) \<Rightarrow>
        (case push_entry ms (ToolRow \<lparr>tr_kind = kind_from_name (uc_name call), tr_call = call, tr_preview = None,
                                      tr_result = None, tr_status = ItemInProgress\<rparr>) s of
           (evicted, s1) \<Rightarrow> (book_start (uc_id call) (length (ts_entries s1) - 1 + evicted) t, s1)))"

definition set_tool_preview ::
  "(transcript_entry \<Rightarrow> nat \<Rightarrow> nat) \<Rightarrow> str \<Rightarrow> tool_display \<Rightarrow> tool_state \<Rightarrow> tstore \<Rightarrow> bool \<times> tstore" where
  "set_tool_preview ms key preview t s =
     (case Option.bind (find (\<lambda>c. cl_key c = key) (rev (tl_calls t))) cl_block of
        None \<Rightarrow> (False, s)
      | Some i \<Rightarrow> set_tool_preview_at ms i preview s)"

definition set_preview_for_key ::
  "(transcript_entry \<Rightarrow> nat \<Rightarrow> nat) \<Rightarrow> str \<Rightarrow> tool_display \<Rightarrow> tool_state \<Rightarrow> tstore \<Rightarrow> bool \<times> tstore" where
  "set_preview_for_key ms key preview t s =
     (case find (\<lambda>c. cl_status c = CallInProgress \<and> cl_key c = key) (rev (tl_calls t)) of
        None \<Rightarrow> (False, s)
      | Some c \<Rightarrow> set_tool_preview ms (cl_key c) preview t s)"

definition item_of_status :: "tool_status option \<Rightarrow> item_status" where
  "item_of_status st =
     (case st of Some StatusSuccess \<Rightarrow> ItemDone | Some StatusFailed \<Rightarrow> ItemFailed
      | Some StatusCancelled \<Rightarrow> ItemCancelled | None \<Rightarrow> ItemUnknown)"

definition call_of_success :: "bool option \<Rightarrow> call_status" where
  "call_of_success ok =
     (case ok of Some True \<Rightarrow> CallDone | Some False \<Rightarrow> CallFailed | None \<Rightarrow> CallUnknown)"

fun set_call_status :: "nat \<Rightarrow> call_status \<Rightarrow> call_line list \<Rightarrow> call_line list" where
  "set_call_status i st [] = []"
| "set_call_status i st (c # cs) =
     (if cl_id c = i then c\<lparr>cl_status := st\<rparr> # cs else c # set_call_status i st cs)"

definition stamp_status :: "nat \<Rightarrow> item_status \<Rightarrow> transcript_entry list \<Rightarrow> transcript_entry list" where
  "stamp_status i st es =
     (if i < length es then
        (case es ! i of ToolRow t \<Rightarrow> es[i := ToolRow (t\<lparr>tr_status := st\<rparr>)] | _ \<Rightarrow> es)
      else es)"

definition pop_active :: "str \<Rightarrow> (str \<rightharpoonup> nat list) \<Rightarrow> nat option \<times> (str \<rightharpoonup> nat list)" where
  "pop_active key m =
     (case m key of
        None \<Rightarrow> (None, m)
      | Some [] \<Rightarrow> (None, m(key := None))
      | Some (i # ids) \<Rightarrow> (Some i, if ids = [] then m(key := None) else m(key \<mapsto> ids)))"

definition finish_tool_call ::
  "str \<Rightarrow> tool_status option \<Rightarrow> tool_state \<times> tstore \<Rightarrow> nat option \<times> tool_state \<times> tstore" where
  "finish_tool_call key status ts =
     (case ts of (t, s) \<Rightarrow>
        (case pop_active key (tl_active t) of
           (popped, m) \<Rightarrow>
             (let t1 = t\<lparr>tl_active := m\<rparr>;
                  success = map_option (\<lambda>st. st = StatusSuccess) status
              in case popped of
                   None \<Rightarrow> (None, t1, s)
                 | Some i \<Rightarrow>
                     (case find (\<lambda>c. cl_id c = i) (tl_calls t1) of
                        None \<Rightarrow> (None, t1, s)
                      | Some c \<Rightarrow>
                          (let t2 = t1\<lparr>tl_calls := set_call_status i (call_of_success success) (tl_calls t1)\<rparr> in
                           (cl_block c, t2,
                            case cl_block c of
                              None \<Rightarrow> s
                            | Some b \<Rightarrow> s\<lparr>ts_entries := stamp_status b (item_of_status status) (ts_entries s)\<rparr>))))))"

definition complete_call ::
  "(transcript_entry \<Rightarrow> nat \<Rightarrow> nat) \<Rightarrow> str \<Rightarrow> tool_status \<Rightarrow> tool_display option \<Rightarrow> tool_state \<times> tstore \<Rightarrow>
   tool_state \<times> tstore" where
  "complete_call ms key status display ts =
     (case finish_tool_call key (Some status) ts of
        (block, t, s) \<Rightarrow>
          (t, case (display, block) of (Some d, Some b) \<Rightarrow> snd (set_tool_result_at ms b d s) | _ \<Rightarrow> s))"

definition shift_calls :: "nat \<Rightarrow> tool_state \<Rightarrow> tool_state" where
  "shift_calls n t =
     (if n = 0 then t
      else t\<lparr>tl_calls := map (\<lambda>c. c\<lparr>cl_block := shifted n (cl_block c)\<rparr>) (tl_calls t)\<rparr>)"

end
