(* ===== verification/Tui_App.thy ===== *)
theory Tui_App
  imports Tui_State Hydration
begin

text \<open>
  The root of the terminal interface's state (\<open>crates/agnt-tui/src/state/app_state.rs\<close>) and its
  lifecycle (\<open>lifecycle.rs\<close>): submitting and taking prompts, arming and dropping an abort, the invariants
  every transition restores, and the domains of the model's reply (\<open>llm.rs\<close>), of compaction
  (\<open>compaction.rs\<close>) and of the turn (\<open>turn.rs\<close>).
\<close>

section \<open>The state\<close>

datatype ui_phase = UiIdle | UiBusy | UiAbortPending

record abort =
  ab_pending :: bool
  ab_marker :: nat
  ab_settle_notice :: bool
  ab_armed_at :: "nat option"
  ab_window :: nat

datatype theme_name = Mocha | Latte | Frappe | Macchiato

datatype compaction_status = CompactionInProgress | CompactionDone | CompactionFailed

type_synonym compaction_line = "str \<times> compaction_status"

type_synonym immediate_submission = "str \<times> prompt_facts"

record app =
  ap_phase :: ui_phase
  ap_input_locked :: bool
  ap_abort :: abort
  ap_transcript :: tstore
  ap_input :: input_state
  ap_scroll :: scroll
  ap_quit_requested :: bool
  ap_quit_confirm_since :: "nat option"
  ap_quit_confirm_window :: nat
  ap_picker :: pickers
  ap_switches :: "switch_request list"
  ap_launches :: "shared_ui_action list"
  ap_theme_persist :: "str list"
  ap_session_refresh :: bool
  ap_agent_refresh :: bool
  ap_panel :: "info_panel option"
  ap_panel_scroll :: nat
  ap_card :: card
  ap_status :: status
  ap_queue :: prompt_queue
  ap_immediate :: "immediate_submission list"
  ap_active_cycle :: bool
  ap_tool :: tool_state
  ap_blocks :: "compaction_line list"
  ap_theme :: theme_name

text \<open>
  What the interface relies on: the backend's measure, the lines the markdown projection gives a text, and
  the text the painted rows of a selection hold.
\<close>

record tui_env =
  tv_measure :: "transcript_entry \<Rightarrow> nat \<Rightarrow> nat"
  tv_markdown :: "str \<Rightarrow> str list"
  tv_painted :: "transcript_entry list \<Rightarrow> nat \<Rightarrow> nat \<Rightarrow> nat \<Rightarrow> str"

text \<open>The clock of an event: the monotone instant and the wall clock.\<close>

record clock =
  ck_now :: nat
  ck_wall :: int

definition new_panel :: mcp_panel where
  "new_panel = \<lparr>mp_servers = [], mp_selection = 0, mp_query = [], mp_visible_count = 0, mp_counts = Map.empty,
     mp_names = Map.empty, mp_reasons = Map.empty, mp_toggles = []\<rparr>"

definition new_app :: app where
  "new_app =
     \<lparr>ap_phase = UiIdle, ap_input_locked = False,
      ap_abort = \<lparr>ab_pending = False, ab_marker = 0, ab_settle_notice = False, ab_armed_at = None,
                  ab_window = neutral_message_ttl\<rparr>,
      ap_transcript = new_store,
      ap_input = \<lparr>in_mode = ModeInsert, in_history_index = None, in_history_saved = [], in_pending_j = None,
                  in_exit_expiry = 500, in_pending_key = None, in_submit_text = None, in_restored = None,
                  in_clipboard = None\<rparr>,
      ap_scroll = \<lparr>so_offset = 0, so_following = True, so_cursor = 0, so_viewport = 0, so_max = 0, so_total = 0,
                   so_selection = None, so_pane = PaneInput,
                   so_area = \<lparr>re_x = 0, re_y = 0, re_width = 0, re_height = 0\<rparr>\<rparr>,
      ap_quit_requested = False, ap_quit_confirm_since = None, ap_quit_confirm_window = 5000,
      ap_picker = new_pickers, ap_switches = [], ap_launches = [], ap_theme_persist = [],
      ap_session_refresh = False, ap_agent_refresh = False, ap_panel = None, ap_panel_scroll = 0,
      ap_card = \<lparr>cd_prompt = None, cd_decisions = []\<rparr>,
      ap_status = \<lparr>st_message = no_message,
                   st_tokens = \<lparr>tc_input = None, tc_output = None, tc_total = None, tc_session_total = 0, tc_window = None\<rparr>,
                   st_identity = \<lparr>id_agent = None, id_model = [], id_persona_icon = None, id_cycle_names = []\<rparr>,
                   st_mcp = new_panel\<rparr>,
      ap_queue = new_queue, ap_immediate = [], ap_active_cycle = False, ap_tool = new_tools, ap_blocks = [],
      ap_theme = Mocha\<rparr>"

section \<open>Updates of a part\<close>

definition on_abort :: "(abort \<Rightarrow> abort) \<Rightarrow> app \<Rightarrow> app" where
  "on_abort f s = s\<lparr>ap_abort := f (ap_abort s)\<rparr>"

definition on_store :: "(tstore \<Rightarrow> tstore) \<Rightarrow> app \<Rightarrow> app" where
  "on_store f s = s\<lparr>ap_transcript := f (ap_transcript s)\<rparr>"

definition on_input :: "(input_state \<Rightarrow> input_state) \<Rightarrow> app \<Rightarrow> app" where
  "on_input f s = s\<lparr>ap_input := f (ap_input s)\<rparr>"

definition on_scroll :: "(scroll \<Rightarrow> scroll) \<Rightarrow> app \<Rightarrow> app" where
  "on_scroll f s = s\<lparr>ap_scroll := f (ap_scroll s)\<rparr>"

definition on_picker :: "(pickers \<Rightarrow> pickers) \<Rightarrow> app \<Rightarrow> app" where
  "on_picker f s = s\<lparr>ap_picker := f (ap_picker s)\<rparr>"

definition on_card :: "(card \<Rightarrow> card) \<Rightarrow> app \<Rightarrow> app" where
  "on_card f s = s\<lparr>ap_card := f (ap_card s)\<rparr>"

definition on_status :: "(status \<Rightarrow> status) \<Rightarrow> app \<Rightarrow> app" where
  "on_status f s = s\<lparr>ap_status := f (ap_status s)\<rparr>"

definition on_message :: "(status_message \<Rightarrow> status_message) \<Rightarrow> app \<Rightarrow> app" where
  "on_message f = on_status (\<lambda>st. st\<lparr>st_message := f (st_message st)\<rparr>)"

definition on_tokens :: "(token_counts \<Rightarrow> token_counts) \<Rightarrow> app \<Rightarrow> app" where
  "on_tokens f = on_status (\<lambda>st. st\<lparr>st_tokens := f (st_tokens st)\<rparr>)"

definition on_identity :: "(identity \<Rightarrow> identity) \<Rightarrow> app \<Rightarrow> app" where
  "on_identity f = on_status (\<lambda>st. st\<lparr>st_identity := f (st_identity st)\<rparr>)"

definition on_mcp :: "(mcp_panel \<Rightarrow> mcp_panel) \<Rightarrow> app \<Rightarrow> app" where
  "on_mcp f = on_status (\<lambda>st. st\<lparr>st_mcp := f (st_mcp st)\<rparr>)"

definition on_queue :: "(prompt_queue \<Rightarrow> prompt_queue) \<Rightarrow> app \<Rightarrow> app" where
  "on_queue f s = s\<lparr>ap_queue := f (ap_queue s)\<rparr>"

definition set_message :: "nat \<Rightarrow> str \<Rightarrow> app \<Rightarrow> app" where
  "set_message now line = on_message (\<lambda>m. message_of MsgNeutral now line)"

definition clear_message :: "app \<Rightarrow> app" where
  "clear_message = on_message (\<lambda>m. no_message)"

section \<open>The invariants\<close>

definition disarm :: "abort \<Rightarrow> abort" where
  "disarm a = a\<lparr>ab_pending := False, ab_armed_at := None\<rparr>"

definition disarm_abort :: "app \<Rightarrow> app" where
  "disarm_abort = on_abort disarm"

definition reset_abort :: "app \<Rightarrow> app" where
  "reset_abort s = on_abort (\<lambda>a. a\<lparr>ab_settle_notice := False\<rparr>) (disarm_abort s)"

definition cycle_of :: "prompt_queue \<Rightarrow> bool" where
  "cycle_of q \<longleftrightarrow> pq_active q \<noteq> None \<or> pq_pending q \<noteq> []"

definition ensure_invariants :: "app \<Rightarrow> app" where
  "ensure_invariants s =
     (let armed = (ap_phase s = UiAbortPending \<and> ab_pending (ap_abort s));
          s1 = (if ap_phase s = UiAbortPending \<and> \<not> ap_active_cycle s
                then disarm_abort (s\<lparr>ap_phase := UiIdle\<rparr>) else s);
          s2 = (if ap_phase s1 \<noteq> UiAbortPending then disarm_abort s1 else s1);
          s3 = s2\<lparr>ap_active_cycle := cycle_of (ap_queue s2)\<rparr>;
          s4 = (if ap_phase s3 = UiIdle \<and> ap_active_cycle s3 then s3\<lparr>ap_phase := UiBusy\<rparr> else s3);
          s5 = (if ap_phase s4 = UiAbortPending \<and> \<not> ap_active_cycle s4
                then disarm_abort (s4\<lparr>ap_phase := UiIdle\<rparr>) else s4);
          s6 = (if armed \<and> \<not> (ap_phase s5 = UiAbortPending \<and> ab_pending (ap_abort s5))
                then on_abort (\<lambda>a. a\<lparr>ab_settle_notice := True\<rparr>) s5 else s5)
      in on_queue queue_enforce_single_active (on_mcp (panel_move row_clamp) (on_picker clamp_selections s6)))"

section \<open>Submitting\<close>

definition accept_submit :: "app \<Rightarrow> app" where
  "accept_submit s =
     ensure_invariants (reset_abort (s\<lparr>ap_phase := UiBusy, ap_active_cycle := cycle_of (ap_queue s)\<rparr>))"

definition submit_facts :: "clock \<Rightarrow> app \<Rightarrow> prompt_facts" where
  "submit_facts ck s =
     \<lparr>pf_millis = Some (ck_wall ck), pf_model = Some (id_model (st_identity (ap_status s))),
      pf_agent = id_agent (st_identity (ap_status s))\<rparr>"

definition enqueue_prompt_with_facts :: "str \<Rightarrow> prompt_facts \<Rightarrow> app \<Rightarrow> app" where
  "enqueue_prompt_with_facts text_in facts s =
     accept_submit (on_queue (\<lambda>q. snd (queue_enqueue text_in facts q)) s)"

definition enqueue_immediate :: "str \<Rightarrow> prompt_facts \<Rightarrow> app \<Rightarrow> app" where
  "enqueue_immediate text_in facts s =
     ensure_invariants (reset_abort (s\<lparr>ap_immediate := ap_immediate s @ [(text_in, facts)]\<rparr>))"

definition shift_bookkeeping :: "nat \<Rightarrow> app \<Rightarrow> app" where
  "shift_bookkeeping n s = s\<lparr>ap_tool := shift_calls n (ap_tool s)\<rparr>"

text \<open>An entry pushed outside an event, whose evictions shift the calls at once.\<close>

definition push_and_shift :: "tui_env \<Rightarrow> transcript_entry \<Rightarrow> app \<Rightarrow> app" where
  "push_and_shift env e s =
     (case push_entry (tv_measure env) e (ap_transcript s) of
        (evicted, store) \<Rightarrow> shift_bookkeeping evicted (s\<lparr>ap_transcript := store\<rparr>))"

definition user_row :: "str \<Rightarrow> prompt_facts \<Rightarrow> transcript_entry" where
  "user_row text_in facts =
     MessageRow \<lparr>mr_role = ByUser, mr_markdown = text_in, mr_millis = pf_millis facts, mr_model = pf_model facts,
                 mr_agent = pf_agent facts\<rparr>"

definition start_cycle :: "app \<Rightarrow> app" where
  "start_cycle s = ensure_invariants (reset_abort (s\<lparr>ap_phase := UiBusy, ap_active_cycle := True\<rparr>))"

definition take_next_prompt :: "tui_env \<Rightarrow> app \<Rightarrow> str option \<times> app" where
  "take_next_prompt env s =
     (case ap_immediate s of
        (text_in, facts) # rest \<Rightarrow> (Some text_in, ensure_invariants (s\<lparr>ap_immediate := rest\<rparr>))
      | [] \<Rightarrow>
          (case queue_coalesce (ap_queue s) of
             ((texts, facts), q) \<Rightarrow>
               (let s1 = s\<lparr>ap_queue := q\<rparr> in
                if texts = [] then (None, ensure_invariants s1)
                else
                  (let combined = join newline texts in
                   (Some combined, start_cycle (push_and_shift env (user_row combined facts) s1))))))"

definition activate_next_prompt :: "tui_env \<Rightarrow> app \<Rightarrow> nat option \<times> app" where
  "activate_next_prompt env s =
     (case queue_activate_next (ap_queue s) of
        (None, q) \<Rightarrow> (None, ensure_invariants (s\<lparr>ap_queue := q\<rparr>))
      | (Some i, q) \<Rightarrow>
          (let p = (case find_prompt i (pq_items q) of
                      None \<Rightarrow> \<lparr>qp_id = i, qp_text = [], qp_status = PromptInProgress, qp_facts = no_prompt_facts\<rparr>
                    | Some p \<Rightarrow> p) in
           (Some i, start_cycle (push_and_shift env (user_row (qp_text p) (qp_facts p)) (s\<lparr>ap_queue := q\<rparr>)))))"

section \<open>Ending a turn\<close>

definition complete_active_prompt :: "app \<Rightarrow> app" where
  "complete_active_prompt s =
     (let s1 = on_queue queue_complete_active s;
          s2 = (if ap_phase s1 = UiAbortPending \<and> ab_pending (ap_abort s1)
                then on_abort (\<lambda>a. a\<lparr>ab_settle_notice := True\<rparr>) s1 else s1)
      in ensure_invariants (disarm_abort (s2\<lparr>ap_phase := UiIdle, ap_input_locked := False, ap_active_cycle := False\<rparr>)))"

definition request_abort_confirmation :: "nat \<Rightarrow> app \<Rightarrow> bool \<times> app" where
  "request_abort_confirmation now s =
     (if \<not> (cycle_of (ap_queue s) \<or> ap_active_cycle s) then (False, ensure_invariants s)
      else
        (True, ensure_invariants
           (on_abort (\<lambda>a. a\<lparr>ab_pending := True, ab_armed_at := Some now, ab_marker := sat_add (ab_marker a) 1,
                            ab_settle_notice := False\<rparr>)
              (s\<lparr>ap_phase := UiAbortPending\<rparr>))))"

definition arm_live :: "nat \<Rightarrow> abort \<Rightarrow> bool" where
  "arm_live now a = (case ab_armed_at a of None \<Rightarrow> False | Some t \<Rightarrow> now - t < ab_window a)"

definition sweep_expired_abort :: "nat \<Rightarrow> app \<Rightarrow> bool \<times> app" where
  "sweep_expired_abort now s =
     (case ab_armed_at (ap_abort s) of
        None \<Rightarrow> (False, s)
      | Some t \<Rightarrow>
          (if now - t < ab_window (ap_abort s) then (False, s)
           else (True, (disarm_abort s)\<lparr>ap_phase := (if ap_active_cycle s then UiBusy else UiIdle)\<rparr>)))"

definition cancel_and_restore :: "app \<Rightarrow> app" where
  "cancel_and_restore s =
     (case queue_cancel_and_drain (ap_queue s) of
        (texts, q) \<Rightarrow>
          (let s1 = on_input (\<lambda>i. i\<lparr>in_restored := (if texts = [] then None else Some (join (newline @ newline) texts))\<rparr>)
                      (s\<lparr>ap_queue := q\<rparr>)
           in ensure_invariants
                (reset_abort (s1\<lparr>ap_phase := UiIdle, ap_input_locked := False, ap_active_cycle := False\<rparr>))))"

section \<open>Quitting\<close>

definition ctrl_c_quit_confirm_status :: str where
  "ctrl_c_quit_confirm_status = ''Ctrl-C again to quit''"

definition request_quit_if_idle :: "app \<Rightarrow> app" where
  "request_quit_if_idle s = (if ap_phase s = UiIdle then s\<lparr>ap_quit_requested := True\<rparr> else s)"

definition arm_quit_confirmation :: "nat \<Rightarrow> app \<Rightarrow> app" where
  "arm_quit_confirmation now s = set_message now ctrl_c_quit_confirm_status (s\<lparr>ap_quit_confirm_since := Some now\<rparr>)"

definition quit_confirmation_armed :: "nat \<Rightarrow> app \<Rightarrow> bool" where
  "quit_confirmation_armed now s =
     (case ap_quit_confirm_since s of None \<Rightarrow> False | Some t \<Rightarrow> now - t < ap_quit_confirm_window s)"

definition disarm_quit_confirmation :: "nat \<Rightarrow> app \<Rightarrow> bool \<times> app" where
  "disarm_quit_confirmation now s =
     (let armed = quit_confirmation_armed now s; s1 = s\<lparr>ap_quit_confirm_since := None\<rparr> in
      if armed \<and> sm_line (st_message (ap_status s1)) = ctrl_c_quit_confirm_status
      then (True, clear_message s1) else (False, s1))"

section \<open>Modes, panels and pickers\<close>

definition enter_insert_mode :: "app \<Rightarrow> app" where
  "enter_insert_mode s = on_scroll (\<lambda>c. c\<lparr>so_pane := PaneInput\<rparr>) (on_input (input_enter ModeInsert) s)"

definition enter_normal_mode :: "app \<Rightarrow> app" where
  "enter_normal_mode s = on_scroll (\<lambda>c. c\<lparr>so_pane := PaneTranscript\<rparr>) (on_input (input_enter ModeNormal) s)"

definition open_info_panel :: "info_panel \<Rightarrow> app \<Rightarrow> app" where
  "open_info_panel p s = (on_picker close_pickers s)\<lparr>ap_panel := Some p, ap_panel_scroll := 0\<rparr>"

definition close_info_panel :: "app \<Rightarrow> app" where
  "close_info_panel s = s\<lparr>ap_panel := None, ap_panel_scroll := 0\<rparr>"

definition set_picker_options :: "active_picker \<Rightarrow> picker_option list \<Rightarrow> app \<Rightarrow> app" where
  "set_picker_options kind opts s =
     ensure_invariants (on_picker (set_options kind (stable_sort_by po_sort_key opts)) s)"

definition has_agents_to_cycle :: "app \<Rightarrow> bool" where
  "has_agents_to_cycle s \<longleftrightarrow> 2 \<le> length (id_cycle_names (st_identity (ap_status s)))"

definition next_agent_cycle_name :: "app \<Rightarrow> str option" where
  "next_agent_cycle_name s =
     (if \<not> has_agents_to_cycle s then None
      else
        (let names = id_cycle_names (st_identity (ap_status s));
             current = (case id_agent (st_identity (ap_status s)) of None \<Rightarrow> [] | Some a \<Rightarrow> a);
             i = (case find_index (\<lambda>n. n = current) names of None \<Rightarrow> 0 | Some i \<Rightarrow> i)
         in Some (names ! ((i + 1) mod length names))))"

definition queue_switch :: "switch_request \<Rightarrow> app \<Rightarrow> app" where
  "queue_switch r s = s\<lparr>ap_switches := ap_switches s @ [r]\<rparr>"

definition queue_cycle_agent :: "app \<Rightarrow> app" where
  "queue_cycle_agent s = (case next_agent_cycle_name s of None \<Rightarrow> s | Some n \<Rightarrow> queue_switch (ToAgent n) s)"

definition queue_launch :: "shared_ui_action \<Rightarrow> app \<Rightarrow> app" where
  "queue_launch a s = ensure_invariants (disarm_abort (s\<lparr>ap_launches := ap_launches s @ [a]\<rparr>))"

definition check_inline_slash :: "str \<Rightarrow> app \<Rightarrow> app" where
  "check_inline_slash buffer s =
     (case filter_inline_slash_suggestions buffer of
        [] \<Rightarrow> on_picker close_pickers s
      | cs \<Rightarrow> on_picker (\<lambda>p. set_options PickInlineSlash (slash_options cs) (open_picker PickInlineSlash p)) s)"

definition clear_transcript :: "app \<Rightarrow> app" where
  "clear_transcript s =
     on_tokens (\<lambda>t. t\<lparr>tc_input := None, tc_output := None, tc_total := None\<rparr>)
       (on_scroll (\<lambda>c. c\<lparr>so_offset := 0, so_following := True\<rparr>) (on_store clear_store s))"

section \<open>The model's reply\<close>

definition assistant_row :: "str \<Rightarrow> transcript_entry" where
  "assistant_row t =
     MessageRow \<lparr>mr_role = ByAssistant, mr_markdown = t, mr_millis = None, mr_model = None, mr_agent = None\<rparr>"

definition turn_stopped_notice :: str where
  "turn_stopped_notice = ''Turn stopped''"

definition on_assistant_start :: "nat option \<Rightarrow> app \<Rightarrow> app" where
  "on_assistant_start v = on_store (\<lambda>t. t\<lparr>ts_assistant_start := v\<rparr>)"

definition push_in_event :: "tui_env \<Rightarrow> transcript_entry \<Rightarrow> app \<Rightarrow> app" where
  "push_in_event env e = on_store (\<lambda>t. snd (push_entry (tv_measure env) e t))"

definition llm_started :: "app \<Rightarrow> app" where
  "llm_started s =
     (let s1 = (if ap_phase s = UiIdle then s\<lparr>ap_phase := UiBusy, ap_input_locked := True\<rparr> else s);
          s2 = (if sm_kind (st_message (ap_status s1)) = MsgNotice then clear_message s1 else s1)
      in on_assistant_start None s2)"

definition llm_stopped :: "tui_env \<Rightarrow> nat \<Rightarrow> str \<Rightarrow> app \<Rightarrow> bool \<times> app" where
  "llm_stopped env now reason s =
     (let trimmed = trim reason in
      if trimmed = [] then
        (False, on_assistant_start None
           (case ts_assistant_start (ap_transcript s) of
              None \<Rightarrow> s
            | Some start \<Rightarrow> on_store (truncate_store start) s))
      else if trimmed = turn_stopped_notice then
        (True, on_message (\<lambda>m. message_of MsgNotice now turn_stopped_notice) (on_assistant_start None s))
      else
        (True, push_in_event env (assistant_row trimmed)
           (on_scroll scroll_transcript_to_bottom (on_assistant_start None s))))"

definition diff_prefixed :: "str \<Rightarrow> bool" where
  "diff_prefixed line \<longleftrightarrow> prefix ''--- '' line \<or> prefix ''+++ '' line \<or> prefix ''@@ '' line"

definition has_diff_signature :: "str \<Rightarrow> bool" where
  "has_diff_signature t \<longleftrightarrow> list_ex diff_prefixed (split_char line_feed t)"

definition lane_bar :: str where
  "lane_bar = [CHR 0xE2, CHR 0x94, CHR 0x82]"

definition normalize_diff_line :: "str \<Rightarrow> str" where
  "normalize_diff_line line =
     (case str_find lane_bar line of
        None \<Rightarrow> line
      | Some i \<Rightarrow>
          (let rhs = concat (dropWhile is_ws (chars (drop (i + length lane_bar) line))) in
           if prefix ''+'' line then ''+'' @ rhs
           else if prefix ''-'' line then ''-'' @ rhs
           else '' '' @ rhs))"

text \<open>\<open>str::lines\<close>: split at line feeds, a last empty piece dropped, a carriage return before a feed dropped.\<close>

definition drop_cr :: "str \<Rightarrow> str" where
  "drop_cr l = (if l \<noteq> [] \<and> last l = CHR 0x0D then butlast l else l)"

definition lines_of :: "str \<Rightarrow> str list" where
  "lines_of t =
     (let ps = split_char line_feed t in
      map drop_cr (butlast ps) @ (if last ps = [] then [] else [last ps]))"

definition last_tool_diff_lines :: "transcript_entry list \<Rightarrow> str list option" where
  "last_tool_diff_lines es =
     (case find (\<lambda>e. case e of ToolRow t \<Rightarrow> True | _ \<Rightarrow> False) (rev es) of
        Some (ToolRow t) \<Rightarrow>
          (case (case tr_result t of None \<Rightarrow> tr_preview t | Some d \<Rightarrow> Some d) of
             None \<Rightarrow> None
           | Some d \<Rightarrow>
               (let ls = concat (map (\<lambda>sec. lines_of (sec_content sec))
                           (filter (\<lambda>sec. case sec_kind sec of Diff l p \<Rightarrow> True | _ \<Rightarrow> False) (td_sections d)))
                in if ls = [] then None else Some ls))
      | _ \<Rightarrow> None)"

definition comparable_lines :: "str list \<Rightarrow> str list" where
  "comparable_lines ls = filter (\<lambda>l. l \<noteq> []) (map (\<lambda>l. normalize_diff_line (trim l)) ls)"

definition diff_is_redundant :: "transcript_entry list \<Rightarrow> str list \<Rightarrow> bool" where
  "diff_is_redundant es assistant_lines =
     (case last_tool_diff_lines es of
        None \<Rightarrow> False
      | Some diff \<Rightarrow>
          (let candidate = comparable_lines assistant_lines; diff_lines = comparable_lines diff in
           candidate \<noteq> [] \<and> list_ex diff_prefixed candidate \<and>
           list_all (\<lambda>l. l \<in> set diff_lines \<or> to_ascii_lowercase l = ''dry-run diff'' \<or>
                         to_ascii_lowercase l = ''dry run diff'' \<or> suffix '':'' l) candidate))"

definition llm_chunk :: "tui_env \<Rightarrow> str \<Rightarrow> app \<Rightarrow> bool \<times> app" where
  "llm_chunk env aggregated s =
     (let trimmed = trim aggregated in
      if trimmed = [] then (False, s)
      else
        (let start = (case ts_assistant_start (ap_transcript s) of
                        None \<Rightarrow> length (ts_entries (ap_transcript s)) | Some n \<Rightarrow> n);
             s1 = on_store (truncate_store start) (on_assistant_start (Some start) s)
         in if has_diff_signature trimmed \<and>
               diff_is_redundant (ts_entries (ap_transcript s1)) (tv_markdown env trimmed)
            then (False, s1)
            else (True, push_in_event env (assistant_row trimmed) (on_scroll scroll_transcript_to_bottom s1))))"

section \<open>Compaction\<close>

definition compaction_task :: str where
  "compaction_task = ''Compaction''"

definition ensure_block :: "str \<Rightarrow> app \<Rightarrow> app" where
  "ensure_block src s =
     (if (src, CompactionInProgress) \<in> set (ap_blocks s) then s
      else s\<lparr>ap_blocks := ap_blocks s @ [(src, CompactionInProgress)]\<rparr>)"

definition open_task_of :: "str \<Rightarrow> transcript_entry \<Rightarrow> bool" where
  "open_task_of src e =
     (case e of TaskRow t \<Rightarrow> tk_summary t = src \<and> tk_status t = ItemInProgress | _ \<Rightarrow> False)"

definition ensure_task :: "tui_env \<Rightarrow> str \<Rightarrow> item_status \<Rightarrow> app \<Rightarrow> app" where
  "ensure_task env src st s =
     (if list_ex (open_task_of src) (ts_entries (ap_transcript s)) then s
      else push_in_event env (TaskRow \<lparr>tk_name = compaction_task, tk_summary = src, tk_status = st\<rparr>) s)"

definition start_block :: "tui_env \<Rightarrow> str \<Rightarrow> app \<Rightarrow> app" where
  "start_block env src s = ensure_task env src ItemInProgress (ensure_block src s)"

definition item_of_compaction :: "compaction_status \<Rightarrow> item_status" where
  "item_of_compaction st =
     (case st of CompactionInProgress \<Rightarrow> ItemInProgress | CompactionDone \<Rightarrow> ItemDone | CompactionFailed \<Rightarrow> ItemFailed)"

text \<open>The last index of an element with a property, and the list changed at the last one.\<close>

definition last_index_of :: "('a \<Rightarrow> bool) \<Rightarrow> 'a list \<Rightarrow> nat option" where
  "last_index_of p xs = map_option (\<lambda>i. length xs - 1 - i) (find_index p (rev xs))"

definition finish_block :: "tui_env \<Rightarrow> str \<Rightarrow> compaction_status \<Rightarrow> app \<Rightarrow> app" where
  "finish_block env src st s =
     (let s1 = (case last_index_of (open_task_of src) (ts_entries (ap_transcript s)) of
                  None \<Rightarrow> s
                | Some i \<Rightarrow>
                    on_store (\<lambda>t. remeasure_entry_at (tv_measure env) i
                      (t\<lparr>ts_entries := (ts_entries t)[i := (case ts_entries t ! i of
                            TaskRow k \<Rightarrow> TaskRow (k\<lparr>tk_status := item_of_compaction st\<rparr>) | e \<Rightarrow> e)]\<rparr>)) s)
      in case last_index_of (\<lambda>b. b = (src, CompactionInProgress)) (ap_blocks s1) of
           None \<Rightarrow> s1
         | Some i \<Rightarrow> s1\<lparr>ap_blocks := (ap_blocks s1)[i := (src, st)]\<rparr>)"

text \<open>The last index at which a text occurs.\<close>

definition str_rfind :: "str \<Rightarrow> str \<Rightarrow> nat option" where
  "str_rfind pat s = map_option (\<lambda>i. length s - length pat - i) (str_find (rev pat) (rev s))"

definition trim_end :: "str \<Rightarrow> str" where
  "trim_end s = concat (rev (dropWhile is_ws (rev (chars s))))"

definition fence :: str where
  "fence = [CHR 0x60, CHR 0x60, CHR 0x60]"

definition unwrap_single_fenced_block :: "str \<Rightarrow> str" where
  "unwrap_single_fenced_block t =
     (let trimmed = trim t in
      if trimmed = [] then trimmed
      else case str_find newline trimmed of
        None \<Rightarrow> trimmed
      | Some first_line_end \<Rightarrow>
          (let first_line = trim_end (take first_line_end trimmed); rest = drop first_line_end trimmed in
           if \<not> prefix fence first_line then trimmed
           else
             (let rest = (if prefix newline rest then drop 1 rest else rest) in
              case str_rfind (newline @ fence) rest of
                None \<Rightarrow> trim rest
              | Some close \<Rightarrow> trim (take close rest))))"

definition summary_chunk :: "tui_env \<Rightarrow> str \<Rightarrow> str \<Rightarrow> app \<Rightarrow> bool \<times> app" where
  "summary_chunk env src aggregated s =
     (let trimmed = trim aggregated in
      if trimmed = [] then (False, s)
      else
        (let s1 = start_block env src s;
             start = (case ts_summary_start (ap_transcript s1) of
                        None \<Rightarrow> length (ts_entries (ap_transcript s1)) | Some n \<Rightarrow> n);
             s2 = on_store (\<lambda>t. truncate_store start (t\<lparr>ts_summary_start := Some start\<rparr>)) s1
         in (True, push_in_event env (assistant_row (unwrap_single_fenced_block trimmed))
               (on_scroll scroll_transcript_to_bottom s2))))"

definition compaction_completed :: "tui_env \<Rightarrow> str \<Rightarrow> str \<Rightarrow> app \<Rightarrow> app" where
  "compaction_completed env src body s =
     (let s1 = finish_block env src CompactionDone (ensure_task env src ItemDone (ensure_block src s));
          shown = (if trim body = [] then ''(empty summary)'' else body);
          s2 = (case ts_summary_start (ap_transcript s1) of
                  None \<Rightarrow> s1 | Some start \<Rightarrow> on_store (truncate_store start) s1);
          s3 = (if trim shown = [] then s2 else push_in_event env (assistant_row (unwrap_single_fenced_block shown)) s2)
      in on_tokens (\<lambda>t. t\<lparr>tc_total := None\<rparr>)
           (clear_message (on_store (\<lambda>t. t\<lparr>ts_summary_start := None\<rparr>) s3)))"

definition compaction_failed :: "tui_env \<Rightarrow> str \<Rightarrow> str \<Rightarrow> app \<Rightarrow> app" where
  "compaction_failed env src message s =
     clear_message
       (push_in_event env (NoticeRow (''Compaction failed deterministically: '' @ message))
          (finish_block env src CompactionFailed (start_block env src s)))"

section \<open>The turn\<close>

definition turn_finalize :: "app \<Rightarrow> app" where
  "turn_finalize s =
     (let s1 = s\<lparr>ap_input_locked := False\<rparr>;
          s2 = (if sm_kind (st_message (ap_status s1)) = MsgNeutral then clear_message s1 else s1)
      in on_assistant_start None s2)"

end
