(* ===== verification/Tui_Reducer.thy ===== *)
theory Tui_Reducer
  imports Tui_App
begin

text \<open>
  The reducer of the terminal interface (\<open>crates/agnt-tui/src/interaction/reducer.rs\<close>, \<open>dispatch.rs\<close>,
  \<open>cancel.rs\<close>): what an event of the session does to its state, the keys and the surfaces that take them
  first, the drain of what it queued for the orchestrator (\<open>state/app_state.rs\<close>), and the restoring of a
  stored transcript by replay (\<open>state/hydration.rs\<close>).  The cancel flag is part of what an event is folded
  into; without a controller a request to cancel is lost.
\<close>

section \<open>Events\<close>

datatype system_kind = KindWarning | KindTurnError

datatype system_event =
    KeyPressed key
  | WheelScrolled bool nat nat
  | Resized nat nat
  | PermissionDecided protocol_decision
  | PromptSubmitted str prompt_facts
  | InferenceStarted
  | InferenceChunk str str
  | InferenceCompleted nat nat "nat option"
  | InferenceStopped str
  | ToolStarted ui_call
  | PreviewShown ui_call tool_display
  | ToolCompleted ui_call tool_status "tool_display option"
  | PermissionAsked str request_context
  | PermissionTimedOut str
  | PermissionEcho
  | SystemMessage system_kind str
  | CompactionRequested str
  | CompactionStarted str
  | CompactionSummaryChunk str str str
  | CompactionCompleted str str str
  | CompactionFailedEvent str str
  | TurnCompleted
  | Tick

datatype key_lens =
    LensConsumed bool
  | LensScroll scroll_action
  | LensPickerSubmit submit_action
  | LensDecision protocol_decision
  | LensQuit
  | LensEscape
  | LensPass

definition esc_abort_confirm_status :: str where
  "esc_abort_confirm_status = ''Esc again to cancel''"

definition esc_settled_status :: str where
  "esc_settled_status =
     ''turn already finished '' @ em_dash @ '' nothing to cancel''"

definition permission_timeout_status :: str where
  "permission_timeout_status = ''permission request timed out '' @ em_dash @ '' denied''"

definition visual_requires_focus_status :: str where
  "visual_requires_focus_status = ''Visual mode requires transcript focus (Tab/h/l).''"

section \<open>The surfaces above the keymap\<close>

definition panel_key :: "info_panel \<Rightarrow> key \<Rightarrow> app \<Rightarrow> key_lens \<times> app" where
  "panel_key panel k s =
     (let scrolled = (\<lambda>f. (LensConsumed True, s\<lparr>ap_panel_scroll := f (ap_panel_scroll s)\<rparr>));
          moved = (\<lambda>f. let s1 = on_mcp (panel_move f) s in
                    (LensConsumed (mp_selection (st_mcp (ap_status s1)) \<noteq> mp_selection (st_mcp (ap_status s))), s1))
      in if panel \<noteq> PanelMcps then
           (case k of
              KEsc \<Rightarrow> (LensEscape, s)
            | KCtrlC \<Rightarrow> (LensQuit, s)
            | KUp \<Rightarrow> scrolled (\<lambda>n. n - 1)
            | KCtrlP \<Rightarrow> scrolled (\<lambda>n. n - 1)
            | KCtrlK \<Rightarrow> scrolled (\<lambda>n. n - 1)
            | KDown \<Rightarrow> scrolled (\<lambda>n. sat_add n 1)
            | KCtrlN \<Rightarrow> scrolled (\<lambda>n. sat_add n 1)
            | KCtrlJ \<Rightarrow> scrolled (\<lambda>n. sat_add n 1)
            | KPageUp \<Rightarrow> scrolled (\<lambda>n. n - panel_page_lines)
            | KCtrlU \<Rightarrow> scrolled (\<lambda>n. n - panel_page_lines)
            | KPageDown \<Rightarrow> scrolled (\<lambda>n. sat_add n panel_page_lines)
            | KCtrlD \<Rightarrow> scrolled (\<lambda>n. sat_add n panel_page_lines)
            | _ \<Rightarrow> (LensConsumed False, s))
         else
           (case k of
              KEsc \<Rightarrow> (LensEscape, on_mcp clear_panel_query s)
            | KCtrlC \<Rightarrow> (LensQuit, s)
            | KUp \<Rightarrow> moved row_up
            | KCtrlP \<Rightarrow> moved row_up
            | KCtrlK \<Rightarrow> moved row_up
            | KDown \<Rightarrow> moved row_down
            | KCtrlN \<Rightarrow> moved row_down
            | KCtrlJ \<Rightarrow> moved row_down
            | KPageUp \<Rightarrow> moved row_page_up
            | KCtrlU \<Rightarrow> moved row_page_up
            | KPageDown \<Rightarrow> moved row_page_down
            | KCtrlD \<Rightarrow> moved row_page_down
            | KEnter \<Rightarrow>
                (case queue_selected_toggle (st_mcp (ap_status s)) of
                   (b, p) \<Rightarrow> (LensConsumed b, on_mcp (\<lambda>_. p) s))
            | KChar c \<Rightarrow>
                (if c = '' '' then
                   (case queue_selected_toggle (st_mcp (ap_status s)) of
                      (b, p) \<Rightarrow> (LensConsumed b, on_mcp (\<lambda>_. p) s))
                 else (LensConsumed True, on_mcp (append_panel_query_char c) s))
            | KBackspace \<Rightarrow>
                (case backspace_panel_query_char (st_mcp (ap_status s)) of
                   (b, p) \<Rightarrow> (LensConsumed b, on_mcp (\<lambda>_. p) s))
            | _ \<Rightarrow> (LensConsumed False, s)))"

definition card_key :: "key \<Rightarrow> app \<Rightarrow> key_lens" where
  "card_key k s =
     (let select = (in_mode (ap_input s) = ModeVisual) in
      case k of
        KChar c \<Rightarrow>
          (if c = ''a'' then LensDecision PAllowOnce
           else if c = ''A'' then LensDecision PAllowAlways
           else if c = ''d'' then LensDecision PDeny
           else LensConsumed True)
      | KUp \<Rightarrow> LensScroll (LineUp select)
      | KDown \<Rightarrow> LensScroll (LineDown select)
      | KPageUp \<Rightarrow> LensScroll (PageUp select)
      | KCtrlU \<Rightarrow> LensScroll (PageUp select)
      | KPageDown \<Rightarrow> LensScroll (PageDown select)
      | KCtrlD \<Rightarrow> LensScroll (PageDown select)
      | _ \<Rightarrow> LensConsumed True)"

definition below_picker :: "key \<Rightarrow> app \<Rightarrow> key_lens \<times> app" where
  "below_picker k s =
     (if has_prompt (ap_card s) \<and> k \<noteq> KEsc then (card_key k s, s)
      else if k = KTab \<and> in_mode (ap_input s) = ModeInsert \<and> has_agents_to_cycle s
      then (LensConsumed True, queue_cycle_agent s)
      else (LensPass, s))"

definition rewrite_action :: "key \<Rightarrow> app \<Rightarrow> key_lens \<times> app" where
  "rewrite_action k s =
     (case ap_panel s of
        Some panel \<Rightarrow> panel_key panel k s
      | None \<Rightarrow>
          (if active (ap_picker s) \<noteq> None then
             (case handle_key k (ap_picker s) of
                (outcome, p) \<Rightarrow>
                  (let s1 = on_picker (\<lambda>_. p) s in
                   case outcome of
                     PickerConsumed b \<Rightarrow> (LensConsumed b, s1)
                   | PickerSubmit a \<Rightarrow> (LensPickerSubmit a, s1)
                   | PickerQuit \<Rightarrow> (LensQuit, s1)
                   | PickerPass \<Rightarrow> below_picker k s1))
           else below_picker k s))"

section \<open>What a submission does\<close>

definition extract_session_id :: "str \<Rightarrow> str option" where
  "extract_session_id text_in =
     (let trimmed = trim text_in;
          rest = (if prefix ''/session'' trimmed then Some (drop 8 trimmed)
                  else if prefix ''/Session'' trimmed then Some (drop 8 trimmed)
                  else if prefix ''/SESSION'' trimmed then Some (drop 8 trimmed)
                  else None)
      in case rest of None \<Rightarrow> None | Some r \<Rightarrow> if trim r = [] then None else Some (trim r))"

definition handle_submit :: "str \<Rightarrow> prompt_facts \<Rightarrow> app \<Rightarrow> bool \<times> app" where
  "handle_submit text_in facts s0 =
     (let s = on_input (\<lambda>i. i\<lparr>in_submit_text := None\<rparr>) s0 in
      if trim text_in = [] then (False, s)
      else case parse_slash_command text_in of
        Command SlModels \<Rightarrow> (True, queue_launch ActModels s)
      | Command SlAgent \<Rightarrow> (True, queue_launch ActAgents s)
      | Command SlSession \<Rightarrow>
          (True, case extract_session_id text_in of
                   Some i \<Rightarrow> queue_switch (ToSession i) s
                 | None \<Rightarrow> queue_launch ActSessions s)
      | Command SlTheme \<Rightarrow> (True, queue_launch ActThemes s)
      | Command c \<Rightarrow> (True, enqueue_immediate text_in facts s)
      | UnknownCommand t \<Rightarrow> (True, enqueue_immediate text_in facts s)
      | NotSlash \<Rightarrow> (True, enqueue_prompt_with_facts text_in facts s))"

definition handle_toggle_palette :: "app \<Rightarrow> bool \<times> app" where
  "handle_toggle_palette s =
     (True,
      if active (ap_picker s) = Some PickPalette then on_picker close_pickers s
      else on_picker (\<lambda>p. set_options PickPalette palette_options (open_picker PickPalette p)) (s\<lparr>ap_panel := None\<rparr>))"

definition launch_of :: "active_picker \<Rightarrow> shared_ui_action option" where
  "launch_of kind =
     (case kind of PickModel \<Rightarrow> Some ActModels | PickAgent \<Rightarrow> Some ActAgents | PickSession \<Rightarrow> Some ActSessions
      | PickTheme \<Rightarrow> Some ActThemes | _ \<Rightarrow> None)"

definition palette_launch :: "palette_action \<Rightarrow> shared_ui_action option" where
  "palette_launch a =
     (case a of PalModels \<Rightarrow> Some ActModels | PalAgents \<Rightarrow> Some ActAgents | PalSessions \<Rightarrow> Some ActSessions
      | PalTheme \<Rightarrow> Some ActThemes | _ \<Rightarrow> None)"

definition handle_picker_submit :: "clock \<Rightarrow> submit_action \<Rightarrow> app \<Rightarrow> bool \<times> app" where
  "handle_picker_submit ck a s =
     (case a of
        DoSwitch r \<Rightarrow> (True, on_picker close_pickers (queue_switch r s))
      | DoLaunch kind \<Rightarrow>
          (case launch_of kind of
             None \<Rightarrow> (False, s)
           | Some act \<Rightarrow> (True, queue_launch act (on_picker close_pickers s)))
      | DoCommand c \<Rightarrow>
          (True,
           case palette_launch c of
             Some act \<Rightarrow> queue_launch act (on_picker close_pickers s)
           | None \<Rightarrow> (case panel_of c of Some p \<Rightarrow> open_info_panel p s | None \<Rightarrow> on_picker close_pickers s))
      | DoSlashAccept \<Rightarrow>
          (case selected_slash_label (ap_picker s) of
             None \<Rightarrow> (False, s)
           | Some label \<Rightarrow>
               (let s1 = on_picker close_pickers s in handle_submit label (submit_facts ck s1) s1)))"

section \<open>Escape and quit\<close>

type_synonym folded = "app \<times> bool"

text \<open>\<open>flag\<close> is the cancel controller's flag; \<open>ctl\<close> tells whether the event came with a controller.\<close>

definition request_cancel :: "bool \<Rightarrow> bool \<Rightarrow> bool" where
  "request_cancel ctl flag = (if ctl then True else flag)"

definition handle_quit :: "bool \<Rightarrow> folded \<Rightarrow> bool \<times> folded" where
  "handle_quit ctl f =
     (case f of (s, flag) \<Rightarrow>
        (if ap_phase s \<noteq> UiIdle then (True, s\<lparr>ap_quit_requested := True\<rparr>, request_cancel ctl flag)
         else (True, request_quit_if_idle s, flag)))"

definition handle_escape_confirm :: "bool \<Rightarrow> nat \<Rightarrow> folded \<Rightarrow> bool \<times> folded" where
  "handle_escape_confirm ctl now f =
     (case f of (s, flag) \<Rightarrow>
        (if ap_phase s = UiAbortPending \<and> ab_pending (ap_abort s) \<and> ap_active_cycle s \<and> arm_live now (ap_abort s) then
           (True,
            clear_message (enter_insert_mode (on_card (\<lambda>c. c\<lparr>cd_prompt := None\<rparr>) (cancel_and_restore s))),
            request_cancel ctl flag)
         else (False, s, flag)))"

definition arm_or_not :: "nat \<Rightarrow> folded \<Rightarrow> bool \<times> folded" where
  "arm_or_not now f =
     (case f of (s, flag) \<Rightarrow>
        (case request_abort_confirmation now s of
           (True, s1) \<Rightarrow> (True, set_message now esc_abort_confirm_status s1, flag)
         | (False, s1) \<Rightarrow> (False, s1, flag)))"

definition handle_escape :: "bool \<Rightarrow> nat \<Rightarrow> folded \<Rightarrow> bool \<times> folded" where
  "handle_escape ctl now f =
     (case f of (s, flag) \<Rightarrow>
        (if ap_panel s \<noteq> None then (True, close_info_panel s, flag)
         else if ap_phase s = UiIdle then
           (if ab_settle_notice (ap_abort s) then
              (True, set_message now esc_settled_status (on_abort (\<lambda>a. a\<lparr>ab_settle_notice := False\<rparr>) s), flag)
            else if in_mode (ap_input s) = ModeInsert then (True, enter_normal_mode s, flag)
            else if in_mode (ap_input s) = ModeVisual then
              (True, enter_normal_mode (on_scroll (\<lambda>c. c\<lparr>so_selection := None\<rparr>) s), flag)
            else (False, s, flag))
         else if ap_phase s = UiAbortPending \<and> ab_pending (ap_abort s) then
           (if arm_live now (ap_abort s) then handle_escape_confirm ctl now f
            else arm_or_not now (snd (sweep_expired_abort now s), flag))
         else arm_or_not now f))"

section \<open>The keymap\<close>

definition scrolls :: "scroll_action \<Rightarrow> folded \<Rightarrow> bool \<times> folded" where
  "scrolls a f =
     (case f of (s, flag) \<Rightarrow>
        (case reduce_scroll_action a (ap_scroll s) of (b, c) \<Rightarrow> (b, s\<lparr>ap_scroll := c\<rparr>, flag)))"

definition clear_pending_key :: "folded \<Rightarrow> folded" where
  "clear_pending_key f = (on_input (\<lambda>i. i\<lparr>in_pending_key := None\<rparr>) (fst f), snd f)"

definition clear_pending_j :: "folded \<Rightarrow> folded" where
  "clear_pending_j f = (on_input (\<lambda>i. i\<lparr>in_pending_j := None\<rparr>) (fst f), snd f)"

definition with_flag :: "(app \<Rightarrow> bool \<times> app) \<Rightarrow> folded \<Rightarrow> bool \<times> folded" where
  "with_flag h f = (case h (fst f) of (b, s) \<Rightarrow> (b, s, snd f))"

definition reduce_pending_g :: "app \<Rightarrow> bool \<times> app" where
  "reduce_pending_g s =
     (let select = (in_mode (ap_input s) = ModeVisual) in
      case take_pending_key_if ''g'' (ap_input s) of
        (True, i) \<Rightarrow>
          (let s1 = s\<lparr>ap_input := i\<rparr> in
           case reduce_scroll_action (ToTop select) (ap_scroll s1) of (b, c) \<Rightarrow> (b, s1\<lparr>ap_scroll := c\<rparr>))
      | (False, i) \<Rightarrow> (False, s\<lparr>ap_input := i\<lparr>in_pending_key := Some ''g''\<rparr>\<rparr>))"

definition handle_enter :: "clock \<Rightarrow> app \<Rightarrow> bool \<times> app" where
  "handle_enter ck s =
     (let text_in = (case in_submit_text (ap_input s) of None \<Rightarrow> [] | Some t \<Rightarrow> t);
          s1 = on_input (\<lambda>i. i\<lparr>in_submit_text := None\<rparr>) s
      in handle_submit text_in (submit_facts ck s1) s1)"

definition reduce_common_key :: "bool \<Rightarrow> clock \<Rightarrow> key \<Rightarrow> folded \<Rightarrow> bool \<times> folded" where
  "reduce_common_key ctl ck k f =
     (let select = (in_mode (ap_input (fst f)) = ModeVisual) in
      case k of
        KEnter \<Rightarrow>
          with_flag (handle_enter ck) f
      | KCtrlC \<Rightarrow> handle_quit ctl f
      | KCtrlP \<Rightarrow> with_flag handle_toggle_palette f
      | KEsc \<Rightarrow> handle_escape ctl (ck_now ck) f
      | KPageUp \<Rightarrow> scrolls (PageUp select) f
      | KCtrlU \<Rightarrow> scrolls (PageUp select) f
      | KPageDown \<Rightarrow> scrolls (PageDown select) f
      | KCtrlD \<Rightarrow> scrolls (PageDown select) f
      | _ \<Rightarrow> (False, f))"

definition enter_insert_if_idle :: "app \<Rightarrow> bool \<times> app" where
  "enter_insert_if_idle s = (if ap_phase s = UiIdle then (True, enter_insert_mode s) else (False, s))"

definition enter_visual_mode :: "nat \<Rightarrow> app \<Rightarrow> bool \<times> app" where
  "enter_visual_mode now s =
     (if ap_phase s \<noteq> UiIdle then (False, s)
      else (True,
        if so_pane (ap_scroll s) \<noteq> PaneTranscript then set_message now visual_requires_focus_status s
        else on_input (\<lambda>i. i\<lparr>in_mode := ModeVisual\<rparr>)
               (on_scroll (\<lambda>c. c\<lparr>so_selection := Some (so_cursor c, so_cursor c)\<rparr>) s)))"

text \<open>The text of a selection: the index is measured at the list's width, the rows are painted, none past the last.\<close>

definition selection_text :: "tui_env \<Rightarrow> nat \<Rightarrow> nat \<Rightarrow> app \<Rightarrow> str \<times> app" where
  "selection_text env start_row end_row s =
     (let width = re_width (so_area (ap_scroll s)) - 2 in
      if width = 0 then ([], s)
      else
        (let s1 = (if height_index_valid_for width (ap_transcript s) then s
                   else on_store (rebuild_height_index (tv_measure env) width) s);
             total_rows = hi_total_rows (ts_index (ap_transcript s1))
         in if total_rows \<le> start_row then ([], s1)
            else (tv_painted env (ts_entries (ap_transcript s1)) width start_row (min end_row (total_rows - 1)), s1)))"

definition handle_yank :: "tui_env \<Rightarrow> app \<Rightarrow> bool \<times> app" where
  "handle_yank env s =
     (if in_mode (ap_input s) \<noteq> ModeVisual then (False, s)
      else
        (let (range, c) = yank_range (ap_scroll s); s1 = s\<lparr>ap_scroll := c\<rparr> in
         case range of
           None \<Rightarrow> (True, enter_normal_mode s1)
         | Some (first_row, last_row) \<Rightarrow>
             (case selection_text env first_row last_row s1 of
                (payload, s2) \<Rightarrow>
                  (True, enter_normal_mode
                     (if payload = [] then s2 else on_input (\<lambda>i. i\<lparr>in_clipboard := Some payload\<rparr>) s2)))))"

definition reduce_insert_chord :: "nat \<Rightarrow> str \<Rightarrow> bool \<Rightarrow> app \<Rightarrow> bool \<times> app" where
  "reduce_insert_chord now c idle s =
     (if exit_pending_j now (ap_input s) then
        (let s1 = on_input (\<lambda>i. i\<lparr>in_pending_j := None\<rparr>) s in
         if idle then (if ap_phase s1 = UiIdle then (True, enter_normal_mode s1) else (False, s1))
         else (True, enter_normal_mode s1))
      else
        (\<not> idle, on_input (\<lambda>i. i\<lparr>in_pending_j := (if c = ''j'' then Some now else None)\<rparr>) s))"

definition reduce_insert_key :: "bool \<Rightarrow> clock \<Rightarrow> key \<Rightarrow> bool \<Rightarrow> folded \<Rightarrow> bool \<times> folded" where
  "reduce_insert_key ctl ck k idle f =
     (case k of
        KEsc \<Rightarrow>
          (let f1 = clear_pending_key (clear_pending_j f) in
           if idle then handle_escape ctl (ck_now ck) f1
           else (True, snd (handle_escape ctl (ck_now ck) (enter_normal_mode (fst f1), snd f1))))
      | KChar c \<Rightarrow>
          (if c = ''j'' \<or> c = ''k'' then with_flag (reduce_insert_chord (ck_now ck) c idle) f
           else reduce_common_key ctl ck k (clear_pending_key (clear_pending_j f)))
      | _ \<Rightarrow> reduce_common_key ctl ck k (clear_pending_key (clear_pending_j f)))"

definition reduce_normal_key :: "bool \<Rightarrow> clock \<Rightarrow> key \<Rightarrow> bool \<Rightarrow> folded \<Rightarrow> bool \<times> folded" where
  "reduce_normal_key ctl ck k idle f0 =
     (let f = clear_pending_j f0; g = clear_pending_key f in
      case k of
        KEsc \<Rightarrow> handle_escape ctl (ck_now ck) g
      | KChar c \<Rightarrow>
          (if c = ''i'' then
             (if idle then with_flag enter_insert_if_idle g else (True, enter_insert_mode (fst g), snd g))
           else if c = ''v'' then with_flag (enter_visual_mode (ck_now ck)) g
           else if c = ''j'' then scrolls (LineDown False) g
           else if c = ''k'' then scrolls (LineUp False) g
           else if c = ''h'' then scrolls FocusLeft g
           else if c = ''l'' then scrolls FocusRight g
           else if c = ''g'' then with_flag reduce_pending_g f
           else if c = ''G'' then scrolls (ToBottom False) g
           else (False, g))
      | KTab \<Rightarrow> scrolls FocusRight g
      | KBackTab \<Rightarrow> scrolls FocusLeft g
      | KPageUp \<Rightarrow> scrolls (PageUp False) g
      | KCtrlU \<Rightarrow> scrolls (PageUp False) g
      | KPageDown \<Rightarrow> scrolls (PageDown False) g
      | KCtrlD \<Rightarrow> scrolls (PageDown False) g
      | KAltEnter \<Rightarrow> (False, g)
      | KShiftEnter \<Rightarrow> (False, g)
      | _ \<Rightarrow> reduce_common_key ctl ck k g)"

definition reduce_visual_key :: "tui_env \<Rightarrow> bool \<Rightarrow> clock \<Rightarrow> key \<Rightarrow> bool \<Rightarrow> folded \<Rightarrow> bool \<times> folded" where
  "reduce_visual_key env ctl ck k idle f =
     (if \<not> idle then reduce_common_key ctl ck k (clear_pending_key (clear_pending_j f))
      else
        (let g = clear_pending_key f in
         case k of
           KCtrlP \<Rightarrow> with_flag handle_toggle_palette g
         | KChar c \<Rightarrow>
             (if c = ''j'' then scrolls (LineDown True) g
              else if c = ''k'' then scrolls (LineUp True) g
              else if c = ''g'' then with_flag reduce_pending_g f
              else if c = ''G'' then scrolls (ToBottom True) g
              else if c = ''y'' then with_flag (handle_yank env) g
              else (False, g))
         | KEsc \<Rightarrow> handle_escape ctl (ck_now ck) g
         | KPageUp \<Rightarrow> scrolls (PageUp True) g
         | KCtrlU \<Rightarrow> scrolls (PageUp True) g
         | KPageDown \<Rightarrow> scrolls (PageDown True) g
         | KCtrlD \<Rightarrow> scrolls (PageDown True) g
         | _ \<Rightarrow> (False, g)))"

definition reduce_keymap :: "tui_env \<Rightarrow> bool \<Rightarrow> clock \<Rightarrow> key \<Rightarrow> folded \<Rightarrow> bool \<times> folded" where
  "reduce_keymap env ctl ck k f =
     (let idle = (ap_phase (fst f) = UiIdle) in
      case in_mode (ap_input (fst f)) of
        ModeInsert \<Rightarrow> reduce_insert_key ctl ck k idle f
      | ModeNormal \<Rightarrow> reduce_normal_key ctl ck k idle f
      | ModeVisual \<Rightarrow> reduce_visual_key env ctl ck k idle f)"

definition edits_input :: "key \<Rightarrow> bool" where
  "edits_input k \<longleftrightarrow>
     (case k of KChar c \<Rightarrow> True | KAltEnter \<Rightarrow> True | KShiftEnter \<Rightarrow> True | KBackspace \<Rightarrow> True
      | KDelete \<Rightarrow> True | _ \<Rightarrow> False)"

definition reduce_permission_decided :: "protocol_decision \<Rightarrow> app \<Rightarrow> bool \<times> app" where
  "reduce_permission_decided d s =
     (case submit_decision d (ap_card s) of
        (b, c) \<Rightarrow> (True, let s1 = s\<lparr>ap_card := c\<rparr> in if b then ensure_invariants s1 else s1))"

definition reduce_key :: "tui_env \<Rightarrow> bool \<Rightarrow> clock \<Rightarrow> key \<Rightarrow> folded \<Rightarrow> bool \<times> folded" where
  "reduce_key env ctl ck k f =
     (case f of (s, flag) \<Rightarrow>
        (if ap_input_locked s \<and> \<not> has_prompt (ap_card s) \<and> edits_input k then (False, f)
         else case rewrite_action k s of
           (lens, s1) \<Rightarrow>
             (case lens of
                LensConsumed b \<Rightarrow> (b, s1, flag)
              | LensScroll a \<Rightarrow> scrolls a (s1, flag)
              | LensPickerSubmit a \<Rightarrow> with_flag (handle_picker_submit ck a) (s1, flag)
              | LensDecision d \<Rightarrow> with_flag (reduce_permission_decided d) (s1, flag)
              | LensQuit \<Rightarrow> handle_quit ctl (s1, flag)
              | LensEscape \<Rightarrow> handle_escape ctl (ck_now ck) (s1, flag)
              | LensPass \<Rightarrow> reduce_keymap env ctl ck k (s1, flag))))"

definition reduce_wheel :: "bool \<Rightarrow> nat \<Rightarrow> nat \<Rightarrow> app \<Rightarrow> bool \<times> app" where
  "reduce_wheel up column row s =
     (if ap_panel s \<noteq> None then (False, s)
      else if active (ap_picker s) \<noteq> None \<and> active (ap_picker s) \<noteq> Some PickInlineSlash then (True, s)
      else if has_prompt (ap_card s) then (True, s)
      else if \<not> contains_transcript_point column row (ap_scroll s) then (False, s)
      else
        (let select = (in_mode (ap_input s) = ModeVisual);
             mode_changed = (in_mode (ap_input s) = ModeInsert);
             s1 = (if mode_changed then enter_normal_mode s else s)
         in case reduce_scroll_action (if up then WheelUp select else WheelDown select) (ap_scroll s1) of
              (b, c) \<Rightarrow> (b \<or> mode_changed, s1\<lparr>ap_scroll := c\<rparr>)))"

section \<open>The reducer\<close>

definition handle_turn_error :: "tui_env \<Rightarrow> str \<Rightarrow> app \<Rightarrow> app" where
  "handle_turn_error env message s =
     turn_finalize
       (on_card (\<lambda>c. c\<lparr>cd_prompt := None\<rparr>)
          (complete_active_prompt (push_in_event env (NoticeRow (''Error: '' @ message)) s)))"

definition on_tools :: "(tool_state \<times> tstore \<Rightarrow> tool_state \<times> tstore) \<Rightarrow> app \<Rightarrow> app" where
  "on_tools f s = (case f (ap_tool s, ap_transcript s) of (t, store) \<Rightarrow> s\<lparr>ap_tool := t, ap_transcript := store\<rparr>)"

definition on_preview :: "(tool_state \<Rightarrow> tstore \<Rightarrow> bool \<times> tstore) \<Rightarrow> app \<Rightarrow> bool \<times> app" where
  "on_preview f s = (case f (ap_tool s) (ap_transcript s) of (b, store) \<Rightarrow> (b, s\<lparr>ap_transcript := store\<rparr>))"

definition inference_started :: "app \<Rightarrow> bool \<times> app" where
  "inference_started s = (True, ensure_invariants (llm_started s))"

definition inference_completed :: "nat \<Rightarrow> nat \<Rightarrow> nat option \<Rightarrow> app \<Rightarrow> bool \<times> app" where
  "inference_completed input_tokens output_tokens total_tokens s =
     (True, on_tokens (record_token_usage input_tokens output_tokens total_tokens) s)"

definition tool_call_started :: "tui_env \<Rightarrow> ui_call \<Rightarrow> app \<Rightarrow> bool \<times> app" where
  "tool_call_started env call s = (True, on_tools (start_tool_call (tv_measure env) call) s)"

definition tool_preview_shown :: "tui_env \<Rightarrow> ui_call \<Rightarrow> tool_display \<Rightarrow> app \<Rightarrow> bool \<times> app" where
  "tool_preview_shown env call display s = on_preview (set_tool_preview (tv_measure env) (uc_id call) display) s"

definition tool_call_completed :: "tui_env \<Rightarrow> ui_call \<Rightarrow> tool_status \<Rightarrow> tool_display option \<Rightarrow> app \<Rightarrow> bool \<times> app" where
  "tool_call_completed env call st display s =
     (True, on_tools (complete_call (tv_measure env) (uc_id call) st display) s)"

definition permission_asked :: "tui_env \<Rightarrow> str \<Rightarrow> request_context \<Rightarrow> app \<Rightarrow> bool \<times> app" where
  "permission_asked env i context s =
     (let s1 = (case rc_pre_authorize_display context of
                  None \<Rightarrow> s
                | Some d \<Rightarrow> snd (on_preview (set_preview_for_key (tv_measure env) (rc_tool_key context) d) s));
          s2 = on_card (\<lambda>c. c\<lparr>cd_prompt := Some (prompt_from_context i context)\<rparr>) s1
      in (True, ensure_invariants (on_scroll scroll_transcript_to_bottom s2)))"

definition permission_timed_out :: "nat \<Rightarrow> str \<Rightarrow> app \<Rightarrow> bool \<times> app" where
  "permission_timed_out now i s =
     (case close_prompt_if i (ap_card s) of
        (b, c) \<Rightarrow>
          (b, let s1 = s\<lparr>ap_card := c\<rparr> in if b then set_message now permission_timeout_status s1 else s1))"

definition system_message :: "tui_env \<Rightarrow> nat \<Rightarrow> system_kind \<Rightarrow> str \<Rightarrow> app \<Rightarrow> bool \<times> app" where
  "system_message env now kind t s =
     (case kind of
        KindWarning \<Rightarrow> (True, on_message (\<lambda>m. message_of MsgWarning now t) s)
      | KindTurnError \<Rightarrow> (True, handle_turn_error env t s))"

definition compaction_event :: "(app \<Rightarrow> app) \<Rightarrow> app \<Rightarrow> bool \<times> app" where
  "compaction_event h s = (True, h s)"

definition turn_completed :: "app \<Rightarrow> bool \<times> app" where
  "turn_completed s = (True, turn_finalize (on_card (\<lambda>c. c\<lparr>cd_prompt := None\<rparr>) (complete_active_prompt s)))"

definition reduce_event :: "tui_env \<Rightarrow> bool \<Rightarrow> clock \<Rightarrow> system_event \<Rightarrow> folded \<Rightarrow> bool \<times> folded" where
  "reduce_event env ctl ck e f =
     (let now = ck_now ck in
      case e of
        KeyPressed k \<Rightarrow> reduce_key env ctl ck k f
      | WheelScrolled up column row \<Rightarrow> with_flag (reduce_wheel up column row) f
      | Resized width height \<Rightarrow> (False, f)
      | PermissionDecided d \<Rightarrow> with_flag (reduce_permission_decided d) f
      | PromptSubmitted text_in facts \<Rightarrow> with_flag (handle_submit text_in facts) f
      | InferenceStarted \<Rightarrow> with_flag inference_started f
      | InferenceChunk delta aggregated \<Rightarrow> with_flag (llm_chunk env aggregated) f
      | InferenceCompleted i out_tokens total_tokens \<Rightarrow> with_flag (inference_completed i out_tokens total_tokens) f
      | InferenceStopped reason \<Rightarrow> with_flag (llm_stopped env now reason) f
      | ToolStarted call \<Rightarrow> with_flag (tool_call_started env call) f
      | PreviewShown call display \<Rightarrow> with_flag (tool_preview_shown env call display) f
      | ToolCompleted call st display \<Rightarrow> with_flag (tool_call_completed env call st display) f
      | PermissionAsked i context \<Rightarrow> with_flag (permission_asked env i context) f
      | PermissionTimedOut i \<Rightarrow> with_flag (permission_timed_out now i) f
      | PermissionEcho \<Rightarrow> (False, f)
      | SystemMessage kind t \<Rightarrow> with_flag (system_message env now kind t) f
      | CompactionRequested src \<Rightarrow> (False, f)
      | CompactionStarted src \<Rightarrow> with_flag (compaction_event (start_block env src)) f
      | CompactionSummaryChunk src delta aggregated \<Rightarrow> with_flag (summary_chunk env src aggregated) f
      | CompactionCompleted src preview body \<Rightarrow> with_flag (compaction_event (compaction_completed env src body)) f
      | CompactionFailedEvent src message \<Rightarrow> with_flag (compaction_event (compaction_failed env src message)) f
      | TurnCompleted \<Rightarrow> with_flag turn_completed f
      | Tick \<Rightarrow> (True, f))"

definition reduce :: "tui_env \<Rightarrow> bool \<Rightarrow> clock \<Rightarrow> system_event \<Rightarrow> folded \<Rightarrow> bool \<times> folded" where
  "reduce env ctl ck e f =
     (let before_total = ts_evicted_total (ap_transcript (fst f)) in
      case reduce_event env ctl ck e f of
        (changed, s, flag) \<Rightarrow>
          (changed, shift_bookkeeping (ts_evicted_total (ap_transcript s) - before_total) s, flag))"

section \<open>What the interface asks the orchestrator for\<close>

datatype orchestrator_event =
    OePrompt str
  | OeDecision decision_submission
  | OeUiRequest ui_request
  | OeCancel

definition theme_from_name :: "str \<Rightarrow> theme_name option" where
  "theme_from_name n =
     map_of [(''CatppuccinMocha'', Mocha), (''catppuccin-mocha'', Mocha),
             (''CatppuccinLatte'', Latte), (''catppuccin-latte'', Latte),
             (''CatppuccinFrappe'', Frappe), (''catppuccin-frappe'', Frappe),
             (''CatppuccinMacchiato'', Macchiato), (''catppuccin-macchiato'', Macchiato)] n"

definition theme_id :: "theme_name \<Rightarrow> str" where
  "theme_id t =
     (case t of Mocha \<Rightarrow> ''CatppuccinMocha'' | Latte \<Rightarrow> ''CatppuccinLatte'' | Frappe \<Rightarrow> ''CatppuccinFrappe''
      | Macchiato \<Rightarrow> ''CatppuccinMacchiato'')"

definition theme_options :: "picker_option list" where
  "theme_options =
     map (\<lambda>(t, d). \<lparr>po_id = theme_id t, po_display = d, po_search_text = d, po_section = None,
                    po_payload = PayTheme, po_sort_key = []\<rparr>)
       [(Mocha, ''Catppuccin Mocha''), (Latte, ''Catppuccin Latte''), (Frappe, ''Catppuccin Frappe''),
        (Macchiato, ''Catppuccin Macchiato'')]"

fun take_prompts :: "tui_env \<Rightarrow> nat \<Rightarrow> app \<Rightarrow> orchestrator_event list \<times> app" where
  "take_prompts env 0 s = ([], s)"
| "take_prompts env (Suc n) s =
     (case take_next_prompt env s of
        (None, s1) \<Rightarrow> ([], s1)
      | (Some p, s1) \<Rightarrow> (case take_prompts env n s1 of (es, s2) \<Rightarrow> (OePrompt p # es, s2)))"

definition take_switch :: "switch_request \<Rightarrow> orchestrator_event list \<times> app \<Rightarrow> orchestrator_event list \<times> app" where
  "take_switch r acc =
     (case acc of (es, s) \<Rightarrow>
        (case r of
           ToModel m \<Rightarrow> (es @ [OeUiRequest (SwitchModel m)], s)
         | ToAgent n \<Rightarrow> (es @ [OeUiRequest (SwitchAgent n)], s)
         | ToSession i \<Rightarrow> (es @ [OeUiRequest (SwitchSession i)], s)
         | ToTheme n \<Rightarrow>
             (es, case theme_from_name n of
                    None \<Rightarrow> s
                  | Some t \<Rightarrow> s\<lparr>ap_theme := t, ap_theme_persist := ap_theme_persist s @ [n]\<rparr>)))"

text \<open>
  The drain: the prompts until none is taken (each take leaves one immediate submission less, then at most
  one block), the decisions, the switches, the toggles, the refreshes and the cancel.
\<close>

definition take_pending_events :: "tui_env \<Rightarrow> folded \<Rightarrow> orchestrator_event list \<times> folded" where
  "take_pending_events env f =
     (case f of (s, flag) \<Rightarrow>
        (let (prompts, s1) = take_prompts env (length (ap_immediate s) + 2) s;
             decisions = map OeDecision (cd_decisions (ap_card s1));
             s2 = on_card (\<lambda>c. c\<lparr>cd_decisions := []\<rparr>) s1;
             (switches, s3) = fold take_switch (ap_switches s2) ([], s2\<lparr>ap_switches := []\<rparr>);
             toggles = map (\<lambda>(n, b). OeUiRequest (ToggleMcp n b)) (mp_toggles (st_mcp (ap_status s3)));
             s4 = on_mcp (\<lambda>p. p\<lparr>mp_toggles := []\<rparr>) s3;
             refreshes = (if ap_session_refresh s4 then [OeUiRequest RefreshSessionPicker] else []) @
                         (if ap_agent_refresh s4 then [OeUiRequest RefreshAgentPicker] else []);
             s5 = s4\<lparr>ap_session_refresh := False, ap_agent_refresh := False\<rparr>
         in (prompts @ decisions @ switches @ toggles @ refreshes @ (if flag then [OeCancel] else []), s5, False)))"

definition take_pending_ui_state_events :: "app \<Rightarrow> shared_ui_action list \<times> app" where
  "take_pending_ui_state_events s = (ap_launches s, s\<lparr>ap_launches := []\<rparr>)"

section \<open>Restoring a stored transcript\<close>

datatype replay_step = ReplayEvent system_event | ReplayNotice str

definition turn_boundary :: replay_step where
  "turn_boundary = ReplayEvent TurnCompleted"

definition or_zero :: "nat option \<Rightarrow> nat" where
  "or_zero n = (case n of None \<Rightarrow> 0 | Some k \<Rightarrow> k)"

definition usage_event :: "usage_snapshot option \<Rightarrow> system_event" where
  "usage_event u =
     InferenceCompleted (or_zero (Option.bind u us_input_tokens)) (or_zero (Option.bind u us_output_tokens))
       (Option.bind u us_total_tokens)"

text \<open>\<open>render\<close> is the call line of a tool of the registry (\<open>call_line_render_for\<close>).\<close>

definition tool_steps :: "(str \<Rightarrow> str \<Rightarrow> str) \<Rightarrow> tool_display snapshot \<Rightarrow> tool_display option \<Rightarrow> replay_step list" where
  "tool_steps render m display =
     (case (sn_tool_name m, sn_tool_arguments m) of
        (Some name, Some arguments) \<Rightarrow>
          (let call = new_ui_call name [] arguments (render name arguments) in
           [ReplayEvent (ToolStarted call)] @
           (case display of None \<Rightarrow> [] | Some d \<Rightarrow> [ReplayEvent (PreviewShown call d)]) @
           [ReplayEvent (ToolCompleted call
              (case sn_tool_status m of None \<Rightarrow> StatusFailed | Some st \<Rightarrow> st) None)])
      | _ \<Rightarrow> [])"

definition following_display :: "tool_display snapshot list \<Rightarrow> tool_display option" where
  "following_display rest =
     (case rest of
        [] \<Rightarrow> None
      | r # _ \<Rightarrow> if sn_role r = ''tool_display'' then sn_tool_display r else None)"

fun project_from :: "(str \<Rightarrow> str \<Rightarrow> str) \<Rightarrow> bool \<Rightarrow> tool_display snapshot list \<Rightarrow> replay_step list" where
  "project_from render turn_open [] = (if turn_open then [turn_boundary] else [])"
| "project_from render turn_open (m # rest) =
     (if sn_role m = ''user'' then
        (if trim (sn_content m) = [] then project_from render turn_open rest
         else (if turn_open then [turn_boundary] else []) @
              [ReplayEvent (PromptSubmitted (sn_content m)
                 \<lparr>pf_millis = sn_stamp_millis m, pf_model = sn_stamp_model m, pf_agent = sn_stamp_agent m\<rparr>)] @
              project_from render True rest)
      else if sn_role m = ''assistant'' then
        (if trim (sn_content m) = [] then project_from render turn_open rest
         else [ReplayEvent InferenceStarted, ReplayEvent (InferenceChunk (sn_content m) (sn_content m)),
               ReplayEvent (usage_event (sn_usage m))] @ project_from render True rest)
      else if sn_role m = ''tool'' then
        (let steps = tool_steps render m (following_display rest) in
         steps @ project_from render (if steps = [] then turn_open else True) rest)
      else if sn_role m = ''tool_display'' then project_from render turn_open rest
      else if sn_role m = ''compaction'' then
        ReplayEvent (CompactionCompleted ''history'' (sn_content m) (sn_content m)) # project_from render True rest
      else
        (if trim (sn_content m) = [] then [] else [ReplayNotice (trim (sn_content m))])
        @ project_from render turn_open rest)"

definition project_snapshots :: "(str \<Rightarrow> str \<Rightarrow> str) \<Rightarrow> tool_display snapshot list \<Rightarrow> replay_step list" where
  "project_snapshots render ms = project_from render False ms"

text \<open>
  One step of the replay: what it queues for outside is drained and dropped, a cancel flag of its own
  included.
\<close>

definition replay_one :: "tui_env \<Rightarrow> clock \<Rightarrow> replay_step \<Rightarrow> app \<Rightarrow> app" where
  "replay_one env ck step s =
     (case step of
        ReplayNotice t \<Rightarrow> push_in_event env (NoticeRow t) s
      | ReplayEvent e \<Rightarrow>
          snd (take_pending_ui_state_events
            (fst (snd (take_pending_events env (snd (reduce env False ck e (s, False))))))))"

definition hydrate_by_replay ::
  "tui_env \<Rightarrow> clock \<Rightarrow> (str \<Rightarrow> str \<Rightarrow> str) \<Rightarrow> tool_display snapshot list \<Rightarrow> nat option \<Rightarrow> app \<Rightarrow> app" where
  "hydrate_by_replay env ck render ms last_total s =
     (let s1 = fold (replay_one env ck) (project_snapshots render ms) s in
      case last_total of None \<Rightarrow> s1 | Some n \<Rightarrow> on_tokens (hydrate_latest_total_tokens n) s1)"

section \<open>What the orchestrator sets\<close>

text \<open>
  The state events of the orchestrator, with the lists the interface reads: the snapshots of a transcript, the
  sessions with their title, last instant, number of messages and agent, and the agents with their display and
  description.  \<open>logo\<close> is the text of the banner.
\<close>

type_synonym session_row = "str \<times> str option \<times> int option \<times> nat \<times> str option"

datatype tui_state_event =
    TuiModelIdentity str
  | TuiAgentIdentity str
  | TuiPersonaIcon "str option"
  | TuiContextWindow "nat option"
  | TuiClearTranscript
  | TuiHydrate "tool_display snapshot list" "nat option"
  | TuiMcpState str mcp_usability "str option" nat
  | TuiMcpVisibleCount str nat
  | TuiMcpVisibleNames str "str list"
  | TuiSessionOptions "session_row list"
  | TuiAgentOptions "(str \<times> str \<times> str option) list"
  | TuiExternalPrompt str
  | TuiExecute shared_ui_action
  | TuiStartupLogo

record tui_catalog =
  tg_render :: "str \<Rightarrow> str \<Rightarrow> str"
  tg_day :: "int \<Rightarrow> str"
  tg_logo :: str

definition execute_shared_ui_action :: "shared_ui_action \<Rightarrow> app \<Rightarrow> app" where
  "execute_shared_ui_action a s =
     (case a of
        ActHelp \<Rightarrow> open_info_panel PanelHelp s
      | ActStatus \<Rightarrow> open_info_panel PanelStatus s
      | ActMcps \<Rightarrow> open_info_panel PanelMcps s
      | ActSkills \<Rightarrow> open_info_panel PanelSkills s
      | ActModels \<Rightarrow>
          ensure_invariants
            (on_picker (\<lambda>p. position_selection_on (id_model (st_identity (ap_status s))) (open_picker PickModel p))
               (s\<lparr>ap_panel := None\<rparr>))
      | ActAgents \<Rightarrow>
          ensure_invariants ((on_picker (open_picker PickAgent) (close_info_panel s))\<lparr>ap_agent_refresh := True\<rparr>)
      | ActSessions \<Rightarrow>
          ensure_invariants ((on_picker (open_picker PickSession) (close_info_panel s))\<lparr>ap_session_refresh := True\<rparr>)
      | ActThemes \<Rightarrow>
          ensure_invariants
            (on_picker (\<lambda>p. position_selection_on (theme_id (ap_theme s)) (open_picker PickTheme p))
               (close_info_panel (set_picker_options PickTheme theme_options s))))"

definition reduce_ui_state_event :: "tui_env \<Rightarrow> clock \<Rightarrow> tui_catalog \<Rightarrow> tui_state_event \<Rightarrow> app \<Rightarrow> app" where
  "reduce_ui_state_event env ck cat e s =
     (case e of
        TuiModelIdentity m \<Rightarrow> on_identity (\<lambda>i. i\<lparr>id_model := m\<rparr>) s
      | TuiAgentIdentity a \<Rightarrow> on_identity (\<lambda>i. i\<lparr>id_agent := Some a\<rparr>) s
      | TuiPersonaIcon icon \<Rightarrow> on_identity (\<lambda>i. i\<lparr>id_persona_icon := icon\<rparr>) s
      | TuiContextWindow n \<Rightarrow> on_tokens (\<lambda>t. t\<lparr>tc_window := n\<rparr>) s
      | TuiClearTranscript \<Rightarrow> clear_transcript s
      | TuiHydrate ms last_total \<Rightarrow> hydrate_by_replay env ck (tg_render cat) ms last_total s
      | TuiMcpState server state reason visible \<Rightarrow> on_mcp (set_server_details server state reason visible) s
      | TuiMcpVisibleCount server n \<Rightarrow> on_mcp (set_visible_count server n) s
      | TuiMcpVisibleNames server names \<Rightarrow> on_mcp (set_visible_names server names) s
      | TuiSessionOptions rows \<Rightarrow>
          set_picker_options PickSession (map (\<lambda>(i, t, a, n, g). session_option (tg_day cat) i t a n g) rows) s
      | TuiAgentOptions rows \<Rightarrow>
          ensure_invariants
            (set_picker_options PickAgent (map (\<lambda>(n, d, x). agent_option n d x) rows)
               (on_identity (\<lambda>i. i\<lparr>id_cycle_names := map fst rows\<rparr>) s))
      | TuiExternalPrompt t \<Rightarrow> enqueue_prompt_with_facts t (submit_facts ck s) s
      | TuiExecute a \<Rightarrow> execute_shared_ui_action a s
      | TuiStartupLogo \<Rightarrow> push_and_shift env (BannerRow (tg_logo cat)) s)"

section \<open>Ctrl-C, time and batches\<close>

text \<open>
  The quit guard of the coordinator (\<open>runtime/coordinator.rs\<close>), above every other surface.  \<open>draft\<close> is the
  text of the input box; the answer is whether it is to be cleared.
\<close>

definition handle_ctrl_c :: "nat \<Rightarrow> str \<Rightarrow> folded \<Rightarrow> bool \<times> folded" where
  "handle_ctrl_c now draft f =
     (case f of (s, flag) \<Rightarrow>
        (if quit_confirmation_armed now s then
           (False, (snd (disarm_quit_confirmation now s))\<lparr>ap_quit_requested := True\<rparr>,
            flag \<or> ap_phase s \<noteq> UiIdle)
         else if has_prompt (ap_card s) then (False, arm_quit_confirmation now s, flag)
         else if active (ap_picker s) \<noteq> None then (False, on_picker close_pickers s, flag)
         else if ap_panel s \<noteq> None then (False, close_info_panel s, flag)
         else if draft \<noteq> [] then (True, check_inline_slash [] s, flag)
         else (False, arm_quit_confirmation now s, flag)))"

text \<open>The timer: an arm whose time is over is dropped, and so is a message.\<close>

definition expire_status_message_if_due :: "nat \<Rightarrow> app \<Rightarrow> bool \<times> app" where
  "expire_status_message_if_due now s =
     (case sweep_expired_abort now s of
        (abort_expired, s1) \<Rightarrow>
          (if message_expired now (st_message (ap_status s1)) then (True, clear_message s1)
           else (abort_expired, s1)))"

text \<open>A batch of events keeps only the latest chunk of each kind until another event comes.\<close>

record batch =
  ba_inference :: "system_event option"
  ba_compaction :: "system_event option"

text \<open>A fold that reports a change, after which another is due.\<close>

definition and_then :: "(folded \<Rightarrow> bool \<times> folded) \<Rightarrow> bool \<times> folded \<Rightarrow> bool \<times> folded" where
  "and_then g r = (let x = g (snd r) in (fst r \<or> fst x, snd x))"

definition flush :: "(system_event \<Rightarrow> folded \<Rightarrow> bool \<times> folded) \<Rightarrow> batch \<Rightarrow> bool \<times> folded \<Rightarrow> bool \<times> folded" where
  "flush fold1 b r =
     (let r1 = (case ba_inference b of None \<Rightarrow> r | Some e \<Rightarrow> and_then (fold1 e) r) in
      case ba_compaction b of None \<Rightarrow> r1 | Some e \<Rightarrow> and_then (fold1 e) r1)"

definition empty_batch :: batch where
  "empty_batch = \<lparr>ba_inference = None, ba_compaction = None\<rparr>"

fun batch_from ::
  "(system_event \<Rightarrow> folded \<Rightarrow> bool \<times> folded) \<Rightarrow> batch \<Rightarrow> system_event list \<Rightarrow> bool \<times> folded \<Rightarrow> bool \<times> folded" where
  "batch_from fold1 b [] r = flush fold1 b r"
| "batch_from fold1 b (e # es) r =
     (case e of
        InferenceChunk d a \<Rightarrow> batch_from fold1 (b\<lparr>ba_inference := Some e\<rparr>) es r
      | CompactionSummaryChunk src d a \<Rightarrow> batch_from fold1 (b\<lparr>ba_compaction := Some e\<rparr>) es r
      | _ \<Rightarrow> batch_from fold1 empty_batch es (and_then (fold1 e) (flush fold1 b r)))"

definition reduce_event_batch :: "tui_env \<Rightarrow> clock \<Rightarrow> system_event list \<Rightarrow> folded \<Rightarrow> bool \<times> folded" where
  "reduce_event_batch env ck es f = batch_from (reduce env True ck) empty_batch es (False, f)"

end
