(* ===== verification/Tui_Coordinator.thy ===== *)
theory Tui_Coordinator
  imports Tui_Reducer
begin

text \<open>
  The coordinator of the terminal interface (\<open>crates/agnt-tui/src/runtime/coordinator.rs\<close>): it routes a
  terminal event to the text box or to the reducer and keeps the draft, the cancel flag and the render
  bookkeeping; the painting of the transcript (\<open>runtime/render/transcript.rs\<close>) row by row; and the loop that
  drives it (\<open>interactive.rs\<close>).  The text box is the crate \<open>ratatui_textarea\<close>, a record of functions
  over a type of its own; the clipboard's answer, and whether the picked
  theme is to be saved, are parameters.
\<close>

section \<open>The text box\<close>

datatype box_key =
    BoxUp | BoxDown | BoxLeft | BoxRight | BoxHome | BoxEnd | BoxBackspace | BoxDelete | BoxChar str

record 't textbox =
  tx_new :: "str list \<Rightarrow> 't"
  tx_lines :: "'t \<Rightarrow> str list"
  tx_input :: "box_key \<Rightarrow> 't \<Rightarrow> 't"
  tx_insert :: "str \<Rightarrow> 't \<Rightarrow> 't"
  tx_newline :: "'t \<Rightarrow> 't"
  tx_jump :: "nat \<Rightarrow> nat \<Rightarrow> 't \<Rightarrow> 't"
  tx_cursor_row :: "'t \<Rightarrow> nat"
  tx_rows :: "nat \<Rightarrow> 't \<Rightarrow> nat"

record 't desk =
  de_ui :: tui_env
  de_catalog :: tui_catalog
  de_box :: "'t textbox"
  de_clipboard :: "str \<Rightarrow> str option"
  de_persists :: bool

datatype terminal_event =
    TeKey key
  | TeResize nat nat
  | TePaste str
  | TeMouse bool nat nat

definition map_terminal_event :: "terminal_event \<Rightarrow> system_event option" where
  "map_terminal_event e =
     (case e of
        TeResize columns rows \<Rightarrow> Some (Resized columns rows)
      | TeKey k \<Rightarrow> Some (KeyPressed k)
      | TePaste t \<Rightarrow> None
      | TeMouse up column row \<Rightarrow> Some (WheelScrolled up column row))"

section \<open>The coordinator\<close>

record 't tui =
  co_app :: app
  co_cancel :: bool
  co_input_height :: nat
  co_width :: nat
  co_quit :: bool
  co_render :: bool
  co_spinner :: "nat option"
  co_box :: 't

definition input_min_height :: nat where
  "input_min_height = 1"

definition input_max_height :: nat where
  "input_max_height = 6"

definition side_margin_of :: "nat \<Rightarrow> nat" where
  "side_margin_of columns = (if 8 \<le> columns then 1 else 0)"

definition input_content_width :: "nat \<Rightarrow> nat" where
  "input_content_width columns = columns - (2 * side_margin_of columns + 4)"

definition new_tui :: "'t desk \<Rightarrow> nat \<Rightarrow> 't tui" where
  "new_tui d columns =
     \<lparr>co_app = new_app, co_cancel = False, co_input_height = input_min_height,
      co_width = input_content_width columns, co_quit = False, co_render = True, co_spinner = None,
      co_box = tx_new (de_box d) []\<rparr>"

definition on_app :: "(app \<Rightarrow> app) \<Rightarrow> 't tui \<Rightarrow> 't tui" where
  "on_app f c = c\<lparr>co_app := f (co_app c)\<rparr>"

definition mark :: "'t tui \<Rightarrow> 't tui" where
  "mark c = c\<lparr>co_render := True\<rparr>"

definition on_box :: "('t \<Rightarrow> 't) \<Rightarrow> 't tui \<Rightarrow> 't tui" where
  "on_box f c = c\<lparr>co_box := f (co_box c)\<rparr>"

definition draft_of :: "'t desk \<Rightarrow> 't tui \<Rightarrow> str" where
  "draft_of d c = join newline (tx_lines (de_box d) (co_box c))"

definition replace_textarea :: "'t desk \<Rightarrow> str list \<Rightarrow> 't tui \<Rightarrow> 't tui" where
  "replace_textarea d ls = on_box (\<lambda>_. tx_new (de_box d) ls)"

definition fold_event :: "(folded \<Rightarrow> bool \<times> folded) \<Rightarrow> 't tui \<Rightarrow> bool \<times> 't tui" where
  "fold_event f c =
     (case f (co_app c, co_cancel c) of (b, s, flag) \<Rightarrow> (b, c\<lparr>co_app := s, co_cancel := flag\<rparr>))"

definition reduce_system_event :: "'t desk \<Rightarrow> clock \<Rightarrow> system_event \<Rightarrow> 't tui \<Rightarrow> bool \<times> 't tui" where
  "reduce_system_event d ck e = fold_event (reduce (de_ui d) True ck e)"

definition dispatch_terminal_event :: "'t desk \<Rightarrow> clock \<Rightarrow> terminal_event \<Rightarrow> 't tui \<Rightarrow> bool \<times> 't tui" where
  "dispatch_terminal_event d ck e c =
     (case map_terminal_event e of None \<Rightarrow> (False, c) | Some ev \<Rightarrow> reduce_system_event d ck ev c)"

text \<open>The draft as the box holds it now decides the slash suggestions.\<close>

definition check_draft :: "'t desk \<Rightarrow> 't tui \<Rightarrow> 't tui" where
  "check_draft d c = on_app (check_inline_slash (draft_of d c)) c"

definition recompute_layout :: "'t desk \<Rightarrow> 't tui \<Rightarrow> 't tui" where
  "recompute_layout d c =
     c\<lparr>co_input_height :=
         max input_min_height (min input_max_height (tx_rows (de_box d) (co_width c) (co_box c)))\<rparr>"

definition flush_clipboard :: "'t desk \<Rightarrow> nat \<Rightarrow> 't tui \<Rightarrow> 't tui" where
  "flush_clipboard d now c =
     (case in_clipboard (ap_input (co_app c)) of
        None \<Rightarrow> c
      | Some t \<Rightarrow>
          (let c1 = on_app (on_input (\<lambda>i. i\<lparr>in_clipboard := None\<rparr>)) c in
           case de_clipboard d t of
             None \<Rightarrow> c1
           | Some err \<Rightarrow> on_app (set_message now (''Clipboard copy failed: '' @ err)) c1))"

definition pickup_restored :: "'t desk \<Rightarrow> 't tui \<Rightarrow> 't tui" where
  "pickup_restored d c =
     (case in_restored (ap_input (co_app c)) of
        None \<Rightarrow> c
      | Some t \<Rightarrow>
          (let ls = lines_of t;
               last_line = length ls - 1;
               last_col = (if ls = [] then 0 else length (last ls))
           in mark (on_box (tx_jump (de_box d) last_line last_col)
                (replace_textarea d ls (on_app (on_input (\<lambda>i. i\<lparr>in_restored := None\<rparr>)) c)))))"

section \<open>The quit guard\<close>

definition quit_guard :: "'t desk \<Rightarrow> nat \<Rightarrow> 't tui \<Rightarrow> 't tui" where
  "quit_guard d now c =
     (case fold_event (handle_ctrl_c now (draft_of d c)) (c\<lparr>co_quit := co_quit c \<or> quit_confirmation_armed now (co_app c)\<rparr>) of
        (clear, c1) \<Rightarrow> mark (if clear then recompute_layout d (replace_textarea d [] c1) else c1))"

definition disarm_quit :: "nat \<Rightarrow> 't tui \<Rightarrow> 't tui" where
  "disarm_quit now c =
     (case disarm_quit_confirmation now (co_app c) of
        (b, s) \<Rightarrow> (let c1 = c\<lparr>co_app := s\<rparr> in if b then mark c1 else c1))"

definition handle_ctrl_c_guard :: "'t desk \<Rightarrow> nat \<Rightarrow> terminal_event \<Rightarrow> 't tui \<Rightarrow> bool \<times> 't tui" where
  "handle_ctrl_c_guard d now e c =
     (case e of
        TeResize columns rows \<Rightarrow> (False, c)
      | TeKey k \<Rightarrow> if k = KCtrlC then (True, quit_guard d now c) else (False, disarm_quit now c)
      | _ \<Rightarrow> (False, disarm_quit now c))"

section \<open>The keys of insert mode\<close>

text \<open>A key the box takes, after which the suggestions follow the draft.\<close>

definition type_in :: "'t desk \<Rightarrow> ('t \<Rightarrow> 't) \<Rightarrow> 't tui \<Rightarrow> bool \<times> 't tui" where
  "type_in d f c = (True, mark (check_draft d (on_box f c)))"

definition submitted_prompt_texts :: "app \<Rightarrow> str list" where
  "submitted_prompt_texts s = map qp_text (filter (\<lambda>p. qp_status p = PromptDone) (pq_items (ap_queue s)))"

definition handle_history_up :: "'t desk \<Rightarrow> 't tui \<Rightarrow> ('t tui) option" where
  "handle_history_up d c =
     (if ap_phase (co_app c) \<noteq> UiIdle then Some c
      else case history_up (submitted_prompt_texts (co_app c)) (draft_of d c) (ap_input (co_app c)) of
        None \<Rightarrow> None
      | Some (shown, i) \<Rightarrow>
          (let c1 = on_app (\<lambda>s. s\<lparr>ap_input := i\<rparr>) c in
           Some (case shown of None \<Rightarrow> c1 | Some t \<Rightarrow> mark (replace_textarea d (lines_of t) c1))))"

definition handle_history_down :: "'t desk \<Rightarrow> 't tui \<Rightarrow> 't tui" where
  "handle_history_down d c =
     (if ap_phase (co_app c) \<noteq> UiIdle then c
      else case history_down (submitted_prompt_texts (co_app c)) (ap_input (co_app c)) of
        (shown, i) \<Rightarrow>
          (let c1 = on_app (\<lambda>s. s\<lparr>ap_input := i\<rparr>) c in
           case shown of None \<Rightarrow> c1 | Some t \<Rightarrow> mark (replace_textarea d (lines_of t) c1)))"

definition move_slash :: "(nat \<Rightarrow> nat \<Rightarrow> nat) \<Rightarrow> 't tui \<Rightarrow> bool \<times> 't tui" where
  "move_slash f c = (True, mark (on_app (on_picker (map_active (move f))) c))"

definition handle_inline_slash_key :: "'t desk \<Rightarrow> clock \<Rightarrow> key \<Rightarrow> 't tui \<Rightarrow> bool \<times> 't tui" where
  "handle_inline_slash_key d ck k c =
     (case k of
        KChar ch \<Rightarrow>
          (case rewrite_action k (co_app c) of
             (lens, s) \<Rightarrow>
               (let c1 = c\<lparr>co_app := s\<rparr> in
                case lens of
                  LensPass \<Rightarrow>
                    type_in d (tx_input (de_box d) (BoxChar ch)) (snd (reduce_system_event d ck (KeyPressed k) c1))
                | LensConsumed b \<Rightarrow> (True, if b then mark c1 else c1)
                | _ \<Rightarrow> (False, c1)))
      | KUp \<Rightarrow> move_slash row_up c
      | KBackTab \<Rightarrow> move_slash row_up c
      | KDown \<Rightarrow> move_slash row_down c
      | KTab \<Rightarrow>
          (case reduce_system_event d ck (KeyPressed KTab) c of
             (b, c1) \<Rightarrow> (b, mark (on_app (check_inline_slash []) (replace_textarea d [] c1))))
      | KEnter \<Rightarrow>
          (case reduce_system_event d ck (KeyPressed KEnter) c of
             (b, c1) \<Rightarrow> (b, mark (on_app (check_inline_slash []) (replace_textarea d [] c1))))
      | KEsc \<Rightarrow>
          (if ap_phase (co_app c) \<noteq> UiIdle then (False, c)
           else (True, mark (on_app (check_inline_slash []) c)))
      | KBackspace \<Rightarrow> type_in d (tx_input (de_box d) BoxBackspace) c
      | _ \<Rightarrow> (False, c))"

definition handle_char_key :: "'t desk \<Rightarrow> clock \<Rightarrow> str \<Rightarrow> 't tui \<Rightarrow> bool \<times> 't tui" where
  "handle_char_key d ck ch c =
     (let chord = ((ch = ''j'' \<or> ch = ''k'') \<and> exit_pending_j (ck_now ck) (ap_input (co_app c))) in
      case rewrite_action (KChar ch) (co_app c) of
        (lens, s) \<Rightarrow>
          (let c1 = c\<lparr>co_app := s\<rparr> in
           case lens of
             LensPass \<Rightarrow>
               (let c2 = snd (reduce_system_event d ck (KeyPressed (KChar ch)) c1) in
                if chord then
                  (True, mark (if ap_input_locked (co_app c2) then c2
                               else on_box (tx_input (de_box d) BoxBackspace) c2))
                else type_in d (tx_input (de_box d) (BoxChar ch)) c2)
           | LensConsumed b \<Rightarrow> (True, if b then mark c1 else c1)
           | _ \<Rightarrow> (False, c1)))"

definition handle_enter_key :: "'t desk \<Rightarrow> clock \<Rightarrow> 't tui \<Rightarrow> bool \<times> 't tui" where
  "handle_enter_key d ck c =
     (let t = draft_of d c in
      if t = [] \<and> ap_phase (co_app c) = UiBusy \<and> pq_pending (ap_queue (co_app c)) \<noteq> []
      then (True, mark (c\<lparr>co_cancel := True\<rparr>))
      else
        (case dispatch_terminal_event d ck (TeKey KEnter)
                (on_app (on_input (\<lambda>i. i\<lparr>in_submit_text := Some t\<rparr>)) (replace_textarea d [] c)) of
           (b, c1) \<Rightarrow> (b, mark (on_app (check_inline_slash []) c1))))"

text \<open>The inline suggestions are not drawn as a picker of their own.\<close>

definition inline_slash_open :: "app \<Rightarrow> bool" where
  "inline_slash_open s \<longleftrightarrow> active (ap_picker s) = Some PickInlineSlash"

text \<open>A history index past the submitted texts is the panic of the code's indexing.\<close>

definition handle_insert_mode_key :: "'t desk \<Rightarrow> clock \<Rightarrow> key \<Rightarrow> 't tui \<Rightarrow> (bool \<times> 't tui) option" where
  "handle_insert_mode_key d ck k c =
     (if ap_panel (co_app c) \<noteq> None then Some (False, c)
      else if has_prompt (ap_card (co_app c)) then Some (False, c)
      else if inline_slash_open (co_app c) then Some (handle_inline_slash_key d ck k c)
      else case k of
        KEnter \<Rightarrow> Some (handle_enter_key d ck c)
      | KUp \<Rightarrow>
          (if 0 < tx_cursor_row (de_box d) (co_box c)
           then Some (True, mark (on_box (tx_input (de_box d) BoxUp) c))
           else map_option (Pair True) (handle_history_up d c))
      | KDown \<Rightarrow>
          (if tx_cursor_row (de_box d) (co_box c) + 1 < tx_rows (de_box d) (co_width c) (co_box c)
           then Some (True, mark (on_box (tx_input (de_box d) BoxDown) c))
           else Some (True, handle_history_down d c))
      | KLeft \<Rightarrow> Some (type_in d (tx_input (de_box d) BoxLeft) c)
      | KRight \<Rightarrow> Some (type_in d (tx_input (de_box d) BoxRight) c)
      | KHome \<Rightarrow> Some (type_in d (tx_input (de_box d) BoxHome) c)
      | KEnd \<Rightarrow> Some (type_in d (tx_input (de_box d) BoxEnd) c)
      | KBackspace \<Rightarrow> Some (type_in d (tx_input (de_box d) BoxBackspace) c)
      | KDelete \<Rightarrow> Some (type_in d (tx_input (de_box d) BoxDelete) c)
      | KAltEnter \<Rightarrow> Some (type_in d (tx_newline (de_box d)) c)
      | KShiftEnter \<Rightarrow> Some (type_in d (tx_newline (de_box d)) c)
      | KChar ch \<Rightarrow> Some (handle_char_key d ck ch c)
      | _ \<Rightarrow> Some (False, c))"

section \<open>Terminal events\<close>

definition input_takes_keys :: "app \<Rightarrow> bool" where
  "input_takes_keys s \<longleftrightarrow>
     in_mode (ap_input s) = ModeInsert \<and> (active (ap_picker s) = None \<or> inline_slash_open s) \<and> ap_panel s = None"

text \<open>The last part of every terminal event.\<close>

definition settle_event :: "'t desk \<Rightarrow> nat \<Rightarrow> 't tui \<Rightarrow> 't tui" where
  "settle_event d now c =
     (let c1 = flush_clipboard d now (recompute_layout d c) in
      c1\<lparr>co_quit := co_quit c1 \<or> ap_quit_requested (co_app c1)\<rparr>)"

definition dispatch_and_settle :: "'t desk \<Rightarrow> clock \<Rightarrow> terminal_event \<Rightarrow> 't tui \<Rightarrow> 't tui" where
  "dispatch_and_settle d ck e c =
     (case dispatch_terminal_event d ck e c of
        (b, c2) \<Rightarrow> settle_event d (ck_now ck) (if b then mark c2 else c2))"

definition handle_resize :: "'t desk \<Rightarrow> terminal_event \<Rightarrow> 't tui \<Rightarrow> 't tui" where
  "handle_resize d e c =
     (case e of
        TeResize columns rows \<Rightarrow>
          mark (recompute_layout d
            ((on_app (on_store invalidate_height_index) c)\<lparr>co_width := input_content_width columns\<rparr>))
      | _ \<Rightarrow> c)"

definition handle_terminal_event :: "'t desk \<Rightarrow> clock \<Rightarrow> terminal_event \<Rightarrow> 't tui \<Rightarrow> ('t tui) option" where
  "handle_terminal_event d ck e c0 =
     (case handle_ctrl_c_guard d (ck_now ck) e (pickup_restored d c0) of
        (True, c) \<Rightarrow> Some c
      | (False, c1) \<Rightarrow>
          (let c = handle_resize d e c1; s = co_app c;
               dispatched = dispatch_and_settle d ck e
           in case e of
                TePaste t \<Rightarrow>
                  (if input_takes_keys s \<and> \<not> ap_input_locked s \<and> \<not> has_prompt (ap_card s)
                   then Some (mark (settle_event d (ck_now ck) (snd (type_in d (tx_insert (de_box d) t) c))))
                   else Some (dispatched c))
              | TeKey k \<Rightarrow>
                  (if input_takes_keys s then
                     (case handle_insert_mode_key d ck k c of
                        None \<Rightarrow> None
                      | Some (True, c2) \<Rightarrow> Some (settle_event d (ck_now ck) (mark c2))
                      | Some (False, c2) \<Rightarrow> Some (dispatched c2))
                   else Some (dispatched c))
              | _ \<Rightarrow> Some (dispatched c)))"

end
