(* ===== verification/Tui_Loop.thy ===== *)
theory Tui_Loop
  imports Tui_Coordinator
begin

text \<open>
  What a frame shows of the transcript (\<open>crates/agnt-tui/src/runtime/render/transcript.rs\<close>) and the loop of
  the interface (\<open>interactive.rs\<close>): a terminal event, a burst of bus events, a compaction event, a state
  event of the orchestrator or a tick of the timer, the drain that follows each, and the frame.  A row of the
  canvas holds a gap row or a row of an entry's own rendering; what the cells of that row show is the
  backend's.
\<close>

section \<open>Painting the transcript\<close>

datatype painted_row = GapRow bool | EntryRow nat nat

record paint_window =
  pw_width :: nat
  pw_first :: nat
  pw_height :: nat
  pw_top :: nat

record canvas =
  ca_height :: nat
  ca_rows :: "nat \<rightharpoonup> painted_row"

definition window_contains :: "paint_window \<Rightarrow> nat \<Rightarrow> bool" where
  "window_contains w row \<longleftrightarrow> pw_first w \<le> row \<and> row < sat_add (pw_first w) (pw_height w)"

definition buffer_row :: "paint_window \<Rightarrow> nat \<Rightarrow> nat" where
  "buffer_row w row = pw_top w + (row - pw_first w)"

definition u16_max :: nat where
  "u16_max = 65535"

text \<open>A row no \<open>u16\<close> holds or below the canvas is not painted.\<close>

definition paint_at :: "nat \<Rightarrow> painted_row \<Rightarrow> canvas \<Rightarrow> canvas" where
  "paint_at y r b = (if y \<le> u16_max \<and> y < ca_height b then b\<lparr>ca_rows := (ca_rows b)(y \<mapsto> r)\<rparr> else b)"

definition is_user_turn :: "transcript_entry \<Rightarrow> bool" where
  "is_user_turn e \<longleftrightarrow> (case e of MessageRow m \<Rightarrow> mr_role m = ByUser | _ \<Rightarrow> False)"

definition paint_gap_rows ::
  "paint_window \<Rightarrow> planned_entry \<Rightarrow> transcript_entry option \<Rightarrow> transcript_entry \<Rightarrow> canvas \<Rightarrow> canvas" where
  "paint_gap_rows w p previous e b =
     (if pe_gap p = 0 then b
      else
        (let gap_end = rr_row (pe_rect p);
             gap_start = gap_end - pe_gap p;
             previous_is_user = (case previous of None \<Rightarrow> False | Some x \<Rightarrow> is_user_turn x)
         in fold (\<lambda>row b.
              if window_contains w row then
                paint_at (buffer_row w row)
                  (GapRow (row = gap_start \<and> previous_is_user \<or> row + 1 = gap_end \<and> is_user_turn e)) b
              else b) [gap_start..<gap_end] b))"

definition rect_end :: "row_rect \<Rightarrow> nat" where
  "rect_end r = rr_row r + rr_rows r"

definition paint_entry_rows :: "paint_window \<Rightarrow> planned_entry \<Rightarrow> canvas \<Rightarrow> canvas" where
  "paint_entry_rows w p b =
     (let visible_start = max (rr_row (pe_rect p)) (pw_first w);
          visible_end = min (rect_end (pe_rect p)) (sat_add (pw_first w) (pw_height w))
      in if rr_rows (pe_rect p) = 0 \<or> visible_end \<le> visible_start \<or> u16_max < rr_rows (pe_rect p) then b
         else fold (\<lambda>row. paint_at (buffer_row w row) (EntryRow (pe_index p) (row - rr_row (pe_rect p))))
                [visible_start..<visible_end] b)"

definition paint_planned :: "paint_window \<Rightarrow> transcript_entry list \<Rightarrow> planned_entry \<Rightarrow> canvas \<Rightarrow> canvas" where
  "paint_planned w es p b =
     (if pe_index p < length es then
        paint_entry_rows w p
          (paint_gap_rows w p
             (if pe_index p = 0 then None else Some (es ! (pe_index p - 1))) (es ! pe_index p) b)
      else b)"

definition paint_trailing :: "paint_window \<Rightarrow> transcript_entry list \<Rightarrow> frame_plan \<Rightarrow> canvas \<Rightarrow> canvas" where
  "paint_trailing w es pl b =
     (if fp_entries pl = [] then b
      else
        (let p = last (fp_entries pl);
             start = rect_end (pe_rect p);
             bleed = (pe_index p < length es \<and> is_user_turn (es ! pe_index p))
         in fold (\<lambda>row b. if window_contains w row then paint_at (buffer_row w row) (GapRow bleed) b else b)
              [start..<start + fp_trailing_gap pl] b))"

definition paint_transcript_rows :: "tstore \<Rightarrow> paint_window \<Rightarrow> canvas \<Rightarrow> canvas" where
  "paint_transcript_rows s w b =
     (if pw_width w = 0 \<or> pw_height w = 0 then b
      else
        (let (first_index, last_index) = visible_window (pw_first w) (pw_height w) s;
             pl = store_frame_plan first_index last_index (pw_width w) s;
             es = ts_entries s
         in paint_trailing w es pl (fold (paint_planned w es) (fp_entries pl) b)))"

section \<open>The frame\<close>

text \<open>
  The part of a frame that is state: the area and the viewport, the height index measured for the width of
  the list, the offset written back, and the canvas of the transcript.  A list of no width or height leaves
  the area alone.
\<close>

definition render_transcript_pane :: "tui_env \<Rightarrow> rect \<Rightarrow> app \<Rightarrow> (canvas \<times> paint_window) option \<times> app" where
  "render_transcript_pane env area s0 =
     (let s = on_scroll (\<lambda>c. c\<lparr>so_area := area\<rparr>) s0;
          width = re_width area - 2;
          viewport = re_height area
      in if width = 0 \<or> viewport = 0 then (None, s)
         else
           (let s1 = (if height_index_valid_for width (ap_transcript s) then s
                      else on_store (rebuild_height_index (tv_measure env) width) s);
                total_rows = hi_total_rows (ts_index (ap_transcript s1));
                (max_scroll, sc) = sync_after_render total_rows ((ap_scroll s1)\<lparr>so_viewport := viewport\<rparr>);
                offset = (if so_following (ap_scroll s0) then max_scroll else min (so_offset (ap_scroll s0)) max_scroll);
                w = \<lparr>pw_width = width, pw_first = offset, pw_height = viewport,
                     pw_top = (viewport - total_rows) div 2\<rparr>
            in (Some (paint_transcript_rows (ap_transcript s1) w \<lparr>ca_height = min viewport u16_max, ca_rows = Map.empty\<rparr>, w),
                s1\<lparr>ap_scroll := sc\<lparr>so_offset := offset\<rparr>\<rparr>)))"

section \<open>The loop\<close>

definition compaction_in_progress :: "app \<Rightarrow> bool" where
  "compaction_in_progress s \<longleftrightarrow> list_ex (\<lambda>b. snd b = CompactionInProgress) (ap_blocks s)"

definition model_busy :: "app \<Rightarrow> bool" where
  "model_busy s \<longleftrightarrow> ap_phase s \<noteq> UiIdle \<or> compaction_in_progress s"

definition has_active_animation :: "app \<Rightarrow> bool" where
  "has_active_animation s \<longleftrightarrow>
     model_busy s \<or>
     list_ex (\<lambda>e. case e of ToolRow t \<Rightarrow> tr_status t = ItemInProgress | _ \<Rightarrow> False) (ts_entries (ap_transcript s))"

definition spinner_cadence_ms :: nat where
  "spinner_cadence_ms = 150"

definition spinner_cadence_advanced :: "nat \<Rightarrow> 't tui \<Rightarrow> bool \<times> 't tui" where
  "spinner_cadence_advanced now c =
     (let step = (if has_active_animation (co_app c) then Some (now div spinner_cadence_ms) else None) in
      if step = co_spinner c then (False, c) else (step \<noteq> None, c\<lparr>co_spinner := step\<rparr>))"

datatype loop_event =
    FromTerminal terminal_event
  | FromBus system_event "system_event list"
  | FromCompaction system_event
  | FromUiState tui_state_event
  | RenderTick
  | FrameDue rect

datatype loop_output =
    Sent orchestrator_event
  | Republished shared_ui_action
  | ThemeSaved str
  | SentQuit

definition drain :: "'t desk \<Rightarrow> 't tui \<Rightarrow> loop_output list \<times> 't tui" where
  "drain d c =
     (case take_pending_events (de_ui d) (co_app c, co_cancel c) of
        (es, s, flag) \<Rightarrow>
          (let themes = (if de_persists d then ap_theme_persist s else []) in
           case take_pending_ui_state_events (if de_persists d then s\<lparr>ap_theme_persist := []\<rparr> else s) of
             (launches, s1) \<Rightarrow>
               (map Sent es @ map ThemeSaved themes @ map Republished launches,
                c\<lparr>co_app := s1, co_cancel := flag\<rparr>)))"

definition fold_batch :: "'t desk \<Rightarrow> clock \<Rightarrow> system_event list \<Rightarrow> 't tui \<Rightarrow> bool \<times> 't tui" where
  "fold_batch d ck es c =
     (case fold_event (reduce_event_batch (de_ui d) ck es) c of (b, c1) \<Rightarrow> (b, if b then mark c1 else c1))"

text \<open>
  One turn of the loop; None is the panic of an input history index.  A burst that changed nothing is not
  drained.
\<close>

definition loop_step :: "'t desk \<Rightarrow> clock \<Rightarrow> loop_event \<Rightarrow> 't tui \<Rightarrow> (loop_output list \<times> 't tui) option" where
  "loop_step d ck e c =
     (case e of
        FromTerminal te \<Rightarrow>
          (case handle_terminal_event d ck te c of
             None \<Rightarrow> None
           | Some c1 \<Rightarrow>
               (case drain d c1 of
                  (msgs, c2) \<Rightarrow> Some (msgs @ (if ap_quit_requested (co_app c2) then [SentQuit] else []), c2)))
      | FromBus ev evs \<Rightarrow>
          (case fold_batch d ck (ev # evs) c of
             (False, c1) \<Rightarrow> Some ([], c1)
           | (True, c1) \<Rightarrow> (case drain d c1 of (msgs, c2) \<Rightarrow> Some (msgs, mark c2)))
      | FromCompaction ev \<Rightarrow>
          (case reduce_system_event d ck ev c of (b, c1) \<Rightarrow> Some ([], if b then mark c1 else c1))
      | FromUiState ev \<Rightarrow>
          (case drain d (on_app (reduce_ui_state_event (de_ui d) ck (de_catalog d) ev) c) of
             (msgs, c1) \<Rightarrow> Some (msgs, mark c1))
      | RenderTick \<Rightarrow>
          (let c1 = (if sm_written_at (st_message (ap_status (co_app c))) \<noteq> None then
                       (case expire_status_message_if_due (ck_now ck) (co_app c) of
                          (b, s) \<Rightarrow> (let c1 = c\<lparr>co_app := s\<rparr> in if b then mark c1 else c1))
                     else c)
           in case spinner_cadence_advanced (ck_now ck) c1 of (b, c2) \<Rightarrow> Some ([], if b then mark c2 else c2))
      | FrameDue area \<Rightarrow>
          Some ([], c\<lparr>co_app := snd (render_transcript_pane (de_ui d) area (co_app c)), co_render := False\<rparr>))"

text \<open>The loop over its events, until it returns for a quit; what it sent, and where it is.\<close>

fun loop_run :: "'t desk \<Rightarrow> (clock \<times> loop_event) list \<Rightarrow> 't tui \<Rightarrow> (loop_output list \<times> 't tui) option" where
  "loop_run d [] c = Some ([], c)"
| "loop_run d ((ck, e) # es) c =
     (case loop_step d ck e c of
        None \<Rightarrow> None
      | Some r \<Rightarrow>
          (if SentQuit \<in> set (fst r) then Some r
           else case loop_run d es (snd r) of None \<Rightarrow> None | Some r' \<Rightarrow> Some (fst r @ fst r', snd r')))"

end
