(* ===== verification/Tui_Store_Facts.thy ===== *)
theory Tui_Store_Facts
  imports Tui_Store
begin

text \<open>
  The height index of the transcript is the one a rebuild computes after every operation of the store, and
  the frames read from it are slices of the plan the layout planner makes of all entries.
\<close>

section \<open>The index and the planner\<close>

lemma derive_metrics [simp]: "hi_metrics (derive hi) = hi_metrics hi"
  by (simp add: derive_def split: prod.splits)

lemma derive_empty: "derive hi = derive (empty_index\<lparr>hi_metrics := hi_metrics hi\<rparr>)"
  by (simp add: derive_def empty_index_def split: prod.splits)

lemma derive_cong: "hi_metrics a = hi_metrics b \<Longrightarrow> derive a = derive b"
  using derive_empty [of a] derive_empty [of b] by simp

lemma rebuild_metrics [simp]: "hi_metrics (rebuild ms es w) = map (metrics_of ms w) es"
  by (simp add: rebuild_def)

lemma derive_rebuild: "hi_metrics hi = map (metrics_of ms w) es \<Longrightarrow> derive hi = rebuild ms es w"
  unfolding rebuild_def by (rule derive_cong) simp

text \<open>What both loops compute, entry by entry.\<close>

definition entry_of_plan :: "planned_entry \<Rightarrow> nat \<times> height_entry" where
  "entry_of_plan p =
     (rr_row (pe_rect p) - pe_gap p,
      \<lparr>he_gap = pe_gap p, he_rows = pe_gap p + rr_rows (pe_rect p), he_padding_top = rr_offset (pe_rect p)\<rparr>)"

text \<open>One step of both loops.\<close>

definition planned_step :: "(transcript_entry \<Rightarrow> nat \<Rightarrow> nat) \<Rightarrow> nat \<Rightarrow> nat \<Rightarrow> nat \<Rightarrow> nat \<Rightarrow>
    (entry_family \<times> nat) option \<Rightarrow> transcript_entry \<Rightarrow> planned_entry" where
  "planned_step ms w l i row prev e =
     (let family = family_of e;
          top = (if prev = None then 0 else fst (entry_padding e));
          bottom = (if i = l then 0 else snd (entry_padding e));
          gap = gap_before prev family top
      in \<lparr>pe_index = i, pe_family = family, pe_gap = gap,
          pe_rect = \<lparr>rr_row = row + gap, rr_width = w, rr_rows = ms e w + top + bottom, rr_offset = top\<rparr>\<rparr>)"

definition row_after :: "planned_entry \<Rightarrow> nat" where
  "row_after p = rr_row (pe_rect p) + rr_rows (pe_rect p)"

definition closing_of :: "nat \<Rightarrow> nat \<Rightarrow> transcript_entry \<Rightarrow> (entry_family \<times> nat) option" where
  "closing_of l i e = Some (family_of e, if i = l then 0 else snd (entry_padding e))"

lemma plan_from_Cons:
  "plan_from ms w l i row prev (e # es) =
     (case plan_from ms w l (Suc i) (row_after (planned_step ms w l i row prev e)) (closing_of l i e) es of
        (ps, row', prev') \<Rightarrow> (planned_step ms w l i row prev e # ps, row', prev'))"
  by (simp add: planned_step_def row_after_def closing_of_def Let_def)

lemma derive_from_Cons:
  "derive_from l i row prev (metrics_of ms w e # hs) =
     (case derive_from l (Suc i) (row_after (planned_step ms w l i row prev e)) (closing_of l i e) hs of
        (starts, entries, row', prev') \<Rightarrow>
          (fst (entry_of_plan (planned_step ms w l i row prev e)) # starts,
           snd (entry_of_plan (planned_step ms w l i row prev e)) # entries, row', prev'))"
  by (simp add: planned_step_def row_after_def closing_of_def entry_of_plan_def metrics_of_def Let_def
      ac_simps split: prod.split)

declare plan_from.simps(2) [simp del] derive_from.simps(2) [simp del]

lemma planned_step_facts [simp]:
  "pe_index (planned_step ms w l i row prev e) = i"
  "pe_family (planned_step ms w l i row prev e) = family_of e"
  "rr_width (pe_rect (planned_step ms w l i row prev e)) = w"
  "rr_row (pe_rect (planned_step ms w l i row prev e)) = row + pe_gap (planned_step ms w l i row prev e)"
  by (simp_all add: planned_step_def Let_def)

lemma derive_plan_from:
  assumes "plan_from ms w l i row prev es = (ps, row', prev')"
  shows "derive_from l i row prev (map (metrics_of ms w) es)
       = (map (fst \<circ> entry_of_plan) ps, map (snd \<circ> entry_of_plan) ps, row', prev')"
  using assms
proof (induction es arbitrary: i row prev ps)
  case (Cons e es)
  then show ?case
    by (auto simp: plan_from_Cons derive_from_Cons split: prod.splits)
qed simp

lemma plan_from_shape:
  assumes "plan_from ms w l i row prev es = (ps, row', prev')"
  shows "length ps = length es"
    and "k < length es \<Longrightarrow> pe_index (ps ! k) = i + k \<and> pe_family (ps ! k) = family_of (es ! k)
         \<and> rr_width (pe_rect (ps ! k)) = w \<and> pe_gap (ps ! k) \<le> rr_row (pe_rect (ps ! k))"
    and "es \<noteq> [] \<Longrightarrow> map_option fst prev' = Some (family_of (last es))"
    and "es = [] \<Longrightarrow> prev' = prev"
  using assms
proof (induction es arbitrary: i row prev ps k)
  case (Cons e es)
  {
    case 1
    then show ?case using Cons.IH(1) by (auto simp: plan_from_Cons split: prod.splits)
  next
    case 2
    then show ?case using Cons.IH(2) by (cases k) (fastforce simp: plan_from_Cons split: prod.splits)+
  next
    case 3
    then show ?case using Cons.IH(3,4)
      by (cases "es = []") (fastforce simp: plan_from_Cons closing_of_def split: prod.splits)+
  next
    case 4
    then show ?case by simp
  }
qed simp_all

lemma plan_from_end:
  "plan_from ms w l i row prev es = (ps, row', prev') \<Longrightarrow> row' = (if ps = [] then row else row_after (last ps))"
  by (induction es arbitrary: i row prev ps) (fastforce simp: plan_from_Cons split: prod.splits)+

text \<open>No row between two entries belongs to neither.\<close>

lemma plan_from_next:
  assumes "plan_from ms w l i row prev es = (ps, row', prev')" and "k < length ps"
  shows "rr_row (pe_rect (ps ! k)) = (if k = 0 then row else row_after (ps ! (k - 1))) + pe_gap (ps ! k)"
  using assms
proof (induction es arbitrary: i row prev ps k)
  case (Cons e es)
  then show ?case
    by (cases k) (fastforce simp: plan_from_Cons nth_Cons split: prod.splits nat.splits)+
qed simp

section \<open>Rows in order\<close>

text \<open>The entries of a plan lie one under the other, each start one gap above its rows.\<close>

lemma plan_from_rows:
  assumes "plan_from ms w l i row prev es = (ps, row', prev')"
  shows "(\<forall>p\<in>set ps. row + pe_gap p \<le> rr_row (pe_rect p) \<and> row_after p \<le> row')
    \<and> row \<le> row'
    \<and> sorted_wrt (\<lambda>p q. row_after p + pe_gap q \<le> rr_row (pe_rect q)) ps"
  using assms
proof (induction es arbitrary: i row prev ps)
  case (Cons e es)
  have "row \<le> row_after (planned_step ms w l i row prev e)" by (simp add: row_after_def)
  then show ?case using Cons
    by (fastforce simp: plan_from_Cons split: prod.splits)
qed simp

section \<open>The store's plan\<close>

text \<open>The index describes the entries at the width it was measured for.\<close>

definition index_ok :: "(transcript_entry \<Rightarrow> nat \<Rightarrow> nat) \<Rightarrow> tstore \<Rightarrow> bool" where
  "index_ok ms s \<longleftrightarrow>
     (case ts_index_width s of None \<Rightarrow> True | Some w \<Rightarrow> ts_index s = rebuild ms (ts_entries s) w)"

lemma rebuild_plan:
  assumes "1 \<le> w"
  shows "hi_starts (rebuild ms es w) = map (fst \<circ> entry_of_plan) (fp_entries (plan ms es w))"
    and "hi_entries (rebuild ms es w) = map (snd \<circ> entry_of_plan) (fp_entries (plan ms es w))"
    and "hi_total_rows (rebuild ms es w) = fp_total_rows (plan ms es w)"
proof -
  obtain ps row prev where p: "plan_from ms w (length es - Suc 0) 0 0 None es = (ps, row, prev)"
    by (rule prod_cases3)
  have w: "max w (Suc 0) = w" using assms by simp
  have d: "derive_from (length es - Suc 0) 0 0 None (map (metrics_of ms w) es)
     = (map (fst \<circ> entry_of_plan) ps, map (snd \<circ> entry_of_plan) ps, row, prev)"
    by (rule derive_plan_from [OF p])
  show "hi_starts (rebuild ms es w) = map (fst \<circ> entry_of_plan) (fp_entries (plan ms es w))"
    "hi_entries (rebuild ms es w) = map (snd \<circ> entry_of_plan) (fp_entries (plan ms es w))"
    "hi_total_rows (rebuild ms es w) = fp_total_rows (plan ms es w)"
    by (simp_all add: rebuild_def derive_def plan_def w p d)
qed

lemma plan_facts:
  assumes "1 \<le> w"
  shows "length (fp_entries (plan ms es w)) = length es"
    and "k < length es \<Longrightarrow> pe_index (fp_entries (plan ms es w) ! k) = k
         \<and> pe_family (fp_entries (plan ms es w) ! k) = family_of (es ! k)
         \<and> rr_width (pe_rect (fp_entries (plan ms es w) ! k)) = w
         \<and> pe_gap (fp_entries (plan ms es w) ! k) \<le> rr_row (pe_rect (fp_entries (plan ms es w) ! k))"
    and "fp_trailing_gap (plan ms es w) = (if es = [] then 0 else trailing_gap (family_of (last es)))"
    and "sorted_wrt (\<lambda>p q. row_after p + pe_gap q \<le> rr_row (pe_rect q)) (fp_entries (plan ms es w))"
    and "fp_total_rows (plan ms es w)
       = (if es = [] then 0 else row_after (last (fp_entries (plan ms es w)))) + fp_trailing_gap (plan ms es w)"
    and "k < length es \<Longrightarrow> rr_row (pe_rect (fp_entries (plan ms es w) ! k))
       = (if k = 0 then 0 else row_after (fp_entries (plan ms es w) ! (k - 1))) + pe_gap (fp_entries (plan ms es w) ! k)"
proof -
  obtain ps row prev where p: "plan_from ms w (length es - Suc 0) 0 0 None es = (ps, row, prev)"
    by (rule prod_cases3)
  have w: "max w (Suc 0) = w" using assms by simp
  note pl = plan_def w p
  show "k < length es \<Longrightarrow> rr_row (pe_rect (fp_entries (plan ms es w) ! k))
       = (if k = 0 then 0 else row_after (fp_entries (plan ms es w) ! (k - 1))) + pe_gap (fp_entries (plan ms es w) ! k)"
    using plan_from_next [OF p, of k] plan_from_shape(1) [OF p] by (simp add: pl)
  note shape = plan_from_shape [OF p]
  show "length (fp_entries (plan ms es w)) = length es" using shape(1) by (simp add: pl)
  show "k < length es \<Longrightarrow> pe_index (fp_entries (plan ms es w) ! k) = k
         \<and> pe_family (fp_entries (plan ms es w) ! k) = family_of (es ! k)
         \<and> rr_width (pe_rect (fp_entries (plan ms es w) ! k)) = w
         \<and> pe_gap (fp_entries (plan ms es w) ! k) \<le> rr_row (pe_rect (fp_entries (plan ms es w) ! k))"
    using shape(2) [of k] by (simp add: pl)
  show "fp_trailing_gap (plan ms es w) = (if es = [] then 0 else trailing_gap (family_of (last es)))"
    using shape(3,4) by (auto simp: pl closing_gap_def split: option.splits)
  show "sorted_wrt (\<lambda>p q. row_after p + pe_gap q \<le> rr_row (pe_rect q)) (fp_entries (plan ms es w))"
    using plan_from_rows [OF p] by (simp add: pl)
  show "fp_total_rows (plan ms es w)
       = (if es = [] then 0 else row_after (last (fp_entries (plan ms es w)))) + fp_trailing_gap (plan ms es w)"
    using plan_from_end [OF p] shape(1) by (auto simp: pl)
qed

text \<open>A frame read from the index holds the planner's entries of its range.\<close>

lemma planned_from_plan:
  assumes ok: "ts_index s = rebuild ms (ts_entries s) w" and w: "1 \<le> w"
    and inside: "\<forall>i\<in>set is. i < length (ts_entries s)"
  shows "planned_from (ts_index s) s w is = map ((!) (fp_entries (plan ms (ts_entries s) w))) is"
  using inside
proof (induction "is")
  case (Cons i "is")
  let ?P = "fp_entries (plan ms (ts_entries s) w)"
  have i: "i < length (ts_entries s)" using Cons.prems by simp
  note shape = plan_facts(1,2) [OF w, where ms = ms and es = "ts_entries s"]
  have "i < length ?P" using i shape(1) by simp
  moreover have "he_rows (hi_entries (ts_index s) ! i) - he_gap (hi_entries (ts_index s) ! i) = rr_rows (pe_rect (?P ! i))"
    "hi_starts (ts_index s) ! i + he_gap (hi_entries (ts_index s) ! i) = rr_row (pe_rect (?P ! i))"
    "he_padding_top (hi_entries (ts_index s) ! i) = rr_offset (pe_rect (?P ! i))"
    "he_gap (hi_entries (ts_index s) ! i) = pe_gap (?P ! i)"
    using i shape by (simp_all add: ok rebuild_plan [OF w] entry_of_plan_def)
  ultimately show ?case
    using Cons i shape
    by (auto simp: Let_def ok rebuild_plan(1,2) [OF w] start_row_of_def metrics_of_def
        intro!: planned_entry.equality row_rect.equality)
qed simp

lemma frame_slice:
  assumes ok: "index_ok ms s" and width: "ts_index_width s = Some w" and w: "1 \<le> w"
  shows "fp_entries (store_frame_plan a b w s)
       = take (min b (length (ts_entries s)) - a) (drop a (fp_entries (plan ms (ts_entries s) w)))"
    and "fp_total_rows (store_frame_plan a b w s) = fp_total_rows (plan ms (ts_entries s) w)"
    and "fp_trailing_gap (store_frame_plan a b w s)
       = (if length (ts_entries s) \<le> b then fp_trailing_gap (plan ms (ts_entries s) w) else 0)"
proof -
  let ?es = "ts_entries s" let ?P = "fp_entries (plan ms ?es w)" let ?n = "length ?es"
  have idx: "ts_index s = rebuild ms ?es w" using ok width by (simp add: index_ok_def)
  note len = plan_facts(1) [OF w, of ms ?es]
  have "fp_entries (store_frame_plan a b w s) = map ((!) ?P) [min a (min b ?n)..<min b ?n]"
    by (simp add: store_frame_plan_def Let_def planned_from_plan [OF idx w])
  also have "\<dots> = take (min b ?n - a) (drop a ?P)"
    by (rule nth_equalityI) (auto simp: len min_def split: if_splits)
  finally show "fp_entries (store_frame_plan a b w s) = take (min b ?n - a) (drop a ?P)" .
  show "fp_total_rows (store_frame_plan a b w s) = fp_total_rows (plan ms ?es w)"
    by (simp add: store_frame_plan_def Let_def idx rebuild_plan(3) [OF w])
  show "fp_trailing_gap (store_frame_plan a b w s) = (if ?n \<le> b then fp_trailing_gap (plan ms ?es w) else 0)"
    by (auto simp: store_frame_plan_def Let_def idx plan_facts(3) [OF w] metrics_of_def last_map min_def)
qed

section \<open>The viewport\<close>

lemma partition_point_less:
  assumes "sorted xs" and "\<And>a b. p b \<Longrightarrow> a \<le> b \<Longrightarrow> p a"
  shows "k < partition_point p xs \<longleftrightarrow> k < length xs \<and> p (xs ! k)"
  using assms(1)
proof (induction xs arbitrary: k)
  case (Cons x xs)
  then show ?case using assms(2)
    by (cases k) (auto simp: partition_point_def)
qed (simp add: partition_point_def)

lemma starts_sorted:
  assumes "1 \<le> w"
  shows "sorted (hi_starts (rebuild ms es w))"
proof -
  have "sorted_wrt (\<lambda>p q. fst (entry_of_plan p) \<le> fst (entry_of_plan q)) (fp_entries (plan ms es w))"
    by (rule sorted_wrt_mono_rel [OF _ plan_facts(4) [OF assms]]) (auto simp: entry_of_plan_def row_after_def)
  then show ?thesis by (simp add: rebuild_plan(1) [OF assms] sorted_wrt_map)
qed

text \<open>The rows of an entry with the gap above it.\<close>

definition covers :: "nat \<Rightarrow> planned_entry \<Rightarrow> bool" where
  "covers r p \<longleftrightarrow> rr_row (pe_rect p) - pe_gap p \<le> r \<and> r < row_after p"

lemma starts_nth:
  "1 \<le> w \<Longrightarrow> k < length es \<Longrightarrow>
   hi_starts (rebuild ms es w) ! k
     = rr_row (pe_rect (fp_entries (plan ms es w) ! k)) - pe_gap (fp_entries (plan ms es w) ! k)"
  by (simp add: rebuild_plan(1) plan_facts(1) entry_of_plan_def)

lemma starts_length: "1 \<le> w \<Longrightarrow> length (hi_starts (rebuild ms es w)) = length es"
  by (simp add: rebuild_plan(1) plan_facts(1))

lemma next_start:
  assumes w: "1 \<le> w" and n: "Suc k < length es"
  shows "row_after (fp_entries (plan ms es w) ! k) \<le> hi_starts (rebuild ms es w) ! Suc k"
  using sorted_wrt_nth_less [OF plan_facts(4) [OF w, of ms es], of k "Suc k"] n plan_facts(1) [OF w, of ms es]
  by (simp add: starts_nth [OF w])

text \<open>Every entry with a row in the viewport is in the window.\<close>

lemma window_mem:
  assumes "index_ok ms s" and "ts_index_width s = Some w" and w: "1 \<le> w"
    and k: "k < length (ts_entries s)" and p: "covers r (fp_entries (plan ms (ts_entries s) w) ! k)"
    and view: "offset \<le> r" "r < sat_add offset viewport"
  shows "fst (visible_window offset viewport s) \<le> k \<and> k < snd (visible_window offset viewport s)"
proof -
  let ?es = "ts_entries s" let ?P = "fp_entries (plan ms ?es w)" let ?S = "hi_starts (rebuild ms ?es w)"
  have idx: "ts_index s = rebuild ms ?es w" using assms(1,2) by (simp add: index_ok_def)
  have start: "?S ! k \<le> r" and below: "r < row_after (?P ! k)"
    using p by (simp_all add: covers_def starts_nth [OF w k])
  have upper: "k < partition_point (\<lambda>start. start < sat_add offset viewport) ?S"
    by (subst partition_point_less) (use k start view starts_sorted [OF w] starts_length [OF w] in auto)
  have "\<not> Suc k < partition_point (\<lambda>start. start \<le> offset) ?S"
  proof
    assume "Suc k < partition_point (\<lambda>start. start \<le> offset) ?S"
    then have n: "Suc k < length ?es" and le: "?S ! Suc k \<le> offset"
      using partition_point_less [OF starts_sorted [OF w], of "\<lambda>start. start \<le> offset" "Suc k" ms ?es]
        starts_length [OF w] by auto
    from next_start [OF w n] le below view show False by (metis leD le_trans)
  qed
  moreover have "hi_entries (rebuild ms ?es w) \<noteq> []"
    using k plan_facts(1) [OF w, of ms ?es] by (auto simp: rebuild_plan(2) [OF w])
  moreover have "viewport \<noteq> 0" using view by (auto simp: sat_add_def)
  ultimately show ?thesis
    using upper by (simp add: visible_window_def visible_rows_def idx Let_def)
qed

text \<open>The last entry is in the window when the viewport reaches past it.\<close>

lemma window_last:
  assumes "index_ok ms s" and "ts_index_width s = Some w" and w: "1 \<le> w" and some: "ts_entries s \<noteq> []"
    and view: "0 < viewport" and past: "hi_starts (ts_index s) ! (length (ts_entries s) - 1) < sat_add offset viewport"
  shows "snd (visible_window offset viewport s) = length (ts_entries s)"
    and "fst (visible_window offset viewport s) < length (ts_entries s)"
proof -
  let ?es = "ts_entries s" let ?S = "hi_starts (rebuild ms ?es w)"
  have idx: "ts_index s = rebuild ms ?es w" using assms(1,2) by (simp add: index_ok_def)
  have "length ?es - 1 < partition_point (\<lambda>start. start < sat_add offset viewport) ?S"
    by (subst partition_point_less) (use some past idx starts_sorted [OF w] starts_length [OF w] in auto)
  moreover have le: "partition_point q ?S \<le> length ?es" for q
    using length_takeWhile_le [of q ?S] by (simp add: partition_point_def starts_length [OF w])
  moreover have "partition_point q ?S - 1 < length ?es" for q
    using le [of q] some by (cases ?es) (simp_all add: less_Suc_eq_le)
  moreover have "hi_entries (rebuild ms ?es w) \<noteq> []"
    using some plan_facts(1) [OF w, of ms ?es] by (auto simp: rebuild_plan(2) [OF w])
  ultimately show "snd (visible_window offset viewport s) = length ?es"
    "fst (visible_window offset viewport s) < length ?es"
    using view some by (auto simp: visible_window_def visible_rows_def idx Let_def intro!: le_antisym)
qed

lemma window_bounds:
  assumes "index_ok ms s" and "ts_index_width s = Some w" and w: "1 \<le> w"
  shows "snd (visible_window offset viewport s) \<le> length (ts_entries s)"
proof -
  have "length (hi_starts (ts_index s)) = length (ts_entries s)"
    using assms by (simp add: index_ok_def rebuild_plan(1) plan_facts(1))
  then show ?thesis
    using length_takeWhile_le [of _ "hi_starts (ts_index s)"]
    by (auto simp: visible_window_def visible_rows_def Let_def partition_point_def)
qed

section \<open>The store keeps the index\<close>

text \<open>A store holds at most the cap and describes its entries.\<close>

definition store_ok :: "(transcript_entry \<Rightarrow> nat \<Rightarrow> nat) \<Rightarrow> tstore \<Rightarrow> bool" where
  "store_ok ms s \<longleftrightarrow> index_ok ms s \<and> length (ts_entries s) \<le> max_transcript_entries"

lemma with_metrics_ok:
  assumes "ts_index_width s = Some w"
    and "f (hi_metrics (ts_index s)) = map (metrics_of ms w) (ts_entries s)"
  shows "index_ok ms (with_metrics f s)"
  using assms derive_rebuild by (simp add: index_ok_def with_metrics_def)

lemma with_metrics_parts [simp]:
  "ts_entries (with_metrics f s) = ts_entries s"
  "ts_index_width (with_metrics f s) = ts_index_width s"
  "ts_assistant_start (with_metrics f s) = ts_assistant_start s"
  "ts_summary_start (with_metrics f s) = ts_summary_start s"
  "ts_evicted_total (with_metrics f s) = ts_evicted_total s"
  by (simp_all add: with_metrics_def)

lemma index_ok_metrics:
  "index_ok ms s \<Longrightarrow> ts_index_width s = Some w \<Longrightarrow> hi_metrics (ts_index s) = map (metrics_of ms w) (ts_entries s)"
  by (simp add: index_ok_def)

lemma shift_indices_parts [simp]:
  "ts_entries (shift_indices_after_eviction n s) = ts_entries s"
  "ts_index_width (shift_indices_after_eviction n s) = ts_index_width s"
  "ts_index (shift_indices_after_eviction n s) = ts_index s"
  "ts_evicted_total (shift_indices_after_eviction n s) = ts_evicted_total s"
  by (simp_all add: shift_indices_after_eviction_def)

lemma index_ok_shift [simp]: "index_ok ms (shift_indices_after_eviction n s) = index_ok ms s"
  by (simp add: index_ok_def split: option.split)

lemma cache_pushed_ok:
  assumes "index_ok ms s"
  shows "index_ok ms (cache_pushed_entry ms (s\<lparr>ts_entries := ts_entries s @ [e]\<rparr>))"
  using assms
  by (auto simp: cache_pushed_entry_def index_ok_metrics intro!: with_metrics_ok split: option.splits)
     (simp add: index_ok_def)

lemma enforce_cap_ok:
  assumes "index_ok ms s"
  shows "store_ok ms (snd (enforce_transcript_cap s))"
proof -
  let ?n = "length (ts_entries s) - max_transcript_entries"
  let ?s = "shift_indices_after_eviction ?n
     (s\<lparr>ts_entries := drop ?n (ts_entries s), ts_evicted_total := sat_add (ts_evicted_total s) ?n\<rparr>)"
  show ?thesis
  proof (cases "ts_index_width s")
    case None
    then show ?thesis using assms
      by (auto simp: enforce_transcript_cap_def Let_def store_ok_def index_ok_def)
  next
    case (Some w)
    have "index_ok ms (with_metrics (\<lambda>m. drop (min ?n (length m)) m) ?s)"
      by (rule with_metrics_ok [where w = w]) (simp_all add: Some index_ok_metrics [OF assms Some] drop_map)
    then show ?thesis using assms Some
      by (auto simp: enforce_transcript_cap_def Let_def store_ok_def)
  qed
qed

lemma push_ok: "store_ok ms s \<Longrightarrow> store_ok ms (snd (push_entry ms e s))"
  unfolding push_entry_def by (rule enforce_cap_ok) (simp add: cache_pushed_ok store_ok_def)

lemma truncate_ok: "store_ok ms s \<Longrightarrow> store_ok ms (truncate_store n s)"
  by (auto simp: store_ok_def truncate_store_def Let_def index_ok_metrics take_map intro!: with_metrics_ok)
     (simp add: index_ok_def)

lemma clear_ok: "store_ok ms (clear_store s)"
  by (simp add: store_ok_def clear_store_def index_ok_def)

lemma rebuild_ok: "store_ok ms s \<Longrightarrow> store_ok ms (rebuild_height_index ms w s)"
  by (simp add: store_ok_def rebuild_height_index_def index_ok_def)

lemma invalidate_ok: "store_ok ms s \<Longrightarrow> store_ok ms (invalidate_height_index s)"
  by (simp add: store_ok_def invalidate_height_index_def index_ok_def)

text \<open>An entry is replaced and measured again.\<close>

lemma replace_ok:
  assumes "store_ok ms s"
  shows "store_ok ms (remeasure_entry_at ms i (s\<lparr>ts_entries := (ts_entries s)[i := e]\<rparr>))"
proof (cases "ts_index_width s")
  case None
  then show ?thesis using assms by (simp add: remeasure_entry_at_def store_ok_def index_ok_def)
next
  case (Some w)
  have m: "hi_metrics (ts_index s) = map (metrics_of ms w) (ts_entries s)"
    using assms Some by (simp add: store_ok_def index_ok_metrics)
  show ?thesis
  proof (cases "i < length (ts_entries s)")
    case True
    let ?s = "s\<lparr>ts_entries := (ts_entries s)[i := e]\<rparr>"
    have "index_ok ms (with_metrics (\<lambda>m. m[i := metrics_of ms w (ts_entries ?s ! i)]) ?s)"
      by (rule with_metrics_ok [where w = w])
        (use Some True in \<open>simp_all add: m map_update\<close>)
    then show ?thesis using Some True assms
      by (simp add: remeasure_entry_at_def store_ok_def m)
  next
    case False
    then have "(ts_entries s)[i := e] = ts_entries s" by (simp add: list_update_beyond)
    then show ?thesis using Some False assms by (simp add: remeasure_entry_at_def store_ok_def index_ok_def)
  qed
qed

lemma set_preview_ok: "store_ok ms s \<Longrightarrow> store_ok ms (snd (set_tool_preview_at ms i d s))"
  by (auto simp: set_tool_preview_at_def replace_ok split: transcript_entry.splits)

lemma set_result_ok: "store_ok ms s \<Longrightarrow> store_ok ms (snd (set_tool_result_at ms i d s))"
  by (auto simp: set_tool_result_at_def replace_ok split: transcript_entry.splits)

text \<open>The status of a tool row changes its marker and nothing the index counts.\<close>

definition measures_status_blind :: "(transcript_entry \<Rightarrow> nat \<Rightarrow> nat) \<Rightarrow> bool" where
  "measures_status_blind ms \<longleftrightarrow>
     (\<forall>t st w. ms (ToolRow (t\<lparr>tr_status := st\<rparr>)) w = ms (ToolRow t) w)"

lemma metrics_status:
  "measures_status_blind ms \<Longrightarrow> metrics_of ms w (ToolRow (t\<lparr>tr_status := st\<rparr>)) = metrics_of ms w (ToolRow t)"
  by (simp add: measures_status_blind_def metrics_of_def family_of_def entry_padding_def tool_padding_def)

end
