(* ===== verification/Tui_Laws.thy ===== *)
theory Tui_Laws
  imports Tui_Loop Tui_Store_Facts
begin

text \<open>
  A law of the interface's state: a predicate that survives each elementary transition survives every event,
  every drain, every state event of the orchestrator and every turn of the loop.  The elementary transitions
  are the operations of the transcript store, of the tool calls, of the permission card, of the prompt queue
  with the phase, and any change of what only a view reads.
\<close>

section \<open>What a view change leaves alone\<close>

definition same_core :: "app \<Rightarrow> app \<Rightarrow> bool" where
  "same_core s t \<longleftrightarrow>
     ap_phase t = ap_phase s \<and> ap_input_locked t = ap_input_locked s \<and> ap_abort t = ap_abort s \<and>
     ap_transcript t = ap_transcript s \<and> ap_queue t = ap_queue s \<and> ap_immediate t = ap_immediate s \<and>
     ap_active_cycle t = ap_active_cycle s \<and> ap_tool t = ap_tool s \<and> ap_card t = ap_card s"

locale state_law =
  fixes env :: tui_env and ck :: clock and P :: "app \<Rightarrow> bool"
  assumes view: "P s \<Longrightarrow> same_core s t \<Longrightarrow> P t"
    and pushed: "P s \<Longrightarrow> P (push_in_event env e s)"
    and pushed_and_shifted: "P s \<Longrightarrow> P (push_and_shift env e s)"
    and truncated: "P s \<Longrightarrow> P (on_store (truncate_store n) s)"
    and assistant_cursor: "P s \<Longrightarrow> P (on_store (\<lambda>t. t\<lparr>ts_assistant_start := v\<rparr>) s)"
    and summary_cursor: "P s \<Longrightarrow> P (on_store (\<lambda>t. t\<lparr>ts_summary_start := v\<rparr>) s)"
    and replaced: "P s \<Longrightarrow>
          P (on_store (\<lambda>t. remeasure_entry_at (tv_measure env) i (t\<lparr>ts_entries := (ts_entries t)[i := f (ts_entries t)]\<rparr>)) s)"
    and cleared: "P s \<Longrightarrow> P (on_store clear_store s)"
    and rebuilt: "P s \<Longrightarrow> P (on_store (rebuild_height_index (tv_measure env) w) s)"
    and invalidated: "P s \<Longrightarrow> P (on_store invalidate_height_index s)"
    and tool_started: "P s \<Longrightarrow> P (on_tools (start_tool_call (tv_measure env) call) s)"
    and tool_completed: "P s \<Longrightarrow> P (on_tools (complete_call (tv_measure env) key st d) s)"
    and previewed: "P s \<Longrightarrow> P (snd (on_preview (set_tool_preview (tv_measure env) key preview) s))"
    and shifted_calls: "P s \<Longrightarrow> P (shift_bookkeeping n s)"
    and asked: "P s \<Longrightarrow> P (on_card (\<lambda>c. c\<lparr>cd_prompt := Some p\<rparr>) s)"
    and closed: "P s \<Longrightarrow> P (on_card (\<lambda>c. c\<lparr>cd_prompt := None\<rparr>) s)"
    and decided: "P s \<Longrightarrow> P (on_card (\<lambda>c. snd (submit_decision decision c)) s)"
    and decisions_sent: "P s \<Longrightarrow> P (on_card (\<lambda>c. c\<lparr>cd_decisions := []\<rparr>) s)"
    and ensured: "P s \<Longrightarrow> P (ensure_invariants s)"
    and submitted: "P s \<Longrightarrow> P (enqueue_prompt_with_facts txt facts s)"
    and submitted_now: "P s \<Longrightarrow> P (enqueue_immediate txt facts s)"
    and taken: "P s \<Longrightarrow> P (snd (take_next_prompt env s))"
    and completed: "P s \<Longrightarrow> P (complete_active_prompt s)"
    and armed: "P s \<Longrightarrow> P (snd (request_abort_confirmation (ck_now ck) s))"
    and swept: "P s \<Longrightarrow> P (snd (sweep_expired_abort (ck_now ck) s))"
    and cancelled: "P s \<Longrightarrow> P (cancel_and_restore s)"
    and launched: "P s \<Longrightarrow> P (ensure_invariants (disarm_abort s))"
    and noticed: "P s \<Longrightarrow> P (on_abort (\<lambda>a. a\<lparr>ab_settle_notice := False\<rparr>) s)"
    and inferring: "P s \<Longrightarrow> P (ensure_invariants (llm_started s))"
    and finalized: "P s \<Longrightarrow> P (turn_finalize s)"
begin

subsection \<open>Changes of a view\<close>

lemma views:
  assumes "P s"
  shows "P (on_input f1 s)" "P (on_scroll f2 s)" "P (on_picker f3 s)" "P (on_status f4 s)"
    "P (on_message f5 s)" "P (on_tokens f6 s)" "P (on_identity f7 s)" "P (on_mcp f8 s)"
    "P (set_message now line s)" "P (clear_message s)"
    "P (ap_panel_update g1 s)" "P (ap_panel_scroll_update g2 s)" "P (ap_switches_update g3 s)"
    "P (ap_launches_update g4 s)" "P (ap_theme_update g5 s)" "P (ap_theme_persist_update g6 s)"
    "P (ap_session_refresh_update g7 s)" "P (ap_agent_refresh_update g8 s)"
    "P (ap_quit_requested_update g9 s)" "P (ap_quit_confirm_since_update h1 s)" "P (ap_blocks_update h2 s)"
    "P (ap_input_update h3 s)" "P (ap_scroll_update h4 s)"
  by (rule view [OF assms],
      simp add: same_core_def on_input_def on_scroll_def on_picker_def on_status_def on_message_def
        on_tokens_def on_identity_def on_mcp_def set_message_def clear_message_def)+

lemmas keeps = views pushed pushed_and_shifted truncated assistant_cursor summary_cursor replaced cleared
  rebuilt invalidated tool_started tool_completed previewed shifted_calls asked closed decided decisions_sent
  ensured submitted submitted_now taken completed armed swept cancelled launched noticed inferring finalized

declare keeps [intro!]

lemma view_ops:
  assumes "P s"
  shows "P (enter_insert_mode s)" "P (enter_normal_mode s)" "P (open_info_panel p s)" "P (close_info_panel s)"
    "P (request_quit_if_idle s)" "P (queue_switch r s)" "P (queue_cycle_agent s)"
    "P (check_inline_slash buffer s)" "P (arm_quit_confirmation now s)"
    "P (snd (disarm_quit_confirmation now s))" "P (set_picker_options kind opts s)" "P (queue_launch a s)"
  using assms
  by (auto simp: enter_insert_mode_def enter_normal_mode_def open_info_panel_def close_info_panel_def
      request_quit_if_idle_def queue_switch_def queue_cycle_agent_def check_inline_slash_def
      arm_quit_confirmation_def disarm_quit_confirmation_def set_picker_options_def queue_launch_def Let_def
      split: option.splits list.splits)

declare view_ops [intro!]

subsection \<open>The reply and compaction\<close>

lemma finish_block_keeps: "P s \<Longrightarrow> P (finish_block env src cst s)"
proof -
  assume s: "P s"
  have "P (on_store (\<lambda>t. remeasure_entry_at (tv_measure env) i
          (t\<lparr>ts_entries := (ts_entries t)[i := (case ts_entries t ! i of
             TaskRow k \<Rightarrow> TaskRow (k\<lparr>tk_status := item_of_compaction cst\<rparr>) | e \<Rightarrow> e)]\<rparr>)) s)" for i
    by (rule replaced [OF s])
  with s show ?thesis by (auto simp: finish_block_def Let_def split: option.splits)
qed

lemma block_ops:
  assumes "P s"
  shows "P (ensure_block src s)" "P (ensure_task env src st s)" "P (start_block env src s)"
  using assms by (auto simp: start_block_def ensure_task_def ensure_block_def)

declare finish_block_keeps [intro!] block_ops [intro!]

lemma summary_start_keeps:
  assumes "P s"
  shows "P (on_store (\<lambda>t. truncate_store n (t\<lparr>ts_summary_start := v\<rparr>)) s)"
proof -
  have "P (on_store (truncate_store n) (on_store (\<lambda>t. t\<lparr>ts_summary_start := v\<rparr>) s))"
    using assms by auto
  then show ?thesis by (simp add: on_store_def)
qed

lemma reply_ops:
  assumes "P s"
  shows "P (snd (llm_chunk env aggregated s))" "P (snd (llm_stopped env now reason s))"
    "P (snd (summary_chunk env src aggregated s))" "P (compaction_completed env src body s)"
    "P (compaction_failed env src message s)" "P (clear_transcript s)" "P (handle_turn_error env message s)"
  using assms
  by (auto intro!: summary_start_keeps simp: llm_chunk_def llm_stopped_def on_assistant_start_def summary_chunk_def compaction_completed_def
      compaction_failed_def clear_transcript_def handle_turn_error_def Let_def split: option.splits)

lemma preview_for_key_keeps: "P s \<Longrightarrow> P (snd (on_preview (set_preview_for_key (tv_measure env) key d) s))"
proof -
  assume s: "P s"
  show ?thesis
  proof (cases "find (\<lambda>c. cl_status c = CallInProgress \<and> cl_key c = key) (rev (tl_calls (ap_tool s)))")
    case None
    have "P (s\<lparr>ap_transcript := ap_transcript s\<rparr>)" by (rule view [OF s]) (simp add: same_core_def)
    then show ?thesis using None by (simp add: on_preview_def set_preview_for_key_def)
  next
    case (Some c)
    have "snd (on_preview (set_preview_for_key (tv_measure env) key d) s)
        = snd (on_preview (set_tool_preview (tv_measure env) (cl_key c) d) s)"
      using Some by (simp add: on_preview_def set_preview_for_key_def)
    then show ?thesis using previewed [OF s] by simp
  qed
qed

lemma card_ops:
  assumes "P s"
  shows "P (snd (reduce_permission_decided decision s))"
    "P (snd (case close_prompt_if i (ap_card s) of
            (b, c) \<Rightarrow> (b, if b then set_message now line (s\<lparr>ap_card := c\<rparr>) else s\<lparr>ap_card := c\<rparr>)))"
proof -
  have "s\<lparr>ap_card := snd (submit_decision decision (ap_card s))\<rparr> = on_card (\<lambda>c. snd (submit_decision decision c)) s"
    by (simp add: on_card_def)
  then show "P (snd (reduce_permission_decided decision s))"
    using assms by (auto simp: reduce_permission_decided_def Let_def split: prod.splits)
  have same: "P (s\<lparr>ap_card := ap_card s\<rparr>)" by (rule view [OF assms]) (simp add: same_core_def)
  have "P (s\<lparr>ap_card := (ap_card s)\<lparr>cd_prompt := None\<rparr>\<rparr>)"
    using closed [OF assms] by (simp add: on_card_def)
  with same show "P (snd (case close_prompt_if i (ap_card s) of
            (b, c) \<Rightarrow> (b, if b then set_message now line (s\<lparr>ap_card := c\<rparr>) else s\<lparr>ap_card := c\<rparr>)))"
    by (auto simp: close_prompt_if_def Let_def split: option.splits)
qed

declare reply_ops [intro!] preview_for_key_keeps [intro!] card_ops [intro!]

subsection \<open>Keys\<close>

lemma submit_keeps: "P s \<Longrightarrow> P (snd (handle_submit txt facts s))"
  by (auto simp: handle_submit_def Let_def split: slash_parse.splits slash_command.splits option.splits)

declare submit_keeps [intro!]

lemma picker_ops:
  assumes "P s"
  shows "P (snd (handle_toggle_palette s))" "P (snd (handle_picker_submit ck' a s))"
  using assms
  by (auto simp: handle_toggle_palette_def handle_picker_submit_def Let_def
      split: submit_action.splits option.splits)

lemma lens_ops:
  assumes "P s"
  shows "P (snd (panel_key panel k s))" "P (snd (below_picker k s))" "P (snd (rewrite_action k s))"
proof -
  show panel: "P (snd (panel_key panel k s))" for panel
    using assms by (cases k) (auto simp: panel_key_def Let_def split: prod.splits)
  have below: "P (snd (below_picker k s))" if "P s" for s
    using that by (auto simp: below_picker_def)
  show "P (snd (below_picker k s))" by (rule below [OF assms])
  show "P (snd (rewrite_action k s))"
    using assms panel
    by (auto intro!: below simp: rewrite_action_def Let_def split: option.splits prod.splits picker_outcome.splits)
qed

declare picker_ops [intro!] lens_ops [intro!]

lemma folded_ops:
  assumes "P (fst f)"
  shows "P (fst (snd (scrolls a f)))" "P (fst (clear_pending_key f))" "P (fst (clear_pending_j f))"
    "P (fst (snd (handle_quit ctl f)))" "P (fst (snd (handle_escape_confirm ctl now f)))"
    "P (fst (snd (arm_or_not (ck_now ck) f)))"
proof -
  show "P (fst (snd (arm_or_not (ck_now ck) f)))"
    using armed [OF assms] by (auto simp: arm_or_not_def split: prod.splits bool.splits)
qed (use assms in \<open>auto simp: scrolls_def clear_pending_key_def clear_pending_j_def handle_quit_def
    handle_escape_confirm_def split: prod.splits\<close>)

lemma with_flag_keeps: "P (snd (h (fst f))) \<Longrightarrow> P (fst (snd (with_flag h f)))"
  by (auto simp: with_flag_def split: prod.splits)

declare folded_ops [intro!] with_flag_keeps [intro!]

lemma escape_keeps: "P (fst f) \<Longrightarrow> P (fst (snd (handle_escape ctl (ck_now ck) f)))"
  by (auto simp: handle_escape_def split: prod.splits)

declare escape_keeps [intro!]

lemma key_ops:
  assumes "P s"
  shows "P (snd (reduce_pending_g s))" "P (snd (enter_insert_if_idle s))" "P (snd (enter_visual_mode now s))"
    "P (snd (handle_yank env s))" "P (snd (reduce_insert_chord now c idle s))" "P (snd (reduce_wheel up column row s))"
  using assms
  by (auto simp: reduce_pending_g_def enter_insert_if_idle_def enter_visual_mode_def handle_yank_def
      selection_text_def reduce_insert_chord_def reduce_wheel_def Let_def split: prod.splits bool.splits option.splits)

declare key_ops [intro!]

subsection \<open>The keymap\<close>

lemma keymap_ops:
  assumes "P (fst f)"
  shows "P (fst (snd (reduce_common_key ctl ck k f)))"
    "P (fst (snd (reduce_insert_key ctl ck k idle f)))"
    "P (fst (snd (reduce_normal_key ctl ck k idle f)))"
    "P (fst (snd (reduce_visual_key env ctl ck k idle f)))"
proof -
  have common: "P (fst (snd (reduce_common_key ctl ck k f)))" if "P (fst f)" for f k
    using that by (cases k) (auto simp: reduce_common_key_def handle_enter_def Let_def)
  then show "P (fst (snd (reduce_common_key ctl ck k f)))" using assms .
  show "P (fst (snd (reduce_insert_key ctl ck k idle f)))"
    using assms by (cases k) (auto intro!: common simp: reduce_insert_key_def Let_def)
  show "P (fst (snd (reduce_normal_key ctl ck k idle f)))"
    using assms by (cases k) (auto intro!: common simp: reduce_normal_key_def Let_def)
  show "P (fst (snd (reduce_visual_key env ctl ck k idle f)))"
    using assms by (cases k) (auto intro!: common simp: reduce_visual_key_def Let_def)
qed

declare keymap_ops [intro!]

lemma reduce_key_keeps: "P (fst f) \<Longrightarrow> P (fst (snd (reduce_key env ctl ck k f)))"
proof -
  assume f: "P (fst f)"
  have "P (snd (rewrite_action k (fst f)))" using f by (rule lens_ops)
  then show ?thesis using f
    by (auto simp: reduce_key_def reduce_keymap_def Let_def split: prod.splits key_lens.splits input_mode.splits)
qed

declare reduce_key_keeps [intro!]

subsection \<open>Events\<close>

lemma reduce_event_keeps: "P (fst f) \<Longrightarrow> P (fst (snd (reduce_event env ctl ck e f)))"
  by (cases e)
    (auto simp: reduce_event_def inference_started_def inference_completed_def tool_call_started_def
      tool_preview_shown_def tool_call_completed_def permission_asked_def permission_timed_out_def
      system_message_def compaction_event_def turn_completed_def Let_def split: option.splits system_kind.splits)

declare reduce_event_keeps [intro!]

lemma reduce_keeps: "P (fst f) \<Longrightarrow> P (fst (snd (reduce env ctl ck e f)))"
  by (auto simp: reduce_def Let_def split: prod.splits)
     (metis fst_conv reduce_event_keeps shifted_calls snd_conv)+

declare reduce_keeps [intro!]

lemma batch_keeps:
  "P (fst f) \<Longrightarrow> P (fst (snd (reduce_event_batch env ck es f)))"
proof -
  have step: "P (fst (snd (and_then (reduce env True ck e) r)))" if "P (fst (snd r))" for e r
    using that by (auto simp: and_then_def Let_def)
  have flushed: "P (fst (snd (flush (reduce env True ck) b r)))" if "P (fst (snd r))" for b r
    using that step by (auto simp: flush_def Let_def split: option.splits)
  have "P (fst (snd (batch_from (reduce env True ck) b es r)))" if "P (fst (snd r))" for b r
    using that
  proof (induction es arbitrary: b r)
    case Nil
    then show ?case by (simp add: flushed)
  next
    case (Cons e es)
    then show ?case by (cases e) (simp_all add: step flushed)
  qed
  then show "P (fst f) \<Longrightarrow> ?thesis" by (simp add: reduce_event_batch_def)
qed

subsection \<open>Drains, replays and state events\<close>

lemma take_prompts_keeps: "P s \<Longrightarrow> P (snd (take_prompts env n s))"
proof (induction n arbitrary: s)
  case (Suc n)
  have "P (snd (take_next_prompt env s))" using Suc.prems by auto
  with Suc.IH show ?case by (auto split: prod.splits option.splits) (metis snd_conv)
qed simp

lemma take_switch_keeps: "P s \<Longrightarrow> P (snd (fold take_switch rs (es, s)))"
proof (induction rs arbitrary: es s)
  case (Cons r rs)
  have "P (snd (take_switch r (es, s)))"
    using Cons.prems by (auto simp: take_switch_def split: switch_request.splits option.splits)
  then show ?case using Cons.IH by (metis fold_simps(2) prod.collapse)
qed simp

lemma drain_keeps: "P (fst f) \<Longrightarrow> P (fst (snd (take_pending_events env f)))"
proof -
  assume f: "P (fst f)"
  obtain s flag where s: "f = (s, flag)" by (cases f)
  obtain prompts s1 where t: "take_prompts env (length (ap_immediate s) + 2) s = (prompts, s1)"
    by (cases "take_prompts env (length (ap_immediate s) + 2) s")
  let ?s2 = "on_card (\<lambda>c. c\<lparr>cd_decisions := []\<rparr>) s1"
  obtain sw s3 where w: "fold take_switch (ap_switches ?s2) ([], ?s2\<lparr>ap_switches := []\<rparr>) = (sw, s3)"
    by (cases "fold take_switch (ap_switches ?s2) ([], ?s2\<lparr>ap_switches := []\<rparr>)")
  have "P s1" using take_prompts_keeps [of s] f s t by (metis fst_conv snd_conv)
  then have "P (?s2\<lparr>ap_switches := []\<rparr>)" by auto
  then have "P s3" using take_switch_keeps w by (metis snd_conv)
  then show ?thesis
    unfolding take_pending_events_def s prod.case t Let_def w by auto
qed

lemma launches_keeps: "P s \<Longrightarrow> P (snd (take_pending_ui_state_events s))"
  by (auto simp: take_pending_ui_state_events_def)

declare drain_keeps [intro!] launches_keeps [intro!]

lemma replay_keeps: "P s \<Longrightarrow> P (hydrate_by_replay env ck render ms last_total s)"
proof -
  have "P (replay_one env ck step s)" if "P s" for step s
    using that by (auto simp: replay_one_def split: replay_step.splits)
  then have "P (fold (replay_one env ck) steps s)" if "P s" for steps s
    using that by (induction steps arbitrary: s) auto
  then show "P s \<Longrightarrow> ?thesis" by (auto simp: hydrate_by_replay_def Let_def split: option.splits)
qed

lemma ui_action_keeps: "P s \<Longrightarrow> P (execute_shared_ui_action a s)"
  by (auto simp: execute_shared_ui_action_def split: shared_ui_action.splits)

declare replay_keeps [intro!] ui_action_keeps [intro!]

lemma ui_state_keeps: "P s \<Longrightarrow> P (reduce_ui_state_event env ck cat e s)"
  by (auto simp: reduce_ui_state_event_def split: tui_state_event.splits)

declare ui_state_keeps [intro!]

lemma ctrl_c_keeps: "P (fst f) \<Longrightarrow> P (fst (snd (handle_ctrl_c now draft f)))"
  by (auto simp: handle_ctrl_c_def split: prod.splits)

lemma expire_keeps: "P s \<Longrightarrow> P (snd (expire_status_message_if_due (ck_now ck) s))"
  using swept [of s] by (auto simp: expire_status_message_if_due_def split: prod.splits)

lemma frame_keeps: "P s \<Longrightarrow> P (snd (render_transcript_pane env area s))"
  by (auto simp: render_transcript_pane_def Let_def split: prod.splits)

subsection \<open>The coordinator\<close>

lemma on_app_fields [simp]:
  "co_app (mark c) = co_app c" "co_app (on_app f c) = f (co_app c)" "co_app (on_box g c) = co_app c"
  "co_app (replace_textarea d ls c) = co_app c" "co_app (recompute_layout d c) = co_app c"
  "co_cancel (mark c) = co_cancel c" "co_cancel (on_app f c) = co_cancel c" "co_cancel (on_box g c) = co_cancel c"
  "co_cancel (replace_textarea d ls c) = co_cancel c" "co_cancel (recompute_layout d c) = co_cancel c"
  by (simp_all add: mark_def on_app_def on_box_def replace_textarea_def recompute_layout_def)

lemma fold_event_app: "co_app (snd (fold_event f c)) = fst (snd (f (co_app c, co_cancel c)))"
  by (simp add: fold_event_def split: prod.splits)

lemma desk_ops:
  assumes "P (co_app c)"
  shows "P (co_app (check_draft d c))" "P (co_app (flush_clipboard d now c))" "P (co_app (pickup_restored d c))"
    "P (co_app (quit_guard d now c))" "P (co_app (disarm_quit now c))" "P (co_app (snd (type_in d h c)))"
    "P (co_app (settle_event d now c))" "P (co_app (handle_resize d te c))" "P (co_app (snd (move_slash mv c)))"
    "P (co_app (snd (spinner_cadence_advanced n c)))"
proof -
  have quit: "P (co_app (snd (fold_event (handle_ctrl_c now (draft_of d c)) (c\<lparr>co_quit := b\<rparr>))))" for b
    using ctrl_c_keeps [of "(co_app c, co_cancel c)"] assms by (simp add: fold_event_app)
  then show "P (co_app (quit_guard d now c))"
    by (auto simp: quit_guard_def split: prod.splits) (metis snd_conv)+
  have "P (snd (disarm_quit_confirmation now (co_app c)))" using assms by auto
  then show "P (co_app (disarm_quit now c))"
    by (auto simp: disarm_quit_def Let_def split: prod.splits)
qed (use assms in \<open>auto simp: check_draft_def flush_clipboard_def pickup_restored_def type_in_def
    settle_event_def handle_resize_def move_slash_def spinner_cadence_advanced_def Let_def
    split: option.splits terminal_event.splits\<close>)

declare desk_ops [intro!]

end

section \<open>The loop\<close>

locale loop_law = state_law "de_ui d" ck P for d :: "'t desk" and ck P
begin

lemma system_event_keeps: "P (co_app c) \<Longrightarrow> P (co_app (snd (reduce_system_event d ck e c)))"
  by (auto simp: reduce_system_event_def fold_event_app)

declare system_event_keeps [intro!]

lemma dispatch_keeps: "P (co_app c) \<Longrightarrow> P (co_app (snd (dispatch_terminal_event d ck te c)))"
  by (auto simp: dispatch_terminal_event_def split: option.splits)

declare dispatch_keeps [intro!]

lemma insert_key_ops:
  assumes "P (co_app c)"
  shows "P (co_app (snd (handle_inline_slash_key d ck k c)))"
    "P (co_app (snd (handle_char_key d ck ch c)))"
    "P (co_app (snd (handle_enter_key d ck c)))"
    "P (co_app (handle_history_down d c))"
    "handle_history_up d c = Some c' \<Longrightarrow> P (co_app c')"
proof -
  have lens: "P t" if "rewrite_action k (co_app c) = (l, t)" for k l t
    using lens_ops(3) [OF assms, of k] that by simp
  have sys: "P (co_app c1)" if "reduce_system_event d ck e c = (b, c1)" for e b c1
    using system_event_keeps [OF assms, of e] that by simp
  show "P (co_app (snd (handle_inline_slash_key d ck k c)))"
    using assms
    by (cases k) (auto intro: lens sys simp: handle_inline_slash_key_def Let_def split: prod.splits key_lens.splits)
  show "P (co_app (snd (handle_char_key d ck ch c)))"
    by (auto intro: lens simp: handle_char_key_def Let_def split: prod.splits key_lens.splits)
  have sent: "P (co_app c2)" if "dispatch_terminal_event d ck te c1 = (b, c2)" and "P (co_app c1)" for te b c1 c2
    using dispatch_keeps [OF that(2), of te] that(1) by simp
  show "P (co_app (snd (handle_enter_key d ck c)))"
    using assms by (auto intro: sent simp: handle_enter_key_def Let_def split: prod.splits)
  show "P (co_app (handle_history_down d c))"
    using assms by (auto simp: handle_history_down_def Let_def split: prod.splits option.splits)
  show "handle_history_up d c = Some c' \<Longrightarrow> P (co_app c')"
    using assms by (auto simp: handle_history_up_def Let_def split: if_splits prod.splits option.splits)
qed

lemma insert_mode_keeps:
  assumes "P (co_app c)" and "handle_insert_mode_key d ck k c = Some (b, c')"
  shows "P (co_app c')"
proof -
  have a: "P (co_app (snd (type_in d h c)))" for h using assms(1) by auto
  note ops = a insert_key_ops [OF assms(1)]
  show ?thesis
    using assms(2) assms(1) ops
    by (cases k) (force simp: handle_insert_mode_key_def split: if_splits dest: arg_cong [where f = snd])+
qed

lemma dispatched_keeps:
  assumes "P (co_app c)"
  shows "P (co_app (dispatch_and_settle d ck te c))"
  using dispatch_keeps [OF assms, of te] by (auto simp: dispatch_and_settle_def split: prod.splits)

lemma guard_keeps: "P (co_app c) \<Longrightarrow> P (co_app (snd (handle_ctrl_c_guard d n te c)))"
  by (auto simp: handle_ctrl_c_guard_def split: terminal_event.splits)

lemma terminal_keeps:
  assumes "P (co_app c)" and "handle_terminal_event d ck te c = Some c'"
  shows "P (co_app c')"
proof -
  obtain b c1 where guard: "handle_ctrl_c_guard d (ck_now ck) te (pickup_restored d c) = (b, c1)"
    by (cases "handle_ctrl_c_guard d (ck_now ck) te (pickup_restored d c)")
  have c1: "P (co_app c1)"
    using guard_keeps [of "pickup_restored d c" "ck_now ck" te] guard assms(1) by auto
  show ?thesis
  proof (cases b)
    case True
    then show ?thesis using assms(2) guard c1 by (simp add: handle_terminal_event_def)
  next
    case False
    let ?c = "handle_resize d te c1"
    have c: "P (co_app ?c)" using c1 by auto
    note here = handle_terminal_event_def False Let_def
    show ?thesis
    proof (cases te)
      case (TeKey k)
      then show ?thesis
        using assms(2) insert_mode_keeps [OF c] dispatched_keeps dispatched_keeps [OF c]
        by (auto simp: here guard [unfolded TeKey] split: if_splits option.splits bool.splits)
    next
      case (TePaste t)
      then show ?thesis using assms(2) c dispatched_keeps [OF c]
        by (auto simp: here guard [unfolded TePaste] split: if_splits)
    qed (use assms(2) guard dispatched_keeps [OF c] in \<open>auto simp: here\<close>)
  qed
qed

lemma drain_desk_keeps: "P (co_app c) \<Longrightarrow> P (co_app (snd (drain d c)))"
proof -
  assume c: "P (co_app c)"
  obtain es s flag where t: "take_pending_events (de_ui d) (co_app c, co_cancel c) = (es, s, flag)"
    by (rule prod_cases3)
  have "P s" using drain_keeps [of "(co_app c, co_cancel c)"] c t by simp
  then show ?thesis
    by (auto simp: drain_def t Let_def take_pending_ui_state_events_def)
qed

lemma loop_step_keeps:
  assumes "P (co_app c)" and "loop_step d ck e c = Some (msgs, c')"
  shows "P (co_app c')"
proof -
  have drained: "P (co_app c2)" if "drain d c1 = (ms, c2)" and "P (co_app c1)" for c1 c2 ms
    using drain_desk_keeps [OF that(2)] that(1) by simp
  have folded: "P (co_app c2)" if "fold_batch d ck es c1 = (b, c2)" and "P (co_app c1)" for es b c1 c2
    using batch_keeps [of "(co_app c1, co_cancel c1)" es] that
    by (auto simp: fold_batch_def fold_event_def split: prod.splits)
  have expired: "P s" if "expire_status_message_if_due (ck_now ck) (co_app c) = (b, s)" for b s
    using expire_keeps [OF assms(1)] that by simp
  have spun: "P (co_app c2)" if "spinner_cadence_advanced n c1 = (b, c2)" and "P (co_app c1)" for n b c1 c2
    using desk_ops(10) [OF that(2), of n] that(1) by simp
  have sys: "P (co_app c2)" if "reduce_system_event d ck ev c = (b, c2)" for ev b c2
    using system_event_keeps [OF assms(1), of ev] that by simp
  show ?thesis
  proof (cases e)
    case (FromTerminal te)
    then obtain c1 where c1: "handle_terminal_event d ck te c = Some c1"
      using assms(2) by (auto simp: loop_step_def split: option.splits)
    from terminal_keeps [OF assms(1) c1] drain_desk_keeps [of c1] FromTerminal assms(2) show ?thesis
      by (auto simp: loop_step_def c1 split: prod.splits)
  next
    case (FromBus ev evs)
    obtain b c1 where c1: "fold_batch d ck (ev # evs) c = (b, c1)"
      by (cases "fold_batch d ck (ev # evs) c")
    from folded [OF c1 assms(1)] drain_desk_keeps [of c1] FromBus assms(2) show ?thesis
      by (cases b) (auto simp: loop_step_def c1 split: prod.splits)
  next
    case (FromCompaction ev)
    then show ?thesis using assms sys by (auto simp: loop_step_def split: prod.splits)
  next
    case (FromUiState ev)
    have "P (co_app (on_app (reduce_ui_state_event (de_ui d) ck (de_catalog d) ev) c))"
      using assms(1) by auto
    then show ?thesis using assms FromUiState drained by (auto simp: loop_step_def split: prod.splits)
  next
    case RenderTick
    obtain b s where ex: "expire_status_message_if_due (ck_now ck) (co_app c) = (b, s)"
      by (cases "expire_status_message_if_due (ck_now ck) (co_app c)")
    have "P s" using expired [OF ex] .
    then have "P (co_app (if sm_written_at (st_message (ap_status (co_app c))) \<noteq> None then
        (let c1 = c\<lparr>co_app := s\<rparr> in if b then mark c1 else c1) else c))"
      using assms(1) by (simp add: Let_def)
    from spun [OF _ this] RenderTick assms(2) show ?thesis
      by (auto simp: loop_step_def Let_def ex split: prod.splits)
  next
    case (FrameDue area)
    have "P (snd (render_transcript_pane (de_ui d) area (co_app c)))" using assms(1) by (rule frame_keeps)
    then show ?thesis using assms(2) FrameDue by (auto simp: loop_step_def)
  qed
qed

end

lemma run_keeps:
  assumes "\<And>ck. loop_law d ck P" and "P (co_app c)" and "loop_run d es c = Some (msgs, c')"
  shows "P (co_app c')"
  using assms(2,3)
proof (induction es arbitrary: c msgs)
  case (Cons x es)
  obtain ck e where x: "x = (ck, e)" by (cases x)
  obtain m1 c1 where step: "loop_step d ck e c = Some (m1, c1)"
    using Cons.prems(2) by (auto simp: x split: option.splits)
  have "P (co_app c1)" by (rule loop_law.loop_step_keeps [OF assms(1) Cons.prems(1) step])
  then show ?case using Cons by (auto simp: x step split: if_splits option.splits)
qed simp

end
