(* ===== verification/Tui_Store_Laws.thy ===== *)
theory Tui_Store_Laws
  imports Tui_Laws
begin

text \<open>
  The transcript store under the loop of the interface: whatever the loop does, the store keeps its cap and
  its height index describes its entries, and so every frame shows the rows the layout planner gives them.
\<close>

section \<open>What leaves the transcript alone\<close>

lemma ensure_parts [simp]:
  "ap_transcript (ensure_invariants s) = ap_transcript s"
  "ap_input_locked (ensure_invariants s) = ap_input_locked s"
  "ap_immediate (ensure_invariants s) = ap_immediate s"
  "ap_card (ensure_invariants s) = ap_card s"
  "ap_tool (ensure_invariants s) = ap_tool s"
  "ap_input (ensure_invariants s) = ap_input s"
  by (simp_all add: ensure_invariants_def Let_def on_queue_def on_mcp_def on_status_def on_picker_def on_abort_def
      disarm_abort_def)

lemma update_parts [simp]:
  "ap_transcript (on_abort f s) = ap_transcript s" "ap_transcript (on_input f2 s) = ap_transcript s"
  "ap_transcript (on_scroll f3 s) = ap_transcript s" "ap_transcript (on_picker f4 s) = ap_transcript s"
  "ap_transcript (on_card f5 s) = ap_transcript s" "ap_transcript (on_status f6 s) = ap_transcript s"
  "ap_transcript (on_queue f7 s) = ap_transcript s" "ap_transcript (on_message f8 s) = ap_transcript s"
  "ap_transcript (disarm_abort s) = ap_transcript s" "ap_transcript (reset_abort s) = ap_transcript s"
  "ap_transcript (clear_message s) = ap_transcript s" "ap_transcript (shift_bookkeeping n s) = ap_transcript s"
  "ap_transcript (on_store g s) = g (ap_transcript s)"
  by (simp_all add: on_abort_def on_input_def on_scroll_def on_picker_def on_card_def on_status_def on_queue_def
      on_message_def disarm_abort_def reset_abort_def clear_message_def shift_bookkeeping_def on_store_def)

lemma push_and_shift_transcript [simp]:
  "ap_transcript (push_and_shift env e s) = snd (push_entry (tv_measure env) e (ap_transcript s))"
  by (simp add: push_and_shift_def split: prod.splits)

lemma submit_transcript [simp]:
  "ap_transcript (accept_submit s) = ap_transcript s"
  "ap_transcript (enqueue_prompt_with_facts t f s) = ap_transcript s"
  "ap_transcript (enqueue_immediate t f s) = ap_transcript s"
  "ap_transcript (start_cycle s) = ap_transcript s"
  "ap_transcript (complete_active_prompt s) = ap_transcript s"
  "ap_transcript (snd (request_abort_confirmation now s)) = ap_transcript s"
  "ap_transcript (snd (sweep_expired_abort now s)) = ap_transcript s"
  "ap_transcript (cancel_and_restore s) = ap_transcript s"
  by (simp_all add: accept_submit_def enqueue_prompt_with_facts_def enqueue_immediate_def start_cycle_def
      complete_active_prompt_def request_abort_confirmation_def sweep_expired_abort_def cancel_and_restore_def
      Let_def split: option.splits prod.splits)

section \<open>The law of the store\<close>

lemma cursor_ok [simp]:
  "store_ok ms (t\<lparr>ts_assistant_start := v\<rparr>) = store_ok ms t"
  "store_ok ms (t\<lparr>ts_summary_start := v\<rparr>) = store_ok ms t"
  by (simp_all add: store_ok_def index_ok_def split: option.split)

lemma stamp_ok:
  assumes "measures_status_blind ms" and "store_ok ms s"
  shows "store_ok ms (s\<lparr>ts_entries := stamp_status i st (ts_entries s)\<rparr>)"
proof -
  have "map (metrics_of ms w) (stamp_status i st es) = map (metrics_of ms w) es" for w es
    by (auto simp: stamp_status_def map_update metrics_status [OF assms(1)] split: transcript_entry.splits)
      (metis list_update_id map_update metrics_status [OF assms(1)])
  moreover have "length (stamp_status i st es) = length es" for es
    by (simp add: stamp_status_def split: transcript_entry.splits)
  ultimately show ?thesis
    using assms(2) by (auto simp: store_ok_def index_ok_def rebuild_def split: option.splits)
qed

lemma finish_ok:
  assumes "measures_status_blind ms" and "store_ok ms s"
  shows "store_ok ms (snd (snd (finish_tool_call key st (t, s))))"
  using assms by (auto simp: finish_tool_call_def Let_def stamp_ok split: prod.splits option.splits)

lemma complete_ok:
  assumes "measures_status_blind ms" and "store_ok ms s"
  shows "store_ok ms (snd (complete_call ms key st d (t, s)))"
  using finish_ok [OF assms] set_result_ok
  by (auto simp: complete_call_def split: prod.splits option.splits) (metis snd_conv)+

lemma store_law:
  assumes "measures_status_blind (tv_measure env)"
  shows "state_law env ck (\<lambda>s. store_ok (tv_measure env) (ap_transcript s))"
proof
  fix s :: app and key st d p
  assume ok: "store_ok (tv_measure env) (ap_transcript s)"
  show "store_ok (tv_measure env) (ap_transcript (on_tools (start_tool_call (tv_measure env) call) s))" for call
    using push_ok [OF ok] by (auto simp: on_tools_def start_tool_call_def split: prod.splits) (metis snd_conv)
  show "store_ok (tv_measure env) (ap_transcript (on_tools (complete_call (tv_measure env) key st d) s))"
    using complete_ok [OF assms ok] by (auto simp: on_tools_def split: prod.splits) (metis snd_conv)
  show "store_ok (tv_measure env) (ap_transcript (snd (on_preview (set_tool_preview (tv_measure env) key p) s)))"
    using set_preview_ok [OF ok] ok
    by (auto simp: on_preview_def set_tool_preview_def split: prod.splits option.splits) (metis snd_conv)
  show "store_ok (tv_measure env) (ap_transcript (snd (take_next_prompt env s)))"
    using push_ok ok by (auto simp: take_next_prompt_def Let_def split: list.splits prod.splits)
qed (auto simp: same_core_def push_in_event_def llm_started_def turn_finalize_def on_assistant_start_def Let_def
    intro: push_ok truncate_ok replace_ok clear_ok rebuild_ok invalidate_ok)

end
