(* ===== verification/Tui_Frame.thy ===== *)
theory Tui_Frame
  imports Tui_Store_Laws "HOL-Library.Code_Target_Nat"
begin

text \<open>
  A frame of the transcript: the rows the painting puts on the canvas are, row by row, those the layout
  planner gives the whole transcript, seen through the viewport.
\<close>

section \<open>The specification of a row\<close>

text \<open>
  What row \<open>r\<close> of a planned transcript shows: a row of an entry, a row of the gap above an entry, the gap
  that closes the transcript, or nothing.  A gap row belongs to the box of a user's turn it touches.
\<close>

definition gap_row_of :: "transcript_entry list \<Rightarrow> planned_entry \<Rightarrow> nat \<Rightarrow> painted_row" where
  "gap_row_of es p r =
     GapRow (r = rr_row (pe_rect p) - pe_gap p \<and> pe_index p \<noteq> 0 \<and> is_user_turn (es ! (pe_index p - 1))
             \<or> r + 1 = rr_row (pe_rect p) \<and> is_user_turn (es ! pe_index p))"

definition row_of_entry :: "transcript_entry list \<Rightarrow> planned_entry \<Rightarrow> nat \<Rightarrow> painted_row" where
  "row_of_entry es p r =
     (if r < rr_row (pe_rect p) then gap_row_of es p r else EntryRow (pe_index p) (r - rr_row (pe_rect p)))"

definition planned_row :: "frame_plan \<Rightarrow> transcript_entry list \<Rightarrow> nat \<Rightarrow> painted_row option" where
  "planned_row pl es r =
     (case find (covers r) (fp_entries pl) of
        Some p \<Rightarrow> Some (row_of_entry es p r)
      | None \<Rightarrow> if r < fp_total_rows pl then Some (GapRow (is_user_turn (last es))) else None)"

section \<open>Painting row by row\<close>

text \<open>The transcript row a row of the canvas stands for.\<close>

definition shown_row :: "paint_window \<Rightarrow> nat \<Rightarrow> nat" where
  "shown_row w y = pw_first w + (y - pw_top w)"

definition on_canvas :: "paint_window \<Rightarrow> canvas \<Rightarrow> nat \<Rightarrow> bool" where
  "on_canvas w b y \<longleftrightarrow> pw_top w \<le> y \<and> y \<le> u16_max \<and> y < ca_height b"

lemma paint_at_height [simp]: "ca_height (paint_at y r b) = ca_height b"
  by (simp add: paint_at_def)

lemma fold_paint:
  fixes C :: "nat \<Rightarrow> bool"
  assumes above: "\<And>row. row \<in> set rows \<Longrightarrow> C row \<Longrightarrow> pw_first w \<le> row"
  shows "ca_rows (fold (\<lambda>row b. if C row then paint_at (buffer_row w row) (f row) b else b) rows b) y
       = (if on_canvas w b y \<and> shown_row w y \<in> set rows \<and> C (shown_row w y)
          then Some (f (shown_row w y)) else ca_rows b y)
    \<and> ca_height (fold (\<lambda>row b. if C row then paint_at (buffer_row w row) (f row) b else b) rows b) = ca_height b"
  using above
proof (induction rows arbitrary: b)
  case (Cons row rows)
  have "C row \<Longrightarrow> buffer_row w row = y \<longleftrightarrow> pw_top w \<le> y \<and> row = shown_row w y"
    using Cons.prems [of row] by (auto simp: buffer_row_def shown_row_def)
  then show ?case
    using Cons by (auto simp: paint_at_def on_canvas_def)
qed simp

lemma paint_gap_rows_row:
  "ca_rows (paint_gap_rows w p previous e b) y =
     (if on_canvas w b y \<and> window_contains w (shown_row w y) \<and>
         rr_row (pe_rect p) - pe_gap p \<le> shown_row w y \<and> shown_row w y < rr_row (pe_rect p) \<and> pe_gap p \<noteq> 0
      then Some (GapRow (shown_row w y = rr_row (pe_rect p) - pe_gap p
             \<and> (case previous of None \<Rightarrow> False | Some x \<Rightarrow> is_user_turn x)
           \<or> shown_row w y + 1 = rr_row (pe_rect p) \<and> is_user_turn e))
      else ca_rows b y)
   \<and> ca_height (paint_gap_rows w p previous e b) = ca_height b"
  using fold_paint [where C = "window_contains w" and w = w and b = b and y = y
      and rows = "[rr_row (pe_rect p) - pe_gap p..<rr_row (pe_rect p)]"
      and f = "\<lambda>row. GapRow (row = rr_row (pe_rect p) - pe_gap p
             \<and> (case previous of None \<Rightarrow> False | Some x \<Rightarrow> is_user_turn x)
           \<or> row + 1 = rr_row (pe_rect p) \<and> is_user_turn e)"]
  by (simp add: paint_gap_rows_def Let_def window_contains_def conj_ac)

lemma paint_entry_rows_row:
  assumes "rr_rows (pe_rect p) \<le> u16_max"
  shows "ca_rows (paint_entry_rows w p b) y =
     (if on_canvas w b y \<and> window_contains w (shown_row w y) \<and>
         rr_row (pe_rect p) \<le> shown_row w y \<and> shown_row w y < row_after p
      then Some (EntryRow (pe_index p) (shown_row w y - rr_row (pe_rect p))) else ca_rows b y)
   \<and> ca_height (paint_entry_rows w p b) = ca_height b"
  using assms
    fold_paint [where C = "\<lambda>_. True" and w = w and b = b and y = y
      and rows = "[max (rr_row (pe_rect p)) (pw_first w)..<min (rect_end (pe_rect p)) (sat_add (pw_first w) (pw_height w))]"
      and f = "\<lambda>row. EntryRow (pe_index p) (row - rr_row (pe_rect p))"]
  by (auto simp: paint_entry_rows_def Let_def window_contains_def rect_end_def row_after_def)

lemma paint_planned_row:
  assumes "pe_index p < length es" and "rr_rows (pe_rect p) \<le> u16_max" and "pe_gap p \<le> rr_row (pe_rect p)"
  shows "ca_rows (paint_planned w es p b) y =
     (if on_canvas w b y \<and> window_contains w (shown_row w y) \<and> covers (shown_row w y) p
      then Some (row_of_entry es p (shown_row w y)) else ca_rows b y)
   \<and> ca_height (paint_planned w es p b) = ca_height b"
proof -
  let ?g = "paint_gap_rows w p (if pe_index p = 0 then None else Some (es ! (pe_index p - 1))) (es ! pe_index p) b"
  have h: "ca_height ?g = ca_height b" by (simp add: paint_gap_rows_row)
  have on: "on_canvas w ?g y = on_canvas w b y" by (simp add: on_canvas_def h)
  have r: "paint_planned w es p b = paint_entry_rows w p ?g" using assms(1) by (simp add: paint_planned_def)
  note entry = paint_entry_rows_row [OF assms(2), of w ?g y]
  note gap = paint_gap_rows_row [of w p "if pe_index p = 0 then None else Some (es ! (pe_index p - 1))" "es ! pe_index p" b y]
  show ?thesis
    unfolding r using entry gap h on assms(3)
    by (auto simp: covers_def row_of_entry_def gap_row_of_def row_after_def)
qed

lemma fold_planned:
  assumes "\<forall>p\<in>set ps. pe_index p < length es \<and> rr_rows (pe_rect p) \<le> u16_max \<and> pe_gap p \<le> rr_row (pe_rect p)"
    and "sorted_wrt (\<lambda>p q. \<not> (covers (shown_row w y) p \<and> covers (shown_row w y) q)) ps"
  shows "ca_rows (fold (paint_planned w es) ps b) y =
     (if on_canvas w b y \<and> window_contains w (shown_row w y)
      then (case find (covers (shown_row w y)) ps of
              Some p \<Rightarrow> Some (row_of_entry es p (shown_row w y)) | None \<Rightarrow> ca_rows b y)
      else ca_rows b y)
   \<and> ca_height (fold (paint_planned w es) ps b) = ca_height b"
  using assms
proof (induction ps arbitrary: b)
  case (Cons p ps)
  have p: "pe_index p < length es" "rr_rows (pe_rect p) \<le> u16_max" "pe_gap p \<le> rr_row (pe_rect p)"
    using Cons.prems(1) by simp_all
  have on: "on_canvas w (paint_planned w es p b) y = on_canvas w b y"
    by (simp add: on_canvas_def paint_planned_row [OF p])
  have none: "covers (shown_row w y) p \<Longrightarrow> find (covers (shown_row w y)) ps = None"
    using Cons.prems(2) by (auto simp: find_None_iff)
  show ?case
    using Cons.IH [of "paint_planned w es p b"] Cons.prems none
    by (auto simp: on paint_planned_row [OF p] split: option.splits)
qed simp

lemma paint_trailing_row:
  "ca_rows (paint_trailing w es pl b) y =
     (if fp_entries pl \<noteq> [] \<and> on_canvas w b y \<and> window_contains w (shown_row w y) \<and>
         row_after (last (fp_entries pl)) \<le> shown_row w y \<and>
         shown_row w y < row_after (last (fp_entries pl)) + fp_trailing_gap pl
      then Some (GapRow (pe_index (last (fp_entries pl)) < length es
                         \<and> is_user_turn (es ! pe_index (last (fp_entries pl)))))
      else ca_rows b y)"
  using fold_paint [where C = "window_contains w" and w = w and b = b and y = y
      and rows = "[rect_end (pe_rect (last (fp_entries pl)))..<rect_end (pe_rect (last (fp_entries pl))) + fp_trailing_gap pl]"
      and f = "\<lambda>row. GapRow (pe_index (last (fp_entries pl)) < length es
                         \<and> is_user_turn (es ! pe_index (last (fp_entries pl))))"]
  by (auto simp: paint_trailing_def Let_def window_contains_def rect_end_def row_after_def)

lemma find_slice:
  assumes "\<And>k. k < length xs \<Longrightarrow> q (xs ! k) \<Longrightarrow> a \<le> k \<and> k < b"
  shows "find q (take (b - a) (drop a xs)) = find q xs"
proof -
  have split: "xs = take a xs @ take (b - a) (drop a xs) @ drop (a + (b - a)) xs"
    by (metis append_take_drop_id drop_drop add.commute)
  have "find q (take a xs) = None"
    using assms by (fastforce simp: find_None_iff in_set_conv_nth)
  moreover have "find q (drop (a + (b - a)) xs) = None"
  proof (rule ccontr)
    assume "find q (drop (a + (b - a)) xs) \<noteq> None"
    then obtain x where "x \<in> set (drop (a + (b - a)) xs)" "q x" by (auto simp: find_None_iff)
    then obtain j where j: "j < length (drop (a + (b - a)) xs)" and x: "drop (a + (b - a)) xs ! j = x"
      by (auto simp: in_set_conv_nth)
    then have "a + (b - a) + j < length xs" "xs ! (a + (b - a) + j) = x" by simp_all
    with assms [of "a + (b - a) + j"] \<open>q x\<close> show False by auto
  qed
  moreover have "find q (us @ vs) = (case find q us of None \<Rightarrow> find q vs | r \<Rightarrow> r)" for us vs
    by (induction us) auto
  ultimately show ?thesis
    by (subst (2) split) (auto split: option.splits)
qed

section \<open>The plan leaves no row out\<close>

lemma last_plan:
  assumes "1 \<le> w" and "es \<noteq> []"
  shows "last (fp_entries (plan ms es w)) = fp_entries (plan ms es w) ! (length es - 1)"
  using plan_facts(1) [OF assms(1), of ms es] assms(2) by (metis last_conv_nth length_0_conv)

lemma covered:
  assumes w: "1 \<le> w" and "k < length es" and "r < row_after (fp_entries (plan ms es w) ! k)"
  shows "\<exists>j\<le>k. covers r (fp_entries (plan ms es w) ! j)"
  using assms(2,3)
proof (induction k)
  case 0
  then show ?case using plan_facts(6) [OF w, of 0 es ms] by (auto simp: covers_def)
next
  case (Suc k)
  show ?case
  proof (cases "r < row_after (fp_entries (plan ms es w) ! k)")
    case True
    then show ?thesis using Suc by (meson Suc_lessD le_SucI)
  next
    case False
    then have "covers r (fp_entries (plan ms es w) ! Suc k)"
      using plan_facts(6) [OF w Suc.prems(1), of ms] Suc.prems(2) by (simp add: covers_def)
    then show ?thesis by blast
  qed
qed

lemma row_after_mono:
  assumes w: "1 \<le> w" and "i \<le> j" and "j < length es"
  shows "row_after (fp_entries (plan ms es w) ! i) \<le> row_after (fp_entries (plan ms es w) ! j)"
proof (cases "i = j")
  case False
  then have "row_after (fp_entries (plan ms es w) ! i) \<le> rr_row (pe_rect (fp_entries (plan ms es w) ! j))"
    using sorted_wrt_nth_less [OF plan_facts(4) [OF w, of ms es], of i j] assms plan_facts(1) [OF w, of ms es]
    by fastforce
  then show ?thesis by (simp add: row_after_def)
qed simp

lemma uncovered:
  assumes w: "1 \<le> w" and some: "es \<noteq> []"
  shows "find (covers r) (fp_entries (plan ms es w)) = None
     \<longleftrightarrow> row_after (last (fp_entries (plan ms es w))) \<le> r"
proof -
  let ?P = "fp_entries (plan ms es w)"
  have len: "length ?P = length es" by (rule plan_facts(1) [OF w])
  have last: "last ?P = ?P ! (length es - 1)" by (rule last_plan [OF w some])
  have "\<not> covers r (?P ! j)" if "row_after (last ?P) \<le> r" "j < length es" for j
  proof -
    from that have "j \<le> length es - 1" "length es - 1 < length es" by auto
    from row_after_mono [OF w this, of ms] that(1) show ?thesis by (auto simp: covers_def last)
  qed
  moreover have "\<exists>j<length es. covers r (?P ! j)" if "\<not> row_after (last ?P) \<le> r"
    using covered [OF w, of "length es - 1" es r ms] that some
    unfolding last by (metis diff_less le_less_trans length_greater_0_conv less_one linorder_not_le)
  ultimately show ?thesis
    by (auto simp: find_None_iff in_set_conv_nth len)
qed

section \<open>The frame\<close>

theorem painted_plan:
  assumes ok: "index_ok ms s" and width: "ts_index_width s = Some (pw_width w)"
    and w: "1 \<le> pw_width w" and h: "0 < pw_height w"
    and fit: "\<And>p. p \<in> set (fp_entries (plan ms (ts_entries s) (pw_width w))) \<Longrightarrow> rr_rows (pe_rect p) \<le> u16_max"
    and b: "ca_rows b = Map.empty"
  shows "ca_rows (paint_transcript_rows s w b) y =
     (if on_canvas w b y \<and> window_contains w (shown_row w y)
      then planned_row (plan ms (ts_entries s) (pw_width w)) (ts_entries s) (shown_row w y) else None)"
proof -
  let ?es = "ts_entries s" let ?pl = "plan ms ?es (pw_width w)" let ?P = "fp_entries ?pl"
  let ?r = "shown_row w y"
  obtain f l where win: "visible_window (pw_first w) (pw_height w) s = (f, l)"
    by (cases "visible_window (pw_first w) (pw_height w) s")
  let ?fp = "store_frame_plan f l (pw_width w) s"
  let ?slice = "take (l - f) (drop f ?P)"
  have len: "length ?P = length ?es" by (rule plan_facts(1) [OF w])
  have l: "l \<le> length ?es" using window_bounds [OF ok width w] win by (metis snd_conv)
  have slice: "fp_entries ?fp = ?slice" using frame_slice(1) [OF ok width w] l by (simp add: min_def)
  have gap: "fp_trailing_gap ?fp = (if length ?es \<le> l then fp_trailing_gap ?pl else 0)"
    by (rule frame_slice(3) [OF ok width w])
  have shape: "pe_index p < length ?es \<and> rr_rows (pe_rect p) \<le> u16_max \<and> pe_gap p \<le> rr_row (pe_rect p)"
    if "p \<in> set ?P" for p
    using that fit [OF that] plan_facts(2) [OF w, of _ ?es ms] by (auto simp: in_set_conv_nth len)
  have disjoint: "sorted_wrt (\<lambda>p q. \<not> (covers ?r p \<and> covers ?r q)) ?P"
    by (rule sorted_wrt_mono_rel [OF _ plan_facts(4) [OF w, of ms ?es]]) (auto simp: covers_def)
  have slice_sub: "set ?slice \<subseteq> set ?P" by (meson order_trans set_drop_subset set_take_subset)
  have slice_disjoint: "sorted_wrt (\<lambda>p q. \<not> (covers ?r p \<and> covers ?r q)) ?slice"
    by (intro sorted_wrt_take sorted_wrt_drop disjoint)
  have slice_shape: "\<forall>p\<in>set ?slice. pe_index p < length ?es \<and> rr_rows (pe_rect p) \<le> u16_max
      \<and> pe_gap p \<le> rr_row (pe_rect p)" using shape slice_sub by blast
  have painted: "paint_transcript_rows s w b = paint_trailing w ?es ?fp (fold (paint_planned w ?es) ?slice b)"
    using w h by (simp add: paint_transcript_rows_def win Let_def slice)
  let ?b1 = "fold (paint_planned w ?es) ?slice b"
  have b1: "ca_rows ?b1 y = (if on_canvas w b y \<and> window_contains w ?r
      then map_option (\<lambda>p. row_of_entry ?es p ?r) (find (covers ?r) ?slice) else None)"
    and hb1: "ca_height ?b1 = ca_height b"
    using fold_planned [OF slice_shape slice_disjoint, of b] b
    by (auto split: option.splits)
  have on: "on_canvas w ?b1 y = on_canvas w b y" by (simp add: on_canvas_def hb1)
  show ?thesis
  proof (cases "on_canvas w b y \<and> window_contains w ?r")
    case False
    then show ?thesis unfolding painted paint_trailing_row on b1 by auto
  next
    case True
    then have view: "pw_first w \<le> ?r" "?r < sat_add (pw_first w) (pw_height w)"
      by (simp_all add: window_contains_def)
    have inside: "f \<le> k \<and> k < l" if "k < length ?P" "covers ?r (?P ! k)" for k
      using window_mem [OF ok width w _ _ view] that len win by fastforce
    have found: "find (covers ?r) ?slice = find (covers ?r) ?P"
      by (rule find_slice) (use inside in blast)
    show ?thesis
    proof (cases "?es = []")
      case True
      then show ?thesis
        using \<open>on_canvas w b y \<and> window_contains w ?r\<close> len plan_facts(5) [OF w, of ms ?es] plan_facts(3) [OF w, of ms ?es]
        unfolding painted paint_trailing_row on b1 found by (simp add: slice planned_row_def)
    next
      case some: False
      have last: "last ?P = ?P ! (length ?es - 1)" by (rule last_plan [OF w some])
      have tail: "l = length ?es \<and> f < length ?es" if "row_after (last ?P) \<le> ?r"
      proof -
        have idx: "ts_index s = rebuild ms ?es (pw_width w)" using ok width by (simp add: index_ok_def)
        have "hi_starts (ts_index s) ! (length ?es - 1) \<le> row_after (last ?P)"
          using some starts_nth [OF w, of "length ?es - 1" ?es ms] by (simp add: idx last row_after_def)
        also note that
        also note view(2)
        finally show ?thesis
          using window_last [OF ok width w some h] win by (metis fst_conv snd_conv)
      qed
      have slice_last: "?slice \<noteq> [] \<and> last ?slice = last ?P" if "l = length ?es" "f < length ?es"
        using that len by (simp add: last_drop)
      have index_last: "pe_index (last ?P) = length ?es - 1" "length ?es - 1 < length ?es"
        using plan_facts(2) [OF w, of "length ?es - 1" ?es ms] some by (simp_all add: last)
      have es_last: "?es ! (length ?es - 1) = last ?es" using some by (simp add: last_conv_nth)
      show ?thesis
      proof (cases "row_after (last ?P) \<le> ?r")
        case below: True
        with uncovered [OF w some] have none: "find (covers ?r) ?P = None" by simp
        have "fp_entries ?fp \<noteq> []" "last (fp_entries ?fp) = last ?P"
          unfolding slice using tail [OF below] slice_last by blast+
        moreover have "fp_trailing_gap ?fp = fp_trailing_gap ?pl"
          unfolding gap using tail [OF below] by simp
        ultimately show ?thesis
          unfolding painted paint_trailing_row on b1 found
          using True none plan_facts(5) [OF w, of ms ?es] some below index_last es_last
          by (simp add: planned_row_def)
      next
        case above: False
        with uncovered [OF w some] obtain p where p: "find (covers ?r) ?P = Some p" by fastforce
        have "\<not> (row_after (last ?slice) \<le> ?r \<and> ?r < row_after (last ?slice) + fp_trailing_gap ?fp)"
          if "?slice \<noteq> []"
        proof (cases "length ?es \<le> l")
          case True
          then have "f < length ?es" using that len by auto
          with slice_last True l above show ?thesis by auto
        qed (simp add: gap)
        then show ?thesis
          unfolding painted paint_trailing_row on b1 found using True p
          by (auto simp: slice planned_row_def)
      qed
    qed
  qed
qed

section \<open>The size of a plan\<close>

lemma padding_le: "fst (entry_padding e) = 0" "snd (entry_padding e) \<le> 1"
  by (auto simp: entry_padding_def tool_padding_def split: transcript_entry.splits option.splits)

lemma planned_step_size:
  assumes "ms e w + 1 \<le> u16_max"
  shows "rr_rows (pe_rect (planned_step ms w l i row prev e)) \<le> u16_max"
    and "pe_gap (planned_step ms w l i row prev e) \<le> 2"
  using assms padding_le [of e]
  by (auto simp: planned_step_def Let_def gap_before_def gap_between_def base_gap_def split: option.splits)

lemma plan_from_size:
  assumes "plan_from ms w l i row prev es = (ps, row', prev')" and "\<forall>e\<in>set es. ms e w + 1 \<le> u16_max"
  shows "(\<forall>p\<in>set ps. rr_rows (pe_rect p) \<le> u16_max) \<and> row' \<le> row + length es * (u16_max + 2)"
  using assms
proof (induction es arbitrary: i row prev ps)
  case (Cons e es)
  let ?p = "planned_step ms w l i row prev e"
  have p: "rr_rows (pe_rect ?p) \<le> u16_max" "pe_gap ?p \<le> 2"
    using planned_step_size [of ms e w] Cons.prems(2) by auto
  obtain ps1 where rest: "plan_from ms w l (Suc i) (row_after ?p) (closing_of l i e) es = (ps1, row', prev')"
    and ps: "ps = ?p # ps1"
    using Cons.prems(1) unfolding plan_from_Cons by (auto split: prod.splits)
  from Cons.IH [OF rest] Cons.prems(2) p show ?case
    by (auto simp: ps row_after_def)
qed simp

lemma plan_size:
  assumes "1 \<le> w" and "\<forall>e\<in>set es. ms e w + 1 \<le> u16_max" and "length es \<le> max_transcript_entries"
  shows "p \<in> set (fp_entries (plan ms es w)) \<Longrightarrow> rr_rows (pe_rect p) \<le> u16_max"
    and "fp_total_rows (plan ms es w) \<le> word_max"
proof -
  obtain ps row prev where p: "plan_from ms w (length es - Suc 0) 0 0 None es = (ps, row, prev)"
    by (rule prod_cases3)
  have w: "max w (Suc 0) = w" using assms(1) by simp
  note size = plan_from_size [OF p assms(2)]
  show "p \<in> set (fp_entries (plan ms es w)) \<Longrightarrow> rr_rows (pe_rect p) \<le> u16_max"
    using size by (auto simp: plan_def w p)
  have "row \<le> max_transcript_entries * (u16_max + 2)"
    using size assms(3) by (metis add_0 le_trans mult_le_mono1)
  then show "fp_total_rows (plan ms es w) \<le> word_max"
    by (auto simp: plan_def w p closing_gap_def trailing_gap_def max_transcript_entries_def u16_max_def word_max_def
        split: option.splits)
qed

lemma no_row_past_total:
  assumes w: "1 \<le> w" and "fp_total_rows (plan ms es w) \<le> r"
  shows "planned_row (plan ms es w) es r = None"
proof (cases "es = []")
  case True
  then show ?thesis using plan_facts(1) [OF w, of ms es] assms(2) by (simp add: planned_row_def)
next
  case False
  then show ?thesis
    using uncovered [OF w False, of r ms] plan_facts(5) [OF w, of ms es] assms(2)
    by (simp add: planned_row_def)
qed

section \<open>The law holds from the start\<close>

lemma law_when: "(A \<Longrightarrow> state_law env ck P) \<Longrightarrow> state_law env ck (\<lambda>s. A \<longrightarrow> P s)"
  by (cases A) (auto intro: state_law.intro)

interpretation kept_store: loop_law d ck
  "\<lambda>s. measures_status_blind (tv_measure (de_ui d)) \<longrightarrow> store_ok (tv_measure (de_ui d)) (ap_transcript s)"
  for d :: "'t desk" and ck
  by (rule loop_law.intro, rule law_when, rule store_law)

lemma new_store_ok: "store_ok ms (ap_transcript (co_app (new_tui d columns)))"
  by (simp add: new_tui_def new_app_def new_store_def store_ok_def index_ok_def)

lemma run_store_ok:
  assumes "measures_status_blind (tv_measure (de_ui d))" and "loop_run d evs (new_tui d columns) = Some (msgs, c)"
  shows "store_ok (tv_measure (de_ui d)) (ap_transcript (co_app c))"
  using run_keeps [OF kept_store.loop_law_axioms _ assms(2)] assms(1) new_store_ok by blast

text \<open>The store and the window of a frame.\<close>

lemma frame_parts:
  assumes ok: "store_ok (tv_measure env) (ap_transcript s0)"
    and frame: "render_transcript_pane env area s0 = (Some (canvas, w), s)"
  shows "\<exists>t. store_ok (tv_measure env) t \<and> ts_entries t = ts_entries (ap_transcript s0)
      \<and> ts_index_width t = Some (re_width area - 2) \<and> pw_width w = re_width area - 2 \<and> 1 \<le> pw_width w
      \<and> pw_height w = re_height area \<and> 0 < pw_height w
      \<and> canvas = paint_transcript_rows t w \<lparr>ca_height = min (re_height area) u16_max, ca_rows = Map.empty\<rparr>
      \<and> pw_first w = (if so_following (ap_scroll s0) then hi_total_rows (ts_index t) - re_height area
           else min (so_offset (ap_scroll s0)) (hi_total_rows (ts_index t) - re_height area))
      \<and> pw_top w = (re_height area - hi_total_rows (ts_index t)) div 2"
proof -
  let ?w = "re_width area - 2"
  have dims: "?w \<noteq> 0" "re_height area \<noteq> 0"
    using frame by (auto simp: render_transcript_pane_def Let_def split: if_splits prod.splits)
  let ?t = "if height_index_valid_for ?w (ap_transcript s0) then ap_transcript s0
     else rebuild_height_index (tv_measure env) ?w (ap_transcript s0)"
  have t: "store_ok (tv_measure env) ?t \<and> ts_entries ?t = ts_entries (ap_transcript s0) \<and> ts_index_width ?t = Some ?w"
    using ok by (auto simp: height_index_valid_for_def rebuild_ok) (simp_all add: rebuild_height_index_def)
  show ?thesis
    by (rule exI [of _ ?t])
      (use t dims frame in \<open>auto simp: render_transcript_pane_def sync_after_render_def on_scroll_def on_store_def Let_def
        split: if_splits prod.splits\<close>)
qed

text \<open>
  C37. Every frame is the layout planner's frame.  After any run of the loop, the canvas a frame paints holds
  in each row exactly what the planner, measuring all entries from scratch at the list's width, puts in the
  transcript row the viewport shows there: the right row of the right entry, a gap row with the box of a
  user's turn it touches, or nothing past the end.  The store only ever measured the entries that changed
  and the painting only visited the entries of the window.  The viewport is at the end when the transcript
  follows its tail, else at the scrolled offset, never past the last full page.  The measure must not depend
  on the status of a tool row, and an entry's rows must fit the \<open>u16\<close> the terminal counts with.
\<close>

theorem frame_shows_plan:
  assumes blind: "measures_status_blind (tv_measure (de_ui d))"
    and run: "loop_run d evs (new_tui d columns) = Some (msgs, c)"
    and frame: "render_transcript_pane (de_ui d) area (co_app c) = (Some (canvas, w), s)"
    and fit: "\<forall>e\<in>set (ts_entries (ap_transcript (co_app c))). tv_measure (de_ui d) e (re_width area - 2) < u16_max"
  shows "let es = ts_entries (ap_transcript (co_app c)); sc = ap_scroll (co_app c);
             pl = plan (tv_measure (de_ui d)) es (re_width area - 2)
         in (\<forall>y. ca_rows canvas y =
               (if pw_top w \<le> y \<and> y < min (re_height area) u16_max
                then planned_row pl es (pw_first w + (y - pw_top w)) else None))
          \<and> pw_first w = (if so_following sc then fp_total_rows pl - re_height area
                          else min (so_offset sc) (fp_total_rows pl - re_height area))"
proof -
  let ?m = "tv_measure (de_ui d)" let ?es = "ts_entries (ap_transcript (co_app c))"
  have ok: "store_ok ?m (ap_transcript (co_app c))" by (rule run_store_ok [OF blind run])
  obtain t where t: "store_ok ?m t" "ts_entries t = ?es" "ts_index_width t = Some (pw_width w)"
    and w: "pw_width w = re_width area - 2" "1 \<le> pw_width w" and h: "pw_height w = re_height area" "0 < pw_height w"
    and canvas: "canvas = paint_transcript_rows t w \<lparr>ca_height = min (re_height area) u16_max, ca_rows = Map.empty\<rparr>"
    and first: "pw_first w = (if so_following (ap_scroll (co_app c)) then hi_total_rows (ts_index t) - re_height area
           else min (so_offset (ap_scroll (co_app c))) (hi_total_rows (ts_index t) - re_height area))"
    using frame_parts [OF ok frame] by metis
  have idx: "index_ok ?m t" and len: "length ?es \<le> max_transcript_entries"
    using t ok by (simp_all add: store_ok_def)
  let ?pl = "plan ?m ?es (pw_width w)"
  have size: "p \<in> set (fp_entries ?pl) \<Longrightarrow> rr_rows (pe_rect p) \<le> u16_max" "fp_total_rows ?pl \<le> word_max" for p
    using plan_size [OF w(2), of ?es ?m] fit len by (auto simp: w(1) Suc_le_eq)
  have total: "hi_total_rows (ts_index t) = fp_total_rows ?pl"
    using idx t rebuild_plan(3) [OF w(2)] by (simp add: index_ok_def)
  have row: "ca_rows canvas y = (if pw_top w \<le> y \<and> y < min (re_height area) u16_max
      then planned_row ?pl ?es (shown_row w y) else None)" for y
  proof -
    have "ca_rows canvas y = (if on_canvas w \<lparr>ca_height = min (re_height area) u16_max, ca_rows = Map.empty\<rparr> y
        \<and> window_contains w (shown_row w y) then planned_row ?pl ?es (shown_row w y) else None)"
      unfolding canvas t(2) [symmetric]
      by (rule painted_plan [OF idx t(3) w(2) h(2)]) (use size t(2) in simp_all)
    moreover have "planned_row ?pl ?es (shown_row w y) = None" if "\<not> shown_row w y < word_max"
      by (rule no_row_past_total [OF w(2)]) (use that size(2) in simp)
    moreover have "y < re_height area \<Longrightarrow> pw_top w \<le> y \<Longrightarrow> window_contains w (shown_row w y) \<or> \<not> shown_row w y < word_max"
      using h by (auto simp: window_contains_def shown_row_def sat_add_def)
    ultimately show ?thesis by (auto simp: on_canvas_def)
  qed
  then show ?thesis by (simp add: Let_def first total w(1) shown_row_def)
qed

section \<open>A run\<close>

text \<open>A text box of one line per entry, and an interface over it whose entries take one row each.\<close>

definition line_box :: "str list textbox" where
  "line_box =
     \<lparr>tx_new = (\<lambda>ls. ls), tx_lines = (\<lambda>ls. ls),
      tx_input = (\<lambda>k ls. case k of
          BoxChar c \<Rightarrow> (if ls = [] then [c] else butlast ls @ [last ls @ c])
        | BoxBackspace \<Rightarrow> (if ls = [] then [] else butlast ls @ [pop_char (last ls)])
        | _ \<Rightarrow> ls),
      tx_insert = (\<lambda>t ls. if ls = [] then [t] else butlast ls @ [last ls @ t]),
      tx_newline = (\<lambda>ls. ls @ [[]]), tx_jump = (\<lambda>r c ls. ls), tx_cursor_row = (\<lambda>ls. 0),
      tx_rows = (\<lambda>w ls. length ls)\<rparr>"

definition demo_desk :: "str list desk" where
  "demo_desk =
     \<lparr>de_ui = \<lparr>tv_measure = (\<lambda>e w. 1), tv_markdown = (\<lambda>t. [t]), tv_painted = (\<lambda>es w a b. [])\<rparr>,
      de_catalog = \<lparr>tg_render = (\<lambda>n a. n), tg_day = (\<lambda>t. []), tg_logo = ''logo''\<rparr>,
      de_box = line_box, de_clipboard = (\<lambda>t. None), de_persists = True\<rparr>"

definition at_ms :: "nat \<Rightarrow> clock" where
  "at_ms n = \<lparr>ck_now = n, ck_wall = 0\<rparr>"

definition demo_turn :: "(clock \<times> loop_event) list" where
  "demo_turn =
     [(at_ms 1, FromUiState (TuiExternalPrompt ''hi'')),
      (at_ms 2, FromBus InferenceStarted [InferenceChunk ''yes'' ''yes''])]"

definition demo_area :: rect where
  "demo_area = \<lparr>re_x = 0, re_y = 0, re_width = 12, re_height = 3\<rparr>"

definition demo_end :: "str list tui" where
  "demo_end = snd (the (loop_run demo_desk demo_turn (new_tui demo_desk 80)))"

lemma demo_loop_run: "loop_run demo_desk demo_turn (new_tui demo_desk 80) =
   Some (fst (the (loop_run demo_desk demo_turn (new_tui demo_desk 80))), demo_end)"
proof -
  have "\<not> Option.is_none (loop_run demo_desk demo_turn (new_tui demo_desk 80))" by code_simp
  then show ?thesis by (auto simp: demo_end_def Option.is_none_def)
qed

lemma demo_blind: "measures_status_blind (tv_measure (de_ui demo_desk))"
  by (simp add: measures_status_blind_def demo_desk_def)

definition demo_frame :: "(canvas \<times> paint_window) option \<times> app" where
  "demo_frame = render_transcript_pane (de_ui demo_desk) demo_area (co_app demo_end)"

lemma demo_painted: "render_transcript_pane (de_ui demo_desk) demo_area (co_app demo_end) =
   (Some (fst (the (fst demo_frame)), snd (the (fst demo_frame))), snd demo_frame)"
proof -
  have "\<not> Option.is_none (fst demo_frame)" by code_simp
  then show ?thesis by (auto simp: demo_frame_def Option.is_none_def)
qed

theorem frame_shows_plan_witness:
  "ca_rows (fst (the (fst demo_frame))) 0 = Some (GapRow True)
   \<and> ca_rows (fst (the (fst demo_frame))) 2 = Some (EntryRow 1 0)
   \<and> planned_row (plan (tv_measure (de_ui demo_desk)) (ts_entries (ap_transcript (co_app demo_end))) 10)
       (ts_entries (ap_transcript (co_app demo_end))) 3 = Some (EntryRow 1 0)"
proof -
  have fit: "\<forall>e\<in>set (ts_entries (ap_transcript (co_app demo_end))).
      tv_measure (de_ui demo_desk) e (re_width demo_area - 2) < u16_max"
    by (simp add: demo_desk_def u16_max_def)
  have rows: "ca_rows (fst (the (fst demo_frame))) 0 = Some (GapRow True)"
    "ca_rows (fst (the (fst demo_frame))) 2 = Some (EntryRow 1 0)"
    "pw_top (snd (the (fst demo_frame))) = 0" "pw_first (snd (the (fst demo_frame))) = 1"
    by code_simp+
  have "planned_row (plan (tv_measure (de_ui demo_desk)) (ts_entries (ap_transcript (co_app demo_end))) 10)
       (ts_entries (ap_transcript (co_app demo_end))) 3 = ca_rows (fst (the (fst demo_frame))) 2"
    using spec [OF conjunct1 [OF frame_shows_plan [OF demo_blind demo_loop_run demo_painted fit, unfolded Let_def]], of 2]
    by (simp add: rows demo_area_def u16_max_def numeral_3_eq_3)
  with rows show ?thesis by simp
qed

end
