(* ===== verification/Tui_Queue.thy ===== *)
theory Tui_Queue
  imports Tui_Laws
begin

text \<open>
  The prompts of the terminal interface.  What the queue keeps between any two events: the prompts carry the
  numbers of their submission, the waiting ones are those in the list of the waiting, in order, and at most
  one runs, the one named as active.  Each operation of the queue is computed on such a queue, as a change of
  statuses.
\<close>

section \<open>The queue\<close>

definition is_waiting :: "queued_prompt \<Rightarrow> bool" where
  "is_waiting p \<longleftrightarrow> qp_status p = PromptQueued"

definition is_running :: "queued_prompt \<Rightarrow> bool" where
  "is_running p \<longleftrightarrow> qp_status p = PromptInProgress"

definition waiting_texts :: "prompt_queue \<Rightarrow> str list" where
  "waiting_texts q = map qp_text (filter is_waiting (pq_items q))"

definition queue_ok :: "prompt_queue \<Rightarrow> bool" where
  "queue_ok q \<longleftrightarrow>
     map qp_id (pq_items q) = [1..<Suc (length (pq_items q))] \<and>
     pq_next q = Suc (length (pq_items q)) \<and>
     pq_pending q = map qp_id (filter is_waiting (pq_items q)) \<and>
     map qp_id (filter is_running (pq_items q)) = (case pq_active q of None \<Rightarrow> [] | Some i \<Rightarrow> [i])"

definition mark_prompts :: "(queued_prompt \<Rightarrow> bool) \<Rightarrow> prompt_status \<Rightarrow> queued_prompt list \<Rightarrow> queued_prompt list" where
  "mark_prompts c st items = map (\<lambda>p. if c p then p\<lparr>qp_status := st\<rparr> else p) items"

lemma mark_prompts_ids [simp]: "map qp_id (mark_prompts c st items) = map qp_id items"
  by (simp add: mark_prompts_def comp_def)

lemma mark_prompts_length [simp]: "length (mark_prompts c st items) = length items"
  by (simp add: mark_prompts_def)

lemma mark_prompts_cong:
  "(\<And>p. p \<in> set items \<Longrightarrow> c p = c' p) \<Longrightarrow> mark_prompts c st items = mark_prompts c' st items"
  by (simp add: mark_prompts_def)

lemma set_status_mark:
  "distinct (map qp_id items) \<Longrightarrow> set_status i st items = mark_prompts (\<lambda>p. qp_id p = i) st items"
proof (induction items)
  case (Cons p items)
  have "\<forall>x\<in>set items. qp_id x \<noteq> qp_id p" using Cons.prems by (auto simp: image_iff)
  then have "mark_prompts (\<lambda>x. qp_id x = qp_id p) st items = items"
    by (auto simp: mark_prompts_def intro!: map_idI)
  then show ?case using Cons by (auto simp: mark_prompts_def)
qed (simp add: mark_prompts_def)

lemma find_prompt_mem:
  assumes "distinct (map qp_id items)" and "p \<in> set items"
  shows "find_prompt (qp_id p) items = Some p"
  using assms by (induction items) (auto simp: find_prompt_def)

lemma mark_mark:
  "mark_prompts c st (mark_prompts (\<lambda>p. qp_id p = i) st items)
   = mark_prompts (\<lambda>p. qp_id p = i \<or> c (if qp_id p = i then p\<lparr>qp_status := st\<rparr> else p)) st items"
  by (simp add: mark_prompts_def comp_def)

lemma kept_by_mark:
  assumes "p \<in> set items" and "\<not> c p"
  shows "p \<in> set (mark_prompts c st items)"
  using assms by (force simp: mark_prompts_def image_iff)

lemma cancel_ids_mark:
  assumes "distinct (map qp_id items)" and "set ps \<subseteq> set items" and "distinct (map qp_id ps)"
  shows "cancel_ids (map qp_id ps) items
    = (map qp_text ps, mark_prompts (\<lambda>p. qp_id p \<in> qp_id ` set ps) PromptCancelled items)"
  using assms
proof (induction ps arbitrary: items)
  case Nil
  then show ?case by (simp add: mark_prompts_def)
next
  case (Cons p ps)
  let ?items = "mark_prompts (\<lambda>x. qp_id x = qp_id p) PromptCancelled items"
  have "\<forall>x\<in>set ps. qp_id x \<noteq> qp_id p" using Cons.prems by (auto simp: image_iff)
  then have "set ps \<subseteq> set ?items" using Cons.prems(2) by (auto intro!: kept_by_mark)
  then have "cancel_ids (map qp_id ps) ?items
      = (map qp_text ps, mark_prompts (\<lambda>x. qp_id x \<in> qp_id ` set ps) PromptCancelled ?items)"
    using Cons by simp
  then show ?case
    using Cons.prems by (simp add: find_prompt_mem set_status_mark mark_mark) (simp add: mark_prompts_def)
qed

lemma deliver_ids_mark:
  assumes "distinct (map qp_id items)" and "set ps \<subseteq> set items" and "distinct (map qp_id ps)"
  shows "\<exists>facts'. deliver_ids PromptDone (map qp_id ps) facts items
    = (map qp_text ps, facts', mark_prompts (\<lambda>p. qp_id p \<in> qp_id ` set ps) PromptDone items)"
  using assms
proof (induction ps arbitrary: items facts)
  case Nil
  then show ?case by (simp add: mark_prompts_def)
next
  case (Cons p ps)
  let ?items = "mark_prompts (\<lambda>x. qp_id x = qp_id p) PromptDone items"
  have "\<forall>x\<in>set ps. qp_id x \<noteq> qp_id p" using Cons.prems by (auto simp: image_iff)
  then have "set ps \<subseteq> set ?items" using Cons.prems(2) by (auto intro!: kept_by_mark)
  then obtain facts' where "deliver_ids PromptDone (map qp_id ps) (merge_first_some (qp_facts p) facts) ?items
      = (map qp_text ps, facts', mark_prompts (\<lambda>x. qp_id x \<in> qp_id ` set ps) PromptDone ?items)"
    using Cons by (metis distinct.simps(2) list.simps(9) mark_prompts_ids)
  then show ?case
    using Cons.prems by (simp add: find_prompt_mem set_status_mark mark_mark) (simp add: mark_prompts_def)
qed

section \<open>The operations on such a queue\<close>

lemma queue_ok_distinct: "queue_ok q \<Longrightarrow> distinct (map qp_id (pq_items q))"
  by (metis queue_ok_def distinct_upt)

lemma same_prompt:
  assumes "queue_ok q" and "p \<in> set (pq_items q)" and "p' \<in> set (pq_items q)" and "qp_id p = qp_id p'"
  shows "p = p'"
  using queue_ok_distinct [OF assms(1)] assms(2-) by (metis find_prompt_mem option.inject)

lemma waiting_by_id:
  assumes "queue_ok q" and "p \<in> set (pq_items q)"
  shows "qp_id p \<in> qp_id ` set (filter is_waiting (pq_items q)) \<longleftrightarrow> is_waiting p"
  using assms same_prompt [OF assms(1)] by force

lemma active_iff_running:
  assumes "queue_ok q" and "p \<in> set (pq_items q)"
  shows "pq_active q = Some (qp_id p) \<longleftrightarrow> is_running p"
proof -
  have "set (map qp_id (filter is_running (pq_items q))) = set_option (pq_active q)"
    using assms(1) unfolding queue_ok_def by (cases "pq_active q") auto
  then have "pq_active q = Some (qp_id p) \<longleftrightarrow> (\<exists>p'\<in>set (pq_items q). is_running p' \<and> qp_id p = qp_id p')"
    by (auto simp: set_eq_iff image_iff)
  then show ?thesis using same_prompt [OF assms(1) assms(2)] assms(2) by blast
qed

lemma active_running:
  assumes "queue_ok q" and "pq_active q = Some i"
  obtains p where "p \<in> set (pq_items q)" and "qp_id p = i" and "is_running p"
proof -
  have "map qp_id (filter is_running (pq_items q)) = [i]" using assms by (simp add: queue_ok_def)
  then obtain p where "filter is_running (pq_items q) = [p]" and "qp_id p = i" by auto
  then show thesis using that by (metis filter_eq_ConsD in_set_conv_decomp)
qed

lemma no_active:
  assumes "queue_ok q" and "pq_active q = None"
  shows "filter is_running (pq_items q) = []"
  using assms by (simp add: queue_ok_def)

lemma pending_waits:
  assumes "queue_ok q"
  shows "pq_pending q = [] \<longleftrightarrow> filter is_waiting (pq_items q) = []"
  using assms by (simp add: queue_ok_def)

lemma complete_items:
  assumes "queue_ok q"
  shows "pq_items (queue_complete_active q) = mark_prompts is_running PromptDone (pq_items q)"
    and "pq_active (queue_complete_active q) = None"
    and "pq_pending (queue_complete_active q) = pq_pending q"
    and "pq_next (queue_complete_active q) = pq_next q"
proof -
  show "pq_items (queue_complete_active q) = mark_prompts is_running PromptDone (pq_items q)"
  proof (cases "pq_active q")
    case None
    have "mark_prompts is_running PromptDone (pq_items q) = pq_items q"
      using no_active [OF assms None] by (auto simp: mark_prompts_def filter_empty_conv intro!: map_idI)
    then show ?thesis using None by (simp add: queue_complete_active_def)
  next
    case (Some i)
    have "set_status i PromptDone (pq_items q) = mark_prompts is_running PromptDone (pq_items q)"
      unfolding set_status_mark [OF queue_ok_distinct [OF assms]]
      by (rule mark_prompts_cong) (metis Some active_iff_running [OF assms] option.inject)
    then show ?thesis using Some by (simp add: queue_complete_active_def)
  qed
qed (auto simp: queue_complete_active_def split: option.splits)

lemma filter_mark:
  assumes "\<And>p. P (p\<lparr>qp_status := st\<rparr>) \<longleftrightarrow> st \<in> S" and "\<And>p. P p \<longleftrightarrow> qp_status p \<in> S" and "st \<notin> S"
  shows "map qp_id (filter P (mark_prompts c st items)) = map qp_id (filter (\<lambda>p. P p \<and> \<not> c p) items)"
  using assms by (induction items) (auto simp: mark_prompts_def)

lemma filter_waiting_mark:
  "st \<noteq> PromptQueued \<Longrightarrow>
     map qp_id (filter is_waiting (mark_prompts c st items)) = map qp_id (filter (\<lambda>p. is_waiting p \<and> \<not> c p) items)"
  by (rule filter_mark [where S = "{PromptQueued}"]) (auto simp: is_waiting_def)

lemma filter_running_mark:
  "st \<noteq> PromptInProgress \<Longrightarrow>
     map qp_id (filter is_running (mark_prompts c st items)) = map qp_id (filter (\<lambda>p. is_running p \<and> \<not> c p) items)"
  by (rule filter_mark [where S = "{PromptInProgress}"]) (auto simp: is_running_def)

lemma waiting_not_running: "is_waiting p \<Longrightarrow> \<not> is_running p"
  by (simp add: is_waiting_def is_running_def)

lemma queue_complete_ok: "queue_ok q \<Longrightarrow> queue_ok (queue_complete_active q)"
proof -
  assume q: "queue_ok q"
  have "filter (\<lambda>p. is_waiting p \<and> \<not> is_running p) (pq_items q) = filter is_waiting (pq_items q)"
    by (rule filter_cong) (auto simp: waiting_not_running)
  then show ?thesis
    using q by (simp add: queue_ok_def complete_items [OF q] filter_waiting_mark filter_running_mark)
qed

lemma queue_enqueue_ok:
  assumes "queue_ok q" and "Suc (length (pq_items q)) < word_max"
  shows "queue_ok (snd (queue_enqueue txt facts q))"
proof -
  have "sat_add (pq_next q) 1 = Suc (Suc (length (pq_items q)))"
    using assms by (simp add: queue_ok_def sat_add_exact)
  then show ?thesis
    using assms(1) by (auto simp: queue_enqueue_def queue_ok_def Let_def is_waiting_def is_running_def)
qed

text \<open>A take hands over every waiting prompt; the first of them is the one that runs.\<close>

definition delivered :: "nat \<Rightarrow> queued_prompt list \<Rightarrow> queued_prompt list" where
  "delivered i items = mark_prompts is_waiting PromptDone (mark_prompts (\<lambda>p. qp_id p = i) PromptInProgress items)"

lemma coalesce_waiting:
  assumes q: "queue_ok q" and free: "pq_active q = None" and some: "pq_pending q \<noteq> []"
  obtains facts where
    "queue_coalesce q = ((waiting_texts q, facts),
       q\<lparr>pq_active := Some (hd (pq_pending q)), pq_pending := [], pq_items := delivered (hd (pq_pending q)) (pq_items q)\<rparr>)"
proof -
  obtain p ps where w: "filter is_waiting (pq_items q) = p # ps"
    using some pending_waits [OF q] by (cases "filter is_waiting (pq_items q)") auto
  have pend: "pq_pending q = qp_id p # map qp_id ps" using q w by (simp add: queue_ok_def)
  have dist: "distinct (map qp_id (pq_items q))" by (rule queue_ok_distinct [OF q])
  have dw: "distinct (map qp_id (p # ps))"
    unfolding w [symmetric] using dist by (simp add: distinct_map inj_on_def)
  have pm: "p \<in> set (pq_items q)" "set ps \<subseteq> set (pq_items q)"
    using w by (metis filter_eq_ConsD in_set_conv_decomp, metis filter_is_subset set_subset_Cons subset_trans)
  let ?items = "mark_prompts (\<lambda>x. qp_id x = qp_id p) PromptInProgress (pq_items q)"
  have "\<forall>x\<in>set ps. qp_id x \<noteq> qp_id p" using dw by (auto simp: image_iff)
  then have "set ps \<subseteq> set ?items" using pm(2) by (auto intro!: kept_by_mark)
  then obtain facts where d: "deliver_ids PromptDone (map qp_id ps) (merge_first_some (qp_facts p) no_prompt_facts) ?items
      = (map qp_text ps, facts, mark_prompts (\<lambda>x. qp_id x \<in> qp_id ` set ps) PromptDone ?items)"
    using deliver_ids_mark [of ?items ps] dist dw by (metis distinct.simps(2) list.simps(9) mark_prompts_ids)
  have "mark_prompts (\<lambda>x. qp_id x \<in> qp_id ` set ps) PromptDone ?items = delivered (qp_id p) (pq_items q)"
    unfolding delivered_def
  proof (rule mark_prompts_cong)
    fix x assume "x \<in> set ?items"
    then obtain y where y: "y \<in> set (pq_items q)"
      and x: "x = (if qp_id y = qp_id p then y\<lparr>qp_status := PromptInProgress\<rparr> else y)"
      by (auto simp: mark_prompts_def)
    have "qp_id y \<in> qp_id ` set (p # ps) \<longleftrightarrow> is_waiting y"
      using waiting_by_id [OF q y] by (simp add: w)
    then show "(qp_id x \<in> qp_id ` set ps) = is_waiting x"
      using dw by (auto simp: x is_waiting_def)
  qed
  then have "queue_coalesce q = ((waiting_texts q, facts),
       q\<lparr>pq_active := Some (hd (pq_pending q)), pq_pending := [], pq_items := delivered (hd (pq_pending q)) (pq_items q)\<rparr>)"
    using free some d dist pm(1)
    by (simp add: queue_coalesce_def pend find_prompt_mem set_status_mark waiting_texts_def w)
  then show thesis by (rule that)
qed

lemma coalesce_none:
  "pq_active q \<noteq> None \<or> pq_pending q = [] \<Longrightarrow> queue_coalesce q = (([], no_prompt_facts), q)"
  by (auto simp: queue_coalesce_def)

lemma filter_id:
  "distinct (map qp_id items) \<Longrightarrow>
     map qp_id (filter (\<lambda>x. qp_id x = i) items) = (if i \<in> qp_id ` set items then [i] else [])"
  by (induction items) auto

lemma delivered_ids [simp]: "map qp_id (delivered i items) = map qp_id items"
  by (simp add: delivered_def)

lemma delivered_length [simp]: "length (delivered i items) = length items"
  by (simp add: delivered_def)

lemma delivered_waiting: "filter is_waiting (delivered i items) = []"
  by (auto simp: delivered_def mark_prompts_def filter_empty_conv is_waiting_def)

lemma queue_coalesce_ok:
  assumes q: "queue_ok q"
  shows "queue_ok (snd (queue_coalesce q))"
proof (cases "pq_active q = None \<and> pq_pending q \<noteq> []")
  case True
  then obtain facts where c: "queue_coalesce q = ((waiting_texts q, facts),
       q\<lparr>pq_active := Some (hd (pq_pending q)), pq_pending := [], pq_items := delivered (hd (pq_pending q)) (pq_items q)\<rparr>)"
    using coalesce_waiting [OF q] by metis
  obtain p ps where w: "filter is_waiting (pq_items q) = p # ps"
    using True pending_waits [OF q] by (cases "filter is_waiting (pq_items q)") auto
  then have p: "p \<in> set (pq_items q)" and hd: "hd (pq_pending q) = qp_id p"
    using q by (metis filter_eq_ConsD in_set_conv_decomp, simp add: queue_ok_def)
  have quiet: "\<not> is_running x" if "x \<in> set (pq_items q)" for x
    using no_active [OF q] True that by (auto simp: filter_empty_conv)
  have "map qp_id (filter is_running (delivered (qp_id p) (pq_items q)))
      = map qp_id (filter is_running (mark_prompts (\<lambda>x. qp_id x = qp_id p) PromptInProgress (pq_items q)))"
  proof -
    have "filter (\<lambda>x. is_running x \<and> \<not> is_waiting x) items = filter is_running items" for items
      by (rule filter_cong) (auto simp: waiting_not_running)
    then show ?thesis by (simp add: delivered_def filter_running_mark)
  qed
  also have "\<dots> = map qp_id (filter (\<lambda>x. qp_id x = qp_id p) (pq_items q))"
  proof -
    have "\<forall>x\<in>set items. \<not> is_running x \<Longrightarrow>
        map qp_id (filter is_running (mark_prompts (\<lambda>x. qp_id x = qp_id p) PromptInProgress items))
        = map qp_id (filter (\<lambda>x. qp_id x = qp_id p) items)" for items
      by (induction items) (auto simp: mark_prompts_def is_running_def)
    with quiet show ?thesis by blast
  qed
  also have "\<dots> = [qp_id p]" using filter_id [OF queue_ok_distinct [OF q]] p by simp
  finally have "map qp_id (filter is_running (delivered (hd (pq_pending q)) (pq_items q))) = [hd (pq_pending q)]"
    unfolding hd .
  then show ?thesis
    using q unfolding c queue_ok_def by (simp add: delivered_waiting)
next
  case False
  then show ?thesis using q by (subst coalesce_none) auto
qed

lemma cancel_and_drain_eq:
  assumes q: "queue_ok q"
  shows "queue_cancel_and_drain q =
    (waiting_texts q,
     q\<lparr>pq_active := None, pq_pending := [],
       pq_items := mark_prompts is_waiting PromptCancelled (mark_prompts is_running PromptDone (pq_items q))\<rparr>)"
proof -
  let ?q = "queue_complete_active q"
  let ?w = "filter is_waiting (pq_items ?q)"
  have ok: "queue_ok ?q" by (rule queue_complete_ok [OF q])
  have texts: "map qp_text (filter is_waiting (mark_prompts is_running PromptDone items)) = map qp_text (filter is_waiting items)"
    for items by (induction items) (auto simp: mark_prompts_def is_waiting_def is_running_def)
  have d: "distinct (map qp_id (pq_items ?q))" by (rule queue_ok_distinct [OF ok])
  then have "distinct (map qp_id ?w)" by (simp add: distinct_map inj_on_def)
  with d have "cancel_ids (map qp_id ?w) (pq_items ?q)
      = (map qp_text ?w, mark_prompts (\<lambda>p. qp_id p \<in> qp_id ` set ?w) PromptCancelled (pq_items ?q))"
    by (intro cancel_ids_mark) auto
  moreover have "mark_prompts (\<lambda>p. qp_id p \<in> qp_id ` set ?w) PromptCancelled (pq_items ?q)
      = mark_prompts is_waiting PromptCancelled (pq_items ?q)"
    by (rule mark_prompts_cong) (rule waiting_by_id [OF ok])
  moreover have "pq_pending ?q = map qp_id ?w" using ok by (simp add: queue_ok_def)
  moreover have "?q = q\<lparr>pq_active := None, pq_items := mark_prompts is_running PromptDone (pq_items q)\<rparr>"
    using complete_items [OF q] by (cases q, cases ?q) simp
  ultimately show ?thesis
    by (simp add: queue_cancel_and_drain_def Let_def texts waiting_texts_def complete_items [OF q])
qed

lemma queue_cancel_ok:
  assumes q: "queue_ok q"
  shows "queue_ok (snd (queue_cancel_and_drain q))"
proof -
  let ?items = "mark_prompts is_waiting PromptCancelled (mark_prompts is_running PromptDone (pq_items q))"
  have "filter is_waiting ?items = []" "filter is_running ?items = []"
    by (auto simp: mark_prompts_def filter_empty_conv is_waiting_def is_running_def)
  then show ?thesis
    using q by (simp add: cancel_and_drain_eq [OF q] queue_ok_def)
qed

lemma enforce_id:
  assumes q: "queue_ok q"
  shows "queue_enforce_single_active q = q"
proof (cases "pq_active q")
  case None
  then show ?thesis
    using no_active [OF q None] by (simp add: queue_enforce_single_active_def is_running_def [abs_def])
next
  case (Some i)
  then obtain p where f: "filter is_running (pq_items q) = [p]" and i: "qp_id p = i"
    using q by (auto simp: queue_ok_def)
  have "mark_prompts (\<lambda>x. qp_id x = i) PromptInProgress (pq_items q) = pq_items q"
    unfolding mark_prompts_def
  proof (rule map_idI)
    fix x assume "x \<in> set (pq_items q)"
    then have "qp_id x = i \<Longrightarrow> is_running x" using active_iff_running [OF q] Some by metis
    then show "(if qp_id x = i then x\<lparr>qp_status := PromptInProgress\<rparr> else x) = x"
      by (auto simp: is_running_def)
  qed
  then show ?thesis
    using f Some by (simp add: queue_enforce_single_active_def is_running_def [abs_def] set_status_mark [OF queue_ok_distinct [OF q]])
qed

section \<open>The life of a prompt\<close>

text \<open>A waiting prompt is taken up or cancelled, a running one ends; nothing runs twice.\<close>

definition may_become :: "prompt_status \<Rightarrow> prompt_status \<Rightarrow> bool" where
  "may_become a b \<longleftrightarrow> a = b \<or> a = PromptQueued \<or> a = PromptInProgress \<and> b = PromptDone"

definition later_prompt :: "queued_prompt \<Rightarrow> queued_prompt \<Rightarrow> bool" where
  "later_prompt p p' \<longleftrightarrow>
     qp_id p' = qp_id p \<and> qp_text p' = qp_text p \<and> qp_facts p' = qp_facts p \<and> may_become (qp_status p) (qp_status p')"

definition later_items :: "queued_prompt list \<Rightarrow> queued_prompt list \<Rightarrow> bool" where
  "later_items items items' \<longleftrightarrow> (\<exists>new. length new = length items \<and> prefix new items' \<and> list_all2 later_prompt items new)"

lemma later_prompt_refl [simp]: "later_prompt p p"
  by (simp add: later_prompt_def may_become_def)

lemma later_items_refl: "later_items items items"
  by (auto simp: later_items_def list_all2_same intro!: exI [of _ items])

lemma later_items_snoc: "later_items old items \<Longrightarrow> later_items old (items @ new)"
  by (auto simp: later_items_def)

lemma later_items_mark:
  assumes "later_items old items"
    and "\<And>p. p \<in> set items \<Longrightarrow> c p \<Longrightarrow> may_become (qp_status p) st"
  shows "later_items old (mark_prompts c st items)"
proof -
  from assms(1) obtain new rest where i: "items = new @ rest" and l: "list_all2 later_prompt old new"
    by (auto simp: later_items_def prefix_def)
  have "list_all2 later_prompt old (mark_prompts c st new)"
    unfolding list_all2_conv_all_nth mark_prompts_def
  proof (intro conjI allI impI)
    show "length old = length (map (\<lambda>p. if c p then p\<lparr>qp_status := st\<rparr> else p) new)"
      using l by (simp add: list_all2_lengthD)
    fix k assume k: "k < length old"
    then have "later_prompt (old ! k) (new ! k)" and "new ! k \<in> set items"
      using l by (auto simp: list_all2_conv_all_nth i)
    then show "later_prompt (old ! k) (map (\<lambda>p. if c p then p\<lparr>qp_status := st\<rparr> else p) new ! k)"
      using assms(2) [of "new ! k"] k l
      by (auto simp: later_prompt_def may_become_def is_waiting_def list_all2_lengthD)
  qed
  then show ?thesis
    unfolding later_items_def i
    by (intro exI [of _ "mark_prompts c st new"]) (auto simp: mark_prompts_def list_all2_lengthD)
qed

end
