(* ===== verification/Tui_Session.thy ===== *)
theory Tui_Session
  imports Tui_Queue Tui_Store_Laws
begin

text \<open>
  What the terminal interface keeps of its session: the queue of prompts, the phase with the abort that may
  be armed in it, and the life of each prompt, as one law of the state that every event, drain and turn of the
  loop keeps.  The numbers of the prompts saturate, so all of it is stated below 2 to the 64 submissions.
\<close>

section \<open>The phase\<close>

definition phase_ok :: "app \<Rightarrow> bool" where
  "phase_ok s \<longleftrightarrow>
     ap_active_cycle s = cycle_of (ap_queue s) \<and>
     (ap_phase s = UiIdle \<longrightarrow> \<not> ap_active_cycle s \<and> \<not> ap_input_locked s) \<and>
     (ap_phase s = UiAbortPending \<longrightarrow> ap_active_cycle s) \<and>
     (ab_pending (ap_abort s) \<longleftrightarrow> ab_armed_at (ap_abort s) \<noteq> None) \<and>
     (ab_pending (ap_abort s) \<longrightarrow> ap_phase s = UiAbortPending)"

definition prompts_of :: "app \<Rightarrow> queued_prompt list" where
  "prompts_of s = pq_items (ap_queue s)"

definition session_ok :: "queued_prompt list \<Rightarrow> app \<Rightarrow> bool" where
  "session_ok old s \<longleftrightarrow>
     (length (prompts_of s) < word_max \<longrightarrow>
        queue_ok (ap_queue s) \<and> phase_ok s \<and> later_items old (prompts_of s))"

lemma session_okI:
  assumes "session_ok old s"
    and "length (prompts_of s) \<le> length (prompts_of t)"
    and "queue_ok (ap_queue s) \<Longrightarrow> phase_ok s \<Longrightarrow> later_items old (prompts_of s) \<Longrightarrow>
         length (prompts_of t) < word_max \<Longrightarrow>
         queue_ok (ap_queue t) \<and> phase_ok t \<and> later_items old (prompts_of t)"
  shows "session_ok old t"
  using assms by (auto simp: session_ok_def)

text \<open>Nothing forgets a prompt.\<close>

lemma set_status_length [simp]: "length (set_status i st items) = length items"
  by (induction items) auto

lemma cancel_ids_length: "length (snd (cancel_ids is items)) = length items"
proof (induction "is" arbitrary: items)
  case (Cons i "is")
  show ?case
  proof (cases "find_prompt i items")
    case (Some p)
    then show ?thesis using Cons [of "set_status i PromptCancelled items"] by (auto split: prod.splits)
  qed (simp add: Cons)
qed simp

lemma deliver_ids_length: "length (snd (snd (deliver_ids st is facts items))) = length items"
proof (induction "is" arbitrary: st facts items)
  case (Cons i "is")
  show ?case
  proof (cases "find_prompt i items")
    case (Some p)
    then show ?thesis
      using Cons [of PromptDone "merge_first_some (qp_facts p) facts" "set_status i st items"]
      by (auto split: prod.splits)
  qed (simp add: Cons)
qed simp

lemma requeue_length: "length (fst (requeue_others keep items pending)) = length items"
  by (induction items arbitrary: pending) (auto split: prod.splits, (metis fst_conv)+)

lemma enforce_length [simp]: "length (pq_items (queue_enforce_single_active q)) = length (pq_items q)"
proof -
  have "length items = length (pq_items q)" if "requeue_others keep (pq_items q) pending = (items, p')" for keep pending items p'
    using requeue_length [of keep "pq_items q" pending] that by simp
  then show ?thesis by (auto simp: queue_enforce_single_active_def Let_def split: option.splits prod.splits)
qed

lemma queue_lengths [simp]:
  "length (pq_items (queue_complete_active q)) = length (pq_items q)"
  "length (pq_items (snd (queue_coalesce q))) = length (pq_items q)"
  "length (pq_items (snd (queue_cancel_and_drain q))) = length (pq_items q)"
  "length (pq_items (snd (queue_enqueue t facts q))) = Suc (length (pq_items q))"
proof -
  show "length (pq_items (queue_complete_active q)) = length (pq_items q)"
    by (simp add: queue_complete_active_def split: option.splits)
  then show "length (pq_items (snd (queue_cancel_and_drain q))) = length (pq_items q)"
    using cancel_ids_length [of "pq_pending (queue_complete_active q)" "pq_items (queue_complete_active q)"]
    by (auto simp: queue_cancel_and_drain_def Let_def split: prod.splits)
  show "length (pq_items (snd (queue_coalesce q))) = length (pq_items q)"
    using deliver_ids_length [of PromptInProgress "pq_pending q" no_prompt_facts "pq_items q"]
    by (auto simp: queue_coalesce_def split: prod.splits)
qed (simp add: queue_enqueue_def Let_def)

section \<open>The invariants restored\<close>

lemma ensure_queue [simp]: "ap_queue (ensure_invariants s) = queue_enforce_single_active (ap_queue s)"
  by (simp add: ensure_invariants_def Let_def on_queue_def on_mcp_def on_status_def on_picker_def on_abort_def
      disarm_abort_def)

text \<open>A state the last part of every transition accepts.\<close>

definition settled :: "app \<Rightarrow> bool" where
  "settled s \<longleftrightarrow>
     (ap_phase s = UiIdle \<longrightarrow> \<not> ap_input_locked s) \<and>
     (ap_phase s = UiAbortPending \<longrightarrow> ap_active_cycle s \<and> cycle_of (ap_queue s)) \<and>
     (ab_pending (ap_abort s) \<longleftrightarrow> ab_armed_at (ap_abort s) \<noteq> None)"

lemma ensure_ok:
  assumes "queue_ok (ap_queue s)" and "settled s"
  shows "phase_ok (ensure_invariants s)" "ap_queue (ensure_invariants s) = ap_queue s"
proof -
  show "ap_queue (ensure_invariants s) = ap_queue s" using enforce_id [OF assms(1)] by simp
  show "phase_ok (ensure_invariants s)"
    using assms enforce_id [OF assms(1)]
    by (cases "ap_phase s")
      (auto simp: ensure_invariants_def Let_def on_queue_def on_mcp_def on_status_def on_picker_def on_abort_def
        disarm_abort_def disarm_def phase_ok_def settled_def)
qed

lemma ensure_session:
  assumes "session_ok old s"
    and "length (prompts_of s) \<le> length (prompts_of t)"
    and "queue_ok (ap_queue s) \<Longrightarrow> phase_ok s \<Longrightarrow> later_items old (prompts_of s) \<Longrightarrow>
         length (prompts_of t) < word_max \<Longrightarrow>
         queue_ok (ap_queue t) \<and> settled t \<and> later_items old (prompts_of t)"
  shows "session_ok old (ensure_invariants t)"
proof (rule session_okI [OF assms(1)])
  show "length (prompts_of s) \<le> length (prompts_of (ensure_invariants t))"
    using assms(2) by (simp add: prompts_of_def)
  assume "queue_ok (ap_queue s)" "phase_ok s" "later_items old (prompts_of s)"
    and "length (prompts_of (ensure_invariants t)) < word_max"
  with assms(3) have t: "queue_ok (ap_queue t)" "settled t" "later_items old (prompts_of t)"
    by (simp_all add: prompts_of_def)
  show "queue_ok (ap_queue (ensure_invariants t)) \<and> phase_ok (ensure_invariants t) \<and>
      later_items old (prompts_of (ensure_invariants t))"
    using ensure_ok [OF t(1,2)] t(1,3) by (simp only: prompts_of_def)
qed

section \<open>The law\<close>

lemma session_view:
  assumes "session_ok old s" and "ap_queue t = ap_queue s" and "ap_phase t = ap_phase s"
    and "ap_active_cycle t = ap_active_cycle s" and "ap_input_locked t = ap_input_locked s"
    and "ab_pending (ap_abort t) = ab_pending (ap_abort s)" and "ab_armed_at (ap_abort t) = ab_armed_at (ap_abort s)"
  shows "session_ok old t"
  by (rule session_okI [OF assms(1)]) (use assms(2-) in \<open>simp_all add: phase_ok_def prompts_of_def, blast\<close>)

lemma push_and_shift_fields [simp]:
  "ap_queue (push_and_shift env e s) = ap_queue s" "ap_phase (push_and_shift env e s) = ap_phase s"
  "ap_active_cycle (push_and_shift env e s) = ap_active_cycle s" "ap_input_locked (push_and_shift env e s) = ap_input_locked s"
  "ap_abort (push_and_shift env e s) = ap_abort s"
  by (simp_all add: push_and_shift_def shift_bookkeeping_def split: prod.splits)

lemma later_complete:
  assumes "queue_ok q" and "later_items old (pq_items q)"
  shows "later_items old (pq_items (queue_complete_active q))"
  unfolding complete_items [OF assms(1)]
  by (rule later_items_mark [OF assms(2)]) (simp add: is_running_def may_become_def)

lemma later_cancel:
  assumes "queue_ok q" and "later_items old (pq_items q)"
  shows "later_items old (pq_items (snd (queue_cancel_and_drain q)))"
  unfolding cancel_and_drain_eq [OF assms(1)]
  by (simp, intro later_items_mark assms(2)) (simp_all add: is_running_def is_waiting_def may_become_def)

lemma later_coalesce:
  assumes q: "queue_ok q" and "later_items old (pq_items q)"
  shows "later_items old (pq_items (snd (queue_coalesce q)))"
proof (cases "pq_active q = None \<and> pq_pending q \<noteq> []")
  case True
  then obtain facts where c: "queue_coalesce q = ((waiting_texts q, facts),
       q\<lparr>pq_active := Some (hd (pq_pending q)), pq_pending := [], pq_items := delivered (hd (pq_pending q)) (pq_items q)\<rparr>)"
    using coalesce_waiting [OF q] by metis
  obtain p ps where w: "filter is_waiting (pq_items q) = p # ps"
    using True pending_waits [OF q] by (cases "filter is_waiting (pq_items q)") auto
  then have p: "p \<in> set (pq_items q)" "is_waiting p" and hd: "hd (pq_pending q) = qp_id p"
    using q by (metis filter_eq_ConsD in_set_conv_decomp, metis filter_eq_ConsD, simp add: queue_ok_def)
  have "may_become (qp_status x) PromptInProgress" if "x \<in> set (pq_items q)" "qp_id x = qp_id p" for x
    using same_prompt [OF q that(1) p(1) that(2)] p(2) by (simp add: is_waiting_def may_become_def)
  then show ?thesis
    unfolding c delivered_def hd
    by (simp, intro later_items_mark assms(2)) (simp_all add: is_waiting_def may_become_def)
next
  case False
  then show ?thesis using assms(2) by (subst coalesce_none) auto
qed

lemma cycle_coalesce:
  "fst (fst (queue_coalesce q)) = [] \<Longrightarrow> queue_ok q \<Longrightarrow> cycle_of (snd (queue_coalesce q)) = cycle_of q"
proof -
  assume e: "fst (fst (queue_coalesce q)) = []" and q: "queue_ok q"
  have "\<not> (pq_active q = None \<and> pq_pending q \<noteq> [])"
  proof
    assume t: "pq_active q = None \<and> pq_pending q \<noteq> []"
    then obtain facts where "fst (fst (queue_coalesce q)) = waiting_texts q"
      using coalesce_waiting [OF q] by (metis fst_conv)
    with e t pending_waits [OF q] show False by (simp add: waiting_texts_def)
  qed
  then show ?thesis by (subst coalesce_none) auto
qed

lemma session_taken:
  assumes "session_ok old s"
  shows "session_ok old (snd (take_next_prompt env s))"
proof (cases "ap_immediate s")
  case (Cons x rest)
  obtain t f where "x = (t, f)" by (cases x)
  then have "snd (take_next_prompt env s) = ensure_invariants (s\<lparr>ap_immediate := rest\<rparr>)"
    using Cons by (simp add: take_next_prompt_def)
  then show ?thesis
    by (simp, intro ensure_session [OF assms]) (auto simp: prompts_of_def settled_def phase_ok_def)
next
  case Nil
  obtain texts facts q where c: "queue_coalesce (ap_queue s) = ((texts, facts), q)"
    by (metis prod.exhaust)
  show ?thesis
  proof (cases "texts = []")
    case True
    have "snd (take_next_prompt env s) = ensure_invariants (s\<lparr>ap_queue := q\<rparr>)"
      using Nil True by (simp add: take_next_prompt_def c Let_def)
    moreover have "session_ok old (ensure_invariants (s\<lparr>ap_queue := q\<rparr>))"
    proof (rule ensure_session [OF assms])
      show "length (prompts_of s) \<le> length (prompts_of (s\<lparr>ap_queue := q\<rparr>))"
        using queue_lengths(2) [of "ap_queue s"] by (simp add: prompts_of_def c)
      assume k: "queue_ok (ap_queue s)" "phase_ok s" "later_items old (prompts_of s)"
      show "queue_ok (ap_queue (s\<lparr>ap_queue := q\<rparr>)) \<and> settled (s\<lparr>ap_queue := q\<rparr>) \<and>
          later_items old (prompts_of (s\<lparr>ap_queue := q\<rparr>))"
        using queue_coalesce_ok [OF k(1)] later_coalesce [OF k(1)] k cycle_coalesce [of "ap_queue s"]
        by (auto simp: c True prompts_of_def settled_def phase_ok_def)
    qed
    ultimately show ?thesis by simp
  next
    case False
    let ?t = "push_and_shift env (user_row (join newline texts) facts) (s\<lparr>ap_queue := q\<rparr>)"
    have "snd (take_next_prompt env s)
        = ensure_invariants (reset_abort (?t\<lparr>ap_phase := UiBusy, ap_active_cycle := True\<rparr>))"
      using Nil False by (simp add: take_next_prompt_def c Let_def start_cycle_def)
    moreover have "session_ok old (ensure_invariants (reset_abort (?t\<lparr>ap_phase := UiBusy, ap_active_cycle := True\<rparr>)))"
    proof (rule ensure_session [OF assms])
      show "length (prompts_of s) \<le> length (prompts_of (reset_abort (?t\<lparr>ap_phase := UiBusy, ap_active_cycle := True\<rparr>)))"
        using queue_lengths(2) [of "ap_queue s"] by (simp add: prompts_of_def c reset_abort_def on_abort_def disarm_abort_def)
      assume k: "queue_ok (ap_queue s)" "phase_ok s" "later_items old (prompts_of s)"
      then show "queue_ok (ap_queue (reset_abort (?t\<lparr>ap_phase := UiBusy, ap_active_cycle := True\<rparr>))) \<and>
          settled (reset_abort (?t\<lparr>ap_phase := UiBusy, ap_active_cycle := True\<rparr>)) \<and>
          later_items old (prompts_of (reset_abort (?t\<lparr>ap_phase := UiBusy, ap_active_cycle := True\<rparr>)))"
        using queue_coalesce_ok [OF k(1)] later_coalesce [OF k(1)]
        by (auto simp: c prompts_of_def settled_def phase_ok_def reset_abort_def on_abort_def disarm_abort_def disarm_def)
    qed
    ultimately show ?thesis by simp
  qed
qed

lemma session_law: "state_law env ck (session_ok old)"
proof
  fix s t assume "session_ok old s" "same_core s t"
  then show "session_ok old t" by (auto simp: same_core_def intro: session_view)
next
  fix s n assume "session_ok old s"
  then show "session_ok old (snd (take_next_prompt env s))" by (rule session_taken)
next
  fix s assume s: "session_ok old s"
  show "session_ok old (complete_active_prompt s)"
    unfolding complete_active_prompt_def Let_def
    by (rule ensure_session [OF s])
      (auto simp: prompts_of_def settled_def on_queue_def on_abort_def disarm_abort_def disarm_def queue_complete_ok later_complete)
next
  fix s assume s: "session_ok old s"
  show "session_ok old (cancel_and_restore s)"
  proof -
    obtain texts q where c: "queue_cancel_and_drain (ap_queue s) = (texts, q)"
      by (cases "queue_cancel_and_drain (ap_queue s)")
    note facts = queue_cancel_ok [of "ap_queue s", unfolded c snd_conv]
      later_cancel [of "ap_queue s" old, unfolded c snd_conv] queue_lengths(3) [of "ap_queue s", unfolded c snd_conv]
    show ?thesis
      unfolding cancel_and_restore_def Let_def c prod.case
      by (rule ensure_session [OF s])
        (auto simp: facts prompts_of_def settled_def on_input_def reset_abort_def on_abort_def disarm_abort_def disarm_def)
  qed
next
  fix s t facts assume s: "session_ok old s"
  have "queue_ok (snd (queue_enqueue t facts (ap_queue s)))"
    if "queue_ok (ap_queue s)" "Suc (length (prompts_of s)) < word_max"
    using that by (simp add: queue_enqueue_ok prompts_of_def)
  moreover have "later_items old (pq_items (snd (queue_enqueue t facts (ap_queue s))))"
    if "later_items old (prompts_of s)"
    using later_items_snoc [OF that] by (simp add: prompts_of_def queue_enqueue_def Let_def)
  ultimately show "session_ok old (enqueue_prompt_with_facts t facts s)"
    unfolding enqueue_prompt_with_facts_def accept_submit_def
    by (intro ensure_session [OF s])
      (auto simp: prompts_of_def on_queue_def settled_def reset_abort_def on_abort_def disarm_abort_def disarm_def)
next
  fix s t facts assume s: "session_ok old s"
  show "session_ok old (enqueue_immediate t facts s)"
    unfolding enqueue_immediate_def
    by (rule ensure_session [OF s])
      (auto simp: prompts_of_def settled_def phase_ok_def reset_abort_def on_abort_def disarm_abort_def disarm_def)
next
  fix s assume s: "session_ok old s"
  show "session_ok old (ensure_invariants s)"
    by (rule ensure_session [OF s]) (auto simp: settled_def phase_ok_def)
next
  fix s assume s: "session_ok old s"
  show "session_ok old (ensure_invariants (disarm_abort s))"
    by (rule ensure_session [OF s])
      (auto simp: prompts_of_def settled_def phase_ok_def disarm_abort_def on_abort_def disarm_def)
next
  fix s assume s: "session_ok old s"
  show "session_ok old (ensure_invariants (llm_started s))"
    by (rule ensure_session [OF s])
      (auto simp: prompts_of_def settled_def phase_ok_def llm_started_def on_assistant_start_def on_store_def
        clear_message_def on_message_def on_status_def Let_def)
next
  fix s assume s: "session_ok old s"
  show "session_ok old (snd (request_abort_confirmation (ck_now ck) s))"
  proof (cases "cycle_of (ap_queue s) \<or> ap_active_cycle s")
    case False
    then show ?thesis
      by (simp add: request_abort_confirmation_def, intro ensure_session [OF s]) (auto simp: settled_def phase_ok_def)
  next
    case True
    then show ?thesis
      by (simp add: request_abort_confirmation_def, intro ensure_session [OF s])
        (auto simp: prompts_of_def settled_def phase_ok_def on_abort_def)
  qed
next
  fix s assume s: "session_ok old s"
  show "session_ok old (snd (sweep_expired_abort (ck_now ck) s))"
    by (rule session_okI [OF s])
      (auto simp: sweep_expired_abort_def prompts_of_def phase_ok_def disarm_abort_def on_abort_def disarm_def
        split: option.splits if_splits)
next
  fix s assume s: "session_ok old s"
  show "session_ok old (turn_finalize s)"
    by (rule session_okI [OF s])
      (auto simp: turn_finalize_def prompts_of_def phase_ok_def on_assistant_start_def on_store_def
        clear_message_def on_message_def on_status_def Let_def)
qed (auto intro: session_view simp: push_in_event_def on_store_def on_tools_def on_preview_def on_card_def
    shift_bookkeeping_def on_abort_def split: prod.splits)

end
