(* ===== verification/Tui_Prompts.thy ===== *)
theory Tui_Prompts
  imports Tui_Session Tui_Frame
begin

text \<open>
  The promises the terminal interface makes about prompts and about cancelling: a submitted prompt is handed to
  the orchestrator once, in its turn, or is cancelled; a drain hands over exactly what is due; and no key
  cancels a turn without its confirmation.
\<close>

interpretation kept_session: loop_law d ck "session_ok old" for d ck old
  by (rule loop_law.intro) (rule session_law)

lemma new_session: "session_ok [] (co_app (new_tui d columns))"
  by (simp add: session_ok_def new_tui_def new_app_def new_queue_def prompts_of_def queue_ok_def phase_ok_def
      cycle_of_def later_items_def)

lemma run_session:
  assumes "loop_run d es (new_tui d columns) = Some (msgs, c)"
  shows "session_ok [] (co_app c)"
  using run_keeps [OF kept_session.loop_law_axioms new_session assms] .

lemma session_from_here:
  "session_ok old s \<Longrightarrow> session_ok (prompts_of s) s"
  by (auto simp: session_ok_def later_items_refl)

section \<open>Prompts\<close>

text \<open>
  C38. A prompt submitted to the terminal interface keeps its number, its text and the facts of its submission
  for good, and its status only moves forward: it waits, then runs and ends, or ends with the block it was
  joined to, or is cancelled; it never waits or runs a second time.  At any time the prompts carry the numbers
  1, 2, 3 in the order of submission, the queue of the waiting holds exactly the waiting ones in that order, at
  most one runs, the one the queue names as active, and the phase agrees with it: idle means nothing waits or
  runs and the input is not locked, and an armed abort means a turn is there to abort.  This holds after every
  run of the loop over terminal, bus and orchestrator events, as long as fewer than 2 to the 64 were submitted.
\<close>

theorem prompts_live_once:
  assumes "loop_run d es (new_tui d columns) = Some (msgs, c)"
    and "loop_run d es' c = Some (msgs', c')"
    and "length (prompts_of (co_app c')) < word_max"
  shows "queue_ok (ap_queue (co_app c')) \<and> phase_ok (co_app c')
    \<and> later_items (prompts_of (co_app c)) (prompts_of (co_app c'))"
proof -
  have "session_ok (prompts_of (co_app c)) (co_app c)"
    by (rule session_from_here [OF run_session [OF assms(1)]])
  then have "session_ok (prompts_of (co_app c)) (co_app c')"
    using run_keeps [OF kept_session.loop_law_axioms _ assms(2)] by blast
  then show ?thesis using assms(3) by (simp add: session_ok_def)
qed

section \<open>The drain\<close>

text \<open>The requests queued for the orchestrator, and the events they are sent as; a theme is switched here.\<close>

definition outbox :: "app \<Rightarrow> switch_request list \<times> (str \<times> bool) list \<times> bool \<times> bool" where
  "outbox s = (ap_switches s, mp_toggles (st_mcp (ap_status s)), ap_session_refresh s, ap_agent_refresh s)"

definition requests_of :: "switch_request list \<times> (str \<times> bool) list \<times> bool \<times> bool \<Rightarrow> ui_request list" where
  "requests_of q =
     (case q of (switches, toggles, sessions, agents) \<Rightarrow>
        concat (map (\<lambda>r. case r of ToModel m \<Rightarrow> [SwitchModel m] | ToAgent n \<Rightarrow> [SwitchAgent n]
                            | ToSession i \<Rightarrow> [SwitchSession i] | ToTheme n \<Rightarrow> []) switches) @
        map (\<lambda>(n, b). ToggleMcp n b) toggles @
        (if sessions then [RefreshSessionPicker] else []) @ (if agents then [RefreshAgentPicker] else []))"

lemma outbox_simps [simp]:
  "outbox (ensure_invariants s) = outbox s" "outbox (s\<lparr>ap_immediate := i\<rparr>) = outbox s"
  "outbox (s\<lparr>ap_queue := q\<rparr>) = outbox s" "outbox (start_cycle s) = outbox s"
  "outbox (push_and_shift env e s) = outbox s"
proof -
  show e: "outbox (ensure_invariants s) = outbox s" for s
    by (simp add: outbox_def ensure_invariants_def Let_def disarm_abort_def on_abort_def on_queue_def on_mcp_def
        on_status_def on_picker_def panel_move_def)
  show "outbox (start_cycle s) = outbox s"
    unfolding start_cycle_def e by (simp add: outbox_def reset_abort_def disarm_abort_def on_abort_def)
  show "outbox (push_and_shift env e s) = outbox s"
    by (simp add: outbox_def push_and_shift_def shift_bookkeeping_def split: prod.split)
qed (simp_all add: outbox_def)

text \<open>The block a take hands over, if one is due.\<close>

definition due_block :: "prompt_queue \<Rightarrow> str list" where
  "due_block q = (if pq_active q = None \<and> waiting_texts q \<noteq> [] then [join newline (waiting_texts q)] else [])"

definition items_after_take :: "prompt_queue \<Rightarrow> queued_prompt list" where
  "items_after_take q =
     (if pq_active q = None \<and> waiting_texts q \<noteq> [] then delivered (hd (pq_pending q)) (pq_items q) else pq_items q)"

lemma waiting_texts_empty: "queue_ok q \<Longrightarrow> waiting_texts q = [] \<longleftrightarrow> pq_pending q = []"
  by (simp add: waiting_texts_def pending_waits)

lemma start_cycle_parts:
  "ap_queue (start_cycle s) = queue_enforce_single_active (ap_queue s)" "ap_immediate (start_cycle s) = ap_immediate s"
  "ap_card (start_cycle s) = ap_card s"
  by (simp_all add: start_cycle_def reset_abort_def disarm_abort_def on_abort_def)

lemma take_block:
  assumes q: "queue_ok (ap_queue s)" and i: "ap_immediate s = []"
  shows "\<exists>s'. take_prompts env (Suc (Suc n)) s = (map OePrompt (due_block (ap_queue s)), s')
    \<and> ap_immediate s' = [] \<and> pq_items (ap_queue s') = items_after_take (ap_queue s) \<and> ap_card s' = ap_card s
    \<and> due_block (ap_queue s') = [] \<and> outbox s' = outbox s"
proof (cases "pq_active (ap_queue s) = None \<and> pq_pending (ap_queue s) \<noteq> []")
  case False
  then have c: "queue_coalesce (ap_queue s) = (([], no_prompt_facts), ap_queue s)" by (intro coalesce_none) auto
  have "due_block (ap_queue s) = []" "items_after_take (ap_queue s) = pq_items (ap_queue s)"
    using False waiting_texts_empty [OF q] by (auto simp: due_block_def items_after_take_def)
  then show ?thesis by (simp add: take_next_prompt_def i c Let_def enforce_id [OF q])
next
  case True
  let ?q = "ap_queue s"
  let ?q' = "?q\<lparr>pq_active := Some (hd (pq_pending ?q)), pq_pending := [], pq_items := delivered (hd (pq_pending ?q)) (pq_items ?q)\<rparr>"
  obtain facts where c: "queue_coalesce ?q = ((waiting_texts ?q, facts), ?q')"
    using coalesce_waiting [OF q] True by blast
  have ne: "waiting_texts ?q \<noteq> []" using True waiting_texts_empty [OF q] by simp
  have ok: "queue_ok ?q'" using queue_coalesce_ok [OF q] by (simp add: c)
  let ?s = "start_cycle (push_and_shift env (user_row (join newline (waiting_texts ?q)) facts) (s\<lparr>ap_queue := ?q'\<rparr>))"
  have one: "take_next_prompt env s = (Some (join newline (waiting_texts ?q)), ?s)"
    by (simp add: take_next_prompt_def i c Let_def ne)
  have qs: "ap_queue ?s = ?q'" by (simp add: start_cycle_parts enforce_id [OF ok])
  have imm: "ap_immediate ?s = []"
    by (simp add: start_cycle_parts push_and_shift_def shift_bookkeeping_def i split: prod.splits)
  have card: "ap_card ?s = ap_card s"
    by (simp add: start_cycle_parts push_and_shift_def shift_bookkeeping_def split: prod.splits)
  have c2: "queue_coalesce ?q' = (([], no_prompt_facts), ?q')" by (rule coalesce_none) simp
  have two: "take_next_prompt env ?s = (None, ensure_invariants (?s\<lparr>ap_queue := ?q'\<rparr>))"
    unfolding take_next_prompt_def imm qs list.case c2 by simp
  have "due_block ?q = [join newline (waiting_texts ?q)]" "items_after_take ?q = pq_items ?q'"
    using True ne by (auto simp: due_block_def items_after_take_def)
  moreover have "due_block ?q' = []" by (simp add: due_block_def)
  ultimately show ?thesis
    by (simp add: one two imm card enforce_id [OF ok])
qed

lemma take_all:
  assumes "queue_ok (ap_queue s)"
  shows "\<exists>s'. take_prompts env (length (ap_immediate s) + 2) s
      = (map OePrompt (map fst (ap_immediate s) @ due_block (ap_queue s)), s')
    \<and> ap_immediate s' = [] \<and> pq_items (ap_queue s') = items_after_take (ap_queue s) \<and> ap_card s' = ap_card s
    \<and> due_block (ap_queue s') = [] \<and> outbox s' = outbox s"
  using assms
proof (induction "ap_immediate s" arbitrary: s)
  case Nil
  then show ?case using take_block [of s env 0] by simp
next
  case (Cons x rest)
  obtain t f where x: "x = (t, f)" by (cases x)
  let ?s = "ensure_invariants (s\<lparr>ap_immediate := rest\<rparr>)"
  have q: "ap_queue ?s = ap_queue s" using enforce_id [OF Cons.prems] by simp
  have "rest = ap_immediate ?s" by simp
  from Cons.hyps(1) [OF this] Cons.prems q obtain s' where
    "take_prompts env (length rest + 2) ?s = (map OePrompt (map fst rest @ due_block (ap_queue s)), s')"
    and "ap_immediate s' = []" "pq_items (ap_queue s') = items_after_take (ap_queue s)" "ap_card s' = ap_card s"
      "due_block (ap_queue s') = []" "outbox s' = outbox s"
    by auto
  then show ?case
    unfolding Cons.hyps(2) [symmetric] by (simp add: take_next_prompt_def Cons.hyps(2) [symmetric] x)
qed

lemma take_switch_parts:
  assumes "fold take_switch rs (es, s) = (es', s')"
  shows "es' = es @ map OeUiRequest (requests_of (rs, [], False, False)) \<and> ap_queue s' = ap_queue s
    \<and> ap_immediate s' = ap_immediate s \<and> ap_card s' = ap_card s \<and> outbox s' = outbox s"
  using assms
proof (induction rs arbitrary: es s)
  case Nil
  then show ?case by (simp add: requests_of_def)
next
  case (Cons r rs)
  obtain es1 s1 where 1: "take_switch r (es, s) = (es1, s1)" by (cases "take_switch r (es, s)")
  have "es1 = es @ map OeUiRequest (requests_of ([r], [], False, False)) \<and> ap_queue s1 = ap_queue s
      \<and> ap_immediate s1 = ap_immediate s \<and> ap_card s1 = ap_card s \<and> outbox s1 = outbox s"
    using 1 by (auto simp: take_switch_def requests_of_def outbox_def split: switch_request.splits option.splits)
  then show ?case using Cons.IH [of es1 s1] Cons.prems 1 by (simp add: requests_of_def)
qed

text \<open>All that a drain sends, and what it leaves.\<close>

lemma drain_exact:
  assumes q: "queue_ok (ap_queue s)" and t: "take_pending_events env (s, flag) = (es, s', flag')"
  shows "es = map OePrompt (map fst (ap_immediate s) @ due_block (ap_queue s))
      @ map OeDecision (cd_decisions (ap_card s)) @ map OeUiRequest (requests_of (outbox s))
      @ (if flag then [OeCancel] else [])"
    and "ap_immediate s' = []" "prompts_of s' = items_after_take (ap_queue s)" "cd_decisions (ap_card s') = []"
      "outbox s' = ([], [], False, False)" "due_block (ap_queue s') = []" "\<not> flag'"
proof -
  obtain s1 where p: "take_prompts env (length (ap_immediate s) + 2) s
      = (map OePrompt (map fst (ap_immediate s) @ due_block (ap_queue s)), s1)"
    and s1: "ap_immediate s1 = []" "pq_items (ap_queue s1) = items_after_take (ap_queue s)" "ap_card s1 = ap_card s"
      "due_block (ap_queue s1) = []" "outbox s1 = outbox s"
    using take_all [OF q, of env] by blast
  let ?s2 = "on_card (\<lambda>c. c\<lparr>cd_decisions := []\<rparr>) s1"
  obtain sw s3 where w: "fold take_switch (ap_switches ?s2) ([], ?s2\<lparr>ap_switches := []\<rparr>) = (sw, s3)"
    by (cases "fold take_switch (ap_switches ?s2) ([], ?s2\<lparr>ap_switches := []\<rparr>)")
  note sw = take_switch_parts [OF w]
  have out: "ap_switches s1 = ap_switches s" "ap_switches ?s2 = ap_switches s1" "ap_switches s3 = []"
      "mp_toggles (st_mcp (ap_status s3)) = mp_toggles (st_mcp (ap_status s))"
      "ap_session_refresh s3 = ap_session_refresh s" "ap_agent_refresh s3 = ap_agent_refresh s"
    using s1(5) sw by (auto simp: outbox_def on_card_def)
  have toggles: "map (\<lambda>(n, b). OeUiRequest (ToggleMcp n b)) l = map OeUiRequest (map (\<lambda>(n, b). ToggleMcp n b) l)" for l
    by auto
  note parts = t [unfolded take_pending_events_def prod.case p Let_def w]
  show "es = map OePrompt (map fst (ap_immediate s) @ due_block (ap_queue s))
      @ map OeDecision (cd_decisions (ap_card s)) @ map OeUiRequest (requests_of (outbox s))
      @ (if flag then [OeCancel] else [])"
    using parts s1(3) sw out toggles
    by (auto simp: requests_of_def outbox_def on_mcp_def on_status_def)
  show "ap_immediate s' = []" "prompts_of s' = items_after_take (ap_queue s)" "cd_decisions (ap_card s') = []"
    "outbox s' = ([], [], False, False)" "due_block (ap_queue s') = []" "\<not> flag'"
    using parts s1 sw out by (auto simp: on_card_def on_mcp_def on_status_def prompts_of_def outbox_def)
qed

text \<open>The state a step of the loop drains: after a key, a burst that changed something, an event of the orchestrator.\<close>

definition drains_from :: "'t desk \<Rightarrow> clock \<Rightarrow> loop_event \<Rightarrow> 't tui \<Rightarrow> 't tui \<Rightarrow> bool" where
  "drains_from d ck e c c1 \<longleftrightarrow>
     (case e of
        FromTerminal te \<Rightarrow> handle_terminal_event d ck te c = Some c1
      | FromBus ev evs \<Rightarrow> fold_batch d ck (ev # evs) c = (True, c1)
      | FromUiState ev \<Rightarrow> c1 = on_app (reduce_ui_state_event (de_ui d) ck (de_catalog d) ev) c
      | _ \<Rightarrow> False)"

lemma drained_session:
  assumes "session_ok [] (co_app c)" and "drains_from d ck e c c1"
  shows "session_ok [] (co_app c1)"
proof (cases e)
  case (FromTerminal te)
  with assms kept_session.terminal_keeps show ?thesis by (auto simp: drains_from_def)
next
  case (FromBus ev evs)
  have "session_ok [] (fst (snd (reduce_event_batch (de_ui d) ck (ev # evs) (co_app c, co_cancel c))))"
    by (rule kept_session.batch_keeps) (simp add: assms(1))
  then show ?thesis using assms(2) FromBus
    by (auto simp: drains_from_def fold_batch_def fold_event_def split: prod.splits)
next
  case (FromUiState ev)
  with assms show ?thesis
    by (auto simp: drains_from_def on_app_def intro!: kept_session.ui_state_keeps)
qed (use assms in \<open>simp_all add: drains_from_def\<close>)

text \<open>
  C39. After every event of the terminal, every burst of the bus that changed something and every event of the
  orchestrator, a step of the loop drains, and hands the orchestrator exactly this, in this order: every
  immediate submission as a prompt of its own; then, when no prompt runs and some wait, one prompt that joins
  all waiting texts with line feeds in the order of submission; every decision taken since the last drain; the
  switches, toggles and refreshes queued; and one request to cancel if one was made.  The first prompt of the
  block becomes the running one, the others end with it, and nothing is left to hand over: a drain that
  followed at once would hand over nothing.
\<close>

theorem drain_delivers:
  assumes "loop_run d evs (new_tui d columns) = Some (msgs, c)"
    and "drains_from d ck e c c1"
    and "length (prompts_of (co_app c1)) < word_max"
    and "take_pending_events (de_ui d) (co_app c1, co_cancel c1) = (es, s, flag)"
  shows "es = map OePrompt (map fst (ap_immediate (co_app c1)) @ due_block (ap_queue (co_app c1)))
      @ map OeDecision (cd_decisions (ap_card (co_app c1)))
      @ map OeUiRequest (requests_of (outbox (co_app c1)))
      @ (if co_cancel c1 then [OeCancel] else [])
    \<and> ap_immediate s = [] \<and> prompts_of s = items_after_take (ap_queue (co_app c1))
    \<and> fst (take_pending_events (de_ui d) (s, flag)) = []
    \<and> (\<exists>others c2. loop_step d ck e c = Some (map Sent es @ others, c2) \<and> (\<forall>x. Sent x \<notin> set others))"
proof -
  have ok: "session_ok [] (co_app c1)" by (rule drained_session [OF run_session [OF assms(1)] assms(2)])
  then have q: "queue_ok (ap_queue (co_app c1))" using assms(3) by (simp add: session_ok_def)
  note exact = drain_exact [OF q assms(4)]
  have "session_ok [] s"
    using kept_session.drain_keeps [where f = "(co_app c1, co_cancel c1)"] ok assms(4) by (metis fst_conv snd_conv)
  moreover have "length (prompts_of s) = length (prompts_of (co_app c1))"
    by (simp add: exact(3) items_after_take_def delivered_def) (simp add: prompts_of_def)
  ultimately have q': "queue_ok (ap_queue s)" using assms(3) by (simp add: session_ok_def)
  obtain es2 s2 flag2 where again: "take_pending_events (de_ui d) (s, flag) = (es2, s2, flag2)"
    by (rule prod_cases3)
  have "es2 = []"
    using drain_exact(1) [OF q' again] exact(2,4-7) by (simp add: requests_of_def)
  moreover have "\<exists>others c2. drain d c1 = (map Sent es @ others, c2) \<and> (\<forall>x. Sent x \<notin> set others)"
    by (auto simp: drain_def assms(4) Let_def split: prod.split)
  then have "\<exists>others c2. loop_step d ck e c = Some (map Sent es @ others, c2) \<and> (\<forall>x. Sent x \<notin> set others)"
    using assms(2) by (cases e) (auto simp: drains_from_def loop_step_def)
  ultimately show ?thesis using exact(1-3) by (simp add: again)
qed

section \<open>Cancelling\<close>

text \<open>The abort a second Escape confirms.\<close>

definition confirms :: "nat \<Rightarrow> app \<Rightarrow> bool" where
  "confirms now s \<longleftrightarrow>
     ap_phase s = UiAbortPending \<and> ab_pending (ap_abort s) \<and> ap_active_cycle s \<and> arm_live now (ap_abort s)
     \<and> ap_panel s = None"

definition same_arm :: "app \<Rightarrow> app \<Rightarrow> bool" where
  "same_arm s t \<longleftrightarrow>
     ap_phase t = ap_phase s \<and> ap_abort t = ap_abort s \<and> ap_active_cycle t = ap_active_cycle s"

lemma updates_same_arm [simp]:
  "same_arm s s" "same_arm s (on_mcp f s)" "same_arm s (on_picker f2 s)" "same_arm s (on_input f3 s)"
  "same_arm s (s\<lparr>ap_panel_scroll := n\<rparr>)" "same_arm s (queue_cycle_agent s)"
  by (simp_all add: same_arm_def on_mcp_def on_status_def on_picker_def on_input_def queue_cycle_agent_def queue_switch_def
      split: option.splits)

lemma escape_flag:
  "snd (snd (handle_escape ctl now (s, flag))) = (flag \<or> ctl \<and> confirms now s)"
  by (auto simp: handle_escape_def handle_escape_confirm_def arm_or_not_def request_cancel_def confirms_def
      request_abort_confirmation_def split: prod.splits bool.splits)

lemma panel_key_lens:
  assumes "panel_key p k s = (lens, s')"
  shows "same_arm s s' \<and> ap_panel s' = ap_panel s \<and> (lens = LensQuit \<longrightarrow> k = KCtrlC) \<and> (lens = LensEscape \<longrightarrow> k = KEsc)"
  using assms
  by (cases k)
    (auto simp: panel_key_def Let_def on_mcp_def on_status_def same_arm_def split: if_splits prod.splits)

lemma picker_quit: "handle_key k p = (PickerQuit, p') \<Longrightarrow> k = KCtrlC"
  by (auto simp: handle_key_def query_picker_def slash_picker_def Let_def
      split: option.splits active_picker.splits if_splits key.splits prod.splits)

lemma card_key_lens: "card_key k s \<noteq> LensQuit" "card_key k s \<noteq> LensEscape"
  by (auto simp: card_key_def Let_def split: key.splits)

lemma below_picker_lens:
  assumes "below_picker k s = (lens, s')"
  shows "same_arm s s' \<and> ap_panel s' = ap_panel s \<and> lens \<noteq> LensQuit \<and> lens \<noteq> LensEscape"
  using assms card_key_lens
  by (auto simp: below_picker_def queue_cycle_agent_def queue_switch_def same_arm_def split: if_splits option.splits)

lemma rewrite_lens:
  assumes "rewrite_action k s = (lens, s')"
  shows "same_arm s s' \<and> ap_panel s' = ap_panel s \<and> (lens = LensQuit \<longrightarrow> k = KCtrlC) \<and> (lens = LensEscape \<longrightarrow> k = KEsc)"
proof (cases "ap_panel s")
  case (Some p)
  then show ?thesis using assms panel_key_lens by (simp add: rewrite_action_def)
next
  case None
  show ?thesis
  proof (cases "active (ap_picker s) = None")
    case True
    then show ?thesis using assms None below_picker_lens by (auto simp: rewrite_action_def)
  next
    case False
    obtain outcome p where h: "handle_key k (ap_picker s) = (outcome, p)" by (cases "handle_key k (ap_picker s)")
    let ?s = "on_picker (\<lambda>_. p) s"
    have s: "same_arm s ?s" "ap_panel ?s = ap_panel s" by (simp_all add: on_picker_def same_arm_def)
    show ?thesis
    proof (cases outcome)
      case PickerPass
      then have "below_picker k ?s = (lens, s')" using assms None False h by (simp add: rewrite_action_def)
      from below_picker_lens [OF this] s show ?thesis by (auto simp: same_arm_def)
    next
      case PickerQuit
      then show ?thesis using assms None False h s picker_quit [of k "ap_picker s" p] by (auto simp: rewrite_action_def)
    qed (use assms None False h s in \<open>auto simp: rewrite_action_def\<close>)
  qed
qed

lemma flags [simp]:
  "snd (snd (with_flag h f)) = snd f" "snd (snd (scrolls a f)) = snd f"
  "snd (clear_pending_key f) = snd f" "snd (clear_pending_j f) = snd f"
  by (auto simp: with_flag_def scrolls_def clear_pending_key_def clear_pending_j_def split: prod.splits)

lemma cleared_confirms [simp]:
  "confirms now (fst (clear_pending_key f)) = confirms now (fst f)"
  "confirms now (fst (clear_pending_j f)) = confirms now (fst f)"
  "confirms now (enter_normal_mode s) = confirms now s"
  by (simp_all add: confirms_def clear_pending_key_def clear_pending_j_def enter_normal_mode_def on_input_def on_scroll_def)

lemma escape_flag': "snd (snd (handle_escape ctl now f)) = (snd f \<or> ctl \<and> confirms now (fst f))"
  using escape_flag [of ctl now "fst f" "snd f"] by simp

lemma common_key_flag:
  "k \<noteq> KCtrlC \<Longrightarrow> snd (snd (reduce_common_key ctl ck k f)) \<Longrightarrow> snd f \<or> k = KEsc \<and> confirms (ck_now ck) (fst f)"
  by (cases k) (auto simp: reduce_common_key_def Let_def escape_flag')

lemma keymap_flag:
  assumes "k \<noteq> KCtrlC" and "snd (snd (reduce_keymap env ctl ck k f))"
  shows "snd f \<or> k = KEsc \<and> confirms (ck_now ck) (fst f)"
proof -
  note common = common_key_flag [OF assms(1)]
  have ins: "snd (snd (reduce_insert_key ctl ck k idle f)) \<Longrightarrow> ?thesis" for idle
    using assms(1) common [of ctl ck "clear_pending_key (clear_pending_j f)"]
    by (cases k) (auto simp: reduce_insert_key_def Let_def escape_flag' split: if_splits)
  have nor: "snd (snd (reduce_normal_key ctl ck k idle f)) \<Longrightarrow> ?thesis" for idle
    using assms(1) common [of ctl ck "clear_pending_key (clear_pending_j f)"]
    by (cases k) (auto simp: reduce_normal_key_def Let_def escape_flag' split: if_splits)
  have vis: "snd (snd (reduce_visual_key env ctl ck k idle f)) \<Longrightarrow> ?thesis" for idle
    using assms(1) common [of ctl ck "clear_pending_key (clear_pending_j f)"]
    by (cases k) (auto simp: reduce_visual_key_def Let_def escape_flag' split: if_splits)
  show ?thesis
    using assms(2) ins nor vis by (auto simp: reduce_keymap_def Let_def split: input_mode.splits)
qed

lemma reduce_flag:
  assumes "k \<noteq> KCtrlC" and "snd (snd (reduce env ctl ck (KeyPressed k) (s, flag)))"
  shows "flag \<or> k = KEsc \<and> confirms (ck_now ck) s"
proof -
  obtain lens s1 where r: "rewrite_action k s = (lens, s1)" by (cases "rewrite_action k s")
  note lens = rewrite_lens [OF r]
  have conf: "confirms now s1 = confirms now s" for now using lens by (simp add: confirms_def same_arm_def)
  have "snd (snd (reduce_key env ctl ck k (s, flag)))"
    using assms(2) by (auto simp: reduce_def reduce_event_def Let_def split: prod.splits)
  then have "flag \<or> snd (snd (case lens of
      LensConsumed b \<Rightarrow> (b, s1, flag) | LensScroll a \<Rightarrow> scrolls a (s1, flag)
    | LensPickerSubmit a \<Rightarrow> with_flag (handle_picker_submit ck a) (s1, flag)
    | LensDecision d \<Rightarrow> with_flag (reduce_permission_decided d) (s1, flag)
    | LensQuit \<Rightarrow> handle_quit ctl (s1, flag) | LensEscape \<Rightarrow> handle_escape ctl (ck_now ck) (s1, flag)
    | LensPass \<Rightarrow> reduce_keymap env ctl ck k (s1, flag)))"
    unfolding reduce_key_def prod.case r by (auto split: if_splits)
  then show ?thesis
    using assms(1) lens conf keymap_flag [OF assms(1), of env ctl ck "(s1, flag)"]
    by (cases lens) (auto simp: escape_flag')
qed

lemma dispatched_flag:
  assumes "k \<noteq> KCtrlC" and "co_cancel (snd (dispatch_terminal_event d ck (TeKey k) c))"
  shows "co_cancel c \<or> k = KEsc \<and> confirms (ck_now ck) (co_app c)"
  using assms(2) reduce_flag [OF assms(1), of "de_ui d" True ck "co_app c" "co_cancel c"]
  by (auto simp: dispatch_terminal_event_def map_terminal_event_def reduce_system_event_def fold_event_def split: prod.splits)

lemma kept_flags [simp]:
  "co_cancel (mark c) = co_cancel c" "co_cancel (on_box f c) = co_cancel c" "co_cancel (on_app g c) = co_cancel c"
  "co_cancel (replace_textarea d ls c) = co_cancel c" "co_cancel (check_draft d c) = co_cancel c"
  "co_cancel (recompute_layout d c) = co_cancel c" "co_cancel (flush_clipboard d now c) = co_cancel c"
  "co_cancel (settle_event d now c) = co_cancel c" "co_cancel (disarm_quit now c) = co_cancel c"
  "co_cancel (pickup_restored d c) = co_cancel c" "co_cancel (handle_resize d te c) = co_cancel c"
  "co_cancel (snd (type_in d f c)) = co_cancel c" "co_cancel (snd (move_slash h c)) = co_cancel c"
  "co_cancel (handle_history_down d c) = co_cancel c"
  by (auto simp: mark_def on_box_def on_app_def replace_textarea_def check_draft_def recompute_layout_def
      flush_clipboard_def settle_event_def disarm_quit_def pickup_restored_def handle_resize_def type_in_def
      move_slash_def handle_history_down_def Let_def split: option.splits prod.splits terminal_event.splits)

lemma history_up_flag: "handle_history_up d c = Some c' \<Longrightarrow> co_cancel c' = co_cancel c"
  by (auto simp: handle_history_up_def Let_def split: if_splits option.splits prod.splits)

text \<open>What the keys of insert mode do to the flag: only Enter on an empty draft sets it.\<close>

definition enter_cancels :: "'t desk \<Rightarrow> 't tui \<Rightarrow> bool" where
  "enter_cancels d c \<longleftrightarrow>
     draft_of d c = [] \<and> ap_phase (co_app c) = UiBusy \<and> pq_pending (ap_queue (co_app c)) \<noteq> []"

lemma system_event_flag:
  assumes "k \<noteq> KCtrlC" and "k \<noteq> KEsc"
  shows "co_cancel (snd (reduce_system_event d ck (KeyPressed k) c)) \<Longrightarrow> co_cancel c"
  using dispatched_flag [OF assms(1), of d ck c] assms(2)
  by (simp add: dispatch_terminal_event_def map_terminal_event_def)

lemma enter_key_flag:
  "co_cancel (snd (handle_enter_key d ck c)) \<Longrightarrow> co_cancel c \<or> enter_cancels d c"
  using dispatched_flag [of KEnter d ck]
  by (auto simp: handle_enter_key_def enter_cancels_def Let_def split: if_splits prod.splits) (metis kept_flags(3,4) snd_conv key.distinct)+

lemma slash_key_flag:
  "co_cancel (snd (handle_inline_slash_key d ck k c)) \<Longrightarrow> co_cancel c"
proof -
  assume f: "co_cancel (snd (handle_inline_slash_key d ck k c))"
  show "co_cancel c"
  proof (cases k)
    case (KChar ch)
    obtain lens s where r: "rewrite_action k (co_app c) = (lens, s)" by (cases "rewrite_action k (co_app c)")
    have "co_cancel (snd (reduce_system_event d ck (KeyPressed k) (c\<lparr>co_app := s\<rparr>))) \<Longrightarrow> co_cancel c"
      using system_event_flag [of k d ck "c\<lparr>co_app := s\<rparr>"] KChar by simp
    then show ?thesis using f r KChar by (cases lens) (auto simp: handle_inline_slash_key_def Let_def split: if_splits)
  next
    case KTab
    then show ?thesis using f system_event_flag [of KTab d ck c]
      by (auto simp: handle_inline_slash_key_def split: prod.splits)
  next
    case KEnter
    then show ?thesis using f system_event_flag [of KEnter d ck c]
      by (auto simp: handle_inline_slash_key_def split: prod.splits)
  qed (use f in \<open>auto simp: handle_inline_slash_key_def split: if_splits\<close>)
qed

lemma char_key_flag: "co_cancel (snd (handle_char_key d ck ch c)) \<Longrightarrow> co_cancel c"
proof -
  assume f: "co_cancel (snd (handle_char_key d ck ch c))"
  obtain lens s where r: "rewrite_action (KChar ch) (co_app c) = (lens, s)" by (cases "rewrite_action (KChar ch) (co_app c)")
  have "co_cancel (snd (reduce_system_event d ck (KeyPressed (KChar ch)) (c\<lparr>co_app := s\<rparr>))) \<Longrightarrow> co_cancel c"
    using system_event_flag [of "KChar ch" d ck "c\<lparr>co_app := s\<rparr>"] by simp
  then show ?thesis
    using f r by (cases lens) (auto simp: handle_char_key_def Let_def split: if_splits)
qed

lemma insert_key_flag:
  assumes "handle_insert_mode_key d ck k c = Some (b, c2)" and "co_cancel c2"
  shows "co_cancel c \<or> k = KEnter \<and> enter_cancels d c"
  using assms enter_key_flag [of d ck c] char_key_flag [of d ck _ c] slash_key_flag [of d ck k c] history_up_flag [of d c]
  by (cases k) (auto simp: handle_insert_mode_key_def split: if_splits, (metis snd_conv kept_flags)+)

lemma insert_escape:
  assumes "handle_insert_mode_key d ck KEsc c = Some (False, c2)"
  shows "c2 = c"
  using assms by (auto simp: handle_insert_mode_key_def handle_inline_slash_key_def split: if_splits)

lemma guard_state:
  "confirms now (co_app (pickup_restored d c)) = confirms now (co_app c)"
  "quit_confirmation_armed now (co_app (pickup_restored d c)) = quit_confirmation_armed now (co_app c)"
  "ap_phase (co_app (pickup_restored d c)) = ap_phase (co_app c)"
  "confirms now (co_app (disarm_quit now' c)) = confirms now (co_app c)"
  "enter_cancels d (disarm_quit now' c) = enter_cancels d c"
  by (auto simp: pickup_restored_def confirms_def quit_confirmation_armed_def Let_def mark_def on_box_def on_app_def
      replace_textarea_def on_input_def disarm_quit_def disarm_quit_confirmation_def clear_message_def on_message_def
      on_status_def enter_cancels_def draft_of_def split: option.splits prod.splits)

lemma quit_guard_flag:
  "co_cancel (quit_guard d now c) \<Longrightarrow>
     co_cancel c \<or> quit_confirmation_armed now (co_app c) \<and> ap_phase (co_app c) \<noteq> UiIdle"
  by (auto simp: quit_guard_def fold_event_def handle_ctrl_c_def split: prod.splits if_splits)

lemma dispatch_settle_flag:
  "co_cancel (dispatch_and_settle d ck te c) = co_cancel (snd (dispatch_terminal_event d ck te c))"
  by (auto simp: dispatch_and_settle_def split: prod.splits)

lemma no_key_flag:
  assumes "\<And>k. te \<noteq> TeKey k"
  shows "co_cancel (snd (dispatch_terminal_event d ck te c)) = co_cancel c"
  using assms
  by (cases te) (auto simp: dispatch_terminal_event_def map_terminal_event_def reduce_system_event_def fold_event_def
      reduce_def reduce_event_def with_flag_def Let_def split: prod.splits)

lemma other_event_flag:
  assumes "handle_terminal_event d ck e c0 = Some c'" and "\<And>k. e \<noteq> TeKey k"
  shows "co_cancel c' = co_cancel c0"
proof -
  let ?c1 = "handle_resize d e (snd (handle_ctrl_c_guard d (ck_now ck) e (pickup_restored d c0)))"
  have g: "handle_ctrl_c_guard d (ck_now ck) e c = (False, snd (handle_ctrl_c_guard d (ck_now ck) e c))" for c
    using assms(2) by (cases e) (simp_all add: handle_ctrl_c_guard_def)
  have f: "co_cancel ?c1 = co_cancel c0"
    using assms(2) by (cases e) (simp_all add: handle_ctrl_c_guard_def)
  have sent: "co_cancel (dispatch_and_settle d ck e ?c1) = co_cancel c0"
    using no_key_flag [OF assms(2), of d ck ?c1] f by (simp add: dispatch_settle_flag)
  have "c' = dispatch_and_settle d ck e ?c1
      \<or> (\<exists>t. c' = mark (settle_event d (ck_now ck) (snd (type_in d (tx_insert (de_box d) t) ?c1))))"
    using assms unfolding handle_terminal_event_def
    by (subst (asm) g) (cases e; auto simp: Let_def split: if_splits)
  then show ?thesis using sent f by auto
qed

text \<open>
  C40. A terminal event asks the orchestrator to cancel only with its confirmation: it is an Escape while an
  abort is armed and its window is open and no panel takes the key, or a Ctrl-C while the quit
  confirmation is armed and a turn is under way, or an Enter on an empty draft while a turn runs and prompts
  wait.  No other key, paste, mouse or resize event sets the flag, in any mode and under any surface.
\<close>

theorem cancel_needs_confirmation:
  assumes "handle_terminal_event d ck e c0 = Some c'" and "\<not> co_cancel c0" and "co_cancel c'"
  shows "e = TeKey KEsc \<and> confirms (ck_now ck) (co_app c0)
    \<or> e = TeKey KCtrlC \<and> quit_confirmation_armed (ck_now ck) (co_app c0) \<and> ap_phase (co_app c0) \<noteq> UiIdle
    \<or> e = TeKey KEnter \<and> enter_cancels d (pickup_restored d c0)"
proof (cases "e = TeKey KCtrlC")
  case True
  then show ?thesis
    using assms quit_guard_flag [of d "ck_now ck" "pickup_restored d c0"]
    by (auto simp: handle_terminal_event_def handle_ctrl_c_guard_def guard_state)
next
  case False
  let ?c1 = "disarm_quit (ck_now ck) (pickup_restored d c0)"
  show ?thesis
  proof (cases e)
    case (TeKey k)
    then have k: "k \<noteq> KCtrlC" using False by simp
    have run: "handle_terminal_event d ck e c0 =
        (if input_takes_keys (co_app ?c1) then
           (case handle_insert_mode_key d ck k ?c1 of
              None \<Rightarrow> None
            | Some (True, c2) \<Rightarrow> Some (settle_event d (ck_now ck) (mark c2))
            | Some (False, c2) \<Rightarrow> Some (dispatch_and_settle d ck e c2))
         else Some (dispatch_and_settle d ck e ?c1))"
      using k TeKey by (simp add: handle_terminal_event_def handle_ctrl_c_guard_def handle_resize_def Let_def split: option.split bool.split)
    have sent: "co_cancel (dispatch_and_settle d ck e c) \<Longrightarrow> co_cancel c \<or> k = KEsc \<and> confirms (ck_now ck) (co_app c)" for c
      using dispatched_flag [OF k, of d ck c] TeKey by (simp add: dispatch_settle_flag)
    show ?thesis
    proof (cases "input_takes_keys (co_app ?c1)")
      case False
      then show ?thesis using assms run sent [of ?c1] TeKey by (auto simp: guard_state)
    next
      case True
      then obtain b c2 where h: "handle_insert_mode_key d ck k ?c1 = Some (b, c2)"
        using assms(1) run by (auto split: option.splits)
      have c': "c' = (if b then settle_event d (ck_now ck) (mark c2) else dispatch_and_settle d ck e c2)"
        using assms(1) run True h by (auto split: bool.splits)
      have "co_cancel c2 \<or> k = KEsc \<and> \<not> b \<and> confirms (ck_now ck) (co_app c2)"
        using assms(3) c' sent [of c2] by (auto split: if_splits)
      then show ?thesis
        using insert_key_flag [OF h] insert_escape [of d ck ?c1 c2] h assms(2) TeKey by (auto simp: guard_state)
    qed
  qed (use assms other_event_flag [OF assms(1)] in simp_all)
qed

section \<open>Concrete runs\<close>

definition demo_rest :: "(clock \<times> loop_event) list" where
  "demo_rest =
     [(at_ms 3, FromUiState (TuiExternalPrompt ''more'')), (at_ms 4, FromUiState (TuiExternalPrompt ''still'')),
      (at_ms 5, FromBus TurnCompleted [])]"

definition demo_later :: "str list tui" where
  "demo_later = snd (the (loop_run demo_desk demo_rest demo_end))"

lemma demo_rest_run: "loop_run demo_desk demo_rest demo_end = Some (fst (the (loop_run demo_desk demo_rest demo_end)), demo_later)"
proof -
  have "\<not> Option.is_none (loop_run demo_desk demo_rest demo_end)" by code_simp
  then show ?thesis by (auto simp: demo_later_def Option.is_none_def)
qed

theorem prompts_live_once_witness:
  "map qp_status (prompts_of (co_app demo_end)) = [PromptInProgress]
   \<and> map qp_status (prompts_of (co_app demo_later)) = [PromptDone, PromptInProgress, PromptDone]
   \<and> later_items (prompts_of (co_app demo_end)) (prompts_of (co_app demo_later))"
proof -
  have st: "map qp_status (prompts_of (co_app demo_end)) = [PromptInProgress]"
    "map qp_status (prompts_of (co_app demo_later)) = [PromptDone, PromptInProgress, PromptDone]"
    by code_simp+
  have "length (map qp_status (prompts_of (co_app demo_later))) = 3" by (simp add: st)
  then have "length (prompts_of (co_app demo_later)) < word_max" by (simp add: word_max_def)
  with st prompts_live_once [OF demo_loop_run demo_rest_run] show ?thesis by blast
qed

definition demo_waiting :: "(clock \<times> loop_event) list" where
  "demo_waiting = demo_turn @ take 2 demo_rest"

definition demo_wait :: "str list tui" where
  "demo_wait = snd (the (loop_run demo_desk demo_waiting (new_tui demo_desk 80)))"

definition demo_fold :: "str list tui" where
  "demo_fold = snd (fold_batch demo_desk (at_ms 5) [TurnCompleted] demo_wait)"

definition demo_drain :: "orchestrator_event list \<times> folded" where
  "demo_drain = take_pending_events (de_ui demo_desk) (co_app demo_fold, co_cancel demo_fold)"

lemma demo_waiting_run: "loop_run demo_desk demo_waiting (new_tui demo_desk 80) =
   Some (fst (the (loop_run demo_desk demo_waiting (new_tui demo_desk 80))), demo_wait)"
proof -
  have "\<not> Option.is_none (loop_run demo_desk demo_waiting (new_tui demo_desk 80))" by code_simp
  then show ?thesis by (auto simp: demo_wait_def Option.is_none_def)
qed

theorem drain_delivers_witness:
  "fst demo_drain = [OePrompt (''more'' @ newline @ ''still'')]
   \<and> prompts_of (fst (snd demo_drain)) = items_after_take (ap_queue (co_app demo_fold))
   \<and> map qp_status (prompts_of (fst (snd demo_drain))) = [PromptDone, PromptInProgress, PromptDone]"
proof -
  have changed: "fst (fold_batch demo_desk (at_ms 5) [TurnCompleted] demo_wait)" by code_simp
  then have folded: "drains_from demo_desk (at_ms 5) (FromBus TurnCompleted []) demo_wait demo_fold"
    by (simp add: drains_from_def demo_fold_def prod_eq_iff)
  have drained: "take_pending_events (de_ui demo_desk) (co_app demo_fold, co_cancel demo_fold)
      = (fst demo_drain, fst (snd demo_drain), snd (snd demo_drain))"
    by (simp add: demo_drain_def)
  have n: "length (prompts_of (co_app demo_fold)) = 3"
    and due: "map fst (ap_immediate (co_app demo_fold)) @ due_block (ap_queue (co_app demo_fold))
        = [''more'' @ newline @ ''still'']"
    and rest: "cd_decisions (ap_card (co_app demo_fold)) = []" "outbox (co_app demo_fold) = ([], [], False, False)"
      "\<not> co_cancel demo_fold"
    and st: "map qp_status (prompts_of (fst (snd demo_drain))) = [PromptDone, PromptInProgress, PromptDone]"
    by code_simp+
  have "length (prompts_of (co_app demo_fold)) < word_max" by (simp add: n word_max_def)
  from drain_delivers [OF demo_waiting_run folded this drained] due rest st show ?thesis
    by (simp add: requests_of_def)
qed

definition demo_armed :: "str list tui" where
  "demo_armed = snd (the (loop_step demo_desk (at_ms 6) (FromTerminal (TeKey KEsc)) demo_wait))"

theorem cancel_needs_confirmation_witness:
  "\<not> co_cancel demo_armed
   \<and> co_cancel (the (handle_terminal_event demo_desk (at_ms 7) (TeKey KEsc) demo_armed))
   \<and> confirms 7 (co_app demo_armed)"
proof -
  have e: "\<not> Option.is_none (handle_terminal_event demo_desk (at_ms 7) (TeKey KEsc) demo_armed)"
    "\<not> co_cancel demo_armed" "co_cancel (the (handle_terminal_event demo_desk (at_ms 7) (TeKey KEsc) demo_armed))"
    by code_simp+
  then have "handle_terminal_event demo_desk (at_ms 7) (TeKey KEsc) demo_armed
      = Some (the (handle_terminal_event demo_desk (at_ms 7) (TeKey KEsc) demo_armed))"
    by (auto simp: Option.is_none_def)
  from cancel_needs_confirmation [OF this e(2,3)] e show ?thesis by (simp add: at_ms_def)
qed

end
