(* ===== verification/Tui_Findings.thy ===== *)
theory Tui_Findings
  imports Tui_Prompts
begin

text \<open>
  Concrete runs in which the terminal interface does not do what it means to: cursors into the transcript
  that outlive the text they point at, a slash selection past its list, and a history index that outlives the
  list it was taken from.
\<close>

definition rows_of :: "str list tui \<Rightarrow> str list" where
  "rows_of c = map (\<lambda>e. case e of MessageRow m \<Rightarrow> mr_markdown m | NoticeRow t \<Rightarrow> t | TaskRow k \<Rightarrow> tk_name k
      | ToolRow t \<Rightarrow> uc_name (tr_call t) | BannerRow t \<Rightarrow> t) (ts_entries (ap_transcript (co_app c)))"

definition run_demo :: "(clock \<times> loop_event) list \<Rightarrow> str list tui" where
  "run_demo es = snd (the (loop_run demo_desk es (new_tui demo_desk 80)))"

text \<open>A failed compaction keeps its cursor: the next one removes the notice, the prompt and the reply shown since.\<close>

definition two_compactions :: "(clock \<times> loop_event) list" where
  "two_compactions =
     [(at_ms 1, FromCompaction (CompactionSummaryChunk ''s'' ''part'' ''part'')),
      (at_ms 2, FromCompaction (CompactionFailedEvent ''s'' ''no room'')),
      (at_ms 3, FromUiState (TuiExternalPrompt ''hi'')),
      (at_ms 4, FromBus InferenceStarted [InferenceChunk ''yes'' ''yes'', TurnCompleted])]"

lemma failed_compaction_cuts_transcript:
  "rows_of (run_demo two_compactions)
     = [''Compaction'', ''part'', ''Compaction failed deterministically: no room'', ''hi'', ''yes'']
   \<and> rows_of (run_demo (two_compactions @ [(at_ms 5, FromCompaction (CompactionSummaryChunk ''s'' ''next'' ''next''))]))
     = [''Compaction'', ''next'']"
  by (rule conjI; code_simp)

text \<open>A transcript cleared while a reply streams keeps the cursor: the first chunk after it stays above the whole reply.\<close>

lemma cleared_transcript_repeats_chunks:
  "rows_of (run_demo
     [(at_ms 1, FromUiState (TuiExternalPrompt ''hi'')),
      (at_ms 2, FromBus InferenceStarted [InferenceChunk ''a'' ''a'', Tick]),
      (at_ms 3, FromUiState TuiClearTranscript),
      (at_ms 4, FromBus (InferenceChunk ''b'' ''ab'') [Tick, InferenceChunk ''c'' ''abc'']),
      (at_ms 5, FromBus (InferenceChunk ''d'' ''abcd'') [])])
   = [''ab'', ''abcd'']"
  by code_simp

text \<open>
  A slash list filtered below the selected row: Enter submits nothing and still empties the draft, while the
  same text typed without moving the selection opens the panel.
\<close>

definition typed :: "nat \<Rightarrow> str list \<Rightarrow> (clock \<times> loop_event) list" where
  "typed t cs = map (\<lambda>c. (at_ms t, FromTerminal (TeKey (KChar c)))) cs"

definition pressed :: "nat \<Rightarrow> key \<Rightarrow> (clock \<times> loop_event) list" where
  "pressed t k = [(at_ms t, FromTerminal (TeKey k))]"

definition entered :: "str list tui \<Rightarrow> loop_output list \<times> str list" where
  "entered c = (let r = the (loop_step demo_desk (at_ms 1) (FromTerminal (TeKey KEnter)) c) in (fst r, co_box (snd r)))"

text \<open>A text recalled and submitted leaves the history at its old place: the next Up goes on from there.\<close>

definition said :: "nat \<Rightarrow> str \<Rightarrow> (clock \<times> loop_event) list" where
  "said t w = typed t [w] @ pressed t KEnter @ [(at_ms t, FromBus InferenceStarted [TurnCompleted])]"

lemma history_goes_on_from_old_place:
  "co_box (run_demo (said 1 ''a'' @ said 2 ''b'' @ pressed 4 KUp @ pressed 4 KEnter
     @ [(at_ms 5, FromBus InferenceStarted [TurnCompleted])] @ pressed 6 KUp)) = [''a'']"
  by code_simp

text \<open>A text pasted under the input lock is dropped, a typed one is not.\<close>

definition locked_demo :: "(clock \<times> loop_event) list" where
  "locked_demo = [(at_ms 1, FromBus InferenceStarted [])]"

lemma typed_keys_pass_the_lock:
  "ap_input_locked (co_app (run_demo locked_demo))
   \<and> co_box (run_demo (locked_demo @ [(at_ms 2, FromTerminal (TePaste ''x''))])) = []
   \<and> co_box (run_demo (locked_demo @ typed 2 [''x''])) = [''x'']"
  by (intro conjI; code_simp)

end
