(* ===== verification/Spec2Isabelle.thy ===== *)
theory Spec2Isabelle
  imports Prelude Glob Permissions Permission_Facts Overlay_Facts Defaults_Facts Grants Resolver
    Resolver_Facts Task_Store Task_Store_Facts Doom_Loop Repetition Retry Retry_Facts Recovery
    Recovery_Facts Circuit_Breaker Usage Hook_Chain Hook_Chain_Facts Compaction Fs_Text Fs_Edit
    Edit_Tool Edit_Facts Orchestrator Orchestrator_Facts
    Storage Storage_Facts Storage_Tables Hydration_Facts Tui_Frame Tui_Prompts Tui_Findings
begin

text \<open>
  Verification of the decision logic of nu-agent (crates under \<open>crates/\<close>).

  The program is an agent that runs a language model in a loop and lets it call tools.  Its own logic
  sits around that loop: which tool calls may run, when a loop that makes no progress is stopped, what
  happens to a turn that fails or is cancelled, what is stored of a session and shown of it again, how the
  terminal interface and the orchestrator hand prompts, decisions and cancels to each other, and how the tasks
  another agent submits are tracked.  The development models these parts and states what each promises.

  How the parts meet.  The terminal interface folds key presses and the events of a turn into its state and
  drains prompts, decisions and cancels to the orchestrator; the orchestrator starts turns on a worker; a
  turn is the retry loop around attempts; in an attempt the hook chain is called around every model call and
  every tool call and asks the permission resolver, which asks the user through the interface; what a turn
  did is saved by recovery or settle in the session database and shown again by hydration.

  Permissions (\<open>agnt-core/src/tools/authz.rs\<close>).  \<open>Glob\<close> holds the pattern matcher \<open>glob_match\<close> with
  its backtracking loop, \<open>Permissions\<close> the configuration, the four ways it is built (defaults, TOML,
  command line, agent front matter), overlays and \<open>evaluate\<close>, \<open>Grants\<close> the session grants and the gate
  \<open>enforce_authorization\<close>.  Hash maps and B-tree maps are association lists or partial functions;
  errors are sums.  The lemmas show that the matcher decides the declarative meaning of a pattern
  (\<open>Glob\<close>), exactly which rule decides a call and that the outcome does not depend on the order of a hash
  map, except for one tie that does (\<open>Permission_Facts\<close>), that overlays override exactly the entries they
  name and that the lenient parser refines the strict one on blocks without a timeout (\<open>Overlay_Facts\<close>), what
  the built-in defaults allow (\<open>Defaults_Facts\<close>), and that a grant never overrides a denial and covers no
  other call (\<open>Grants\<close>, through the locale \<open>grant_store\<close>).

  Permission requests (\<open>hook/permission_resolver.rs\<close>, \<open>orchestrator/stages/permission.rs\<close>,
  \<open>conversation/state/permission.rs\<close>).  \<open>Resolver\<close> models a session as a record of grants, waiting
  requests, decisions under way and outcomes, with one operation per branch of the code; the
  concurrent tasks are the step relation \<open>session_step\<close>, in which any enabled step may happen next.
  \<open>Resolver_Facts\<close> proves by rule induction over all interleavings that every granted call was allowed
  by a rule, a grant or the user's own answer to that request, that a request is decided once, and
  that an answer which arrives between the publication of a request and its registration is lost.

  Tasks (\<open>agnt-a2a/src/task_store\<close>, \<open>agnt-a2a/src/types\<close>).  \<open>Task_Store\<close> models the in-memory store
  with its tasks, update counters, subscriber channels of capacity 64, push configurations and
  idempotency keys; \<open>Task_Store_Facts\<close> states the contract of a backend as the locale \<open>task_backend\<close> and
  proves the store keeps it: tasks move only along the state machine and are final once terminal, an update
  reaches every open subscriber that has room, creation is idempotent, and following the cursors lists every
  task once.

  Loops of the model (\<open>hook/doom_loop.rs\<close>, \<open>hook/output_repetition.rs\<close>).  \<open>Doom_Loop\<close> and
  \<open>Repetition\<close> hold the two detectors; their common escalation (feedback, backoff, stop) is the locale
  \<open>ladder\<close>, interpreted on both.  Each detector is proved equal to its specification on whole histories.

  The turn (\<open>conversation/turn/executor/retry.rs\<close>, \<open>feedback.rs\<close>, \<open>executor/error_kind.rs\<close>,
  \<open>executor/response.rs\<close>).  \<open>Retry\<close> is the retry loop: one step per failed attempt and the loop over it,
  with a fuel argument of its own.  A step that panics (the delay a provider asks for is read with an index of
  the lowercased message) is None and ends the loop as \<open>Panicked\<close>.  \<open>Retry_Facts\<close> shows through the locale
  \<open>budgeted_loop\<close> that the loop ends for every sequence of outcomes, and exactly when it ends in that panic;
  the fuel needed is the sum of the four budgets, so the bound in the theorem is one more than the retries the
  configuration allows.

  Interrupted turns (\<open>executor/recover.rs\<close>, \<open>session/repair.rs\<close>, \<open>session/settle.rs\<close>,
  \<open>hook/turn_tools.rs\<close>, \<open>agnt-storage/src/services/settle.rs\<close>).  \<open>Recovery\<close> computes what is saved of a
  turn that did not complete and the facts recorded with it; \<open>Recovery_Facts\<close> shows that the saved
  messages start with the prompt, answer every call, lose no call, add of a streamed answer exactly what is
  missing, and that nothing already saved is changed.

  Tool calls (\<open>hook/chain.rs\<close>, \<open>hook/subturn_cap.rs\<close>, \<open>hook/circuit_breaker_guard.rs\<close>,
  \<open>tools/mcp/circuit_breaker.rs\<close>, \<open>hook/turn_usage.rs\<close>, \<open>llm/cost.rs\<close>).  \<open>Circuit_Breaker\<close> is the registry
  of MCP tools with the breaker per server, proved equal to a function of the history; \<open>Usage\<close> the token and
  cost sums; \<open>Hook_Chain\<close> composes them with the detectors, the cap and the resolver in the handlers of the
  chain.  \<open>Hook_Chain_Facts\<close> gives the answer and the events of a dispatch for each branch, and shows over all
  interleavings of the calls of one reply (\<open>batch_step\<close>) that the cap bounds what runs and the turn's log
  holds each recorded call once.

  Compaction (\<open>conversation/compaction/compactor.rs\<close>, \<open>run_compaction\<close> of \<open>hook/chain.rs\<close>).  \<open>Compaction\<close>
  reads the summarizer's stream with the cancel as a position in it, and characterises what is reported,
  returned and reset.

  File tools (\<open>tools/fs\<close>, \<open>tools/handler/edit.rs\<close>, \<open>read.rs\<close>).  \<open>Fs_Text\<close> has the lines, the read window
  and search and replace, \<open>Fs_Edit\<close> the file system with its plans and their application, \<open>Edit_Tool\<close> the
  handlers.  The disk carries a schedule: before each access other processes may change files, and an access
  may fail.  \<open>Edit_Facts\<close> shows that a call writes at most once, as its last access, right after an access
  that read the file at the expected version or found it absent; the written content is the edit of a content
  read earlier in the same run.

  Orchestrator (\<open>orchestrator/loop_impl.rs\<close>, \<open>handlers.rs\<close>, \<open>stages\<close>).  \<open>Orchestrator\<close> is one handler per
  message and the loop over them, with the worker as environment; \<open>Orchestrator_Facts\<close> shows that a quit
  exits once what is in flight ends, and that tasks are settled in the order of the turns.

  Session database (\<open>agnt-storage\<close>, \<open>session/settle.rs\<close>, \<open>session/resolver.rs\<close>).  \<open>Storage\<close> holds the tables
  and the units of work, in which SQLite may refuse any statement; \<open>Storage_Facts\<close> states the compare-and-set
  contract of a log as the locale \<open>cas_log\<close>, interpreted on the adapter's append; \<open>Storage_Tables\<close> the
  invariant of the tables, the statuses and the migration; \<open>Session_Facts\<close> the settle unit as a refinement of
  the facts it records and what a reload reads of them.  \<open>Hydration\<close> computes the rows of a stored transcript
  and \<open>Hydration_Facts\<close> which status, footer and summary a reload shows after a settle.

  Terminal interface (\<open>agnt-tui\<close>).  The state is \<open>Tui_Store\<close> (transcript, height index and the planner of
  \<open>agnt-render\<close>), \<open>Tui_Picker\<close> (pickers and the MCP panel), \<open>Tui_State\<close> (prompt queue, phase and abort, input,
  scrolling, status, permission card, calls) and \<open>Tui_App\<close> (the whole state and its lifecycle); \<open>Tui_Reducer\<close>
  folds events and keys into it, drains it and replays a transcript; \<open>Tui_Coordinator\<close> routes terminal events
  between the text box and the reducer; \<open>Tui_Loop\<close> is the loop and the painting of a frame.  A law of the state
  is the locale \<open>state_law\<close>: a predicate kept by each elementary transition; in \<open>Tui_Laws\<close> it is shown to be
  kept by every event, drain and state event, and its extension \<open>loop_law\<close> by every turn of the loop.
  \<open>Tui_Store_Facts\<close> and \<open>Tui_Store_Laws\<close> show that the height index is such a law, which \<open>Tui_Frame\<close> turns
  into the rows a frame shows; \<open>Tui_Queue\<close> and \<open>Tui_Session\<close> show the same of the prompt queue with its phase,
  from which \<open>Tui_Prompts\<close> derives that a prompt lives once, what a drain hands over, and that a cancel
  needs its confirmation.  \<open>Tui_Findings\<close> evaluates runs in which the interface goes wrong.

  Conventions.  Rust texts are lists of UTF-8 bytes (\<open>Prelude\<close>), so lengths and slices are those of the
  code; \<open>chars\<close> splits a text into characters.  \<open>usize\<close> and \<open>u64\<close> are natural numbers, with
  saturation written out where the code saturates; \<open>i64\<close> values are integers.  Panics are \<open>None\<close>.  Code
  outside \<open>crates/\<close> (rig's message types, store and retry signals, SQLite's refusals, the text box and the
  cells ratatui draws, serde's printers, Unicode lower-casing, hashes, regular expressions, clocks and fresh
  identifiers) is a parameter of the definitions that use it, and what is needed of it is a hypothesis of the
  theorem.  The loops that read a list of inputs are recursive on it; the drain of the interface takes as much
  fuel as submissions wait plus two, and \<open>take_all\<close> shows that it is enough.

  Not modelled: the conversation runtime and the execution of an attempt over a provider, providers and HTTP,
  the configuration files, their encryption and the price list, the message bus itself, the MCP transport and
  the other tools' own work, the drawing of widgets, themes and markdown, the plain terminal renderer, the ACP
  session, the A2A server, client and discovery, personas and preambles, the command line and the Nushell
  plugin.  Logging is left out throughout, except where a line of the log panics.
\<close>

end
